(* ===== verification/Prelude.thy ===== *)
theory Prelude
  imports Main "HOL-Library.Sublist" "HOL-Library.Word" "HOL-Library.Code_Target_Numeral"
begin

text \<open>
  Shared vocabulary of the MiniS3 development: the development's named theorem collections,
  \<open>size_t\<close> arithmetic with its wrap-around written out, overwriting a region of a byte vector,
  and the generic locale of invariants over step relations that the state machines of the
  components instantiate.
\<close>

named_theorems mini_defs \<open>unfolding rules of small wrappers of the model\<close>

named_theorems buf_simps \<open>laws of the byte buffer seen through its readable bytes\<close>

named_theorems tbl_simps \<open>laws of the SQL statements on the tables\<close>

section \<open>Unsigned 64-bit arithmetic on natural numbers\<close>

type_synonym size_t = nat

abbreviation size_bound :: nat where
  "size_bound \<equiv> 2 ^ 64"

definition size_add :: "size_t \<Rightarrow> size_t \<Rightarrow> size_t" where
  "size_add a b = (a + b) mod size_bound"

definition size_sub :: "size_t \<Rightarrow> size_t \<Rightarrow> size_t" where
  "size_sub a b = (a + (size_bound - b mod size_bound)) mod size_bound"

lemma size_add_exact [simp]: "a + b < size_bound \<Longrightarrow> size_add a b = a + b"
  by (simp add: size_add_def)

lemma size_sub_exact [simp]:
  assumes "b \<le> a" "a < size_bound"
  shows "size_sub a b = a - b"
proof -
  have "a + (size_bound - b) = (a - b) + size_bound" using assms by simp
  then have "(a + (size_bound - b)) mod size_bound = (a - b) mod size_bound"
    by (metis mod_add_self2)
  with assms show ?thesis by (simp add: size_sub_def)
qed

lemma size_sub_wraps:
  assumes "a < b" "b < size_bound"
  shows "size_sub a b = size_bound - (b - a)"
  using assms by (simp add: size_sub_def)

lemma size_add_bound [simp]: "size_add a b < size_bound"
  by (simp add: size_add_def)

lemma size_sub_bound [simp]: "size_sub a b < size_bound"
  by (simp add: size_sub_def)

section \<open>Regions of byte vectors\<close>

text \<open>\<open>overwrite xs i ys\<close> overwrites \<open>xs\<close> from index \<open>i\<close> on with \<open>ys\<close>, as \<open>std::copy\<close> and
  \<open>memcpy\<close> do inside a vector's bounds.\<close>

definition overwrite :: "'a list \<Rightarrow> nat \<Rightarrow> 'a list \<Rightarrow> 'a list" where
  "overwrite xs i ys = take i xs @ ys @ drop (i + length ys) xs"

lemma length_overwrite [simp]: "i + length ys \<le> length xs \<Longrightarrow> length (overwrite xs i ys) = length xs"
  by (simp add: overwrite_def)

lemma overwrite_after:
  assumes "i + length ys \<le> length xs" "n \<le> i"
  shows "drop n (take (i + length ys) (overwrite xs i ys)) = drop n (take i xs) @ ys"
proof -
  have "take (i + length ys) (overwrite xs i ys) = take i xs @ ys"
    using assms by (simp add: overwrite_def)
  with assms show ?thesis by (simp add: min_absorb2)
qed

lemma overwrite_at:
  assumes "i + length ys \<le> length xs"
  shows "drop i (take (i + length ys) (overwrite xs i ys)) = ys"
  using overwrite_after [OF assms, of i] by simp

lemma drop_take_length [simp]: "j \<le> length xs \<Longrightarrow> length (drop i (take j xs)) = j - i"
  by simp

section \<open>Association lists and options\<close>

lemma map_of_filter_neq [simp]:
  "map_of (filter (\<lambda>p. fst p \<noteq> k) xs) j = (if j = k then None else map_of xs j)"
  by (induction xs) auto

lemma find_None_all: "List.find P xs = None \<longleftrightarrow> (\<forall>x \<in> set xs. \<not> P x)"
  by (auto simp: find_None_iff)

lemma find_Some_mem: "List.find P xs = Some x \<Longrightarrow> x \<in> set xs \<and> P x"
  by (auto simp: find_Some_iff)

lemma length_filter_map_if:
  "length (filter P (map (\<lambda>x. if Q x then f x else x) xs)) =
   length (filter (\<lambda>x. Q x \<and> P (f x)) xs) + length (filter (\<lambda>x. \<not> Q x \<and> P x) xs)"
  by (induction xs) auto

section \<open>Invariants of step relations\<close>

text \<open>A transition system and an invariant that its initial states satisfy and its steps keep.\<close>

locale step_invariant =
  fixes init :: "'s \<Rightarrow> bool"
    and step :: "'s \<Rightarrow> 's \<Rightarrow> bool"
    and I :: "'s \<Rightarrow> bool"
  assumes init_I: "init s \<Longrightarrow> I s"
    and step_I: "step s t \<Longrightarrow> I s \<Longrightarrow> I t"
begin

lemma run_I: "step\<^sup>*\<^sup>* s t \<Longrightarrow> I s \<Longrightarrow> I t"
  by (induction rule: rtranclp_induct) (auto intro: step_I)

lemma reach_I: "init s \<Longrightarrow> step\<^sup>*\<^sup>* s t \<Longrightarrow> I t"
  using run_I init_I by blast

end

end
