(* ===== verification/Cpp_Strings.thy ===== *)
theory Cpp_Strings
  imports Prelude
begin

text \<open>
  The part of the C++ standard library the server uses on byte strings: searching, lower-casing,
  trimming, decimal formatting (\<open>std::to_string\<close>) and parsing (\<open>std::from_chars\<close>,
  \<open>std::stoull\<close>, \<open>std::stoi\<close>, \<open>std::stoll\<close>), with the exceptions the parsers throw as values.
\<close>

datatype cpp_exn = Invalid_argument | Out_of_range | Json_type_error | Regex_error

section \<open>Searching\<close>

text \<open>\<open>std::string::find(c)\<close>; \<open>None\<close> is \<open>npos\<close>.\<close>

fun find_char :: "char \<Rightarrow> string \<Rightarrow> nat option" where
  "find_char c [] = None"
| "find_char c (x # xs) = (if x = c then Some 0 else map_option Suc (find_char c xs))"

definition find_char_from :: "char \<Rightarrow> string \<Rightarrow> nat \<Rightarrow> nat option" where
  "find_char_from c s p = map_option (\<lambda>i. p + i) (find_char c (drop p s))"

text \<open>\<open>std::string::find(needle)\<close> and \<open>std::search\<close>.\<close>

fun find_str :: "string \<Rightarrow> string \<Rightarrow> nat option" where
  "find_str n [] = (if n = [] then Some 0 else None)"
| "find_str n (x # xs) = (if prefix n (x # xs) then Some 0 else map_option Suc (find_str n xs))"

lemma find_char_None [simp]: "find_char c s = None \<longleftrightarrow> c \<notin> set s"
  by (induction s) auto

lemma find_char_append [simp]: "c \<notin> set a \<Longrightarrow> find_char c (a @ c # b) = Some (length a)"
  by (induction a) auto

lemma find_char_Some_split:
  "find_char c s = Some i \<Longrightarrow> \<exists>a b. s = a @ c # b \<and> c \<notin> set a \<and> i = length a"
proof (induction s arbitrary: i)
  case Nil
  then show ?case by simp
next
  case (Cons x s)
  show ?case
  proof (cases "x = c")
    case True
    with Cons.prems have "x # s = [] @ c # s \<and> c \<notin> set [] \<and> i = length ([] :: string)" by simp
    then show ?thesis by blast
  next
    case False
    with Cons.prems obtain k where "find_char c s = Some k" "i = Suc k" by auto
    with Cons.IH obtain a b where "s = a @ c # b" "c \<notin> set a" "i = Suc (length a)" by blast
    with False have "x # s = (x # a) @ c # b \<and> c \<notin> set (x # a) \<and> i = length (x # a)" by simp
    then show ?thesis by blast
  qed
qed

lemma find_char_split:
  "find_char c s = Some i \<longleftrightarrow> (\<exists>a b. s = a @ c # b \<and> c \<notin> set a \<and> i = length a)"
  using find_char_Some_split by auto

lemma find_char_less: "find_char c s = Some i \<Longrightarrow> i < length s"
  by (auto simp: find_char_split)

lemma find_str_split:
  assumes "find_str n s = Some i"
  shows "i + length n \<le> length s" "prefix n (drop i s)"
proof -
  have "i + length n \<le> length s \<and> prefix n (drop i s)" using assms
  proof (induction s arbitrary: i)
    case Nil
    then show ?case by (simp split: if_splits)
  next
    case (Cons x s)
    then show ?case by (auto split: if_splits dest: prefix_length_le)
  qed
  then show "i + length n \<le> length s" "prefix n (drop i s)" by auto
qed

lemma find_str_first:
  assumes "find_str n s = Some i" "j < i"
  shows "\<not> prefix n (drop j s)"
  using assms
proof (induction s arbitrary: i j)
  case Nil
  then show ?case by (simp split: if_splits)
next
  case (Cons x s)
  then show ?case by (cases j) (auto split: if_splits)
qed

lemma find_str_None_iff:
  "n \<noteq> [] \<Longrightarrow> find_str n s = None \<longleftrightarrow> (\<forall>j. \<not> prefix n (drop j s))"
proof (induction s)
  case Nil
  then show ?case by simp
next
  case (Cons x s)
  have "(\<forall>j. \<not> prefix n (drop j (x # s))) \<longleftrightarrow>
        \<not> prefix n (x # s) \<and> (\<forall>j. \<not> prefix n (drop j s))"
    by (metis drop0 drop_Suc_Cons not0_implies_Suc)
  with Cons show ?case by simp
qed

lemma find_str_Some_iff:
  assumes "n \<noteq> []"
  shows "find_str n s = Some i \<longleftrightarrow> prefix n (drop i s) \<and> (\<forall>j<i. \<not> prefix n (drop j s))"
    (is "?l = ?r")
proof
  assume ?l
  then show ?r using find_str_split(2) find_str_first by blast
next
  assume r: ?r
  then obtain k where k: "find_str n s = Some k"
    using find_str_None_iff [OF assms] by (cases "find_str n s") auto
  with r find_str_split(2) find_str_first have "\<not> k < i" "\<not> i < k" by blast+
  with k show ?l by simp
qed

lemma find_str_append:
  assumes "find_str n s = Some i"
  shows "find_str n (s @ t) = Some i"
  using assms
proof (induction s arbitrary: i)
  case Nil
  then show ?case by (cases t) (auto split: if_splits)
next
  case (Cons x s)
  show ?case
  proof (cases "prefix n (x # s)")
    case True
    then have "prefix n ((x # s) @ t)" by (simp add: prefix_prefix del: append_Cons)
    with True Cons.prems show ?thesis by simp
  next
    case False
    with Cons.prems obtain j where j: "find_str n s = Some j" "i = Suc j" by auto
    have "\<not> prefix n ((x # s) @ t)"
    proof
      assume p: "prefix n ((x # s) @ t)"
      have "length n \<le> length s" using find_str_split(1) [OF j(1)] by simp
      with p have "prefix n (x # s)"
        using prefix_length_prefix [of n "(x # s) @ t" "x # s"] by simp
      with False show False ..
    qed
    with Cons.IH [OF j(1)] j show ?thesis by simp
  qed
qed

section \<open>Characters\<close>

abbreviation CR :: char where "CR \<equiv> CHR 0x0D"
abbreviation LF :: char where "LF \<equiv> CHR 0x0A"
abbreviation TAB :: char where "TAB \<equiv> CHR 0x09"
abbreviation DQ :: char where "DQ \<equiv> CHR 0x22"

abbreviation CRLF :: string where "CRLF \<equiv> [CR, LF]"

text \<open>\<open>std::tolower\<close> in the C locale.\<close>

definition tolower :: "char \<Rightarrow> char" where
  "tolower c = (let n = of_char c :: nat in
     if 65 \<le> n \<and> n \<le> 90 then char_of (n + 32) else c)"

definition lower :: "string \<Rightarrow> string" where
  "lower = map tolower"

lemma of_char_less [simp]: "(of_char c :: nat) < 256"
  using of_char_mod_256 [of c] by (metis mod_less_divisor zero_less_numeral)

lemma tolower_idem [simp]: "tolower (tolower c) = tolower c"
  by (simp add: tolower_def Let_def)

lemma lower_idem [simp]: "lower (lower s) = lower s"
  by (simp add: lower_def)

lemma length_lower [simp]: "length (lower s) = length s"
  by (simp add: lower_def)

text \<open>\<open>std::isspace\<close> in the C locale.\<close>

definition isspace :: "char \<Rightarrow> bool" where
  "isspace c = (let n = of_char c :: nat in n = 32 \<or> (9 \<le> n \<and> n \<le> 13))"

definition isdigit :: "char \<Rightarrow> bool" where
  "isdigit c = (let n = of_char c :: nat in 48 \<le> n \<and> n \<le> 57)"

section \<open>Decimal numbers\<close>

definition digit_char :: "nat \<Rightarrow> char" where
  "digit_char d = char_of (48 + d)"

definition digit_val :: "char \<Rightarrow> nat" where
  "digit_val c = of_char c - 48"

text \<open>\<open>std::to_string\<close> on unsigned values.\<close>

fun nat_to_string :: "nat \<Rightarrow> string" where
  "nat_to_string n =
     (if n < 10 then [digit_char n] else nat_to_string (n div 10) @ [digit_char (n mod 10)])"

declare nat_to_string.simps [simp del]

definition int_to_string :: "int \<Rightarrow> string" where
  "int_to_string i = (if i < 0 then CHR ''-'' # nat_to_string (nat (- i)) else nat_to_string (nat i))"

definition digits_val :: "string \<Rightarrow> nat" where
  "digits_val = foldl (\<lambda>a c. 10 * a + digit_val c) 0"

lemma digit_char_digit [simp]: "d < 10 \<Longrightarrow> isdigit (digit_char d)"
  by (simp add: isdigit_def digit_char_def Let_def)

lemma digit_val_char [simp]: "d < 10 \<Longrightarrow> digit_val (digit_char d) = d"
  by (simp add: digit_val_def digit_char_def)

lemma isdigit_not_space [simp]: "isdigit c \<Longrightarrow> \<not> isspace c"
  by (auto simp: isdigit_def isspace_def Let_def)

lemma isdigit_neq [simp]:
  "isdigit c \<Longrightarrow> c \<noteq> CHR ''-''" "isdigit c \<Longrightarrow> c \<noteq> CHR ''+''"
  "isdigit c \<Longrightarrow> c \<noteq> CHR ''&''" "isdigit c \<Longrightarrow> c \<noteq> CHR ''=''"
  by (auto simp: isdigit_def Let_def)

lemma digits_val_snoc [simp]: "digits_val (s @ [c]) = 10 * digits_val s + digit_val c"
  by (simp add: digits_val_def)

lemma nat_to_string_nonempty [simp]: "nat_to_string n \<noteq> []"
  by (subst nat_to_string.simps) simp

lemma nat_to_string_digits: "c \<in> set (nat_to_string n) \<Longrightarrow> isdigit c"
proof (induction n rule: nat_to_string.induct)
  case (1 n)
  then show ?case by (subst (asm) (2) nat_to_string.simps) (auto split: if_splits)
qed

lemma digits_val_nat_to_string [simp]: "digits_val (nat_to_string n) = n"
proof (induction n rule: nat_to_string.induct)
  case (1 n)
  show ?case
  proof (cases "n < 10")
    case True
    then show ?thesis by (subst nat_to_string.simps) (simp add: digits_val_def)
  next
    case False
    with 1 show ?thesis by (subst nat_to_string.simps) simp
  qed
qed

lemma nat_to_string_inj [simp]: "nat_to_string a = nat_to_string b \<longleftrightarrow> a = b"
  by (metis digits_val_nat_to_string)

text \<open>\<open>std::from_chars\<close> for \<open>size_t\<close>: the value and the number of characters consumed, or
  \<open>None\<close> when \<open>ec\<close> is set (no digit, or the value does not fit).\<close>

definition from_chars_size :: "string \<Rightarrow> (nat \<times> nat) option" where
  "from_chars_size s =
     (let ds = takeWhile isdigit s in
      if ds = [] then None
      else if digits_val ds < size_bound then Some (digits_val ds, length ds) else None)"

text \<open>The common front end of \<open>strtoull\<close> and \<open>strtoll\<close>: skip white space, an optional sign,
  then the longest run of digits. \<open>None\<close>: no conversion. \<open>True\<close>: the sign is a minus.\<close>

definition strto :: "string \<Rightarrow> (bool \<times> nat) option" where
  "strto s =
     (let t = dropWhile isspace s;
          neg = (t \<noteq> [] \<and> hd t = CHR ''-'');
          u = (if t \<noteq> [] \<and> (hd t = CHR ''-'' \<or> hd t = CHR ''+'') then tl t else t);
          ds = takeWhile isdigit u
      in if ds = [] then None else Some (neg, digits_val ds))"

definition stoull :: "string \<Rightarrow> cpp_exn + nat" where
  "stoull s = (case strto s of
     None \<Rightarrow> Inl Invalid_argument
   | Some (neg, v) \<Rightarrow>
       if size_bound \<le> v then Inl Out_of_range
       else Inr (if neg then size_sub 0 v else v))"

definition stoll :: "string \<Rightarrow> cpp_exn + int" where
  "stoll s = (case strto s of
     None \<Rightarrow> Inl Invalid_argument
   | Some (neg, v) \<Rightarrow>
       (let i = (if neg then - int v else int v) in
        if i < - (2 ^ 63) \<or> 2 ^ 63 \<le> i then Inl Out_of_range else Inr i))"

definition stoi :: "string \<Rightarrow> cpp_exn + int" where
  "stoi s = (case strto s of
     None \<Rightarrow> Inl Invalid_argument
   | Some (neg, v) \<Rightarrow>
       (let i = (if neg then - int v else int v) in
        if i < - (2 ^ 31) \<or> 2 ^ 31 \<le> i then Inl Out_of_range else Inr i))"

text \<open>The value of an \<open>int\<close> result: 32-bit two's complement.\<close>

definition int32 :: "int \<Rightarrow> int" where
  "int32 i = (i + 2 ^ 31) mod 2 ^ 32 - 2 ^ 31"

lemma takeWhile_digits [simp]: "takeWhile isdigit (nat_to_string n) = nat_to_string n"
  by (simp add: takeWhile_eq_all_conv nat_to_string_digits)

lemma hd_nat_to_string [simp]: "isdigit (hd (nat_to_string n))"
  by (rule nat_to_string_digits [of _ n]) simp

lemma dropWhile_space_nat_to_string [simp]:
  "dropWhile isspace (nat_to_string n) = nat_to_string n"
  by (simp add: dropWhile_eq_self_iff)

lemma strto_nat_to_string [simp]: "strto (nat_to_string n) = Some (False, n)"
  using hd_nat_to_string [of n] by (auto simp: strto_def Let_def)

lemma stoull_nat_to_string [simp]: "n < size_bound \<Longrightarrow> stoull (nat_to_string n) = Inr n"
  by (simp add: stoull_def)

lemma strto_int_to_string [simp]:
  "strto (int_to_string i) = Some (i < 0, nat \<bar>i\<bar>)"
proof (cases "i < 0")
  case True
  then show ?thesis
    by (simp add: int_to_string_def strto_def Let_def isspace_def)
next
  case False
  then show ?thesis by (simp add: int_to_string_def)
qed

lemma stoll_int_to_string [simp]:
  "- (2 ^ 63) \<le> i \<Longrightarrow> i < 2 ^ 63 \<Longrightarrow> stoll (int_to_string i) = Inr i"
  by (simp add: stoll_def Let_def)

lemma from_chars_nat_to_string [simp]:
  "n < size_bound \<Longrightarrow> from_chars_size (nat_to_string n) = Some (n, length (nat_to_string n))"
  by (simp add: from_chars_size_def)

lemma int_to_string_chars: "c \<in> set (int_to_string i) \<Longrightarrow> isdigit c \<or> c = CHR ''-''"
  by (auto simp: int_to_string_def nat_to_string_digits split: if_splits)

lemma int_to_string_inj [simp]: "int_to_string a = int_to_string b \<longleftrightarrow> a = b"
proof
  assume "int_to_string a = int_to_string b"
  then have "strto (int_to_string a) = strto (int_to_string b)" by simp
  then show "a = b" by simp (metis abs_eq_iff abs_ge_zero eq_nat_nat_iff linorder_not_less neg_le_0_iff_le order_le_less)
qed simp

lemma int_to_string_nonempty [simp]: "int_to_string i \<noteq> []"
  by (simp add: int_to_string_def)

lemma int_to_string_no_char:
  assumes "\<not> isdigit c" "c \<noteq> CHR ''-''"
  shows "c \<notin> set (int_to_string i)"
  using assms int_to_string_chars by blast

end
