(* ===== verification/Status.thy ===== *)
theory Status
  imports Cpp_Strings
begin

text \<open>
  \<^verbatim>\<open>util/status.h\<close>: the error codes with their numeric values, the mapping to HTTP status codes and
  names, the \<open>Status\<close> class and \<open>Result<T>\<close> as a sum type (\<open>Inl\<close> an error status).
\<close>

datatype ErrorCode =
    OK
  | InvalidArgument | InvalidRange | InvalidPartNumber | InvalidPartOrder
  | EntityTooLarge | ChecksumMismatch | MissingContentLength
  | Unauthorized | InvalidToken
  | AccessDenied | SignatureExpired
  | NoSuchBucket | NoSuchKey | NoSuchUpload
  | BucketAlreadyExists | IdempotencyConflict | ObjectAlreadyExists
  | InternalError | DatabaseError | StorageError
  | ServiceUnavailable

fun error_value :: "ErrorCode \<Rightarrow> int" where
  "error_value OK = 0"
| "error_value InvalidArgument = 400001"
| "error_value InvalidRange = 400002"
| "error_value InvalidPartNumber = 400003"
| "error_value InvalidPartOrder = 400004"
| "error_value EntityTooLarge = 400005"
| "error_value ChecksumMismatch = 400006"
| "error_value MissingContentLength = 400007"
| "error_value Unauthorized = 401001"
| "error_value InvalidToken = 401002"
| "error_value AccessDenied = 403001"
| "error_value SignatureExpired = 403002"
| "error_value NoSuchBucket = 404001"
| "error_value NoSuchKey = 404002"
| "error_value NoSuchUpload = 404003"
| "error_value BucketAlreadyExists = 409001"
| "error_value IdempotencyConflict = 409002"
| "error_value ObjectAlreadyExists = 409003"
| "error_value InternalError = 500001"
| "error_value DatabaseError = 500002"
| "error_value StorageError = 500003"
| "error_value ServiceUnavailable = 503001"

definition GetHttpStatus :: "ErrorCode \<Rightarrow> int" where
  "GetHttpStatus code =
     (let code_value = error_value code in if code_value = 0 then 200 else code_value div 1000)"

fun GetErrorName :: "ErrorCode \<Rightarrow> string" where
  "GetErrorName OK = ''OK''"
| "GetErrorName InvalidArgument = ''InvalidArgument''"
| "GetErrorName InvalidRange = ''InvalidRange''"
| "GetErrorName InvalidPartNumber = ''InvalidPartNumber''"
| "GetErrorName InvalidPartOrder = ''InvalidPartOrder''"
| "GetErrorName EntityTooLarge = ''EntityTooLarge''"
| "GetErrorName ChecksumMismatch = ''ChecksumMismatch''"
| "GetErrorName MissingContentLength = ''MissingContentLength''"
| "GetErrorName Unauthorized = ''Unauthorized''"
| "GetErrorName InvalidToken = ''InvalidToken''"
| "GetErrorName AccessDenied = ''AccessDenied''"
| "GetErrorName SignatureExpired = ''SignatureExpired''"
| "GetErrorName NoSuchBucket = ''NoSuchBucket''"
| "GetErrorName NoSuchKey = ''NoSuchKey''"
| "GetErrorName NoSuchUpload = ''NoSuchUpload''"
| "GetErrorName BucketAlreadyExists = ''BucketAlreadyExists''"
| "GetErrorName IdempotencyConflict = ''IdempotencyConflict''"
| "GetErrorName ObjectAlreadyExists = ''ObjectAlreadyExists''"
| "GetErrorName InternalError = ''InternalError''"
| "GetErrorName DatabaseError = ''DatabaseError''"
| "GetErrorName StorageError = ''StorageError''"
| "GetErrorName ServiceUnavailable = ''ServiceUnavailable''"

record Status =
  st_code :: ErrorCode
  st_message :: string

type_synonym 'a Result = "Status + 'a"

definition Status_OK :: Status where
  "Status_OK = \<lparr>st_code = OK, st_message = ''''\<rparr>"

definition Status_Error :: "ErrorCode \<Rightarrow> string \<Rightarrow> Status" where
  "Status_Error code msg = \<lparr>st_code = code, st_message = msg\<rparr>"

definition Status_InvalidArgument :: "string \<Rightarrow> Status" where
  "Status_InvalidArgument msg = Status_Error InvalidArgument msg"

definition Status_NotFound :: "string \<Rightarrow> Status" where
  "Status_NotFound msg = Status_Error NoSuchKey msg"

definition Status_AlreadyExists :: "string \<Rightarrow> Status" where
  "Status_AlreadyExists msg = Status_Error BucketAlreadyExists msg"

definition Status_Unauthorized :: "string \<Rightarrow> Status" where
  "Status_Unauthorized msg = Status_Error Unauthorized msg"

definition Status_InternalError :: "string \<Rightarrow> Status" where
  "Status_InternalError msg = Status_Error InternalError msg"

definition Status_ok :: "Status \<Rightarrow> bool" where
  "Status_ok s = (st_code s = OK)"

definition Status_IsNotFound :: "Status \<Rightarrow> bool" where
  "Status_IsNotFound s =
     (st_code s = NoSuchKey \<or> st_code s = NoSuchBucket \<or> st_code s = NoSuchUpload)"

definition Status_HttpStatus :: "Status \<Rightarrow> int" where
  "Status_HttpStatus s = GetHttpStatus (st_code s)"

definition Status_ErrorName :: "Status \<Rightarrow> string" where
  "Status_ErrorName s = GetErrorName (st_code s)"

definition Status_ToString :: "Status \<Rightarrow> string" where
  "Status_ToString s =
     (if Status_ok s then ''OK'' else GetErrorName (st_code s) @ '': '' @ st_message s)"

definition Err :: "ErrorCode \<Rightarrow> string \<Rightarrow> 'a Result" where
  "Err code msg = Inl (Status_Error code msg)"

fun Result_ok :: "'a Result \<Rightarrow> bool" where
  "Result_ok (Inr v) = True"
| "Result_ok (Inl s) = False"

text \<open>\<open>value()\<close> throws \<open>std::bad_variant_access\<close> when there is none.\<close>

fun Result_value :: "'a Result \<Rightarrow> 'a option" where
  "Result_value (Inr v) = Some v"
| "Result_value (Inl s) = None"

fun Result_status :: "'a Result \<Rightarrow> Status" where
  "Result_status (Inr v) = Status_OK"
| "Result_status (Inl s) = s"

fun Result_code :: "'a Result \<Rightarrow> ErrorCode" where
  "Result_code (Inr v) = OK"
| "Result_code (Inl s) = st_code s"

lemma Status_Error_sel [simp]:
  "st_code (Status_Error c m) = c" "st_message (Status_Error c m) = m"
  by (simp_all add: Status_Error_def)

lemma Status_OK_ok [simp]: "Status_ok Status_OK" "st_code Status_OK = OK"
  by (simp_all add: Status_ok_def Status_OK_def)

lemma Status_ok_Error [simp]: "Status_ok (Status_Error c m) \<longleftrightarrow> c = OK"
  by (simp add: Status_ok_def)

lemma Result_Err [simp]:
  "Result_ok (Err c m) = False" "Result_code (Err c m) = c" "Err c m \<noteq> Inr v" "Inr v \<noteq> Err c m"
  by (simp_all add: Err_def)

lemma Status_constructors:
  "Status_IsNotFound (Status_NotFound m)" "Status_HttpStatus (Status_NotFound m) = 404"
  "Status_HttpStatus (Status_AlreadyExists m) = 409" "Status_HttpStatus (Status_InvalidArgument m) = 400"
  "Status_HttpStatus (Status_Unauthorized m) = 401" "Status_HttpStatus (Status_InternalError m) = 500"
  by (simp_all add: Status_NotFound_def Status_AlreadyExists_def Status_InvalidArgument_def Status_Unauthorized_def
      Status_InternalError_def Status_IsNotFound_def Status_HttpStatus_def GetHttpStatus_def)

lemma Result_ok_value: "Result_ok r \<longleftrightarrow> (\<exists>v. Result_value r = Some v)"
  by (cases r) simp_all

lemma GetErrorName_inj: "GetErrorName a = GetErrorName b \<Longrightarrow> a = b"
  by (cases a; cases b) simp_all

lemma GetHttpStatus_values:
  "GetHttpStatus c \<in> {200, 400, 401, 403, 404, 409, 500, 503}"
  by (cases c) (simp_all add: GetHttpStatus_def)

end
