(* ===== verification/File_System.thy ===== *)
theory File_System
  imports Status
begin

text \<open>
  \<^verbatim>\<open>util/fs.{h,cpp}\<close> over a model of the operating system: regular files as a map from paths to
  contents, and a finite script that gives the outcome of the next system calls (success, a short
  transfer, or an errno); after the script every call succeeds. \<open>strerror\<close> is a parameter.
\<close>

datatype sys_outcome = Sys_ok | Sys_short nat | Sys_err nat

record FileSys =
  fs_files :: "string \<rightharpoonup> string"
  fs_script :: "sys_outcome list"

abbreviation ENOENT :: nat where "ENOENT \<equiv> 2"
abbreviation EINTR :: nat where "EINTR \<equiv> 4"
abbreviation EEXIST :: nat where "EEXIST \<equiv> 17"
abbreviation EINVAL :: nat where "EINVAL \<equiv> 22"

section \<open>System calls\<close>

definition next_outcome :: "FileSys \<Rightarrow> sys_outcome \<times> FileSys" where
  "next_outcome fs =
     (case fs_script fs of
        [] \<Rightarrow> (Sys_ok, fs)
      | r # rs \<Rightarrow> (r, fs\<lparr>fs_script := rs\<rparr>))"

definition sys_unlink :: "FileSys \<Rightarrow> string \<Rightarrow> FileSys \<times> (nat + unit)" where
  "sys_unlink fs path =
     (case next_outcome fs of
        (Sys_err e, fs) \<Rightarrow> (fs, Inl e)
      | (_, fs) \<Rightarrow>
          if fs_files fs path = None then (fs, Inl ENOENT)
          else (fs\<lparr>fs_files := (fs_files fs)(path := None)\<rparr>, Inr ()))"

definition sys_rename :: "FileSys \<Rightarrow> string \<Rightarrow> string \<Rightarrow> FileSys \<times> (nat + unit)" where
  "sys_rename fs src dst =
     (case next_outcome fs of
        (Sys_err e, fs) \<Rightarrow> (fs, Inl e)
      | (_, fs) \<Rightarrow>
          (case fs_files fs src of
             None \<Rightarrow> (fs, Inl ENOENT)
           | Some c \<Rightarrow> (fs\<lparr>fs_files := (fs_files fs)(src := None, dst := Some c)\<rparr>, Inr ())))"

text \<open>\<open>open(path, O_WRONLY | O_CREAT | O_EXCL)\<close>.\<close>

definition sys_create :: "FileSys \<Rightarrow> string \<Rightarrow> FileSys \<times> (nat + unit)" where
  "sys_create fs path =
     (case next_outcome fs of
        (Sys_err e, fs) \<Rightarrow> (fs, Inl e)
      | (_, fs) \<Rightarrow>
          if fs_files fs path = None then (fs\<lparr>fs_files := (fs_files fs)(path := Some [])\<rparr>, Inr ())
          else (fs, Inl EEXIST))"

text \<open>\<open>open(path, O_RDONLY)\<close>. The descriptor is the content of the opened inode: a file that is read
  here is a blob, which is created by a rename and never written again, and an unlinked inode stays
  readable through the descriptor.\<close>

definition sys_open :: "FileSys \<Rightarrow> string \<Rightarrow> FileSys \<times> (nat + string)" where
  "sys_open fs path =
     (case next_outcome fs of
        (Sys_err e, fs) \<Rightarrow> (fs, Inl e)
      | (_, fs) \<Rightarrow> (case fs_files fs path of None \<Rightarrow> (fs, Inl ENOENT) | Some c \<Rightarrow> (fs, Inr c)))"

text \<open>\<open>write\<close> at the end of an open file. The descriptor stays valid when the name is unlinked; the
  bytes are then lost.\<close>

definition sys_write :: "FileSys \<Rightarrow> string \<Rightarrow> string \<Rightarrow> FileSys \<times> (nat + nat)" where
  "sys_write fs path data =
     (case next_outcome fs of
        (Sys_err e, fs) \<Rightarrow> (fs, Inl e)
      | (r, fs) \<Rightarrow>
          let n = (case r of Sys_short k \<Rightarrow> min k (length data) | _ \<Rightarrow> length data) in
          (fs\<lparr>fs_files := (case fs_files fs path of
                None \<Rightarrow> fs_files fs
              | Some c \<Rightarrow> (fs_files fs)(path := Some (c @ take n data)))\<rparr>, Inr n))"

text \<open>\<open>read\<close> of at most \<open>n\<close> bytes at a position; no byte only at the end of the file.\<close>

definition sys_read :: "FileSys \<Rightarrow> string \<Rightarrow> nat \<Rightarrow> nat \<Rightarrow> FileSys \<times> (nat + string)" where
  "sys_read fs content pos n =
     (case next_outcome fs of
        (Sys_err e, fs) \<Rightarrow> (fs, Inl e)
      | (r, fs) \<Rightarrow>
          let avail = take n (drop pos content);
              m = (case r of Sys_short k \<Rightarrow> max 1 k | _ \<Rightarrow> n)
          in (fs, Inr (take m avail)))"

text \<open>\<open>stat\<close>: the size of the file; for \<open>fstat\<close>, \<open>lseek\<close>, \<open>fsync\<close> and directory creation only the
  outcome counts.\<close>

definition sys_stat :: "FileSys \<Rightarrow> string \<Rightarrow> FileSys \<times> (nat + nat)" where
  "sys_stat fs path =
     (case next_outcome fs of
        (Sys_err e, fs) \<Rightarrow> (fs, Inl e)
      | (_, fs) \<Rightarrow>
          (case fs_files fs path of None \<Rightarrow> (fs, Inl ENOENT) | Some c \<Rightarrow> (fs, Inr (length c))))"

definition sys_call :: "FileSys \<Rightarrow> FileSys \<times> (nat + unit)" where
  "sys_call fs = (case next_outcome fs of (Sys_err e, fs) \<Rightarrow> (fs, Inl e) | (_, fs) \<Rightarrow> (fs, Inr ()))"

section \<open>The class FileSystem\<close>

definition FileSystem_JoinPath :: "string \<Rightarrow> string \<Rightarrow> string" where
  "FileSystem_JoinPath base sub =
     (if sub \<noteq> [] \<and> hd sub = CHR ''/'' then sub
      else if base = [] then sub
      else if last base = CHR ''/'' then base @ sub
      else base @ ''/'' @ sub)"

definition FileSystem_CreateDirectories ::
    "(nat \<Rightarrow> string) \<Rightarrow> FileSys \<Rightarrow> string \<Rightarrow> FileSys \<times> Status" where
  "FileSystem_CreateDirectories strerror fs path =
     (case sys_call fs of
        (fs, Inl e) \<Rightarrow>
          (fs, Status_Error StorageError (''Failed to create directory: '' @ strerror e))
      | (fs, Inr _) \<Rightarrow> (fs, Status_OK))"

definition FileSystem_RemoveFile ::
    "(nat \<Rightarrow> string) \<Rightarrow> FileSys \<Rightarrow> string \<Rightarrow> FileSys \<times> Status" where
  "FileSystem_RemoveFile strerror fs path =
     (case sys_unlink fs path of
        (fs, Inl e) \<Rightarrow>
          if e = ENOENT then (fs, Status_OK)
          else (fs, Status_Error StorageError (''Failed to remove file: '' @ strerror e))
      | (fs, Inr _) \<Rightarrow> (fs, Status_OK))"

text \<open>\<open>std::filesystem::path::parent_path\<close> of a path whose last component is a file name: the text
  before the last slash.\<close>

definition parent_path :: "string \<Rightarrow> string" where
  "parent_path p = rev (drop 1 (dropWhile (\<lambda>c. c \<noteq> CHR ''/'') (rev p)))"

definition FileSystem_AtomicRename ::
    "(nat \<Rightarrow> string) \<Rightarrow> FileSys \<Rightarrow> string \<Rightarrow> string \<Rightarrow> FileSys \<times> Status" where
  "FileSystem_AtomicRename strerror fs src dst =
     (let parent = parent_path dst;
          (fs, status) = (if parent \<noteq> [] then FileSystem_CreateDirectories strerror fs parent
                          else (fs, Status_OK))
      in if \<not> Status_ok status then (fs, status)
         else case sys_rename fs src dst of
                (fs, Inl e) \<Rightarrow> (fs, Status_Error StorageError (''Failed to rename file: '' @ strerror e))
              | (fs, Inr _) \<Rightarrow> (fs, Status_OK))"

definition FileSystem_FileExists :: "FileSys \<Rightarrow> string \<Rightarrow> FileSys \<times> bool" where
  "FileSystem_FileExists fs path =
     (case sys_stat fs path of (fs, Inl _) \<Rightarrow> (fs, False) | (fs, Inr _) \<Rightarrow> (fs, True))"

definition FileSystem_GetFileSize ::
    "(nat \<Rightarrow> string) \<Rightarrow> FileSys \<Rightarrow> string \<Rightarrow> FileSys \<times> size_t Result" where
  "FileSystem_GetFileSize strerror fs path =
     (case sys_stat fs path of
        (fs, Inl e) \<Rightarrow> (fs, Err StorageError (''Failed to get file size: '' @ strerror e))
      | (fs, Inr n) \<Rightarrow> (fs, Inr n))"

text \<open>The write loop with its \<open>EINTR\<close> retry, as in \<open>WriteSession::Write\<close> and \<open>DataStore::Merge\<close>:
  \<open>Some\<close> is the errno of the failure.\<close>

lemma next_outcome_script:
  "next_outcome fs = (r, fs') \<Longrightarrow>
   fs_files fs' = fs_files fs \<and> (fs_script fs = [] \<and> fs' = fs \<and> r = Sys_ok \<or>
     length (fs_script fs') < length (fs_script fs))"
  by (auto simp: next_outcome_def split: list.splits)

lemma sys_write_progress:
  assumes "sys_write fs path data = (fs', r)"
  shows "(\<exists>n. r = Inr n \<and> n \<le> length data \<and> fs_script fs = [] \<and> fs_script fs' = [] \<and> n = length data) \<or>
    length (fs_script fs') < length (fs_script fs)"
proof -
  obtain q f where q: "next_outcome fs = (q, f)" by (cases "next_outcome fs")
  with next_outcome_script [OF q] assms show ?thesis
    by (auto simp: sys_write_def Let_def split: sys_outcome.splits)
qed

function write_all :: "FileSys \<Rightarrow> string \<Rightarrow> string \<Rightarrow> FileSys \<times> nat option" where
  "write_all fs path data =
     (if data = [] then (fs, None)
      else case sys_write fs path data of
             (fs', Inl e) \<Rightarrow> if e = EINTR then write_all fs' path data else (fs', Some e)
           | (fs', Inr n) \<Rightarrow> write_all fs' path (drop n data))"
  by pat_completeness auto
termination
  by (relation "measure (\<lambda>(fs, path, data). length (fs_script fs) + length data)")
     (auto dest!: sys_write_progress [OF sym])

declare write_all.simps [simp del]

section \<open>What the calls do to the files\<close>

text \<open>\<open>same_except P fs fs'\<close>: the files outside \<open>P\<close> are untouched.\<close>

definition same_except :: "string set \<Rightarrow> FileSys \<Rightarrow> FileSys \<Rightarrow> bool" where
  "same_except P fs fs' \<longleftrightarrow> (\<forall>q. q \<notin> P \<longrightarrow> fs_files fs' q = fs_files fs q)"

lemma same_except_refl [simp]: "same_except P fs fs"
  by (simp add: same_except_def)

lemma same_except_trans: "same_except P a b \<Longrightarrow> same_except P b c \<Longrightarrow> same_except P a c"
  by (simp add: same_except_def)

lemma same_except_mono: "same_except P a b \<Longrightarrow> P \<subseteq> Q \<Longrightarrow> same_except Q a b"
  by (auto simp: same_except_def)

lemma sys_call_files: "sys_call fs = (fs', r) \<Longrightarrow> fs_files fs' = fs_files fs"
  by (auto simp: sys_call_def split: prod.splits sys_outcome.splits dest: next_outcome_script)

lemma sys_stat_files:
  "sys_stat fs path = (fs', r) \<Longrightarrow> fs_files fs' = fs_files fs \<and> (\<forall>n. r = Inr n \<longrightarrow> (\<exists>c. fs_files fs path = Some c \<and> n = length c))"
  by (auto simp: sys_stat_def split: prod.splits sys_outcome.splits option.splits dest!: next_outcome_script)

lemma sys_open_files:
  "sys_open fs path = (fs', r) \<Longrightarrow> fs_files fs' = fs_files fs \<and> (\<forall>c. r = Inr c \<longrightarrow> fs_files fs path = Some c)"
  by (auto simp: sys_open_def split: prod.splits sys_outcome.splits option.splits dest!: next_outcome_script)

lemma sys_unlink_files:
  "sys_unlink fs path = (fs', r) \<Longrightarrow>
   fs_files fs' = (case r of Inr _ \<Rightarrow> (fs_files fs)(path := None) | Inl _ \<Rightarrow> fs_files fs)"
  by (auto simp: sys_unlink_def split: prod.splits sys_outcome.splits if_splits dest!: next_outcome_script)

lemma sys_create_files:
  "sys_create fs path = (fs', r) \<Longrightarrow>
   (case r of Inr _ \<Rightarrow> fs_files fs path = None \<and> fs_files fs' = (fs_files fs)(path := Some [])
    | Inl _ \<Rightarrow> fs_files fs' = fs_files fs)"
  by (auto simp: sys_create_def split: prod.splits sys_outcome.splits if_splits dest!: next_outcome_script)

lemma sys_rename_files:
  "sys_rename fs src dst = (fs', r) \<Longrightarrow>
   (case r of Inr _ \<Rightarrow> \<exists>c. fs_files fs src = Some c \<and> fs_files fs' = (fs_files fs)(src := None, dst := Some c)
    | Inl _ \<Rightarrow> fs_files fs' = fs_files fs)"
  by (auto simp: sys_rename_def split: prod.splits sys_outcome.splits option.splits dest!: next_outcome_script)

lemma sys_write_files:
  "sys_write fs path data = (fs', r) \<Longrightarrow>
   (case r of Inl _ \<Rightarrow> fs_files fs' = fs_files fs
    | Inr n \<Rightarrow> n \<le> length data \<and> fs_files fs' =
        (case fs_files fs path of None \<Rightarrow> fs_files fs | Some c \<Rightarrow> (fs_files fs)(path := Some (c @ take n data))))"
  by (auto simp: sys_write_def Let_def split: prod.splits sys_outcome.splits option.splits dest!: next_outcome_script)

lemma sys_read_spec:
  assumes "sys_read fs c pos n = (fs', r)"
  shows "fs_files fs' = fs_files fs"
    "r = Inr d \<Longrightarrow> d = take (length d) (drop pos c) \<and> (0 < n \<longrightarrow> d = [] \<longrightarrow> length c \<le> pos) \<and> length d \<le> n"
proof -
  obtain q f where q: "next_outcome fs = (q, f)" by (cases "next_outcome fs")
  from next_outcome_script [OF q] q assms show "fs_files fs' = fs_files fs"
    by (auto simp: sys_read_def Let_def split: sys_outcome.splits)
  assume "r = Inr d"
  with q assms show "d = take (length d) (drop pos c) \<and> (0 < n \<longrightarrow> d = [] \<longrightarrow> length c \<le> pos) \<and> length d \<le> n"
    by (cases q) (auto simp: sys_read_def Let_def min_def max_def split: if_splits)
qed

lemma write_all_files:
  "write_all fs path data = (fs', r) \<Longrightarrow>
   same_except {path} fs fs' \<and> (fs_files fs path = None \<longrightarrow> fs_files fs' = fs_files fs) \<and>
   (\<forall>c. fs_files fs path = Some c \<longrightarrow> (\<exists>k. fs_files fs' path = Some (c @ take k data))) \<and>
   (r = None \<longrightarrow> (\<forall>c. fs_files fs path = Some c \<longrightarrow> fs_files fs' path = Some (c @ data)))"
proof (induction fs path data rule: write_all.induct)
  case (1 fs path data)
  show ?case
  proof (cases "data = []")
    case True
    with 1(3) show ?thesis by (simp add: write_all.simps)
  next
    case False
    obtain f q where w: "sys_write fs path data = (f, q)" by (cases "sys_write fs path data")
    note wf = sys_write_files [OF w]
    show ?thesis
    proof (cases q)
      case (Inl e)
      show ?thesis
      proof (cases "e = EINTR")
        case True
        with 1(3) w Inl False have "write_all f path data = (fs', r)"
          by (simp add: write_all.simps [of fs])
        with 1(1) [OF False w [symmetric] Inl True] wf Inl show ?thesis
          by (simp add: same_except_def)
      next
        case ne: False
        with 1(3) w Inl False have "fs' = f" "r = Some e" by (simp_all add: write_all.simps [of fs])
        with wf Inl show ?thesis
          by (auto simp: same_except_def intro: exI [of _ 0])
      qed
    next
      case (Inr n)
      with 1(3) w False have "write_all f path (drop n data) = (fs', r)"
        by (simp add: write_all.simps [of fs])
      note ih = 1(2) [OF False w [symmetric] Inr this]
      show ?thesis
      proof (cases "fs_files fs path")
        case None
        with ih wf Inr show ?thesis by (simp add: same_except_def)
      next
        case (Some c)
        with wf Inr have f: "fs_files f = (fs_files fs)(path := Some (c @ take n data))" by simp
        with ih obtain k where k: "fs_files fs' path = Some ((c @ take n data) @ take k (drop n data))"
          by auto
        have "take n data @ take k (drop n data) = take (n + k) data" by (simp add: take_add)
        with k have "fs_files fs' path = Some (c @ take (n + k) data)" by simp
        moreover have "r = None \<longrightarrow> fs_files fs' path = Some (c @ data)" using ih f by simp
        moreover have "same_except {path} fs fs'" using ih f by (simp add: same_except_def)
        ultimately show ?thesis using Some by auto
      qed
    qed
  qed
qed

lemma write_all_ok:
  "write_all fs path data = (fs', None) \<Longrightarrow> fs_files fs path = Some c \<Longrightarrow>
   fs_files fs' = (fs_files fs)(path \<mapsto> c @ data)"
  using write_all_files [of fs path data fs' None] by (auto simp: same_except_def fun_eq_iff)

lemma CreateDirectories_files:
  "FileSystem_CreateDirectories se fs p = (fs', s) \<Longrightarrow> fs_files fs' = fs_files fs"
  by (auto simp: FileSystem_CreateDirectories_def split: prod.splits sum.splits dest: sys_call_files)

lemma FileExists_files:
  "FileSystem_FileExists fs p = (fs', b) \<Longrightarrow> fs_files fs' = fs_files fs \<and> (b \<longrightarrow> fs_files fs p \<noteq> None)"
  by (auto simp: FileSystem_FileExists_def split: prod.splits sum.splits dest!: sys_stat_files)

lemma RemoveFile_files:
  "FileSystem_RemoveFile se fs p = (fs', s) \<Longrightarrow>
   same_except {p} fs fs' \<and> fs_files fs' p \<in> {None, fs_files fs p}"
  by (auto simp: FileSystem_RemoveFile_def same_except_def split: prod.splits sum.splits if_splits
      dest!: sys_unlink_files)

lemma AtomicRename_files:
  assumes "FileSystem_AtomicRename se fs src dst = (fs', s)"
  shows "if Status_ok s then \<exists>c. fs_files fs src = Some c \<and>
      fs_files fs' = (fs_files fs)(src := None, dst := Some c) else fs_files fs' = fs_files fs"
proof -
  obtain f st where f: "(if parent_path dst \<noteq> [] then FileSystem_CreateDirectories se fs (parent_path dst)
      else (fs, Status_OK)) = (f, st)" by (cases "if parent_path dst \<noteq> [] then
        FileSystem_CreateDirectories se fs (parent_path dst) else (fs, Status_OK)")
  then have "fs_files f = fs_files fs" by (auto split: if_splits dest: CreateDirectories_files)
  moreover have "if \<not> Status_ok st then (fs', s) = (f, st) else (fs', s) =
      (case sys_rename f src dst of
         (fs, Inl e) \<Rightarrow> (fs, Status_Error StorageError (''Failed to rename file: '' @ se e))
       | (fs, Inr _) \<Rightarrow> (fs, Status_OK))"
    using assms unfolding FileSystem_AtomicRename_def Let_def f by (auto split: if_splits)
  ultimately show ?thesis
    by (auto split: if_splits prod.splits sum.splits dest!: sys_rename_files)
qed

end
