(* ===== verification/Crypto_Uuid.thy ===== *)
theory Crypto_Uuid
  imports Cpp_Strings
begin

unbundle bit_operations_syntax

text \<open>
  \<^verbatim>\<open>util/crypto.{h,cpp}\<close> and \<^verbatim>\<open>util/uuid.{h,cpp}\<close>. OpenSSL's digest and HMAC are parameters: \<open>sha\<close>
  maps the bytes fed to an EVP context to the 32 digest bytes, \<open>hmac\<close> a key and a message to the
  code bytes; the context itself is the bytes fed so far. The random draws of the UUID generator are
  arguments.
\<close>

section \<open>Hexadecimal output\<close>

definition hex_digit :: "nat \<Rightarrow> char" where
  "hex_digit d = (if d < 10 then char_of (48 + d) else char_of (87 + d))"

text \<open>\<open>std::hex <<\<close> on an unsigned value, and \<open>std::setfill('0') << std::setw(w)\<close>.\<close>

fun hex_of :: "nat \<Rightarrow> string" where
  "hex_of n = (if n < 16 then [hex_digit n] else hex_of (n div 16) @ [hex_digit (n mod 16)])"

declare hex_of.simps [simp del]

definition setw :: "nat \<Rightarrow> string \<Rightarrow> string" where
  "setw w s = replicate (w - length s) (CHR ''0'') @ s"

definition Crypto_ToHexString :: "8 word list \<Rightarrow> string" where
  "Crypto_ToHexString data = concat (map (\<lambda>b. setw 2 (hex_of (unat b))) data)"

definition is_lower_hex :: "char \<Rightarrow> bool" where
  "is_lower_hex c = (let n = of_char c :: nat in (48 \<le> n \<and> n \<le> 57) \<or> (97 \<le> n \<and> n \<le> 102))"

lemma hex_digit_lower [simp]: "d < 16 \<Longrightarrow> is_lower_hex (hex_digit d)"
  by (auto simp: is_lower_hex_def hex_digit_def Let_def)

lemma hex_digit_inj: "a < 16 \<Longrightarrow> b < 16 \<Longrightarrow> hex_digit a = hex_digit b \<Longrightarrow> a = b"
  by (auto simp: hex_digit_def char_of_eq_iff take_bit_nat_def split: if_splits dest!: arg_cong [of _ _ "of_char :: char \<Rightarrow> nat"])

lemma hex_of_length: "0 < w \<Longrightarrow> n < 16 ^ w \<Longrightarrow> length (hex_of n) \<le> w"
proof (induction w arbitrary: n)
  case 0
  then show ?case by simp
next
  case (Suc w)
  show ?case
  proof (cases "n < 16")
    case True
    then show ?thesis by (subst hex_of.simps) simp
  next
    case False
    with Suc.prems have "w \<noteq> 0" "n div 16 < 16 ^ w"
      by (auto simp: less_mult_imp_div_less mult.commute intro: gr0I)
    with Suc.IH [of "n div 16"] False show ?thesis by (subst hex_of.simps) simp
  qed
qed

lemma hex_of_lower: "list_all is_lower_hex (hex_of n)"
proof (induction n rule: hex_of.induct)
  case (1 n)
  then show ?case by (subst hex_of.simps) simp
qed

lemma setw_hex:
  assumes "0 < w" "n < 16 ^ w"
  shows "length (setw w (hex_of n)) = w" "list_all is_lower_hex (setw w (hex_of n))"
  using hex_of_length [OF assms] hex_of_lower
  by (auto simp: setw_def list_all_iff is_lower_hex_def Let_def)

lemma ToHexString_length [simp]: "length (Crypto_ToHexString bs) = 2 * length bs"
proof (induction bs)
  case Nil
  then show ?case by (simp add: Crypto_ToHexString_def)
next
  case (Cons b bs)
  have "unat b < 16 ^ 2" using unsigned_less [of b, where ?'a = nat] by simp
  from setw_hex(1) [OF _ this] Cons show ?case by (simp add: Crypto_ToHexString_def)
qed

lemma ToHexString_lower: "list_all is_lower_hex (Crypto_ToHexString bs)"
proof (induction bs)
  case Nil
  then show ?case by (simp add: Crypto_ToHexString_def)
next
  case (Cons b bs)
  have "unat b < 16 ^ 2" using unsigned_less [of b, where ?'a = nat] by simp
  from setw_hex(2) [OF _ this] Cons show ?case by (simp add: Crypto_ToHexString_def)
qed

lemma hex_of_byte:
  assumes "n < 256"
  shows "setw 2 (hex_of n) = [hex_digit (n div 16), hex_digit (n mod 16)]"
proof (cases "n < 16")
  case True
  have "hex_digit 0 = CHR ''0''" by code_simp
  then show ?thesis using True by (subst hex_of.simps) (simp add: setw_def)
next
  case False
  moreover have "n div 16 < 16" using assms by simp
  ultimately show ?thesis by (subst hex_of.simps, subst hex_of.simps) (simp add: setw_def)
qed

lemma ToHexString_inj: "Crypto_ToHexString as = Crypto_ToHexString bs \<Longrightarrow> as = bs"
proof (induction as arbitrary: bs)
  case Nil
  then have "length (Crypto_ToHexString bs) = 0" by (simp add: Crypto_ToHexString_def)
  then show ?case by simp
next
  case (Cons a as)
  have b: "unat x < 256" for x :: "8 word" using unsigned_less [of x, where ?'a = nat] by simp
  have "length (a # as) = length bs" using arg_cong [OF Cons.prems, of length] by simp
  then obtain c cs where bs: "bs = c # cs" by (cases bs) simp_all
  have eqs: "hex_digit (unat a div 16) = hex_digit (unat c div 16)" "hex_digit (unat a mod 16) = hex_digit (unat c mod 16)"
    "Crypto_ToHexString as = Crypto_ToHexString cs"
    using Cons.prems unfolding bs by (simp_all add: Crypto_ToHexString_def hex_of_byte b)
  have "unat a div 16 < 16" "unat c div 16 < 16" using b [of a] b [of c] by auto
  then have "unat a div 16 = unat c div 16" using eqs(1) hex_digit_inj by blast
  moreover have "unat a mod 16 = unat c mod 16" using eqs(2) by (rule hex_digit_inj [rotated 2]) simp_all
  ultimately have "unat a = unat c" by (metis div_mult_mod_eq)
  then have "a = c" by (simp add: word_eq_iff_unsigned [where ?'a = nat])
  then show ?case using Cons.IH [OF eqs(3)] bs by simp
qed

section \<open>SHA-256 and HMAC\<close>

record SHA256Context =
  sha_data :: string

definition SHA256Context_new :: SHA256Context where
  "SHA256Context_new = \<lparr>sha_data = ''''\<rparr>"

definition SHA256Context_Update :: "SHA256Context \<Rightarrow> string \<Rightarrow> SHA256Context" where
  "SHA256Context_Update c data = c\<lparr>sha_data := sha_data c @ data\<rparr>"

definition SHA256Context_Final :: "(string \<Rightarrow> 8 word list) \<Rightarrow> SHA256Context \<Rightarrow> string" where
  "SHA256Context_Final sha c = Crypto_ToHexString (sha (sha_data c))"

definition SHA256Context_Reset :: "SHA256Context \<Rightarrow> SHA256Context" where
  "SHA256Context_Reset c = c\<lparr>sha_data := ''''\<rparr>"

definition Crypto_SHA256 :: "(string \<Rightarrow> 8 word list) \<Rightarrow> string \<Rightarrow> string" where
  "Crypto_SHA256 sha data = Crypto_ToHexString (sha data)"

definition Crypto_HMAC_SHA256 ::
    "(string \<Rightarrow> string \<Rightarrow> 8 word list) \<Rightarrow> string \<Rightarrow> string \<Rightarrow> string" where
  "Crypto_HMAC_SHA256 hmac key data = Crypto_ToHexString (hmac key data)"

lemma SHA256Context_simps [simp]:
  "sha_data SHA256Context_new = ''''"
  "sha_data (SHA256Context_Update c d) = sha_data c @ d"
  "SHA256Context_Final sha c = Crypto_SHA256 sha (sha_data c)"
  by (simp_all add: SHA256Context_new_def SHA256Context_Update_def SHA256Context_Final_def
      Crypto_SHA256_def)

section \<open>UUID version 4\<close>

text \<open>The fallback generator; the arguments are the six draws of \<open>rand32\<close>.\<close>

definition UUID_Generate ::
    "32 word \<Rightarrow> 32 word \<Rightarrow> 32 word \<Rightarrow> 32 word \<Rightarrow> 32 word \<Rightarrow> 32 word \<Rightarrow> string" where
  "UUID_Generate r1 r2 r3 r4 r5 r6 =
     (let d1 = r1; d2 = ucast r2 :: 16 word; d3 = ucast r3 :: 16 word; d4 = ucast r4 :: 16 word;
          d5 = r5; d6 = r6;
          d3 = (d3 AND 0x0FFF) OR 0x4000;
          d4 = (d4 AND 0x3FFF) OR 0x8000
      in setw 8 (hex_of (unat d1)) @ ''-'' @ setw 4 (hex_of (unat d2)) @ ''-''
       @ setw 4 (hex_of (unat d3)) @ ''-'' @ setw 4 (hex_of (unat d4)) @ ''-''
       @ setw 8 (hex_of (unat d5)) @ setw 4 (hex_of (unat (d6 AND 0xFFFF))))"

definition is_hex_icase :: "char \<Rightarrow> bool" where
  "is_hex_icase c = is_lower_hex (tolower c)"

text \<open>\<open>std::regex_match\<close> with eight, four, four, four and twelve hexadecimal digits, ignoring case.\<close>

fun match_groups :: "nat list \<Rightarrow> string \<Rightarrow> bool" where
  "match_groups [] s = (s = [])"
| "match_groups [n] s = (length s = n \<and> list_all is_hex_icase s)"
| "match_groups (n # ns) s =
     (list_all is_hex_icase (take n s) \<and> n < length s \<and> s ! n = CHR ''-'' \<and>
      match_groups ns (drop (Suc n) s))"

definition UUID_IsValid :: "string \<Rightarrow> bool" where
  "UUID_IsValid uuid = match_groups [8, 4, 4, 4, 12] uuid"

lemma lower_hex_icase: "is_lower_hex c \<Longrightarrow> is_hex_icase c"
  by (auto simp: is_hex_icase_def is_lower_hex_def tolower_def Let_def)

lemma match_group_cons:
  assumes "length a = n" "list_all is_lower_hex a" "ns \<noteq> []"
  shows "match_groups (n # ns) (a @ CHR ''-'' # s) = match_groups ns s"
proof -
  have "list_all is_hex_icase a" using assms(2) lower_hex_icase by (auto simp: list_all_iff)
  with assms show ?thesis by (cases ns) (simp_all add: nth_append)
qed

lemma match_group_last:
  "length a = n \<Longrightarrow> list_all is_lower_hex a \<Longrightarrow> match_groups [n] a"
  using lower_hex_icase by (auto simp: list_all_iff)

lemma hex_digit_values:
  "hex_digit 4 = CHR ''4''" "hex_digit 8 = CHR ''8''" "hex_digit 9 = CHR ''9''"
  "hex_digit 10 = CHR ''a''" "hex_digit 11 = CHR ''b''"
  by code_simp+

lemma hex_of_top:
  assumes "4096 \<le> n" "n < 65536"
  shows "hd (hex_of n) = hex_digit (n div 4096)" "length (hex_of n) = 4"
proof -
  have "\<not> n < 16" "\<not> n div 16 < 16" "\<not> n div 16 div 16 < 16" "n div 16 div 16 div 16 < 16"
    using assms by linarith+
  then have "hex_of n = [hex_digit (n div 16 div 16 div 16), hex_digit (n div 16 div 16 mod 16),
      hex_digit (n div 16 mod 16), hex_digit (n mod 16)]"
    by (simp add: hex_of.simps [of n] hex_of.simps [of "n div 16"]
        hex_of.simps [of "n div 16 div 16"] hex_of.simps [of "n div 16 div 16 div 16"])
  then show "hd (hex_of n) = hex_digit (n div 4096)" "length (hex_of n) = 4"
    by (simp_all add: div_mult2_eq [symmetric])
qed

lemma nat_mask_top:
  "(((n::nat) AND 0x0FFF) OR 0x4000) div 4096 = 4"
  "((n AND 0x3FFF) OR 0x8000) div 4096 \<in> {8, 9, 10, 11}"
proof -
  have d: "x div 4096 = drop_bit 12 x" for x :: nat by (simp add: drop_bit_eq_div)
  have c: "drop_bit 12 (0x0FFF::nat) = 0" "drop_bit 12 (0x4000::nat) = 4"
    "drop_bit 12 (0x3FFF::nat) = 3" "drop_bit 12 (0x8000::nat) = 8"
    by (simp_all add: drop_bit_eq_div)
  show "((n AND 0x0FFF) OR 0x4000) div 4096 = 4" unfolding d drop_bit_or drop_bit_and c by simp
  have "drop_bit 12 n AND 3 = drop_bit 12 n mod 4"
    using take_bit_eq_mask [of 2 "drop_bit 12 n"]
    by (simp add: mask_eq_exp_minus_1 take_bit_eq_mod)
  moreover have "drop_bit 12 n mod 4 \<in> {0, 1, 2, 3}" by auto
  ultimately have "drop_bit 12 n AND 3 \<in> {0, 1, 2, 3}" by simp
  moreover have "drop_bit 12 ((n AND 0x3FFF) OR 0x8000) = (drop_bit 12 n AND 3) OR 8"
    unfolding drop_bit_or drop_bit_and c by simp
  ultimately show "((n AND 0x3FFF) OR 0x8000) div 4096 \<in> {8, 9, 10, 11}"
    unfolding d by auto
qed

text \<open>
  Whatever the random draws, the generated identifier passes \<open>UUID::IsValid\<close>, carries version
  4 in its fifteenth character and the RFC 4122 variant in its twentieth.
\<close>

theorem uuid_generate_valid:
  "UUID_IsValid (UUID_Generate r1 r2 r3 r4 r5 r6) \<and>
   UUID_Generate r1 r2 r3 r4 r5 r6 ! 14 = CHR ''4'' \<and>
   UUID_Generate r1 r2 r3 r4 r5 r6 ! 19 \<in> set ''89ab''"
proof -
  define d3 where "d3 = unat (((ucast r3 :: 16 word) AND 0x0FFF) OR 0x4000)"
  define d4 where "d4 = unat (((ucast r4 :: 16 word) AND 0x3FFF) OR 0x8000)"
  let ?a = "setw 8 (hex_of (unat r1))" and ?b = "setw 4 (hex_of (unat (ucast r2 :: 16 word)))"
    and ?c = "setw 4 (hex_of d3)" and ?d = "setw 4 (hex_of d4)"
    and ?e = "setw 8 (hex_of (unat r5))" and ?f = "setw 4 (hex_of (unat (r6 AND 0xFFFF)))"
  have u: "UUID_Generate r1 r2 r3 r4 r5 r6 =
      ?a @ CHR ''-'' # ?b @ CHR ''-'' # ?c @ CHR ''-'' # ?d @ CHR ''-'' # (?e @ ?f)"
    by (simp add: UUID_Generate_def d3_def d4_def Let_def)
  have t3: "d3 div 4096 = 4" and t4: "d4 div 4096 \<in> {8, 9, 10, 11}"
    using nat_mask_top by (simp_all add: d3_def d4_def unsigned_or_eq unsigned_and_eq)
  then have r3: "4096 \<le> d3" "d3 < 65536" and r4: "4096 \<le> d4" "d4 < 65536" by auto
  have b6: "unat (r6 AND 0xFFFF) < 16 ^ 4"
  proof -
    have "unat (r6 AND 0xFFFF) = unat r6 AND 0xFFFF" by (simp add: unsigned_and_eq)
    also have "\<dots> = unat r6 mod 65536"
      using take_bit_eq_mask [of 16 "unat r6"] by (simp add: mask_eq_exp_minus_1 take_bit_eq_mod)
    finally show ?thesis by simp
  qed
  have ab: "unat r1 < 16 ^ 8" "unat (ucast r2 :: 16 word) < 16 ^ 4" "unat r5 < 16 ^ 8"
    using unsigned_less [of r1, where ?'a = nat] unsigned_less [of r5, where ?'a = nat]
      unsigned_less [of "ucast r2 :: 16 word", where ?'a = nat] by simp_all
  have l: "length ?a = 8" "length ?b = 4" "length ?c = 4" "length ?d = 4" "length (?e @ ?f) = 12"
    and h: "list_all is_lower_hex ?a" "list_all is_lower_hex ?b" "list_all is_lower_hex ?c"
    "list_all is_lower_hex ?d" "list_all is_lower_hex (?e @ ?f)"
    using setw_hex ab b6 r3 r4 by simp_all
  have "UUID_IsValid (UUID_Generate r1 r2 r3 r4 r5 r6)"
    unfolding UUID_IsValid_def u
    by (simp only: match_group_cons [OF l(1) h(1)] match_group_cons [OF l(2) h(2)]
        match_group_cons [OF l(3) h(3)] match_group_cons [OF l(4) h(4)] list.distinct simp_thms
        match_group_last [OF l(5) h(5)])
  moreover have "?c ! 0 = CHR ''4''" using hex_of_top [OF r3] t3
    by (cases "hex_of d3") (auto simp: setw_def hex_digit_values)
  moreover have "?d ! 0 \<in> set ''89ab''" using hex_of_top [OF r4] t4
    by (cases "hex_of d4") (auto simp: setw_def hex_digit_values)
  ultimately show ?thesis using l unfolding u by (simp add: nth_append nth_Cons')
qed

end
