(* ===== verification/Data_Store.thy ===== *)
theory Data_Store
  imports File_System Crypto_Uuid
begin

text \<open>
  \<^verbatim>\<open>storage/cas_layout.{h,cpp}\<close> and \<^verbatim>\<open>storage/data_store.{h,cpp}\<close>: the content-addressed blob store, with
  streaming write sessions, commit, read, ranged stream read, delete and merge. Every definition
  threads the file system of \<open>File_System\<close>; the environment holds the SHA-256 function and
  \<open>strerror\<close>; the identifiers of \<open>UUID::Generate\<close> are arguments. Blobs carry their digest as their
  name, whatever the failures of the operating system (\<open>cas_ok\<close>).
\<close>

section \<open>Path layout\<close>

definition CasLayout_GetCasDir :: "string \<Rightarrow> string \<Rightarrow> string" where
  "CasLayout_GetCasDir base_dir cas_key =
     (if length cas_key < 4 then FileSystem_JoinPath base_dir ''cas/00/00''
      else let dir = FileSystem_JoinPath base_dir ''cas'';
               dir = FileSystem_JoinPath dir (take 2 cas_key);
               dir = FileSystem_JoinPath dir (take 2 (drop 2 cas_key))
           in dir)"

definition CasLayout_GetCasPath :: "string \<Rightarrow> string \<Rightarrow> string" where
  "CasLayout_GetCasPath base_dir cas_key =
     FileSystem_JoinPath (CasLayout_GetCasDir base_dir cas_key) (cas_key @ ''.blob'')"

definition CasLayout_IsValidCasKey :: "string \<Rightarrow> bool" where
  "CasLayout_IsValidCasKey cas_key =
     (if length cas_key \<noteq> 64 then False
      else list_all (\<lambda>c. let n = of_char c :: nat in
        (48 \<le> n \<and> n \<le> 57) \<or> (97 \<le> n \<and> n \<le> 102)) cas_key)"

section \<open>Write sessions\<close>

datatype SyncMode = FSYNC | FDATASYNC | SYNC_NONE

definition DataStore_ParseSyncMode :: "string \<Rightarrow> SyncMode" where
  "DataStore_ParseSyncMode mode =
     (if mode = ''none'' then SYNC_NONE else if mode = ''fdatasync'' then FDATASYNC else FSYNC)"

fun DataStore_SyncModeToString :: "SyncMode \<Rightarrow> string" where
  "DataStore_SyncModeToString FSYNC = ''fsync''"
| "DataStore_SyncModeToString FDATASYNC = ''fdatasync''"
| "DataStore_SyncModeToString SYNC_NONE = ''none''"

record StoreEnv =
  se_sha :: "string \<Rightarrow> 8 word list"
  se_strerror :: "nat \<Rightarrow> string"

text \<open>\<open>ws_fd\<close>: the descriptor is open (\<open>fd_ >= 0\<close>).\<close>

record WriteSession =
  ws_tmp_path :: string
  ws_fd :: bool
  ws_bytes_written :: size_t
  ws_sha256_ctx :: SHA256Context
  ws_finished :: bool

definition WriteSession_new :: "string \<Rightarrow> WriteSession" where
  "WriteSession_new tmp_path =
     \<lparr>ws_tmp_path = tmp_path, ws_fd = True, ws_bytes_written = 0,
      ws_sha256_ctx = SHA256Context_new, ws_finished = False\<rparr>"

definition WriteSession_Write ::
    "StoreEnv \<Rightarrow> FileSys \<Rightarrow> WriteSession \<Rightarrow> string \<Rightarrow> FileSys \<times> WriteSession \<times> Status" where
  "WriteSession_Write env fs s data =
     (if ws_finished s
      then (fs, s, Status_Error InternalError ''WriteSession already finished'')
      else case write_all fs (ws_tmp_path s) data of
             (fs, Some e) \<Rightarrow> (fs, s, Status_Error StorageError (''Write failed: '' @ se_strerror env e))
           | (fs, None) \<Rightarrow>
               (fs, s\<lparr>ws_sha256_ctx := SHA256Context_Update (ws_sha256_ctx s) data,
                      ws_bytes_written := size_add (ws_bytes_written s) (length data)\<rparr>, Status_OK))"

definition WriteSession_Finish ::
    "StoreEnv \<Rightarrow> SyncMode \<Rightarrow> FileSys \<Rightarrow> WriteSession \<Rightarrow> FileSys \<times> WriteSession \<times> string Result" where
  "WriteSession_Finish env sync_mode fs s =
     (if ws_finished s
      then (fs, s, Err InternalError ''WriteSession already finished'')
      else let s = s\<lparr>ws_finished := True\<rparr>;
               fs = (if sync_mode = FSYNC \<or> sync_mode = FDATASYNC then fst (sys_call fs) else fs);
               s = s\<lparr>ws_fd := False\<rparr>
           in (fs, s, Inr (SHA256Context_Final (se_sha env) (ws_sha256_ctx s))))"

definition WriteSession_Abort :: "FileSys \<Rightarrow> WriteSession \<Rightarrow> FileSys \<times> WriteSession" where
  "WriteSession_Abort fs s =
     (let s = s\<lparr>ws_fd := False\<rparr>;
          (fs, s) = (if ws_tmp_path s \<noteq> []
                     then (fst (sys_unlink fs (ws_tmp_path s)), s\<lparr>ws_tmp_path := []\<rparr>) else (fs, s))
      in (fs, s\<lparr>ws_finished := True\<rparr>))"

text \<open>\<open>~WriteSession\<close>.\<close>

definition WriteSession_destroy :: "FileSys \<Rightarrow> WriteSession \<Rightarrow> FileSys" where
  "WriteSession_destroy fs s =
     (if \<not> ws_finished s \<and> ws_fd s then fst (WriteSession_Abort fs s) else fs)"

section \<open>The store\<close>

record DataStore =
  ds_base_dir :: string
  ds_tmp_dir :: string
  ds_sync_mode :: SyncMode

definition DataStore_Init :: "StoreEnv \<Rightarrow> DataStore \<Rightarrow> FileSys \<Rightarrow> FileSys \<times> Status" where
  "DataStore_Init env ds fs =
     foldl (\<lambda>(fs, status) path. if Status_ok status
              then FileSystem_CreateDirectories (se_strerror env) fs path else (fs, status))
       (fs, Status_OK)
       [ds_base_dir ds,
        FileSystem_JoinPath (ds_base_dir ds) ''cas'',
        FileSystem_JoinPath (ds_tmp_dir ds) ''upload'',
        FileSystem_JoinPath (ds_tmp_dir ds) ''merge'',
        FileSystem_JoinPath (ds_tmp_dir ds) ''multipart'']"

definition tmp_file :: "DataStore \<Rightarrow> string \<Rightarrow> string \<Rightarrow> string" where
  "tmp_file ds sub uuid =
     FileSystem_JoinPath (FileSystem_JoinPath (ds_tmp_dir ds) sub) (uuid @ ''.part'')"

definition DataStore_BeginWrite ::
    "StoreEnv \<Rightarrow> DataStore \<Rightarrow> FileSys \<Rightarrow> string \<Rightarrow> FileSys \<times> WriteSession Result" where
  "DataStore_BeginWrite env ds fs uuid =
     (let tmp_path = tmp_file ds ''upload'' uuid in
      case sys_create fs tmp_path of
        (fs, Inl e) \<Rightarrow> (fs, Err StorageError (''Failed to create temp file: '' @ se_strerror env e))
      | (fs, Inr _) \<Rightarrow> (fs, Inr (WriteSession_new tmp_path)))"

definition DataStore_CommitWrite ::
    "StoreEnv \<Rightarrow> DataStore \<Rightarrow> FileSys \<Rightarrow> WriteSession \<Rightarrow> string \<Rightarrow> FileSys \<times> string Result" where
  "DataStore_CommitWrite env ds fs session expected_sha256 =
     (case WriteSession_Finish env (ds_sync_mode ds) fs session of
        (fs, session, Inl status) \<Rightarrow> (WriteSession_destroy fs session, Inl status)
      | (fs, session, Inr cas_key) \<Rightarrow>
          if expected_sha256 \<noteq> [] \<and> cas_key \<noteq> expected_sha256
          then (fst (FileSystem_RemoveFile (se_strerror env) fs (ws_tmp_path session)),
                Err ChecksumMismatch (''SHA256 mismatch: expected '' @ expected_sha256 @ '', got '' @ cas_key))
          else let final_path = CasLayout_GetCasPath (ds_base_dir ds) cas_key;
                   (fs, dup) = FileSystem_FileExists fs final_path
               in if dup
                  then (fst (FileSystem_RemoveFile (se_strerror env) fs (ws_tmp_path session)), Inr cas_key)
                  else case FileSystem_CreateDirectories (se_strerror env) fs
                              (CasLayout_GetCasDir (ds_base_dir ds) cas_key) of
                         (fs, status) \<Rightarrow>
                           if \<not> Status_ok status
                           then (fst (FileSystem_RemoveFile (se_strerror env) fs (ws_tmp_path session)), Inl status)
                           else case FileSystem_AtomicRename (se_strerror env) fs (ws_tmp_path session) final_path of
                                  (fs, status) \<Rightarrow>
                                    if \<not> Status_ok status
                                    then (fst (FileSystem_RemoveFile (se_strerror env) fs (ws_tmp_path session)), Inl status)
                                    else (fs, Inr cas_key))"

definition DataStore_Write ::
    "StoreEnv \<Rightarrow> DataStore \<Rightarrow> FileSys \<Rightarrow> string \<Rightarrow> string \<Rightarrow> FileSys \<times> string Result" where
  "DataStore_Write env ds fs uuid data =
     (case DataStore_BeginWrite env ds fs uuid of
        (fs, Inl status) \<Rightarrow> (fs, Inl status)
      | (fs, Inr session) \<Rightarrow>
          (case WriteSession_Write env fs session data of
             (fs, session, status) \<Rightarrow>
               if \<not> Status_ok status then (WriteSession_destroy fs session, Inl status)
               else DataStore_CommitWrite env ds fs session ''''))"

section \<open>Reading\<close>

text \<open>The read loop of \<open>DataStore::Read\<close>; \<open>st_size\<close> is \<open>st.st_size\<close>.\<close>

lemma sys_read_progress:
  assumes "sys_read fs c pos n = (fs', r)" "0 < n"
  shows "(\<exists>d. r = Inr d \<and> (d = [] \<or> pos < length c \<and> length (fs_script fs') \<le> length (fs_script fs))) \<or>
    length (fs_script fs') < length (fs_script fs)"
proof -
  obtain q f where q: "next_outcome fs = (q, f)" by (cases "next_outcome fs")
  with next_outcome_script [OF q] assms show ?thesis
    by (cases q) (auto simp: sys_read_def Let_def)
qed

function read_loop :: "FileSys \<Rightarrow> string \<Rightarrow> nat \<Rightarrow> string \<Rightarrow> FileSys \<times> (nat + string)" where
  "read_loop fs c st_size data =
     (if length data < st_size
      then case sys_read fs c (length data) (st_size - length data) of
             (fs', Inl e) \<Rightarrow> if e = EINTR then read_loop fs' c st_size data else (fs', Inl e)
           | (fs', Inr d) \<Rightarrow> if d = [] then (fs', Inr data) else read_loop fs' c st_size (data @ d)
      else (fs, Inr data))"
  by pat_completeness auto
termination
  by (relation "measure (\<lambda>(fs, c, st_size, data). length (fs_script fs) + (st_size - length data))")
     (auto dest!: sys_read_progress [OF sym] simp flip: length_greater_0_conv)

declare read_loop.simps [simp del]

definition DataStore_Read ::
    "StoreEnv \<Rightarrow> DataStore \<Rightarrow> FileSys \<Rightarrow> string \<Rightarrow> FileSys \<times> string Result" where
  "DataStore_Read env ds fs cas_key =
     (case sys_open fs (CasLayout_GetCasPath (ds_base_dir ds) cas_key) of
        (fs, Inl e) \<Rightarrow> (fs, Err NoSuchKey (''CAS not found: '' @ cas_key))
      | (fs, Inr c) \<Rightarrow>
          (case sys_call fs of
             (fs, Inl e) \<Rightarrow> (fs, Err StorageError (''Failed to stat file: '' @ se_strerror env e))
           | (fs, Inr _) \<Rightarrow>
               (case read_loop fs c (length c) [] of
                  (fs, Inl e) \<Rightarrow> (fs, Err StorageError (''Read failed: '' @ se_strerror env e))
                | (fs, Inr data) \<Rightarrow> (fs, Inr data))))"

text \<open>The loop of \<open>StreamRead\<close>: \<open>remaining\<close> counts only when \<open>len\<close> is not 0. The callback's state
  is threaded; it answers whether to go on.\<close>

function stream_loop ::
    "('s \<Rightarrow> string \<Rightarrow> 's \<times> bool) \<Rightarrow> FileSys \<Rightarrow> string \<Rightarrow> nat \<Rightarrow> size_t \<Rightarrow> size_t \<Rightarrow> 's \<Rightarrow>
     FileSys \<times> 's \<times> nat option" where
  "stream_loop callback fs c pos len remaining st =
     (if len = 0 \<or> remaining > 0
      then let to_read = (if len > 0 \<and> remaining < 65536 then remaining else 65536) in
           case sys_read fs c pos to_read of
             (fs', Inl e) \<Rightarrow>
               if e = EINTR then stream_loop callback fs' c pos len remaining st else (fs', st, Some e)
           | (fs', Inr d) \<Rightarrow>
               if d = [] then (fs', st, None)
               else case callback st d of
                      (st', go) \<Rightarrow>
                        if \<not> go then (fs', st', None)
                        else stream_loop callback fs' c (pos + length d) len
                               (if len > 0 then remaining - length d else remaining) st'
      else (fs, st, None))"
  by pat_completeness auto
termination
proof (relation "measure (\<lambda>(cb, fs, c, pos, len, remaining, st).
    length (fs_script fs) + (length c - pos))", goal_cases)
  case 1
  then show ?case by simp
next
  case 2
  then show ?case by (auto dest!: sys_read_progress [OF sym] split: if_splits)
next
  case 3
  then show ?case using sys_read_progress [OF 3(3) [symmetric]]
    by (auto simp flip: length_greater_0_conv split: if_splits)
qed

declare stream_loop.simps [simp del]

definition DataStore_StreamRead ::
    "StoreEnv \<Rightarrow> DataStore \<Rightarrow> FileSys \<Rightarrow> string \<Rightarrow> size_t \<Rightarrow> size_t \<Rightarrow>
     ('s \<Rightarrow> string \<Rightarrow> 's \<times> bool) \<Rightarrow> 's \<Rightarrow> FileSys \<times> 's \<times> Status" where
  "DataStore_StreamRead env ds fs cas_key offset len callback st =
     (case sys_open fs (CasLayout_GetCasPath (ds_base_dir ds) cas_key) of
        (fs, Inl e) \<Rightarrow> (fs, st, Status_Error NoSuchKey (''CAS not found: '' @ cas_key))
      | (fs, Inr c) \<Rightarrow>
          (case (if offset > 0
                 then (if 2 ^ 63 \<le> offset then (fst (sys_call fs), Inl EINVAL) else sys_call fs)
                 else (fs, Inr ())) of
             (fs, Inl e) \<Rightarrow> (fs, st, Status_Error StorageError (''Seek failed: '' @ se_strerror env e))
           | (fs, Inr _) \<Rightarrow>
               (case stream_loop callback fs c offset len len st of
                  (fs, st, Some e) \<Rightarrow>
                    (fs, st, Status_Error StorageError (''Read failed: '' @ se_strerror env e))
                | (fs, st, None) \<Rightarrow> (fs, st, Status_OK))))"

definition DataStore_GetFilePath :: "DataStore \<Rightarrow> string \<Rightarrow> string" where
  "DataStore_GetFilePath ds cas_key = CasLayout_GetCasPath (ds_base_dir ds) cas_key"

definition DataStore_Exists :: "DataStore \<Rightarrow> FileSys \<Rightarrow> string \<Rightarrow> FileSys \<times> bool" where
  "DataStore_Exists ds fs cas_key =
     FileSystem_FileExists fs (CasLayout_GetCasPath (ds_base_dir ds) cas_key)"

definition DataStore_GetSize ::
    "StoreEnv \<Rightarrow> DataStore \<Rightarrow> FileSys \<Rightarrow> string \<Rightarrow> FileSys \<times> size_t Result" where
  "DataStore_GetSize env ds fs cas_key =
     FileSystem_GetFileSize (se_strerror env) fs (CasLayout_GetCasPath (ds_base_dir ds) cas_key)"

definition DataStore_Delete ::
    "StoreEnv \<Rightarrow> DataStore \<Rightarrow> FileSys \<Rightarrow> string \<Rightarrow> FileSys \<times> Status" where
  "DataStore_Delete env ds fs cas_key =
     FileSystem_RemoveFile (se_strerror env) fs (CasLayout_GetCasPath (ds_base_dir ds) cas_key)"

section \<open>Merging\<close>

text \<open>The copy loop for one source blob: read 64 KiB, update the digest, write the chunk.\<close>

lemma write_all_script:
  "write_all fs path data = (fs', r) \<Longrightarrow> length (fs_script fs') \<le> length (fs_script fs)"
proof (induction fs path data rule: write_all.induct)
  case (1 fs path data)
  show ?case
  proof (cases "data = []")
    case True
    with 1(3) show ?thesis by (simp add: write_all.simps)
  next
    case False
    obtain f q where w: "sys_write fs path data = (f, q)" by (cases "sys_write fs path data")
    note p = sys_write_progress [OF w]
    from 1(1) [OF False w [symmetric]] 1(2) [OF False w [symmetric]] 1(3) w p False show ?thesis
      by (cases q) (fastforce simp: write_all.simps [of fs] split: if_splits)+
  qed
qed

function merge_file ::
    "StoreEnv \<Rightarrow> FileSys \<Rightarrow> string \<Rightarrow> string \<Rightarrow> nat \<Rightarrow> SHA256Context \<Rightarrow> FileSys \<times> SHA256Context \<times> string option" where
  "merge_file env fs c tmp pos ctx =
     (case sys_read fs c pos 65536 of
        (fs', Inl e) \<Rightarrow>
          if e = EINTR then merge_file env fs' c tmp pos ctx
          else (fs', ctx, Some (''Read failed: '' @ se_strerror env e))
      | (fs', Inr d) \<Rightarrow>
          if d = [] then (fs', ctx, None)
          else let ctx' = SHA256Context_Update ctx d in
            case write_all fs' tmp d of
              (fs'', Some e) \<Rightarrow> (fs'', ctx', Some (''Write failed: '' @ se_strerror env e))
            | (fs'', None) \<Rightarrow> merge_file env fs'' c tmp (pos + length d) ctx')"
  by pat_completeness auto
termination
proof (relation "measure (\<lambda>(env, fs, c, tmp, pos, ctx). length (fs_script fs) + (length c - pos))",
    goal_cases)
  case 1
  then show ?case by simp
next
  case 2
  then show ?case by (auto dest!: sys_read_progress [OF sym])
next
  case 3
  then show ?case
    using sys_read_progress [OF 3(1) [symmetric]] write_all_script [OF 3(5) [symmetric]]
    by (auto simp flip: length_greater_0_conv)
qed

declare merge_file.simps [simp del]

fun merge_keys ::
    "StoreEnv \<Rightarrow> DataStore \<Rightarrow> FileSys \<Rightarrow> string \<Rightarrow> SHA256Context \<Rightarrow> string list \<Rightarrow> FileSys \<times> SHA256Context Result" where
  "merge_keys env ds fs tmp ctx [] = (fs, Inr ctx)"
| "merge_keys env ds fs tmp ctx (cas_key # ks) =
     (case sys_open fs (CasLayout_GetCasPath (ds_base_dir ds) cas_key) of
        (fs, Inl e) \<Rightarrow> (fst (sys_unlink fs tmp), Err NoSuchKey (''CAS not found: '' @ cas_key))
      | (fs, Inr c) \<Rightarrow>
          (case merge_file env fs c tmp 0 ctx of
             (fs, ctx, Some msg) \<Rightarrow> (fst (sys_unlink fs tmp), Err StorageError msg)
           | (fs, ctx, None) \<Rightarrow> merge_keys env ds fs tmp ctx ks))"

definition DataStore_Merge ::
    "StoreEnv \<Rightarrow> DataStore \<Rightarrow> FileSys \<Rightarrow> string \<Rightarrow> string list \<Rightarrow> FileSys \<times> string Result" where
  "DataStore_Merge env ds fs uuid cas_keys =
     (if cas_keys = [] then (fs, Err InvalidArgument ''No CAS keys to merge'')
      else let tmp_path = tmp_file ds ''merge'' uuid in
        case sys_create fs tmp_path of
          (fs, Inl e) \<Rightarrow> (fs, Err StorageError (''Failed to create merge file: '' @ se_strerror env e))
        | (fs, Inr _) \<Rightarrow>
            (case merge_keys env ds fs tmp_path SHA256Context_new cas_keys of
               (fs, Inl status) \<Rightarrow> (fs, Inl status)
             | (fs, Inr ctx) \<Rightarrow>
                 let fs = fst (sys_call fs);
                     cas_key = SHA256Context_Final (se_sha env) ctx;
                     final_path = CasLayout_GetCasPath (ds_base_dir ds) cas_key;
                     (fs, dup) = FileSystem_FileExists fs final_path
                 in if dup then (fst (sys_unlink fs tmp_path), Inr cas_key)
                    else case FileSystem_CreateDirectories (se_strerror env) fs
                                (CasLayout_GetCasDir (ds_base_dir ds) cas_key) of
                           (fs, status) \<Rightarrow>
                             if \<not> Status_ok status then (fst (sys_unlink fs tmp_path), Inl status)
                             else case FileSystem_AtomicRename (se_strerror env) fs tmp_path final_path of
                                    (fs, status) \<Rightarrow>
                                      if \<not> Status_ok status then (fst (sys_unlink fs tmp_path), Inl status)
                                      else (fs, Inr cas_key)))"

section \<open>Paths\<close>

lemma JoinPath_suffix: "\<exists>p. FileSystem_JoinPath a b = p @ b"
  by (auto simp: FileSystem_JoinPath_def)

lemma GetCasPath_suffix: "\<exists>p. CasLayout_GetCasPath base k = p @ k @ ''.blob''"
  unfolding CasLayout_GetCasPath_def by (rule JoinPath_suffix)

lemma tmp_file_suffix: "\<exists>p. tmp_file ds sub u = p @ ''.part''"
  using JoinPath_suffix [of "FileSystem_JoinPath (ds_tmp_dir ds) sub" "u @ ''.part''"]
  by (auto simp: tmp_file_def)

definition is_tmp :: "string \<Rightarrow> bool" where
  "is_tmp p = suffix ''.part'' p"

lemma is_tmp_file [simp]: "is_tmp (tmp_file ds sub u)"
  using tmp_file_suffix [of ds sub u] by (auto simp: is_tmp_def suffix_def)

lemma is_tmp_not_cas: "is_tmp p \<Longrightarrow> p \<noteq> CasLayout_GetCasPath base k"
  using GetCasPath_suffix [of base k] by (auto simp: is_tmp_def suffix_def)

lemma GetCasPath_inj:
  assumes "CasLayout_GetCasPath base k = CasLayout_GetCasPath base k'" "length k = length k'"
  shows "k = k'"
proof -
  obtain p p' where "CasLayout_GetCasPath base k = p @ k @ ''.blob''"
    "CasLayout_GetCasPath base k' = p' @ k' @ ''.blob''"
    using GetCasPath_suffix by metis
  with assms have "(p @ k) @ ''.blob'' = (p' @ k') @ ''.blob''" by simp
  then have "p @ k = p' @ k'" by (simp only: append_same_eq)
  with assms(2) show ?thesis by simp
qed

lemma valid_key_length: "CasLayout_IsValidCasKey k \<Longrightarrow> length k = 64"
  by (simp add: CasLayout_IsValidCasKey_def split: if_splits)

lemma sha_valid_key:
  "length (sha d) = 32 \<Longrightarrow> CasLayout_IsValidCasKey (Crypto_SHA256 sha d)"
  using ToHexString_lower [of "sha d"]
  by (auto simp: CasLayout_IsValidCasKey_def Crypto_SHA256_def is_lower_hex_def [abs_def])

section \<open>Integrity of the blobs\<close>

definition sha_len :: "StoreEnv \<Rightarrow> bool" where
  "sha_len env \<longleftrightarrow> (\<forall>d. length (se_sha env d) = 32)"

definition digest :: "StoreEnv \<Rightarrow> string \<Rightarrow> string" where
  "digest env d = Crypto_SHA256 (se_sha env) d"

definition blob :: "DataStore \<Rightarrow> FileSys \<Rightarrow> string \<Rightarrow> string option" where
  "blob ds fs k = fs_files fs (CasLayout_GetCasPath (ds_base_dir ds) k)"

text \<open>Every blob under a well-formed key has that key as its digest.\<close>

definition cas_ok :: "StoreEnv \<Rightarrow> DataStore \<Rightarrow> FileSys \<Rightarrow> bool" where
  "cas_ok env ds fs \<longleftrightarrow>
     (\<forall>k c. CasLayout_IsValidCasKey k \<longrightarrow> blob ds fs k = Some c \<longrightarrow> digest env c = k)"

text \<open>A live session: its temporary file holds the bytes fed to its digest.\<close>

definition ws_ok :: "FileSys \<Rightarrow> WriteSession \<Rightarrow> bool" where
  "ws_ok fs s \<longleftrightarrow> \<not> ws_finished s \<and> is_tmp (ws_tmp_path s) \<and>
     fs_files fs (ws_tmp_path s) = Some (sha_data (ws_sha256_ctx s))"

lemma digest_valid [simp]: "sha_len env \<Longrightarrow> CasLayout_IsValidCasKey (digest env d)"
  by (simp add: digest_def sha_len_def sha_valid_key)

lemma blob_same_except_tmp: "same_except {p} fs fs' \<Longrightarrow> is_tmp p \<Longrightarrow> blob ds fs' k = blob ds fs k"
  using is_tmp_not_cas [of p "ds_base_dir ds" k] by (auto simp: blob_def same_except_def)

lemma cas_ok_blob_cong: "(\<And>k. blob ds fs' k = blob ds fs k) \<Longrightarrow> cas_ok env ds fs \<Longrightarrow> cas_ok env ds fs'"
  by (simp add: cas_ok_def)

lemma cas_ok_fewer:
  assumes "cas_ok env ds fs" "\<And>k c. blob ds fs' k = Some c \<Longrightarrow> blob ds fs k = Some c"
  shows "cas_ok env ds fs'"
  using assms unfolding cas_ok_def by blast

text \<open>Storing a file under its digest.\<close>

lemma blob_rename:
  assumes "fs_files fs' = (fs_files fs)(tmp := None, CasLayout_GetCasPath (ds_base_dir ds) k \<mapsto> c)"
    "is_tmp tmp" "CasLayout_IsValidCasKey k" "CasLayout_IsValidCasKey k'"
  shows "blob ds fs' k' = (if k' = k then Some c else blob ds fs k')"
proof -
  have "CasLayout_GetCasPath (ds_base_dir ds) k' = CasLayout_GetCasPath (ds_base_dir ds) k \<longleftrightarrow> k' = k"
    using GetCasPath_inj [of "ds_base_dir ds" k' k] assms(3,4) valid_key_length by auto
  moreover have "CasLayout_GetCasPath (ds_base_dir ds) k' \<noteq> tmp" using is_tmp_not_cas assms(2) by metis
  ultimately show ?thesis using assms(1) by (simp add: blob_def)
qed

text \<open>What a commit (or the end of a merge) does with a complete temporary file: an error leaves
  every other file alone; success leaves a blob under the digest, the bytes of the temporary file
  unless one was there already.\<close>

definition stored :: "StoreEnv \<Rightarrow> DataStore \<Rightarrow> FileSys \<Rightarrow> string \<Rightarrow> string \<Rightarrow> FileSys \<Rightarrow> string Result \<Rightarrow> bool" where
  "stored env ds fs tmp data fs' r \<longleftrightarrow>
     (case r of
        Inl _ \<Rightarrow> same_except {tmp} fs fs'
      | Inr k \<Rightarrow> k = digest env data \<and>
          same_except {tmp, CasLayout_GetCasPath (ds_base_dir ds) k} fs fs' \<and>
          (blob ds fs' k = Some data \<or> blob ds fs' k = blob ds fs k \<and> blob ds fs k \<noteq> None))"

lemma stored_cas_ok:
  assumes st: "stored env ds fs tmp data fs' r" and tmp: "is_tmp tmp" and len: "sha_len env"
    and ok: "cas_ok env ds fs"
  shows "cas_ok env ds fs'"
proof (cases r)
  case (Inl e)
  with st have "same_except {tmp} fs fs'" by (simp add: stored_def)
  from blob_same_except_tmp [OF this tmp] show ?thesis using ok by (rule cas_ok_blob_cong)
next
  case (Inr k)
  let ?p = "CasLayout_GetCasPath (ds_base_dir ds)"
  from st Inr have k: "k = digest env data" and same: "same_except {tmp, ?p k} fs fs'"
    and b: "blob ds fs' k = Some data \<or> blob ds fs' k = blob ds fs k" by (auto simp: stored_def)
  show ?thesis unfolding cas_ok_def
  proof (intro allI impI)
    fix k' c assume v: "CasLayout_IsValidCasKey k'" and c: "blob ds fs' k' = Some c"
    show "digest env c = k'"
    proof (cases "k' = k")
      case True
      then show ?thesis using b c k v ok unfolding cas_ok_def by auto
    next
      case False
      have "?p k' \<noteq> ?p k" using GetCasPath_inj False v valid_key_length digest_valid [OF len] k by metis
      moreover have "?p k' \<noteq> tmp" using is_tmp_not_cas tmp by metis
      ultimately have "blob ds fs k' = Some c" using same c by (simp add: blob_def same_except_def)
      then show ?thesis using ok v unfolding cas_ok_def by blast
    qed
  qed
qed

lemma rename_into_store:
  assumes rn: "FileSystem_AtomicRename se fs tmp (CasLayout_GetCasPath (ds_base_dir ds) k) = (fs', s)"
    and ok: "Status_ok s" and f: "fs_files fs tmp = Some data" and k: "k = digest env data"
  shows "stored env ds fs tmp data fs' (Inr k)"
  using AtomicRename_files [OF rn] ok f k
  by (auto simp: stored_def same_except_def blob_def)

lemma stored_cong:
  assumes "fs_files fs1 = fs_files fs" "stored env ds fs1 tmp data fs' r"
  shows "stored env ds fs tmp data fs' r"
  using assms by (cases r) (auto simp: stored_def same_except_def blob_def)

lemma dedup_stored:
  assumes "same_except {tmp} fs fs'" "is_tmp tmp" "k = digest env data" "blob ds fs k \<noteq> None"
  shows "stored env ds fs tmp data fs' (Inr k)"
  using assms blob_same_except_tmp [OF assms(1,2), of ds k]
  by (auto simp: stored_def same_except_def)

lemma Finish_ok:
  assumes "\<not> ws_finished s"
  obtains f where "WriteSession_Finish env m fs s =
      (f, s\<lparr>ws_finished := True, ws_fd := False\<rparr>, Inr (digest env (sha_data (ws_sha256_ctx s))))"
    "fs_files f = fs_files fs"
proof -
  let ?f = "if m = FSYNC \<or> m = FDATASYNC then fst (sys_call fs) else fs"
  have "fs_files ?f = fs_files fs" using sys_call_files [of fs] by (cases "sys_call fs") auto
  with that [of ?f] assms show thesis by (simp add: WriteSession_Finish_def digest_def Let_def)
qed

lemma CommitWrite_stored:
  assumes ws: "ws_ok fs s" and c: "DataStore_CommitWrite env ds fs s expected = (fs', r)"
  shows "stored env ds fs (ws_tmp_path s) (sha_data (ws_sha256_ctx s)) fs' r"
proof -
  let ?t = "ws_tmp_path s" and ?d = "sha_data (ws_sha256_ctx s)"
  let ?k = "digest env ?d" and ?se = "se_strerror env"
  let ?p = "CasLayout_GetCasPath (ds_base_dir ds) ?k"
  from ws have t: "is_tmp ?t" "fs_files fs ?t = Some ?d" "\<not> ws_finished s" by (auto simp: ws_ok_def)
  obtain f where fin: "WriteSession_Finish env (ds_sync_mode ds) fs s =
      (f, s\<lparr>ws_finished := True, ws_fd := False\<rparr>, Inr ?k)" and f: "fs_files f = fs_files fs"
    using Finish_ok [OF t(3)] by metis
  have rem: "same_except {?t} fs (fst (FileSystem_RemoveFile ?se g ?t))" if "fs_files g = fs_files fs" for g
    using RemoveFile_files [of ?se g ?t] that
    by (cases "FileSystem_RemoveFile ?se g ?t") (simp add: same_except_def)
  obtain f2 dup where fe: "FileSystem_FileExists f ?p = (f2, dup)" by (cases "FileSystem_FileExists f ?p")
  note f2 = FileExists_files [OF fe]
  obtain f3 st where cd: "FileSystem_CreateDirectories ?se f2 (CasLayout_GetCasDir (ds_base_dir ds) ?k) = (f3, st)"
    by (cases "FileSystem_CreateDirectories ?se f2 (CasLayout_GetCasDir (ds_base_dir ds) ?k)")
  obtain f4 st4 where rn: "FileSystem_AtomicRename ?se f3 ?t ?p = (f4, st4)"
    by (cases "FileSystem_AtomicRename ?se f3 ?t ?p")
  have f3: "fs_files f2 = fs_files fs" "fs_files f3 = fs_files fs" using f f2 CreateDirectories_files [OF cd] by auto
  consider (bad) "expected \<noteq> [] \<and> ?k \<noteq> expected"
    | (dup) "\<not> (expected \<noteq> [] \<and> ?k \<noteq> expected)" dup
    | (dir) "\<not> (expected \<noteq> [] \<and> ?k \<noteq> expected)" "\<not> dup" "\<not> Status_ok st"
    | (ren) "\<not> (expected \<noteq> [] \<and> ?k \<noteq> expected)" "\<not> dup" "Status_ok st" "\<not> Status_ok st4"
    | (ok) "\<not> (expected \<noteq> [] \<and> ?k \<noteq> expected)" "\<not> dup" "Status_ok st" "Status_ok st4" by blast
  then show ?thesis
  proof cases
    case bad
    with c fin rem [OF f] show ?thesis by (auto simp: DataStore_CommitWrite_def Err_def stored_def)
  next
    case dup
    then have "blob ds fs ?k \<noteq> None" using f2 f by (simp add: blob_def)
    with dup c fin fe dedup_stored [OF rem [OF f3(1)] t(1)] show ?thesis
      by (auto simp: DataStore_CommitWrite_def Let_def)
  next
    case dir
    with c fin fe cd rem [OF f3(2)] show ?thesis
      by (auto simp: DataStore_CommitWrite_def Let_def stored_def)
  next
    case ren
    then have "fs_files f4 = fs_files fs" using AtomicRename_files [OF rn] f3 by simp
    with ren c fin fe cd rn rem show ?thesis
      by (auto simp: DataStore_CommitWrite_def Let_def stored_def)
  next
    case ok
    have "fs_files f3 ?t = Some ?d" using f3 t(2) by simp
    from stored_cong [OF f3(2) rename_into_store [OF rn ok(4) this refl]] ok c fin fe cd rn
    show ?thesis by (auto simp: DataStore_CommitWrite_def Let_def)
  qed
qed

section \<open>Sessions, merges and reads\<close>

lemma BeginWrite_files:
  assumes "DataStore_BeginWrite env ds fs u = (fs', r)"
  shows "case r of Inl _ \<Rightarrow> fs_files fs' = fs_files fs
    | Inr s \<Rightarrow> s = WriteSession_new (tmp_file ds ''upload'' u) \<and> fs_files fs (tmp_file ds ''upload'' u) = None \<and>
        fs_files fs' = (fs_files fs)(tmp_file ds ''upload'' u \<mapsto> [])"
  using assms by (auto simp: DataStore_BeginWrite_def Let_def Err_def split: prod.splits sum.splits
      dest!: sys_create_files)

lemma BeginWrite_ws_ok: "DataStore_BeginWrite env ds fs u = (fs', Inr s) \<Longrightarrow> ws_ok fs' s"
  by (drule BeginWrite_files) (simp add: ws_ok_def WriteSession_new_def)

lemma WriteSession_Write_files:
  assumes "WriteSession_Write env fs s data = (fs', s', st)" "ws_ok fs s"
  shows "same_except {ws_tmp_path s} fs fs'" "ws_tmp_path s' = ws_tmp_path s"
    "Status_ok st \<Longrightarrow> ws_ok fs' s' \<and> sha_data (ws_sha256_ctx s') = sha_data (ws_sha256_ctx s) @ data"
    "\<not> Status_ok st \<Longrightarrow> s' = s"
proof -
  obtain f q where w: "write_all fs (ws_tmp_path s) data = (f, q)" by (cases "write_all fs (ws_tmp_path s) data")
  from assms w have r: "fs' = f \<and> s' = (if q = None then s\<lparr>ws_sha256_ctx := SHA256Context_Update (ws_sha256_ctx s) data,
      ws_bytes_written := size_add (ws_bytes_written s) (length data)\<rparr> else s) \<and> (Status_ok st \<longleftrightarrow> q = None)"
    by (auto simp: WriteSession_Write_def ws_ok_def split: option.splits)
  then show "same_except {ws_tmp_path s} fs fs'" "ws_tmp_path s' = ws_tmp_path s" "\<not> Status_ok st \<Longrightarrow> s' = s"
    using write_all_files [OF w] by auto
  assume "Status_ok st"
  with r w assms(2) write_all_ok [of fs "ws_tmp_path s" data f]
  show "ws_ok fs' s' \<and> sha_data (ws_sha256_ctx s') = sha_data (ws_sha256_ctx s) @ data"
    by (auto simp: ws_ok_def)
qed

lemma destroy_files: "same_except {ws_tmp_path s} fs (WriteSession_destroy fs s)"
  by (cases "sys_unlink fs (ws_tmp_path s)")
     (auto simp: WriteSession_destroy_def WriteSession_Abort_def Let_def same_except_def
       split: sum.splits dest!: sys_unlink_files)

lemma DataStore_Write_stored:
  assumes "DataStore_Write env ds fs u data = (fs', r)"
  shows "(\<exists>e. r = Inl e) \<and> same_except {tmp_file ds ''upload'' u} fs fs' \<or>
    (\<exists>f. same_except {tmp_file ds ''upload'' u} fs f \<and> stored env ds f (tmp_file ds ''upload'' u) data fs' r)"
proof -
  let ?t = "tmp_file ds ''upload'' u"
  obtain f1 q where b: "DataStore_BeginWrite env ds fs u = (f1, q)" by (cases "DataStore_BeginWrite env ds fs u")
  note bf = BeginWrite_files [OF b]
  show ?thesis
  proof (cases q)
    case (Inl e)
    with assms b bf show ?thesis by (auto simp: DataStore_Write_def same_except_def)
  next
    case (Inr s)
    obtain f2 s2 st where w: "WriteSession_Write env f1 s data = (f2, s2, st)"
      by (cases "WriteSession_Write env f1 s data")
    have ok: "ws_ok f1 s" using b Inr BeginWrite_ws_ok by simp
    note wf = WriteSession_Write_files [OF w ok]
    have s: "ws_tmp_path s = ?t" "sha_data (ws_sha256_ctx s) = []" using bf Inr by (simp_all add: WriteSession_new_def)
    have same: "same_except {?t} fs f2"
      using bf Inr wf(1) s by (auto simp: same_except_def)
    show ?thesis
    proof (cases "Status_ok st")
      case True
      with assms b Inr w have "DataStore_CommitWrite env ds f2 s2 '''' = (fs', r)"
        by (simp add: DataStore_Write_def)
      moreover have "ws_ok f2 s2" "sha_data (ws_sha256_ctx s2) = data" using wf(3) True s by auto
      ultimately have "stored env ds f2 ?t data fs' r" using CommitWrite_stored wf(2) s by metis
      with same show ?thesis by blast
    next
      case False
      with assms b Inr w have "fs' = WriteSession_destroy f2 s2" "r = Inl st"
        by (simp_all add: DataStore_Write_def)
      with same destroy_files [of s2 f2] wf(2) s have "same_except {?t} fs fs'"
        by (auto intro: same_except_trans)
      with \<open>r = Inl st\<close> show ?thesis by blast
    qed
  qed
qed

lemma merge_file_files:
  "merge_file env fs c tmp pos ctx = (fs', ctx', r) \<Longrightarrow> fs_files fs tmp = Some (sha_data ctx) \<Longrightarrow>
   same_except {tmp} fs fs' \<and>
   (r = None \<longrightarrow> sha_data ctx' = sha_data ctx @ drop pos c \<and> fs_files fs' tmp = Some (sha_data ctx'))"
proof (induction env fs c tmp pos ctx rule: merge_file.induct)
  case (1 env fs c tmp pos ctx)
  obtain f q where rd: "sys_read fs c pos 65536 = (f, q)" by (cases "sys_read fs c pos 65536")
  note rf = sys_read_spec [OF rd]
  show ?case
  proof (cases q)
    case (Inl e)
    show ?thesis
    proof (cases "e = EINTR")
      case True
      with 1 rd Inl rf(1) show ?thesis
        by (simp add: merge_file.simps [of env fs] same_except_def)
    next
      case False
      with 1(3) rd Inl rf(1) show ?thesis by (auto simp: merge_file.simps [of env fs] same_except_def)
    qed
  next
    case (Inr d)
    note d = rf(2) [OF Inr]
    show ?thesis
    proof (cases "d = []")
      case True
      with 1(3,4) rd Inr rf(1) d show ?thesis
        by (auto simp: merge_file.simps [of env fs] same_except_def)
    next
      case False
      obtain g w where wr: "write_all f tmp d = (g, w)" by (cases "write_all f tmp d")
      have same: "same_except {tmp} fs g" using write_all_files [OF wr] rf(1) by (simp add: same_except_def)
      show ?thesis
      proof (cases w)
        case (Some e)
        with 1(3) rd Inr False wr same show ?thesis by (auto simp: merge_file.simps [of env fs])
      next
        case None
        have g: "fs_files g tmp = Some (sha_data ctx @ d)"
          using write_all_ok [of f tmp d g "sha_data ctx"] wr None rf(1) 1(4) by simp
        have "merge_file env g c tmp (pos + length d) (SHA256Context_Update ctx d) = (fs', ctx', r)"
          using 1(3) rd Inr False wr None by (simp add: merge_file.simps [of env fs])
        from 1(2) [OF rd [symmetric] Inr False refl wr [symmetric] None this] g
        have ih: "same_except {tmp} g fs' \<and> (r = None \<longrightarrow> sha_data ctx' =
            (sha_data ctx @ d) @ drop (pos + length d) c \<and> fs_files fs' tmp = Some (sha_data ctx'))" by simp
        have "d @ drop (pos + length d) c = drop pos c"
          using d append_take_drop_id [of "length d" "drop pos c"] by (simp add: add.commute)
        with ih same show ?thesis by (auto intro: same_except_trans)
      qed
    qed
  qed
qed

lemma merge_keys_files:
  "merge_keys env ds fs tmp ctx ks = (fs', r) \<Longrightarrow> fs_files fs tmp = Some (sha_data ctx) \<Longrightarrow> is_tmp tmp \<Longrightarrow>
   same_except {tmp} fs fs' \<and>
   (\<forall>ctx'. r = Inr ctx' \<longrightarrow> fs_files fs' tmp = Some (sha_data ctx') \<and>
      (\<exists>cs. map (blob ds fs) ks = map Some cs \<and> sha_data ctx' = sha_data ctx @ concat cs))"
proof (induction ks arbitrary: fs ctx)
  case Nil
  then show ?case by auto
next
  case (Cons k ks)
  have un: "same_except {tmp} f (fst (sys_unlink f tmp))" for f
    using sys_unlink_files [of f tmp] by (cases "sys_unlink f tmp") (auto simp: same_except_def split: sum.splits)
  obtain f q where op: "sys_open fs (CasLayout_GetCasPath (ds_base_dir ds) k) = (f, q)"
    by (cases "sys_open fs (CasLayout_GetCasPath (ds_base_dir ds) k)")
  note of = sys_open_files [OF op]
  show ?case
  proof (cases q)
    case (Inl e)
    with Cons.prems op of un [of f] show ?thesis by (auto simp: same_except_def Err_def)
  next
    case (Inr c)
    obtain g ctx1 m where mf: "merge_file env f c tmp 0 ctx = (g, ctx1, m)" by (cases "merge_file env f c tmp 0 ctx")
    have "fs_files f tmp = Some (sha_data ctx)" using of Cons.prems(2) by simp
    note mm = merge_file_files [OF mf this]
    have same: "same_except {tmp} fs g" using mm of by (simp add: same_except_def)
    show ?thesis
    proof (cases m)
      case (Some msg)
      with Cons.prems(1) op Inr mf un [of g] same show ?thesis by (auto simp: Err_def intro: same_except_trans)
    next
      case None
      with Cons.prems(1) op Inr mf have "merge_keys env ds g tmp ctx1 ks = (fs', r)" by simp
      from Cons.IH [OF this _ Cons.prems(3)] mm None
      have ih: "same_except {tmp} g fs' \<and> (\<forall>ctx'. r = Inr ctx' \<longrightarrow> fs_files fs' tmp = Some (sha_data ctx') \<and>
        (\<exists>cs. map (blob ds g) ks = map Some cs \<and> sha_data ctx' = sha_data ctx1 @ concat cs))" by simp
      have bg: "map (blob ds g) ks = map (blob ds fs) ks"
        using blob_same_except_tmp [OF same Cons.prems(3)] by simp
      have bk: "blob ds fs k = Some c" using of Inr by (simp add: blob_def)
      have ctx1: "sha_data ctx1 = sha_data ctx @ c" using mm None by simp
      show ?thesis
      proof (intro conjI allI impI)
        show "same_except {tmp} fs fs'" using ih same by (auto intro: same_except_trans)
        fix ctx' assume "r = Inr ctx'"
        with ih bg obtain cs where "fs_files fs' tmp = Some (sha_data ctx')"
          "map (blob ds fs) ks = map Some cs" "sha_data ctx' = sha_data ctx1 @ concat cs" by auto
        with bk ctx1 have "fs_files fs' tmp = Some (sha_data ctx') \<and> map (blob ds fs) (k # ks) = map Some (c # cs) \<and>
            sha_data ctx' = sha_data ctx @ concat (c # cs)" by simp
        then show "fs_files fs' tmp = Some (sha_data ctx')"
          "\<exists>cs. map (blob ds fs) (k # ks) = map Some cs \<and> sha_data ctx' = sha_data ctx @ concat cs" by blast+
      qed
    qed
  qed
qed

lemma read_loop_prefix:
  "read_loop fs c n data = (fs', Inr d) \<Longrightarrow> data = take (length data) c \<Longrightarrow> n = length c \<Longrightarrow> d = c"
proof (induction fs c n data rule: read_loop.induct)
  case (1 fs c n data)
  show ?case
  proof (cases "length data < n")
    case True
    obtain f q where rd: "sys_read fs c (length data) (n - length data) = (f, q)"
      by (cases "sys_read fs c (length data) (n - length data)")
    show ?thesis
    proof (cases q)
      case (Inl e)
      with 1(1) [OF True rd [symmetric] Inl] 1(3-5) True rd show ?thesis
        by (simp add: read_loop.simps [of fs] split: if_splits)
    next
      case (Inr x)
      note x = sys_read_spec(2) [OF rd Inr]
      show ?thesis
      proof (cases "x = []")
        case True
        with x 1(4,5) \<open>length data < n\<close> show ?thesis by auto
      next
        case False
        have "take (length (data @ x)) c = take (length data) c @ take (length x) (drop (length data) c)"
          by (simp add: take_add)
        with x 1(4) have "data @ x = take (length (data @ x)) c" by simp
        with 1(2) [OF True rd [symmetric] Inr False] 1(3,5) True rd Inr False show ?thesis
          by (simp add: read_loop.simps [of fs])
      qed
    qed
  next
    case False
    with 1(3-5) show ?thesis by (simp add: read_loop.simps [of fs])
  qed
qed

lemma read_loop_all: "read_loop fs c (length c) [] = (fs', Inr d) \<Longrightarrow> d = c"
  using read_loop_prefix [of fs c "length c" "[]" fs' d] by simp

lemma Read_blob:
  assumes "DataStore_Read env ds fs k = (fs', Inr d)"
  shows "blob ds fs k = Some d"
  using assms by (auto simp: DataStore_Read_def blob_def Err_def split: prod.splits sum.splits
      dest!: sys_open_files read_loop_all)

text \<open>Without faults, reading an existing blob succeeds.\<close>

lemma no_fault_read: "fs_script fs = [] \<Longrightarrow> sys_read fs c pos n = (fs, Inr (take n (drop pos c)))"
  by (simp add: sys_read_def next_outcome_def)

lemma Read_no_fault:
  assumes "fs_script fs = []" "blob ds fs k = Some c"
  shows "DataStore_Read env ds fs k = (fs, Inr c)"
proof -
  have "read_loop fs c (length c) [] = (fs, Inr c)"
  proof (cases "c = []")
    case True
    then show ?thesis by (simp add: read_loop.simps)
  next
    case False
    then show ?thesis using no_fault_read [OF assms(1), of c 0 "length c"]
      by (simp add: read_loop.simps [of fs c "length c" "[]"] read_loop.simps [of fs c "length c" c])
  qed
  with assms show ?thesis
    by (simp add: DataStore_Read_def sys_open_def sys_call_def next_outcome_def blob_def)
qed

lemma unlink_same: "same_except {t} g f \<Longrightarrow> same_except {t} g (fst (sys_unlink f t))"
proof -
  assume s: "same_except {t} g f"
  obtain f' r where u: "sys_unlink f t = (f', r)" by (cases "sys_unlink f t")
  from sys_unlink_files [OF u] s u show ?thesis by (cases r) (auto simp: same_except_def)
qed

lemma merge_tail_stored:
  assumes d: "fs_files f2 t = Some data" and f3: "fs_files f3 = fs_files f2" and t: "is_tmp t"
    and k: "k = digest env data"
    and fe: "FileSystem_FileExists f3 (CasLayout_GetCasPath (ds_base_dir ds) k) = (f4, dup)"
    and cd: "FileSystem_CreateDirectories se f4 dir = (f5, st)"
    and rn: "FileSystem_AtomicRename se f5 t (CasLayout_GetCasPath (ds_base_dir ds) k) = (f6, st6)"
    and res: "(fs', r) = (if dup then (fst (sys_unlink f4 t), Inr k)
          else if \<not> Status_ok st then (fst (sys_unlink f5 t), Inl st)
          else if \<not> Status_ok st6 then (fst (sys_unlink f6 t), Inl st6) else (f6, Inr k))"
  shows "stored env ds f2 t data fs' r"
proof -
  have f4: "fs_files f4 = fs_files f2" using FileExists_files [OF fe] f3 by simp
  have f5: "fs_files f5 = fs_files f2" using CreateDirectories_files [OF cd] f4 by simp
  have s: "same_except {t} f2 f4" "same_except {t} f2 f5" using f4 f5 by (simp_all add: same_except_def)
  note u = s [THEN unlink_same]
  consider (dup) dup | (dir) "\<not> dup" "\<not> Status_ok st" | (ren) "\<not> dup" "Status_ok st" "\<not> Status_ok st6"
    | (ok) "\<not> dup" "Status_ok st" "Status_ok st6" by blast
  then show ?thesis
  proof cases
    case dup
    then have "blob ds f2 k \<noteq> None" using FileExists_files [OF fe] f3 by (simp add: blob_def)
    from dedup_stored [OF u(1) t k this] show ?thesis using res dup by simp
  next
    case dir
    then show ?thesis using res u(2) by (simp add: stored_def)
  next
    case ren
    then have "fs_files f6 = fs_files f2" using AtomicRename_files [OF rn] f5 by simp
    then have "same_except {t} f2 f6" by (simp add: same_except_def)
    from unlink_same [OF this] show ?thesis using res ren by (simp add: stored_def)
  next
    case ok
    have "fs_files f5 t = Some data" using f5 d by simp
    from stored_cong [OF f5 rename_into_store [OF rn ok(3) this k]] show ?thesis using res ok by simp
  qed
qed

lemma Merge_stored:
  assumes M: "DataStore_Merge env ds fs u ks = (fs', r)"
  shows "(\<exists>e. r = Inl e) \<and> same_except {tmp_file ds ''merge'' u} fs fs' \<or>
    (\<exists>f cs. same_except {tmp_file ds ''merge'' u} fs f \<and> map (blob ds fs) ks = map Some cs \<and> ks \<noteq> [] \<and>
       stored env ds f (tmp_file ds ''merge'' u) (concat cs) fs' r)"
proof (cases "ks = []")
  case True
  with M show ?thesis by (auto simp: DataStore_Merge_def Err_def)
next
  case ne: False
  define t where "t = tmp_file ds ''merge'' u"
  have t: "is_tmp t" by (simp add: t_def)
  obtain f1 q where cr: "sys_create fs t = (f1, q)" by (cases "sys_create fs t")
  note cf = sys_create_files [OF cr]
  obtain f2 m where mk: "merge_keys env ds f1 t SHA256Context_new ks = (f2, m)"
    by (cases "merge_keys env ds f1 t SHA256Context_new ks")
  note M' = M [unfolded DataStore_Merge_def t_def [symmetric] Let_def cr mk prod.case]
  show ?thesis
  proof (cases q)
    case (Inl e)
    with M' ne cf show ?thesis by (auto simp: Err_def same_except_def)
  next
    case (Inr x)
    have s1: "same_except {t} fs f1" and f1: "fs_files f1 t = Some []" using cf Inr by (auto simp: same_except_def)
    have b1: "map (blob ds f1) ks = map (blob ds fs) ks" using blob_same_except_tmp [OF s1 t] by simp
    have "fs_files f1 t = Some (sha_data SHA256Context_new)" using f1 by simp
    note mf = merge_keys_files [OF mk this t, unfolded b1]
    have s2: "same_except {t} fs f2" using same_except_trans [OF s1] mf by blast
    show ?thesis
    proof (cases m)
      case m: (Inl e)
      with M' ne Inr s2 show ?thesis unfolding t_def [symmetric] by auto
    next
      case m: (Inr ctx)
      with mf obtain cs where d: "fs_files f2 t = Some (concat cs)" "sha_data ctx = concat cs"
        "map (blob ds fs) ks = map Some cs" by auto
      have k: "SHA256Context_Final (se_sha env) ctx = digest env (concat cs)" using d(2) by (simp add: digest_def)
      let ?k = "digest env (concat cs)"
      let ?p = "CasLayout_GetCasPath (ds_base_dir ds) ?k"
      define f3 where "f3 = fst (sys_call f2)"
      have f3: "fs_files f3 = fs_files f2" using sys_call_files [of f2] by (cases "sys_call f2") (auto simp: f3_def)
      obtain f4 dup where fe: "FileSystem_FileExists f3 ?p = (f4, dup)" by (cases "FileSystem_FileExists f3 ?p")
      obtain f5 st where cd: "FileSystem_CreateDirectories (se_strerror env) f4
          (CasLayout_GetCasDir (ds_base_dir ds) ?k) = (f5, st)"
        by (cases "FileSystem_CreateDirectories (se_strerror env) f4 (CasLayout_GetCasDir (ds_base_dir ds) ?k)")
      obtain f6 st6 where rn: "FileSystem_AtomicRename (se_strerror env) f5 t ?p = (f6, st6)"
        by (cases "FileSystem_AtomicRename (se_strerror env) f5 t ?p")
      have "(fs', r) = (if dup then (fst (sys_unlink f4 t), Inr ?k)
          else if \<not> Status_ok st then (fst (sys_unlink f5 t), Inl st)
          else if \<not> Status_ok st6 then (fst (sys_unlink f6 t), Inl st6) else (f6, Inr ?k))"
        using M' [unfolded Inr m sum.case f3_def [symmetric] k fe cd rn prod.case] ne by simp
      from merge_tail_stored [OF d(1) f3 t refl fe cd rn this] s2 d(3) ne show ?thesis
        unfolding t_def [symmetric] by blast
    qed
  qed
qed

end
