(* ===== verification/Cas_Integrity.thy ===== *)
theory Cas_Integrity
  imports Data_Store
begin

text \<open>
  The content-addressed store under interleaving and failures: the step relation of upload
  sessions, writes, merges and deletions over the definitions of \<open>Data_Store\<close>, its invariant (as an
  interpretation of \<open>step_invariant\<close>), the runs without faults, and the store's properties.
\<close>

section \<open>Interleaved sessions\<close>

text \<open>The store as the server's threads see it: the file system and the open sessions. Steps of
  different sessions, whole \<open>Write\<close>s and \<open>Merge\<close>s, deletions and changes of the outcome of the next
  system calls interleave. A session whose write fails is dropped, as the upload path does.\<close>

record StoreSys =
  ss_fs :: FileSys
  ss_sessions :: "nat \<rightharpoonup> WriteSession"

inductive store_step :: "StoreEnv \<Rightarrow> DataStore \<Rightarrow> StoreSys \<Rightarrow> StoreSys \<Rightarrow> bool"
  for env :: StoreEnv and ds :: DataStore where
  begin_ok: "\<lbrakk>ss_sessions S i = None; DataStore_BeginWrite env ds (ss_fs S) u = (fs, Inr s)\<rbrakk> \<Longrightarrow>
     store_step env ds S \<lparr>ss_fs = fs, ss_sessions = (ss_sessions S)(i \<mapsto> s)\<rparr>"
| begin_err: "DataStore_BeginWrite env ds (ss_fs S) u = (fs, Inl e) \<Longrightarrow>
     store_step env ds S (S\<lparr>ss_fs := fs\<rparr>)"
| chunk_ok: "\<lbrakk>ss_sessions S i = Some s; WriteSession_Write env (ss_fs S) s data = (fs, s', st); Status_ok st\<rbrakk> \<Longrightarrow>
     store_step env ds S \<lparr>ss_fs = fs, ss_sessions = (ss_sessions S)(i \<mapsto> s')\<rparr>"
| chunk_err: "\<lbrakk>ss_sessions S i = Some s; WriteSession_Write env (ss_fs S) s data = (fs, s', st); \<not> Status_ok st\<rbrakk> \<Longrightarrow>
     store_step env ds S \<lparr>ss_fs = WriteSession_destroy fs s', ss_sessions = (ss_sessions S)(i := None)\<rparr>"
| commit: "\<lbrakk>ss_sessions S i = Some s; DataStore_CommitWrite env ds (ss_fs S) s expected = (fs, r)\<rbrakk> \<Longrightarrow>
     store_step env ds S \<lparr>ss_fs = fs, ss_sessions = (ss_sessions S)(i := None)\<rparr>"
| abort: "ss_sessions S i = Some s \<Longrightarrow>
     store_step env ds S \<lparr>ss_fs = WriteSession_destroy (ss_fs S) s, ss_sessions = (ss_sessions S)(i := None)\<rparr>"
| put: "DataStore_Write env ds (ss_fs S) u data = (fs, r) \<Longrightarrow>
     store_step env ds S (S\<lparr>ss_fs := fs\<rparr>)"
| merge: "DataStore_Merge env ds (ss_fs S) u ks = (fs, r) \<Longrightarrow>
     store_step env ds S (S\<lparr>ss_fs := fs\<rparr>)"
| delete: "DataStore_Delete env ds (ss_fs S) k = (fs, st) \<Longrightarrow> store_step env ds S (S\<lparr>ss_fs := fs\<rparr>)"
| faults: "store_step env ds S (S\<lparr>ss_fs := (ss_fs S)\<lparr>fs_script := script\<rparr>\<rparr>)"

inductive_cases store_step_cases: "store_step env ds S T"

definition store_init :: "StoreSys \<Rightarrow> bool" where
  "store_init S \<longleftrightarrow> fs_files (ss_fs S) = Map.empty \<and> ss_sessions S = Map.empty"

definition store_inv :: "StoreEnv \<Rightarrow> DataStore \<Rightarrow> StoreSys \<Rightarrow> bool" where
  "store_inv env ds S \<longleftrightarrow> cas_ok env ds (ss_fs S) \<and>
     (\<forall>i s. ss_sessions S i = Some s \<longrightarrow> ws_ok (ss_fs S) s) \<and>
     (\<forall>i j s s'. ss_sessions S i = Some s \<longrightarrow> ss_sessions S j = Some s' \<longrightarrow> ws_tmp_path s = ws_tmp_path s' \<longrightarrow> i = j)"

lemma store_inv_frame:
  assumes "store_inv env ds S" "cas_ok env ds fs'"
    "\<And>i s. m i = Some s \<Longrightarrow> ss_sessions S i = Some s \<and>
       fs_files fs' (ws_tmp_path s) = fs_files (ss_fs S) (ws_tmp_path s)"
  shows "store_inv env ds \<lparr>ss_fs = fs', ss_sessions = m\<rparr>"
  using assms unfolding store_inv_def ws_ok_def by (simp, blast)

lemma stored_tmp:
  "stored env ds fs t d fs' r \<Longrightarrow> is_tmp p \<Longrightarrow> p \<noteq> t \<Longrightarrow> fs_files fs' p = fs_files fs p"
  using is_tmp_not_cas by (cases r) (auto simp: stored_def same_except_def)

lemma create_busy:
  "fs_files fs p \<noteq> None \<Longrightarrow> \<exists>fs' e. sys_create fs p = (fs', Inl e) \<and> fs_files fs' = fs_files fs"
  using sys_create_files [of fs p] by (cases "sys_create fs p"; cases "snd (sys_create fs p)") auto

lemma Write_busy:
  assumes "fs_files fs (tmp_file ds ''upload'' u) \<noteq> None" "DataStore_Write env ds fs u data = (fs', r)"
  shows "fs_files fs' = fs_files fs"
  using create_busy [OF assms(1)] assms(2)
  by (auto simp: DataStore_Write_def DataStore_BeginWrite_def Let_def Err_def)

lemma Merge_busy:
  assumes "fs_files fs (tmp_file ds ''merge'' u) \<noteq> None" "DataStore_Merge env ds fs u ks = (fs', r)"
  shows "fs_files fs' = fs_files fs"
  using create_busy [OF assms(1)] assms(2)
  by (auto simp: DataStore_Merge_def Let_def Err_def split: if_splits)

lemma same_tmp_cas_ok: "same_except {t} fs fs' \<Longrightarrow> is_tmp t \<Longrightarrow> cas_ok env ds fs \<Longrightarrow> cas_ok env ds fs'"
  using blob_same_except_tmp cas_ok_blob_cong by metis

lemma Write_frame:
  assumes len: "sha_len env" and ok: "cas_ok env ds fs" and w: "DataStore_Write env ds fs u data = (fs', r)"
  shows "cas_ok env ds fs'" "is_tmp p \<Longrightarrow> fs_files fs p \<noteq> None \<Longrightarrow> fs_files fs' p = fs_files fs p"
proof -
  let ?t = "tmp_file ds ''upload'' u"
  note ws = DataStore_Write_stored [OF w]
  show "cas_ok env ds fs'"
    using ws same_tmp_cas_ok [OF _ is_tmp_file ok] stored_cas_ok [OF _ is_tmp_file len] by blast
  assume p: "is_tmp p" "fs_files fs p \<noteq> None"
  show "fs_files fs' p = fs_files fs p"
  proof (cases "p = ?t")
    case True
    with Write_busy [OF _ w] p show ?thesis by simp
  next
    case False
    with ws stored_tmp [OF _ p(1) False] show ?thesis by (auto simp: same_except_def)
  qed
qed

lemma Merge_frame:
  assumes len: "sha_len env" and ok: "cas_ok env ds fs" and w: "DataStore_Merge env ds fs u ks = (fs', r)"
  shows "cas_ok env ds fs'" "is_tmp p \<Longrightarrow> fs_files fs p \<noteq> None \<Longrightarrow> fs_files fs' p = fs_files fs p"
proof -
  let ?t = "tmp_file ds ''merge'' u"
  note ws = Merge_stored [OF w]
  show "cas_ok env ds fs'"
    using ws same_tmp_cas_ok [OF _ is_tmp_file ok] stored_cas_ok [OF _ is_tmp_file len] by blast
  assume p: "is_tmp p" "fs_files fs p \<noteq> None"
  show "fs_files fs' p = fs_files fs p"
  proof (cases "p = ?t")
    case True
    with Merge_busy [OF _ w] p show ?thesis by simp
  next
    case False
    with ws stored_tmp [OF _ p(1) False] show ?thesis by (auto simp: same_except_def)
  qed
qed

lemma Delete_frame:
  assumes "DataStore_Delete env ds fs k = (fs', st)"
  shows "cas_ok env ds fs \<Longrightarrow> cas_ok env ds fs'" "is_tmp p \<Longrightarrow> fs_files fs' p = fs_files fs p"
proof -
  let ?p = "CasLayout_GetCasPath (ds_base_dir ds) k"
  have d: "same_except {?p} fs fs'" "fs_files fs' ?p \<in> {None, fs_files fs ?p}"
    using assms RemoveFile_files [of "se_strerror env" fs ?p fs' st] by (simp_all add: DataStore_Delete_def)
  then have "fs_files fs' q = Some c \<Longrightarrow> fs_files fs q = Some c" for q c
    by (cases "q = ?p") (auto simp: same_except_def)
  then show "cas_ok env ds fs \<Longrightarrow> cas_ok env ds fs'" using cas_ok_fewer by (simp add: blob_def)
  assume "is_tmp p"
  then show "fs_files fs' p = fs_files fs p" using d(1) is_tmp_not_cas by (simp add: same_except_def)
qed

lemma store_inv_sel:
  assumes "store_inv env ds S"
  shows "cas_ok env ds (ss_fs S)" "ss_sessions S i = Some s \<Longrightarrow> ws_ok (ss_fs S) s"
    "ss_sessions S i = Some s \<Longrightarrow> is_tmp (ws_tmp_path s) \<and> fs_files (ss_fs S) (ws_tmp_path s) \<noteq> None"
    "ss_sessions S i = Some s \<Longrightarrow> ss_sessions S j = Some s' \<Longrightarrow> ws_tmp_path s = ws_tmp_path s' \<Longrightarrow> i = j"
  using assms by (auto simp: store_inv_def ws_ok_def)

lemma drop_session:
  assumes inv: "store_inv env ds S" and s: "ss_sessions S i = Some s" and ok: "cas_ok env ds fs'"
    and same: "\<And>p. is_tmp p \<Longrightarrow> p \<noteq> ws_tmp_path s \<Longrightarrow> fs_files fs' p = fs_files (ss_fs S) p"
  shows "store_inv env ds \<lparr>ss_fs = fs', ss_sessions = (ss_sessions S)(i := None)\<rparr>"
proof (rule store_inv_frame [OF inv ok])
  fix j s' assume "((ss_sessions S)(i := None)) j = Some s'"
  then have j: "j \<noteq> i" "ss_sessions S j = Some s'" by (auto split: if_splits)
  then have "ws_tmp_path s' \<noteq> ws_tmp_path s" using store_inv_sel(4) [OF inv j(2) s] by blast
  with same store_inv_sel(3) [OF inv j(2)] j(2) show "ss_sessions S j = Some s' \<and>
      fs_files fs' (ws_tmp_path s') = fs_files (ss_fs S) (ws_tmp_path s')" by blast
qed

lemma keep_sessions:
  assumes inv: "store_inv env ds S" and ok: "cas_ok env ds fs'"
    and same: "\<And>p. is_tmp p \<Longrightarrow> fs_files (ss_fs S) p \<noteq> None \<Longrightarrow> fs_files fs' p = fs_files (ss_fs S) p"
  shows "store_inv env ds (S\<lparr>ss_fs := fs'\<rparr>)"
proof -
  have "store_inv env ds \<lparr>ss_fs = fs', ss_sessions = ss_sessions S\<rparr>"
    by (rule store_inv_frame [OF inv ok]) (use same store_inv_sel(3) [OF inv] in blast)
  moreover have "S\<lparr>ss_fs := fs'\<rparr> = \<lparr>ss_fs = fs', ss_sessions = ss_sessions S\<rparr>" by (cases S) simp
  ultimately show ?thesis by (simp only:)
qed

lemma put_session:
  assumes inv: "store_inv env ds S" and ok: "cas_ok env ds fs'" and ws: "ws_ok fs' s'"
    and new: "\<And>j s. j \<noteq> i \<Longrightarrow> ss_sessions S j = Some s \<Longrightarrow> ws_tmp_path s \<noteq> ws_tmp_path s'"
    and same: "\<And>p. p \<noteq> ws_tmp_path s' \<Longrightarrow> fs_files fs' p = fs_files (ss_fs S) p"
  shows "store_inv env ds \<lparr>ss_fs = fs', ss_sessions = (ss_sessions S)(i \<mapsto> s')\<rparr>"
proof -
  have "ws_ok fs' s" if "j \<noteq> i" "ss_sessions S j = Some s" for j s
    using store_inv_sel(2) [OF inv that(2)] same [OF new [OF that]] by (simp add: ws_ok_def)
  moreover have "j = k" if "j \<noteq> i" "k \<noteq> i" "ss_sessions S j = Some s" "ss_sessions S k = Some s2"
      "ws_tmp_path s = ws_tmp_path s2" for j k s s2
    using store_inv_sel(4) [OF inv that(3,4,5)] .
  ultimately show ?thesis using ok ws new unfolding store_inv_def
    by (auto split: if_splits) metis+
qed

lemma store_step_inv:
  assumes len: "sha_len env" and st: "store_step env ds S T" and inv: "store_inv env ds S"
  shows "store_inv env ds T"
  using st
proof cases
  case (begin_ok i u fs s)
  note b = BeginWrite_files [OF begin_ok(3)]
  have t: "ws_tmp_path s = tmp_file ds ''upload'' u" using b by (simp add: WriteSession_new_def)
  have "same_except {tmp_file ds ''upload'' u} (ss_fs S) fs" using b by (simp add: same_except_def)
  from same_tmp_cas_ok [OF this is_tmp_file store_inv_sel(1) [OF inv]] have "cas_ok env ds fs" .
  moreover have "ws_tmp_path s' \<noteq> ws_tmp_path s" if "ss_sessions S j = Some s'" for j s'
    using store_inv_sel(3) [OF inv that] b t by auto
  moreover have "fs_files fs p = fs_files (ss_fs S) p" if "p \<noteq> ws_tmp_path s" for p using b t that by simp
  ultimately show ?thesis unfolding begin_ok(1)
    using put_session [OF inv _ BeginWrite_ws_ok [OF begin_ok(3)]] by blast
next
  case (begin_err u fs e)
  note b = BeginWrite_files [OF begin_err(2)]
  then show ?thesis unfolding begin_err(1)
    using keep_sessions [OF inv, of fs] store_inv_sel(1) [OF inv] by (simp add: cas_ok_def blob_def)
next
  case (chunk_ok i s data fs s' st)
  note w = WriteSession_Write_files [OF chunk_ok(3) store_inv_sel(2) [OF inv chunk_ok(2)]]
  have tmp: "is_tmp (ws_tmp_path s)" using store_inv_sel(3) [OF inv chunk_ok(2)] by blast
  show ?thesis unfolding chunk_ok(1)
  proof (rule put_session [OF inv])
    show "cas_ok env ds fs" using same_tmp_cas_ok [OF w(1) tmp] store_inv_sel(1) [OF inv] by blast
    show "ws_ok fs s'" using w(3) chunk_ok(4) by blast
    show "ws_tmp_path s2 \<noteq> ws_tmp_path s'" if "j \<noteq> i" "ss_sessions S j = Some s2" for j s2
      using store_inv_sel(4) [OF inv that(2) chunk_ok(2)] that(1) w(2) by auto
    show "fs_files fs p = fs_files (ss_fs S) p" if "p \<noteq> ws_tmp_path s'" for p
      using w(1,2) that by (simp add: same_except_def)
  qed
next
  case (chunk_err i s data fs s' st)
  note w = WriteSession_Write_files [OF chunk_err(3) store_inv_sel(2) [OF inv chunk_err(2)]]
  have tmp: "is_tmp (ws_tmp_path s)" using store_inv_sel(3) [OF inv chunk_err(2)] by blast
  have "same_except {ws_tmp_path s} (ss_fs S) (WriteSession_destroy fs s')"
    using same_except_trans [OF w(1)] destroy_files [of s' fs] w(2) by simp
  then show ?thesis unfolding chunk_err(1)
    using drop_session [OF inv chunk_err(2) same_tmp_cas_ok [OF _ tmp store_inv_sel(1) [OF inv]]]
    by (simp add: same_except_def)
next
  case (commit i s expected fs r)
  note c = CommitWrite_stored [OF store_inv_sel(2) [OF inv commit(2)] commit(3)]
  have tmp: "is_tmp (ws_tmp_path s)" using store_inv_sel(3) [OF inv commit(2)] by blast
  show ?thesis unfolding commit(1)
    by (rule drop_session [OF inv commit(2) stored_cas_ok [OF c tmp len store_inv_sel(1) [OF inv]]])
       (rule stored_tmp [OF c])
next
  case (abort i s)
  have tmp: "is_tmp (ws_tmp_path s)" using store_inv_sel(3) [OF inv abort(2)] by blast
  have "same_except {ws_tmp_path s} (ss_fs S) (WriteSession_destroy (ss_fs S) s)" by (rule destroy_files)
  then show ?thesis unfolding abort(1)
    using drop_session [OF inv abort(2) same_tmp_cas_ok [OF _ tmp store_inv_sel(1) [OF inv]]]
    by (simp add: same_except_def)
next
  case (put u data fs r)
  note f = Write_frame [OF len store_inv_sel(1) [OF inv] put(2)]
  show ?thesis unfolding put(1) by (rule keep_sessions [OF inv f])
next
  case (merge u ks fs r)
  note f = Merge_frame [OF len store_inv_sel(1) [OF inv] merge(2)]
  show ?thesis unfolding merge(1) by (rule keep_sessions [OF inv f])
next
  case (delete k fs st)
  then show ?thesis
    using keep_sessions [OF inv] Delete_frame [OF delete(2)] store_inv_sel(1) [OF inv] by blast
next
  case (faults script)
  then show ?thesis using inv by (simp add: store_inv_def cas_ok_def blob_def ws_ok_def)
qed

lemma store_init_inv: "store_init S \<Longrightarrow> store_inv env ds S"
  by (simp add: store_init_def store_inv_def cas_ok_def blob_def)

text \<open>The invariant holds in every reachable state, for every digest function with 32-byte results.\<close>

interpretation store_sys: step_invariant store_init "store_step env ds" "\<lambda>S. sha_len env \<longrightarrow> store_inv env ds S"
  for env ds
  by unfold_locales (auto simp: store_init_inv intro: store_step_inv)

section \<open>Runs without faults\<close>

lemma write_all_no_fault:
  assumes "fs_script fs = []" "fs_files fs p = Some c"
  shows "write_all fs p d = (fs\<lparr>fs_files := (fs_files fs)(p \<mapsto> c @ d)\<rparr>, None)"
proof (cases "d = []")
  case True
  with assms show ?thesis by (simp add: write_all.simps fun_upd_idem)
next
  case False
  with assms show ?thesis
    by (simp add: write_all.simps [of fs p d] write_all.simps [of _ p "[]"] sys_write_def next_outcome_def)
qed

lemma BeginWrite_no_fault:
  assumes "fs_script fs = []" "fs_files fs (tmp_file ds ''upload'' u) = None"
  shows "DataStore_BeginWrite env ds fs u =
    (fs\<lparr>fs_files := (fs_files fs)(tmp_file ds ''upload'' u \<mapsto> [])\<rparr>, Inr (WriteSession_new (tmp_file ds ''upload'' u)))"
  using assms by (simp add: DataStore_BeginWrite_def sys_create_def next_outcome_def Let_def)

lemma WriteSession_Write_no_fault:
  assumes "fs_script fs = []" "fs_files fs (ws_tmp_path s) = Some c" "\<not> ws_finished s"
  shows "WriteSession_Write env fs s d = (fs\<lparr>fs_files := (fs_files fs)(ws_tmp_path s \<mapsto> c @ d)\<rparr>,
    s\<lparr>ws_sha256_ctx := SHA256Context_Update (ws_sha256_ctx s) d,
      ws_bytes_written := size_add (ws_bytes_written s) (length d)\<rparr>, Status_OK)"
  using assms by (simp add: WriteSession_Write_def write_all_no_fault)

lemma CommitWrite_moves:
  assumes "fs_script fs = []" "\<not> ws_finished s" "is_tmp (ws_tmp_path s)" "fs_files fs (ws_tmp_path s) = Some f" and k_def: "k = digest env (sha_data (ws_sha256_ctx s))"
    and p_def: "p = CasLayout_GetCasPath (ds_base_dir ds) k"
  shows "DataStore_CommitWrite env ds fs s [] =
    (fs\<lparr>fs_files := (fs_files fs)(ws_tmp_path s := None,
        p := (if fs_files fs p = None then fs_files fs (ws_tmp_path s) else fs_files fs p))\<rparr>, Inr k)"
proof -
  have tp: "ws_tmp_path s \<noteq> p" using assms(3) is_tmp_not_cas by (auto simp: p_def)
  have k: "SHA256Context_Final (se_sha env) (ws_sha256_ctx s) = k" by (simp add: k_def digest_def)
  have nf: "next_outcome fs = (Sys_ok, fs)" using assms(1) by (simp add: next_outcome_def)
  have fin: "WriteSession_Finish env (ds_sync_mode ds) fs s = (fs, s\<lparr>ws_finished := True, ws_fd := False\<rparr>, Inr k)"
    using assms(2) k by (simp add: WriteSession_Finish_def sys_call_def nf Let_def)
  show ?thesis
    unfolding DataStore_CommitWrite_def fin prod.case sum.case p_def [symmetric] Let_def
    using assms(4) tp
    by (auto simp: FileSystem_FileExists_def sys_stat_def nf FileSystem_RemoveFile_def sys_unlink_def
        FileSystem_CreateDirectories_def sys_call_def FileSystem_AtomicRename_def sys_rename_def Let_def
        fun_upd_idem fun_upd_twist split: option.splits)
qed

lemma CommitWrite_no_fault:
  assumes "fs_script fs = []" "ws_ok fs s" "k = digest env (sha_data (ws_sha256_ctx s))" "p = CasLayout_GetCasPath (ds_base_dir ds) k"
  shows "DataStore_CommitWrite env ds fs s [] =
    (fs\<lparr>fs_files := (fs_files fs)(ws_tmp_path s := None,
        p := (if fs_files fs p = None then fs_files fs (ws_tmp_path s) else fs_files fs p))\<rparr>, Inr k)"
  using assms CommitWrite_moves by (simp add: ws_ok_def)

lemma Write_no_fault:
  assumes "fs_script fs = []" "fs_files fs (tmp_file ds ''upload'' u) = None"
    and "blob ds fs (Crypto_SHA256 (se_sha env) data) \<in> {None, Some data}"
  shows "DataStore_Write env ds fs u data =
    (fs\<lparr>fs_files := (fs_files fs)(CasLayout_GetCasPath (ds_base_dir ds) (Crypto_SHA256 (se_sha env) data) \<mapsto> data)\<rparr>,
     Inr (Crypto_SHA256 (se_sha env) data))"
proof -
  let ?t = "tmp_file ds ''upload'' u" and ?k = "Crypto_SHA256 (se_sha env) data"
  let ?p = "CasLayout_GetCasPath (ds_base_dir ds) ?k"
  have tp: "?t \<noteq> ?p" by (rule is_tmp_not_cas) simp
  define fs' where "fs' = fs\<lparr>fs_files := (fs_files fs)(?p \<mapsto> data)\<rparr>"
  have "DataStore_Write env ds fs u data = (fs', Inr ?k)"
  proof -
    let ?f = "fs\<lparr>fs_files := (fs_files fs)(?t \<mapsto> data)\<rparr>"
    define s where "s = (WriteSession_new ?t)\<lparr>ws_sha256_ctx := \<lparr>sha_data = data\<rparr>, ws_bytes_written := size_add 0 (length data)\<rparr>"
    have "ws_ok ?f s" by (simp add: ws_ok_def s_def WriteSession_new_def)
    from CommitWrite_no_fault [OF _ this refl refl, of env ds] assms tp
    have "DataStore_CommitWrite env ds ?f s [] = (fs', Inr ?k)"
      by (auto simp: s_def WriteSession_new_def digest_def fs'_def blob_def fun_upd_idem)
    moreover have "WriteSession_Write env (fs\<lparr>fs_files := (fs_files fs)(?t \<mapsto> [])\<rparr>) (WriteSession_new ?t) data = (?f, s, Status_OK)"
      using assms(1) by (subst WriteSession_Write_no_fault [of _ _ "[]"])
        (simp_all add: WriteSession_new_def s_def SHA256Context_new_def SHA256Context_Update_def)
    ultimately show ?thesis
      unfolding DataStore_Write_def BeginWrite_no_fault [OF assms(1,2)] by simp
  qed
  then show ?thesis by (simp add: fs'_def)
qed

lemma blob_fun_same: "same_except {p} fs fs' \<Longrightarrow> is_tmp p \<Longrightarrow> blob ds fs' = blob ds fs"
  using blob_same_except_tmp by blast

lemma merge_file_no_fault:
  "fs_script fs = [] \<Longrightarrow> fs_files fs tmp = Some x \<Longrightarrow>
   merge_file env fs c tmp pos ctx =
     (fs\<lparr>fs_files := (fs_files fs)(tmp \<mapsto> x @ drop pos c)\<rparr>, ctx\<lparr>sha_data := sha_data ctx @ drop pos c\<rparr>, None)"
proof (induction "length c - pos" arbitrary: fs pos ctx x rule: less_induct)
  case less
  let ?d = "take 65536 (drop pos c)"
  show ?case
  proof (cases "pos < length c")
    case True
    then have ne: "?d \<noteq> []" and sm: "length c - (pos + length ?d) < length c - pos" by auto
    let ?f = "fs\<lparr>fs_files := (fs_files fs)(tmp \<mapsto> x @ ?d)\<rparr>"
    have s: "?d @ drop (pos + length ?d) c = drop pos c"
      using append_take_drop_id [of 65536 "drop pos c"] by (cases "65536 \<le> length c - pos") (auto simp: add.commute)
    have "merge_file env fs c tmp pos ctx = merge_file env ?f c tmp (pos + length ?d) (SHA256Context_Update ctx ?d)"
      using ne less.prems
      by (subst merge_file.simps) (simp add: no_fault_read write_all_no_fault Let_def)
    also have "\<dots> = (?f\<lparr>fs_files := (fs_files ?f)(tmp \<mapsto> (x @ ?d) @ drop (pos + length ?d) c)\<rparr>,
        (SHA256Context_Update ctx ?d)\<lparr>sha_data := sha_data (SHA256Context_Update ctx ?d) @ drop (pos + length ?d) c\<rparr>, None)"
      using less.prems by (intro less.hyps [OF sm]) simp_all
    finally show ?thesis using s by (simp add: SHA256Context_Update_def)
  next
    case False
    with less.prems show ?thesis
      by (subst merge_file.simps) (simp add: no_fault_read fun_upd_idem)
  qed
qed

lemma merge_keys_no_fault:
  "fs_script fs = [] \<Longrightarrow> fs_files fs tmp = Some x \<Longrightarrow> is_tmp tmp \<Longrightarrow> map (blob ds fs) ks = map Some cs \<Longrightarrow>
   merge_keys env ds fs tmp ctx ks =
     (fs\<lparr>fs_files := (fs_files fs)(tmp \<mapsto> x @ concat cs)\<rparr>, Inr (ctx\<lparr>sha_data := sha_data ctx @ concat cs\<rparr>))"
proof (induction ks arbitrary: fs ctx x cs)
  case Nil
  then show ?case by (simp add: fun_upd_idem)
next
  case (Cons k ks)
  then obtain c cs' where cs: "cs = c # cs'" "blob ds fs k = Some c" "map (blob ds fs) ks = map Some cs'"
    by (cases cs) auto
  let ?f = "fs\<lparr>fs_files := (fs_files fs)(tmp \<mapsto> x @ c)\<rparr>"
  have "same_except {tmp} fs ?f" by (simp add: same_except_def)
  from blob_fun_same [OF this Cons.prems(3)] cs(3) have "map (blob ds ?f) ks = map Some cs'" by simp
  with Cons.IH [of ?f "x @ c" cs' "ctx\<lparr>sha_data := sha_data ctx @ c\<rparr>"] Cons.prems(1,3)
  have "merge_keys env ds ?f tmp (ctx\<lparr>sha_data := sha_data ctx @ c\<rparr>) ks =
      (fs\<lparr>fs_files := (fs_files fs)(tmp \<mapsto> x @ c @ concat cs')\<rparr>,
       Inr (ctx\<lparr>sha_data := sha_data ctx @ c @ concat cs'\<rparr>))" by (simp add: fun_upd_def cong: if_cong)
  moreover have "sys_open fs (CasLayout_GetCasPath (ds_base_dir ds) k) = (fs, Inr c)"
    using Cons.prems(1) cs(2) by (simp add: sys_open_def next_outcome_def blob_def)
  ultimately show ?case using merge_file_no_fault [OF Cons.prems(1,2)]
    by (simp add: cs(1)) (simp add: fun_upd_def)
qed

lemma Merge_no_fault:
  assumes "fs_script fs = []" "fs_files fs (tmp_file ds ''merge'' u) = None" "ks \<noteq> []"
    "map (blob ds fs) ks = map Some cs"
  shows "\<exists>fs'. DataStore_Merge env ds fs u ks = (fs', Inr (Crypto_SHA256 (se_sha env) (concat cs)))"
proof -
  let ?t = "tmp_file ds ''merge'' u"
  let ?f = "fs\<lparr>fs_files := (fs_files fs)(?t \<mapsto> [])\<rparr>"
  have "same_except {?t} fs ?f" by (simp add: same_except_def)
  from blob_fun_same [OF this is_tmp_file] assms(4) have "map (blob ds ?f) ks = map Some cs" by simp
  from merge_keys_no_fault [OF _ _ is_tmp_file this, where x = "[]" and env = env and ctx = SHA256Context_new] assms(1)
  have mk: "merge_keys env ds ?f ?t SHA256Context_new ks =
      (?f\<lparr>fs_files := (fs_files fs)(?t \<mapsto> concat cs)\<rparr>, Inr \<lparr>sha_data = concat cs\<rparr>)"
    by (simp add: SHA256Context_new_def)
  have cr: "sys_create fs ?t = (?f, Inr ())" using assms(1,2) by (simp add: sys_create_def next_outcome_def)
  show ?thesis
    unfolding DataStore_Merge_def Let_def cr prod.case sum.case mk using assms(1,3)
    by (auto simp: sys_call_def next_outcome_def FileSystem_FileExists_def sys_stat_def
        FileSystem_CreateDirectories_def FileSystem_AtomicRename_def sys_rename_def Let_def split: option.splits)
qed

lemma stream_loop_all:
  "stream_loop (\<lambda>a d. (a @ d, True)) fs c pos len rem st = (fs', st', None) \<Longrightarrow>
   st' = st @ (if len = 0 then drop pos c else take rem (drop pos c))"
proof (induction "\<lambda>a d. (a @ d :: string, True)" fs c pos len rem st rule: stream_loop.induct)
  case (1 fs c pos len rem st)
  let ?n = "if len > 0 \<and> rem < 65536 then rem else 65536"
  show ?case
  proof (cases "len = 0 \<or> rem > 0")
    case True
    obtain f q where rd: "sys_read fs c pos ?n = (f, q)" by (cases "sys_read fs c pos ?n")
    show ?thesis
    proof (cases q)
      case (Inl e)
      with 1(1) [OF True refl rd [symmetric] Inl] 1(3) True rd show ?thesis
        by (simp add: stream_loop.simps [of _ fs] split: if_splits)
    next
      case (Inr d)
      note d = sys_read_spec(2) [OF rd Inr]
      show ?thesis
      proof (cases "d = []")
        case True
        with d 1(3) rd Inr \<open>len = 0 \<or> rem > 0\<close> show ?thesis
          by (simp add: stream_loop.simps [of _ fs] split: if_splits)
      next
        case False
        have ln: "0 < len \<longrightarrow> length d \<le> rem" using d by (auto split: if_splits)
        have "stream_loop (\<lambda>a d. (a @ d, True)) f c (pos + length d) len
            (if len > 0 then rem - length d else rem) (st @ d) = (fs', st', None)"
          using 1(3) True rd Inr False by (simp add: stream_loop.simps [of _ fs])
        note ih = 1(2) [OF True refl rd [symmetric] Inr False refl _ this]
        have s: "drop pos c = d @ drop (pos + length d) c"
          using d append_take_drop_id [of "length d" "drop pos c"] by (simp add: add.commute)
        have "take rem (drop pos c) = d @ take (rem - length d) (drop (pos + length d) c)" if "0 < len"
          using ln that by (subst s) simp
        with ih s show ?thesis by simp
      qed
    qed
  next
    case False
    with 1(3) show ?thesis by (simp add: stream_loop.simps [of _ fs])
  qed
qed

section \<open>Properties\<close>

text \<open>A digest function and a store for the examples: the bytes of the argument, cut or padded to 32.\<close>

definition toy_sha :: "string \<Rightarrow> 8 word list" where
  "toy_sha d = take 32 (map (\<lambda>c. of_nat (of_char c)) d @ replicate 32 0)"

definition toy_env :: StoreEnv where
  "toy_env = \<lparr>se_sha = toy_sha, se_strerror = (\<lambda>e. ''errno '' @ nat_to_string e)\<rparr>"

definition toy_store :: DataStore where
  "toy_store = \<lparr>ds_base_dir = ''data'', ds_tmp_dir = ''tmp'', ds_sync_mode = FSYNC\<rparr>"

definition empty_fs :: FileSys where
  "empty_fs = \<lparr>fs_files = Map.empty, fs_script = []\<rparr>"

lemma toy_sha_len [simp]: "sha_len toy_env"
  by (auto simp: sha_len_def toy_env_def toy_sha_def)

text \<open>
  C10: In every state the store can reach by interleaved upload sessions, whole writes, merges and
  deletions, with any failures of the system calls in between, a read that succeeds returns bytes
  whose SHA-256 is the key that was asked for. A session one of whose writes failed is dropped, which
  the store itself does not enforce (see \<open>failed_write_committed\<close> in \<open>Server_Theorems\<close>).
\<close>

theorem store_integrity:
  assumes "sha_len env" "store_init S" "(store_step env ds)\<^sup>*\<^sup>* S T"
    and "CasLayout_IsValidCasKey k" "DataStore_Read env ds (ss_fs T) k = (fs, Inr d)"
  shows "Crypto_SHA256 (se_sha env) d = k"
proof -
  have "store_inv env ds T" using store_sys.reach_I [OF assms(2,3)] assms(1) by blast
  then have "cas_ok env ds (ss_fs T)" by (rule store_inv_sel)
  with Read_blob [OF assms(5)] assms(4) show ?thesis unfolding cas_ok_def digest_def by blast
qed

definition hi_key :: string where
  "hi_key = Crypto_SHA256 toy_sha ''hi''"

definition hi_fs :: FileSys where
  "hi_fs = empty_fs\<lparr>fs_files := Map.empty(CasLayout_GetCasPath ''data'' hi_key \<mapsto> ''hi'')\<rparr>"

lemma hi_write: "DataStore_Write toy_env toy_store empty_fs ''u'' ''hi'' = (hi_fs, Inr hi_key)"
  using Write_no_fault [of empty_fs toy_store "''u''" toy_env "''hi''"]
  by (simp add: empty_fs_def blob_def hi_fs_def hi_key_def toy_env_def toy_store_def)

lemma hi_read: "DataStore_Read toy_env toy_store hi_fs hi_key = (hi_fs, Inr ''hi'')"
  by (rule Read_no_fault) (simp_all add: hi_fs_def empty_fs_def blob_def toy_store_def)

lemma hi_valid: "CasLayout_IsValidCasKey hi_key"
  using digest_valid [OF toy_sha_len, of "''hi''"] by (simp add: digest_def hi_key_def toy_env_def)

theorem store_integrity_witness:
  "\<exists>T fs d. (store_step toy_env toy_store)\<^sup>*\<^sup>* \<lparr>ss_fs = empty_fs, ss_sessions = Map.empty\<rparr> T \<and>
     DataStore_Read toy_env toy_store (ss_fs T) hi_key = (fs, Inr d) \<and>
     Crypto_SHA256 (se_sha toy_env) d = hi_key"
proof -
  let ?S = "\<lparr>ss_fs = empty_fs, ss_sessions = Map.empty\<rparr>" and ?T = "\<lparr>ss_fs = hi_fs, ss_sessions = Map.empty\<rparr>"
  have "store_step toy_env toy_store ?S ?T" using store_step.put [of toy_env toy_store ?S] hi_write by simp
  then have r: "(store_step toy_env toy_store)\<^sup>*\<^sup>* ?S ?T" by blast
  have i: "store_init ?S" by (simp add: store_init_def empty_fs_def)
  have "DataStore_Read toy_env toy_store (ss_fs ?T) hi_key = (hi_fs, Inr ''hi'')" using hi_read by simp
  from store_integrity [OF toy_sha_len i r hi_valid this] this r show ?thesis by blast
qed

text \<open>
  C11: A commit of a live upload session either fails and touches nothing but the session's
  temporary file, or returns the SHA-256 of the streamed bytes, after which a blob is stored under
  that key: the streamed bytes, unless one was already there (deduplication). No other file changes.
\<close>

theorem commit_write_spec:
  assumes "ws_ok fs s" "DataStore_CommitWrite env ds fs s expected = (fs', r)"
  shows "case r of
      Inl _ \<Rightarrow> same_except {ws_tmp_path s} fs fs'
    | Inr k \<Rightarrow> k = Crypto_SHA256 (se_sha env) (sha_data (ws_sha256_ctx s)) \<and>
        same_except {ws_tmp_path s, CasLayout_GetCasPath (ds_base_dir ds) k} fs fs' \<and>
        (blob ds fs' k = Some (sha_data (ws_sha256_ctx s)) \<or>
         blob ds fs' k = blob ds fs k \<and> blob ds fs k \<noteq> None)"
  using CommitWrite_stored [OF assms] unfolding stored_def digest_def by simp

theorem commit_write_spec_witness:
  "\<exists>fs'. DataStore_CommitWrite toy_env toy_store (empty_fs\<lparr>fs_files := Map.empty(''t.part'' \<mapsto> [])\<rparr>)
       (WriteSession_new ''t.part'') [] = (fs', Inr (Crypto_SHA256 (se_sha toy_env) [])) \<and>
     blob toy_store fs' (Crypto_SHA256 (se_sha toy_env) []) = Some []"
proof -
  let ?f = "empty_fs\<lparr>fs_files := Map.empty(''t.part'' \<mapsto> [])\<rparr>" and ?s = "WriteSession_new ''t.part''"
  let ?k = "Crypto_SHA256 (se_sha toy_env) []"
  have ok: "ws_ok ?f ?s" by (simp add: ws_ok_def WriteSession_new_def is_tmp_def suffix_def)
  have "fs_script ?f = []" by (simp add: empty_fs_def)
  from CommitWrite_no_fault [OF this ok refl refl, of toy_env toy_store]
  obtain fs' where c: "DataStore_CommitWrite toy_env toy_store ?f ?s [] = (fs', Inr ?k)"
    by (simp add: WriteSession_new_def digest_def)
  have t: "''t.part'' \<noteq> CasLayout_GetCasPath (ds_base_dir toy_store) ?k"
    by (rule is_tmp_not_cas) (simp add: is_tmp_def suffix_def)
  with commit_write_spec [OF ok c] c show ?thesis
    by (auto simp: WriteSession_new_def blob_def)
qed

lemma Merge_blob:
  assumes "DataStore_Merge env ds fs u ks = (fs', Inr k)"
  shows "\<exists>cs. ks \<noteq> [] \<and> map (blob ds fs) ks = map Some cs \<and> k = Crypto_SHA256 (se_sha env) (concat cs) \<and>
    (blob ds fs' k = Some (concat cs) \<or> blob ds fs' k = blob ds fs k \<and> blob ds fs k \<noteq> None) \<and>
    same_except {tmp_file ds ''merge'' u, CasLayout_GetCasPath (ds_base_dir ds) k} fs fs'"
proof -
  from Merge_stored [OF assms] obtain f cs where same: "same_except {tmp_file ds ''merge'' u} fs f"
    and c: "map (blob ds fs) ks = map Some cs" "ks \<noteq> []"
    and st: "stored env ds f (tmp_file ds ''merge'' u) (concat cs) fs' (Inr k)" by auto
  have "blob ds f k = blob ds fs k" using blob_same_except_tmp [OF same is_tmp_file] .
  with st c same show ?thesis by (auto simp: stored_def digest_def same_except_def)
qed

text \<open>
  C12: A merge that succeeds found every listed blob, returns the SHA-256 of their concatenation in
  the order of the list, and leaves a blob under that key: the concatenation, unless one was already
  there. Every other file but the temporary one is as before.
\<close>

theorem merge_concatenates:
  assumes "DataStore_Merge env ds fs u ks = (fs', Inr k)"
  shows "\<exists>cs. ks \<noteq> [] \<and> map (blob ds fs) ks = map Some cs \<and>
    k = Crypto_SHA256 (se_sha env) (concat cs) \<and>
    (blob ds fs' k = Some (concat cs) \<or> blob ds fs' k = blob ds fs k \<and> blob ds fs k \<noteq> None) \<and>
    same_except {tmp_file ds ''merge'' u, CasLayout_GetCasPath (ds_base_dir ds) k} fs fs'"
  using Merge_blob [OF assms] .

theorem merge_concatenates_witness:
  "\<exists>fs' k. DataStore_Merge toy_env toy_store hi_fs ''m'' [hi_key, hi_key] = (fs', Inr k) \<and>
     k = Crypto_SHA256 (se_sha toy_env) ''hihi''"
proof -
  have b: "blob toy_store hi_fs hi_key = Some ''hi''" by (simp add: blob_def hi_fs_def empty_fs_def toy_store_def)
  have "tmp_file toy_store ''merge'' ''m'' \<noteq> CasLayout_GetCasPath ''data'' hi_key"
    by (rule is_tmp_not_cas) simp
  then obtain fs' k where m: "DataStore_Merge toy_env toy_store hi_fs ''m'' [hi_key, hi_key] = (fs', Inr k)"
    using Merge_no_fault [of hi_fs toy_store "''m''" "[hi_key, hi_key]" "[''hi'', ''hi'']" toy_env] b
    by (auto simp: hi_fs_def empty_fs_def)
  from merge_concatenates [OF m] m b show ?thesis by (auto simp: Cons_eq_map_conv)
qed

text \<open>
  Without faults, writing bytes under a fresh temporary name and reading the returned key gives
  the bytes back, when no other content is stored under their digest.
\<close>

theorem write_read_roundtrip:
  assumes "fs_script fs = []" "fs_files fs (tmp_file ds ''upload'' u) = None"
    and "blob ds fs (Crypto_SHA256 (se_sha env) data) \<in> {None, Some data}"
  shows "\<exists>fs'. DataStore_Write env ds fs u data = (fs', Inr (Crypto_SHA256 (se_sha env) data)) \<and>
    DataStore_Read env ds fs' (Crypto_SHA256 (se_sha env) data) = (fs', Inr data)"
proof -
  let ?k = "Crypto_SHA256 (se_sha env) data"
  let ?fs = "fs\<lparr>fs_files := (fs_files fs)(CasLayout_GetCasPath (ds_base_dir ds) ?k \<mapsto> data)\<rparr>"
  have "DataStore_Read env ds ?fs ?k = (?fs, Inr data)"
    by (rule Read_no_fault) (simp_all add: assms(1) blob_def)
  with Write_no_fault [OF assms] show ?thesis by blast
qed

theorem write_read_roundtrip_witness:
  "\<exists>fs'. DataStore_Write toy_env toy_store empty_fs ''u'' ''hi'' =
      (fs', Inr (Crypto_SHA256 (se_sha toy_env) ''hi'')) \<and>
    DataStore_Read toy_env toy_store fs' (Crypto_SHA256 (se_sha toy_env) ''hi'') = (fs', Inr ''hi'')"
  by (rule write_read_roundtrip) (simp_all add: empty_fs_def blob_def)

text \<open>
  C13: A ranged stream read that reports success has delivered to its consumer exactly the asked
  slice of the blob: the bytes from the offset, all of them when the length is 0, else at most that
  many.
\<close>

theorem stream_read_slice:
  assumes "DataStore_StreamRead env ds fs k offset len (\<lambda>acc d. (acc @ d, True)) [] = (fs', out, st)"
    and "Status_ok st"
  shows "\<exists>c. blob ds fs k = Some c \<and>
    out = (if len = 0 then drop offset c else take len (drop offset c))"
proof -
  obtain f q where op: "sys_open fs (CasLayout_GetCasPath (ds_base_dir ds) k) = (f, q)"
    by (cases "sys_open fs (CasLayout_GetCasPath (ds_base_dir ds) k)")
  obtain c where q: "q = Inr c" using assms op
    by (cases q) (auto simp: DataStore_StreamRead_def)
  obtain g s where sk: "(if offset > 0 then (if 2 ^ 63 \<le> offset then (fst (sys_call f), Inl EINVAL) else sys_call f)
      else (f, Inr ())) = (g, s)" by (rule prod.exhaust)
  note a = assms(1) [unfolded DataStore_StreamRead_def op q prod.case sum.case sk]
  from a assms(2) obtain x where s: "s = Inr x" by (cases s) auto
  obtain h o1 e where sl: "stream_loop (\<lambda>acc d. (acc @ d, True)) g c offset len len [] = (h, o1, e)"
    by (rule prod_cases3)
  from a assms(2) have "e = None" "o1 = out" unfolding s sl by (auto split: option.splits)
  with stream_loop_all [of g c offset len len "[]" h out] sl
  have "out = (if len = 0 then drop offset c else take len (drop offset c))" by simp
  moreover have "blob ds fs k = Some c" using sys_open_files [OF op] q by (simp add: blob_def)
  ultimately show ?thesis by blast
qed

theorem stream_read_slice_witness:
  "\<exists>fs' st. DataStore_StreamRead toy_env toy_store hi_fs hi_key 1 5 (\<lambda>acc d. (acc @ d, True)) [] = (fs', ''i'', st)"
proof -
  obtain fs' out st where s: "DataStore_StreamRead toy_env toy_store hi_fs hi_key 1 5
      (\<lambda>acc d. (acc @ d, True)) [] = (fs', out, st)" by (rule prod_cases3)
  have "Status_ok (snd (snd (DataStore_StreamRead toy_env toy_store hi_fs hi_key 1 5
      (\<lambda>acc d. (acc @ d, True)) [])))"
    by (simp add: DataStore_StreamRead_def sys_open_def sys_call_def next_outcome_def hi_fs_def empty_fs_def
        toy_store_def stream_loop.simps sys_read_def)
  with s have "Status_ok st" by simp
  from stream_read_slice [OF s this] s show ?thesis
    by (auto simp: blob_def hi_fs_def empty_fs_def toy_store_def)
qed

end
