(* ===== verification/Sql_Tables.thy ===== *)
theory Sql_Tables
  imports Status "HOL-Library.List_Lexorder"
begin

text \<open>
  The database as the server uses it. \<open>Stmt\<close> has one constructor per SQL statement that
  \<^verbatim>\<open>db/meta_store.cpp\<close> and \<^verbatim>\<open>db/mysql_tx.cpp\<close> build (the values stand for the escaped literals).
  MySQL itself is a parameter of the development: a function \<open>sql\<close> from a database state and a
  statement to a new state and an outcome. What the code relies on is the hypothesis
  \<open>sql_conforms\<close>: a statement that succeeds had the documented effect (\<open>stmt_effect\<close>) on the tables
  of \<^verbatim>\<open>scripts/mysql_init.sql\<close> with their unique keys, foreign keys and cascades, and a statement that
  fails had none, or rolled the transaction back. The collation is a parameter too.
\<close>

section \<open>Tables\<close>

record BucketRow =
  b_id :: int
  b_name :: string
  b_created :: int

record CasRow =
  c_key :: string
  c_size :: int
  c_ref :: nat
  c_created :: int
  c_updated :: int

record ObjRow =
  o_id :: int
  o_bucket :: int
  o_key :: string
  o_cas :: string
  o_size :: int
  o_ct :: string
  o_etag :: string
  o_created :: int

record UploadRow =
  u_id :: string
  u_bucket :: int
  u_key :: string
  u_ct :: string
  u_created :: int
  u_expires :: int

record PartRow =
  p_upload :: string
  p_number :: int
  p_cas :: string
  p_size :: int
  p_etag :: string
  p_created :: int

record IdemRow =
  i_key :: string
  i_hash :: string
  i_status :: int
  i_body :: string
  i_created :: int
  i_expires :: int

record Tables =
  t_buckets :: "BucketRow list"
  t_cas :: "CasRow list"
  t_objects :: "ObjRow list"
  t_uploads :: "UploadRow list"
  t_parts :: "PartRow list"
  t_idem :: "IdemRow list"

text \<open>The connection's view: the committed tables and the working copy of an open transaction.\<close>

record DbState =
  db_tables :: Tables
  db_tx :: "Tables option"

text \<open>The collation: the weight of a string (equality and order of strings are those of the
  weights), the prefix that the unique key \<open>object_key(255)\<close> covers, and \<open>LIKE\<close>.\<close>

record Collation =
  col_weight :: "string \<Rightarrow> nat list"
  col_prefix :: "string \<Rightarrow> string"
  col_like :: "string \<Rightarrow> string \<Rightarrow> bool"

definition col_eq :: "Collation \<Rightarrow> string \<Rightarrow> string \<Rightarrow> bool" where
  "col_eq col a b = (col_weight col a = col_weight col b)"

definition col_uniq :: "Collation \<Rightarrow> string \<Rightarrow> string \<Rightarrow> bool" where
  "col_uniq col a b = col_eq col (col_prefix col a) (col_prefix col b)"

definition col_ok :: "Collation \<Rightarrow> bool" where
  "col_ok col \<longleftrightarrow> (\<forall>a b. col_eq col a b \<longrightarrow> col_uniq col a b)"

section \<open>Statements and outcomes\<close>

datatype Stmt =
    Start_transaction | Commit_tx | Rollback_tx
  | Ins_bucket string
  | Sel_bucket_name string
  | Sel_bucket_id int
  | Sel_buckets
  | Del_bucket string
  | Cnt_objects_bucket int
  | Ins_object int string string int string string
  | Upsert_object int string string int string string
  | Sel_object_id int string
  | Sel_object_cas int string
  | Sel_object int string
  | Sel_objects int "string option" "string option" int
  | Del_object int string
  | Upsert_cas string int
  | Inc_cas string
  | Dec_cas string
  | Sel_ref string
  | Sel_cas string
  | Sel_garbage int int
  | Del_cas string
  | Cnt_objects_cas string
  | Cnt_parts_cas string
  | Ins_upload string int string string int
  | Sel_upload string
  | Del_upload string
  | Sel_uploads int "string option" int
  | Upsert_part string int string int string
  | Sel_part_cas string int
  | Sel_parts string int int
  | Sel_idem string
  | Upsert_idem string string int string int
  | Del_idem_expired

datatype SqlRow =
    Row_int int
  | Row_string string
  | Row_bucket BucketRow
  | Row_object ObjRow
  | Row_cas CasRow
  | Row_upload UploadRow
  | Row_part PartRow
  | Row_idem IdemRow

record SqlRes =
  sr_rows :: "SqlRow list"
  sr_affected :: nat
  sr_insert_id :: int

datatype SqlOut = Sql_err string | Sql_ok SqlRes

definition rows :: "SqlRow list \<Rightarrow> SqlRes" where
  "rows rs = \<lparr>sr_rows = rs, sr_affected = length rs, sr_insert_id = 0\<rparr>"

definition affected :: "nat \<Rightarrow> SqlRes" where
  "affected n = \<lparr>sr_rows = [], sr_affected = n, sr_insert_id = 0\<rparr>"

definition inserted :: "int \<Rightarrow> SqlRes" where
  "inserted i = \<lparr>sr_rows = [], sr_affected = 1, sr_insert_id = i\<rparr>"

section \<open>The documented effect of a statement\<close>

text \<open>Row selectors.\<close>

definition obj_is :: "Collation \<Rightarrow> int \<Rightarrow> string \<Rightarrow> ObjRow \<Rightarrow> bool" where
  "obj_is col b k r = (o_bucket r = b \<and> col_eq col (o_key r) k)"

definition obj_clash :: "Collation \<Rightarrow> int \<Rightarrow> string \<Rightarrow> ObjRow \<Rightarrow> bool" where
  "obj_clash col b k r = (o_bucket r = b \<and> col_uniq col (o_key r) k)"

definition cas_is :: "Collation \<Rightarrow> string \<Rightarrow> CasRow \<Rightarrow> bool" where
  "cas_is col k r = col_eq col (c_key r) k"

definition part_is :: "Collation \<Rightarrow> string \<Rightarrow> int \<Rightarrow> PartRow \<Rightarrow> bool" where
  "part_is col u n r = (col_eq col (p_upload r) u \<and> p_number r = n)"

definition has_bucket :: "Tables \<Rightarrow> int \<Rightarrow> bool" where
  "has_bucket T b = list_ex (\<lambda>r. b_id r = b) (t_buckets T)"

definition has_cas :: "Collation \<Rightarrow> Tables \<Rightarrow> string \<Rightarrow> bool" where
  "has_cas col T k = list_ex (cas_is col k) (t_cas T)"

definition has_upload :: "Collation \<Rightarrow> Tables \<Rightarrow> string \<Rightarrow> bool" where
  "has_upload col T u = list_ex (\<lambda>r. col_eq col (u_id r) u) (t_uploads T)"

text \<open>\<open>map_first P f xs\<close> updates the first row that satisfies \<open>P\<close> (a unique key has at most one).\<close>

fun map_first :: "('a \<Rightarrow> bool) \<Rightarrow> ('a \<Rightarrow> 'a) \<Rightarrow> 'a list \<Rightarrow> 'a list" where
  "map_first P f [] = []"
| "map_first P f (x # xs) = (if P x then f x # xs else x # map_first P f xs)"

definition new_object ::
    "int \<Rightarrow> int \<Rightarrow> int \<Rightarrow> string \<Rightarrow> string \<Rightarrow> int \<Rightarrow> string \<Rightarrow> string \<Rightarrow> ObjRow" where
  "new_object nid now b k cas sz ct etag =
     \<lparr>o_id = nid, o_bucket = b, o_key = k, o_cas = cas, o_size = sz, o_ct = ct,
      o_etag = etag, o_created = now\<rparr>"

definition ins_object ::
    "Collation \<Rightarrow> int \<Rightarrow> int \<Rightarrow> Tables \<Rightarrow> int \<Rightarrow> string \<Rightarrow> string \<Rightarrow> int \<Rightarrow> string \<Rightarrow> string \<Rightarrow> (Tables \<times> SqlRes) option" where
  "ins_object col now nid T b k cas sz ct etag =
     (if \<not> has_bucket T b \<or> \<not> has_cas col T cas \<or> sz < 0 \<or> list_ex (obj_clash col b k) (t_objects T)
         \<or> list_ex (\<lambda>r. o_id r = nid) (t_objects T)
      then None
      else Some (T\<lparr>t_objects := t_objects T @ [new_object nid now b k cas sz ct etag]\<rparr>, inserted nid))"

definition upsert_object ::
    "Collation \<Rightarrow> int \<Rightarrow> int \<Rightarrow> Tables \<Rightarrow> int \<Rightarrow> string \<Rightarrow> string \<Rightarrow> int \<Rightarrow> string \<Rightarrow> string \<Rightarrow> (Tables \<times> SqlRes) option" where
  "upsert_object col now nid T b k cas sz ct etag =
     (if \<not> has_cas col T cas \<or> sz < 0 then None
      else case List.find (obj_clash col b k) (t_objects T) of
             Some r \<Rightarrow>
               Some (T\<lparr>t_objects := map_first (obj_clash col b k)
                        (\<lambda>r. r\<lparr>o_cas := cas, o_size := sz, o_ct := ct, o_etag := etag\<rparr>) (t_objects T)\<rparr>,
                     \<lparr>sr_rows = [], sr_affected = 2, sr_insert_id = o_id r\<rparr>)
           | None \<Rightarrow> ins_object col now nid T b k cas sz ct etag)"

definition upsert_cas :: "Collation \<Rightarrow> int \<Rightarrow> Tables \<Rightarrow> string \<Rightarrow> int \<Rightarrow> (Tables \<times> SqlRes) option" where
  "upsert_cas col now T k sz =
     (if sz < 0 then None
      else case List.find (cas_is col k) (t_cas T) of
             None \<Rightarrow> Some (T\<lparr>t_cas := t_cas T @ [\<lparr>c_key = k, c_size = sz, c_ref = 1, c_created = now, c_updated = now\<rparr>]\<rparr>,
                           affected 1)
           | Some r \<Rightarrow>
               if 2 ^ 32 \<le> c_ref r + 1 then None
               else Some (T\<lparr>t_cas := map_first (cas_is col k) (\<lambda>r. r\<lparr>c_ref := c_ref r + 1, c_updated := now\<rparr>) (t_cas T)\<rparr>,
                          affected 2))"

text \<open>An update counts the rows it really changes.\<close>

definition update_cas ::
    "Collation \<Rightarrow> (CasRow \<Rightarrow> CasRow) \<Rightarrow> Tables \<Rightarrow> string \<Rightarrow> (Tables \<times> SqlRes) option" where
  "update_cas col f T k =
     (case List.find (cas_is col k) (t_cas T) of
        None \<Rightarrow> Some (T, affected 0)
      | Some r \<Rightarrow>
          if 2 ^ 32 \<le> c_ref (f r) then None
          else Some (T\<lparr>t_cas := map_first (cas_is col k) f (t_cas T)\<rparr>, affected (if f r = r then 0 else 1)))"

definition del_bucket :: "Collation \<Rightarrow> Tables \<Rightarrow> string \<Rightarrow> Tables \<times> SqlRes" where
  "del_bucket col T name =
     (case List.find (\<lambda>r. col_eq col (b_name r) name) (t_buckets T) of
        None \<Rightarrow> (T, affected 0)
      | Some r \<Rightarrow>
          let b = b_id r; gone = filter (\<lambda>u. u_bucket u = b) (t_uploads T) in
          (T\<lparr>t_buckets := filter (\<lambda>r. b_id r \<noteq> b) (t_buckets T),
             t_objects := filter (\<lambda>r. o_bucket r \<noteq> b) (t_objects T),
             t_uploads := filter (\<lambda>r. u_bucket r \<noteq> b) (t_uploads T),
             t_parts := filter (\<lambda>p. \<not> list_ex (\<lambda>u. col_eq col (u_id u) (p_upload p)) gone) (t_parts T)\<rparr>,
           affected 1))"

definition upsert_part ::
    "Collation \<Rightarrow> int \<Rightarrow> Tables \<Rightarrow> string \<Rightarrow> int \<Rightarrow> string \<Rightarrow> int \<Rightarrow> string \<Rightarrow> (Tables \<times> SqlRes) option" where
  "upsert_part col now T u n cas sz etag =
     (if \<not> has_cas col T cas \<or> sz < 0 \<or> n < 0 then None
      else if list_ex (part_is col u n) (t_parts T)
      then Some (T\<lparr>t_parts := map_first (part_is col u n)
                     (\<lambda>r. r\<lparr>p_cas := cas, p_size := sz, p_etag := etag\<rparr>) (t_parts T)\<rparr>, affected 2)
      else if \<not> has_upload col T u then None
      else Some (T\<lparr>t_parts := t_parts T @ [\<lparr>p_upload = u, p_number = n, p_cas = cas, p_size = sz,
                    p_etag = etag, p_created = now\<rparr>]\<rparr>, affected 1))"

definition match_like :: "Collation \<Rightarrow> string option \<Rightarrow> string \<Rightarrow> bool" where
  "match_like col pat s = (case pat of None \<Rightarrow> True | Some p \<Rightarrow> col_like col p s)"

definition match_after :: "Collation \<Rightarrow> string option \<Rightarrow> string \<Rightarrow> bool" where
  "match_after col a s = (case a of None \<Rightarrow> True | Some x \<Rightarrow> col_weight col x < col_weight col s)"

text \<open>A negative \<open>LIMIT\<close> is a syntax error.\<close>

definition limited :: "int \<Rightarrow> SqlRow list \<Rightarrow> SqlRes option" where
  "limited n rs = (if n < 0 then None else Some (rows (take (nat n) rs)))"

definition idem_put :: "Collation \<Rightarrow> int \<Rightarrow> Tables \<Rightarrow> string \<Rightarrow> string \<Rightarrow> int \<Rightarrow> string \<Rightarrow> int \<Rightarrow> Tables" where
  "idem_put col now T k h st body ex =
     (if list_ex (\<lambda>r. col_eq col (i_key r) k) (t_idem T)
      then T\<lparr>t_idem := map_first (\<lambda>r. col_eq col (i_key r) k)
               (\<lambda>r. r\<lparr>i_hash := h, i_status := st, i_body := body, i_expires := ex\<rparr>) (t_idem T)\<rparr>
      else T\<lparr>t_idem := t_idem T @ [\<lparr>i_key = k, i_hash = h, i_status = st, i_body = body,
               i_created = now, i_expires = ex\<rparr>]\<rparr>)"

text \<open>The effect of a statement on the tables at the time \<open>now\<close>, \<open>nid\<close> the auto-increment value it
  would use; \<open>None\<close>: the statement has to fail.\<close>

fun stmt_tables :: "Collation \<Rightarrow> int \<Rightarrow> int \<Rightarrow> Tables \<Rightarrow> Stmt \<Rightarrow> (Tables \<times> SqlRes) option" where
  "stmt_tables col now nid T (Ins_bucket name) =
     (if list_ex (\<lambda>r. col_eq col (b_name r) name) (t_buckets T) \<or> has_bucket T nid then None
      else Some (T\<lparr>t_buckets := t_buckets T @ [\<lparr>b_id = nid, b_name = name, b_created = now\<rparr>]\<rparr>, inserted nid))"
| "stmt_tables col now nid T (Sel_bucket_name name) =
     Some (T, rows (map Row_bucket (take 1 (filter (\<lambda>r. col_eq col (b_name r) name) (t_buckets T)))))"
| "stmt_tables col now nid T (Sel_bucket_id i) =
     Some (T, rows (map Row_bucket (take 1 (filter (\<lambda>r. b_id r = i) (t_buckets T)))))"
| "stmt_tables col now nid T Sel_buckets =
     Some (T, rows (map Row_bucket (sort_key (\<lambda>r. col_weight col (b_name r)) (t_buckets T))))"
| "stmt_tables col now nid T (Del_bucket name) = Some (del_bucket col T name)"
| "stmt_tables col now nid T (Cnt_objects_bucket b) =
     Some (T, rows [Row_int (int (length (filter (\<lambda>r. o_bucket r = b) (t_objects T))))])"
| "stmt_tables col now nid T (Ins_object b k cas sz ct etag) = ins_object col now nid T b k cas sz ct etag"
| "stmt_tables col now nid T (Upsert_object b k cas sz ct etag) = upsert_object col now nid T b k cas sz ct etag"
| "stmt_tables col now nid T (Sel_object_id b k) =
     Some (T, rows (map (\<lambda>r. Row_int (o_id r)) (take 1 (filter (obj_is col b k) (t_objects T)))))"
| "stmt_tables col now nid T (Sel_object_cas b k) =
     Some (T, rows (map (\<lambda>r. Row_string (o_cas r)) (filter (obj_is col b k) (t_objects T))))"
| "stmt_tables col now nid T (Sel_object b k) =
     Some (T, rows (map Row_object (take 1 (filter (obj_is col b k) (t_objects T)))))"
| "stmt_tables col now nid T (Sel_objects b pat after lim) =
     map_option (Pair T) (limited lim (map Row_object (sort_key (\<lambda>r. col_weight col (o_key r))
       (filter (\<lambda>r. o_bucket r = b \<and> match_like col pat (o_key r) \<and> match_after col after (o_key r)) (t_objects T)))))"
| "stmt_tables col now nid T (Del_object b k) =
     Some (T\<lparr>t_objects := filter (\<lambda>r. \<not> obj_is col b k r) (t_objects T)\<rparr>,
           affected (length (filter (obj_is col b k) (t_objects T))))"
| "stmt_tables col now nid T (Upsert_cas k sz) = upsert_cas col now T k sz"
| "stmt_tables col now nid T (Inc_cas k) = update_cas col (\<lambda>r. r\<lparr>c_ref := c_ref r + 1, c_updated := now\<rparr>) T k"
| "stmt_tables col now nid T (Dec_cas k) = update_cas col (\<lambda>r. r\<lparr>c_ref := c_ref r - 1, c_updated := now\<rparr>) T k"
| "stmt_tables col now nid T (Sel_ref k) =
     Some (T, rows (map (\<lambda>r. Row_int (int (c_ref r))) (take 1 (filter (cas_is col k) (t_cas T)))))"
| "stmt_tables col now nid T (Sel_cas k) =
     Some (T, rows (map Row_cas (take 1 (filter (cas_is col k) (t_cas T)))))"
| "stmt_tables col now nid T (Sel_garbage age lim) =
     map_option (Pair T) (limited lim (map Row_cas (sort_key c_updated
       (filter (\<lambda>r. c_ref r = 0 \<and> c_updated r < now - age) (t_cas T)))))"
| "stmt_tables col now nid T (Del_cas k) =
     (if list_ex (\<lambda>r. col_eq col (o_cas r) k) (t_objects T) \<or> list_ex (\<lambda>r. col_eq col (p_cas r) k) (t_parts T)
      then (if has_cas col T k then None else Some (T, affected 0))
      else Some (T\<lparr>t_cas := filter (\<lambda>r. \<not> cas_is col k r) (t_cas T)\<rparr>,
                 affected (length (filter (cas_is col k) (t_cas T)))))"
| "stmt_tables col now nid T (Cnt_objects_cas k) =
     Some (T, rows [Row_int (int (length (filter (\<lambda>r. col_eq col (o_cas r) k) (t_objects T))))])"
| "stmt_tables col now nid T (Cnt_parts_cas k) =
     Some (T, rows [Row_int (int (length (filter (\<lambda>r. col_eq col (p_cas r) k) (t_parts T))))])"
| "stmt_tables col now nid T (Ins_upload u b k ct ex) =
     (if has_upload col T u \<or> \<not> has_bucket T b then None
      else Some (T\<lparr>t_uploads := t_uploads T @ [\<lparr>u_id = u, u_bucket = b, u_key = k, u_ct = ct,
             u_created = now, u_expires = ex\<rparr>]\<rparr>, affected 1))"
| "stmt_tables col now nid T (Sel_upload u) =
     Some (T, rows (map Row_upload (take 1 (filter (\<lambda>r. col_eq col (u_id r) u) (t_uploads T)))))"
| "stmt_tables col now nid T (Del_upload u) =
     Some (T\<lparr>t_uploads := filter (\<lambda>r. \<not> col_eq col (u_id r) u) (t_uploads T),
             t_parts := filter (\<lambda>r. \<not> col_eq col (p_upload r) u) (t_parts T)\<rparr>,
           affected (length (filter (\<lambda>r. col_eq col (u_id r) u) (t_uploads T))))"
| "stmt_tables col now nid T (Sel_uploads b pat lim) =
     map_option (Pair T) (limited lim (map Row_upload (sort_key u_created
       (filter (\<lambda>r. u_bucket r = b \<and> match_like col pat (u_key r)) (t_uploads T)))))"
| "stmt_tables col now nid T (Upsert_part u n cas sz etag) = upsert_part col now T u n cas sz etag"
| "stmt_tables col now nid T (Sel_part_cas u n) =
     Some (T, rows (map (\<lambda>r. Row_string (p_cas r)) (filter (part_is col u n) (t_parts T))))"
| "stmt_tables col now nid T (Sel_parts u marker lim) =
     map_option (Pair T) (limited lim (map Row_part (sort_key p_number
       (filter (\<lambda>r. col_eq col (p_upload r) u \<and> marker < p_number r) (t_parts T)))))"
| "stmt_tables col now nid T (Sel_idem k) =
     Some (T, rows (map Row_idem (take 1 (filter (\<lambda>r. col_eq col (i_key r) k) (t_idem T)))))"
| "stmt_tables col now nid T (Upsert_idem k h st body ex) = Some (idem_put col now T k h st body ex, affected 1)"
| "stmt_tables col now nid T Del_idem_expired =
     Some (T\<lparr>t_idem := filter (\<lambda>r. \<not> i_expires r < now) (t_idem T)\<rparr>,
           affected (length (filter (\<lambda>r. i_expires r < now) (t_idem T))))"
| "stmt_tables col now nid T s = Some (T, affected 0)"

text \<open>With the transaction: \<open>START TRANSACTION\<close> commits an open one first; a statement works on the
  transaction's copy, or directly on the tables (autocommit).\<close>

definition db_current :: "DbState \<Rightarrow> Tables" where
  "db_current D = (case db_tx D of Some w \<Rightarrow> w | None \<Rightarrow> db_tables D)"

definition db_write :: "DbState \<Rightarrow> Tables \<Rightarrow> DbState" where
  "db_write D T = (case db_tx D of Some w \<Rightarrow> D\<lparr>db_tx := Some T\<rparr> | None \<Rightarrow> D\<lparr>db_tables := T\<rparr>)"

definition stmt_effect :: "Collation \<Rightarrow> int \<Rightarrow> int \<Rightarrow> DbState \<Rightarrow> Stmt \<Rightarrow> (DbState \<times> SqlRes) option" where
  "stmt_effect col now nid D s =
     (case s of
        Start_transaction \<Rightarrow>
          Some (\<lparr>db_tables = db_current D, db_tx = Some (db_current D)\<rparr>, affected 0)
      | Commit_tx \<Rightarrow> Some (\<lparr>db_tables = db_current D, db_tx = None\<rparr>, affected 0)
      | Rollback_tx \<Rightarrow> Some (D\<lparr>db_tx := None\<rparr>, affected 0)
      | _ \<Rightarrow> map_option (\<lambda>(T, r). (db_write D T, r)) (stmt_tables col now nid (db_current D) s))"

text \<open>What the code relies on of the database.\<close>

definition sql_conforms ::
    "Collation \<Rightarrow> ('d \<Rightarrow> Stmt \<Rightarrow> 'd \<times> SqlOut) \<Rightarrow> ('d \<Rightarrow> DbState) \<Rightarrow> bool" where
  "sql_conforms col sql view \<longleftrightarrow> (\<forall>d s d' out. sql d s = (d', out) \<longrightarrow>
     (case out of
        Sql_ok r \<Rightarrow> \<exists>now nid. stmt_effect col now nid (view d) s = Some (view d', r)
      | Sql_err _ \<Rightarrow> view d' = (view d)\<lparr>db_tx := None\<rparr> \<or>
          (view d' = view d \<and> s \<noteq> Commit_tx \<and> s \<noteq> Rollback_tx)))"

end
