(* ===== verification/Json_Value.thy ===== *)
theory Json_Value
  imports Cpp_Strings
begin

text \<open>
  JSON values as the handlers build and read them through nlohmann::json. The library's \<open>dump\<close> and
  \<open>parse\<close> are parameters wherever they are used; a number with a fraction carries its truncation,
  which is what \<open>get<int>()\<close> returns. Typed access is as the library documents it: \<open>value(key, default)\<close>
  gives the default for a missing key and throws on a value of another type.
\<close>

datatype Json =
    JNull
  | JBool bool
  | JInt int
  | JFloat int
  | JStr string
  | JArr "Json list"
  | JObj "(string \<times> Json) list"

definition json_contains :: "Json \<Rightarrow> string \<Rightarrow> bool" where
  "json_contains j k = (case j of JObj kvs \<Rightarrow> map_of kvs k \<noteq> None | _ \<Rightarrow> False)"

definition json_get_int :: "Json \<Rightarrow> cpp_exn + int" where
  "json_get_int j = (case j of JInt i \<Rightarrow> Inr i | JFloat i \<Rightarrow> Inr i | JBool b \<Rightarrow> Inr (if b then 1 else 0)
     | _ \<Rightarrow> Inl Json_type_error)"

definition json_get_string :: "Json \<Rightarrow> cpp_exn + string" where
  "json_get_string j = (case j of JStr s \<Rightarrow> Inr s | _ \<Rightarrow> Inl Json_type_error)"

definition json_value_int :: "Json \<Rightarrow> string \<Rightarrow> int \<Rightarrow> cpp_exn + int" where
  "json_value_int j k d =
     (case j of
        JObj kvs \<Rightarrow> (case map_of kvs k of None \<Rightarrow> Inr d | Some v \<Rightarrow> json_get_int v)
      | _ \<Rightarrow> Inl Json_type_error)"

definition json_value_string :: "Json \<Rightarrow> string \<Rightarrow> string \<Rightarrow> cpp_exn + string" where
  "json_value_string j k d =
     (case j of
        JObj kvs \<Rightarrow> (case map_of kvs k of None \<Rightarrow> Inr d | Some v \<Rightarrow> json_get_string v)
      | _ \<Rightarrow> Inl Json_type_error)"

text \<open>What the code relies on of the library: parsing undoes dumping.\<close>

definition json_roundtrip :: "(Json \<Rightarrow> string) \<Rightarrow> (string \<Rightarrow> Json option) \<Rightarrow> bool" where
  "json_roundtrip dump parse \<longleftrightarrow> (\<forall>j. parse (dump j) = Some j)"

end
