(* ===== verification/Meta_Store.thy ===== *)
theory Meta_Store
  imports Sql_Tables Json_Value Crypto_Uuid
begin

text \<open>
  \<^verbatim>\<open>db/meta_store.{h,cpp}\<close> and the transactions of \<^verbatim>\<open>db/mysql_tx.{h,cpp}\<close>. The operations run over an
  environment of parameters: the connection pool, the database (see \<open>Sql_Tables\<close>), the Redis client,
  the JSON library and the digest. Times are seconds; MySQL's wall-clock text is read with \<open>mktime\<close>
  (the process's time zone) and written with \<open>gmtime\<close>.
\<close>

section \<open>Data model\<close>

record BucketInfo =
  bi_id :: int
  bi_name :: string
  bi_owner_id :: string
  bi_region :: string
  bi_acl :: string
  bi_versioning_enabled :: bool
  bi_created_at :: int
  bi_updated_at :: int

record ObjectInfo =
  oi_id :: int
  oi_bucket_id :: int
  oi_key :: string
  oi_version_id :: string
  oi_is_latest :: bool
  oi_is_delete_marker :: bool
  oi_size :: int
  oi_etag :: string
  oi_content_type :: string
  oi_storage_class :: string
  oi_sha256_hash :: string
  oi_metadata_json :: string
  oi_owner_id :: string
  oi_created_at :: int

record CasBlobInfo =
  ci_id :: int
  ci_sha256_hash :: string
  ci_size :: int
  ci_ref_count :: int
  ci_created_at :: int
  ci_last_accessed :: int

record MultipartUploadInfo =
  mu_id :: int
  mu_upload_id :: string
  mu_bucket_id :: int
  mu_key :: string
  mu_content_type :: string
  mu_metadata_json :: string
  mu_owner_id :: string
  mu_created_at :: int

record MultipartPartInfo =
  mp_id :: int
  mp_upload_id :: string
  mp_part_number :: int
  mp_sha256_hash :: string
  mp_size :: int
  mp_etag :: string
  mp_created_at :: int

record IdempotencyRecord =
  ir_idempotency_key :: string
  ir_request_hash :: string
  ir_response_status :: int
  ir_response_body :: string
  ir_created_at :: int
  ir_expires_at :: int

record ListObjectsResult =
  lo_objects :: "ObjectInfo list"
  lo_common_prefixes :: "string list"
  lo_is_truncated :: bool
  lo_next_continuation_token :: string
  lo_next_key_marker :: string

record ListPartsResult =
  lp_parts :: "MultipartPartInfo list"
  lp_is_truncated :: bool
  lp_next_part_number_marker :: int

text \<open>The parameters: \<open>me_conn\<close> is \<open>pool_.GetConnection()\<close> (\<open>False\<close>: no connection), \<open>me_sql\<close> runs a
  statement on the connection, \<open>me_redis_on\<close> is \<open>redis_cache_ && redis_cache_->Enabled()\<close>.\<close>

record ('d, 'r) MetaEnv =
  me_conn :: "'d \<Rightarrow> 'd \<times> bool"
  me_sql :: "'d \<Rightarrow> Stmt \<Rightarrow> 'd \<times> SqlOut"
  me_redis_on :: bool
  me_redis_get :: "'r \<Rightarrow> string \<Rightarrow> 'r \<times> string option Result"
  me_redis_setex :: "'r \<Rightarrow> string \<Rightarrow> int \<Rightarrow> string \<Rightarrow> 'r \<times> Status"
  me_redis_del :: "'r \<Rightarrow> string \<Rightarrow> 'r \<times> Status"
  me_redis_ttl :: int
  me_dump :: "Json \<Rightarrow> string"
  me_parse :: "string \<Rightarrow> Json option"
  me_sha :: "string \<Rightarrow> 8 word list"
  me_tz :: int

record ('d, 'r) MetaStore =
  ms_db :: 'd
  ms_bucket_cache :: "string \<rightharpoonup> BucketInfo"
  ms_redis :: 'r

section \<open>Helpers\<close>

definition ParseMysqlTime :: "('d, 'r) MetaEnv \<Rightarrow> int \<Rightarrow> int" where
  "ParseMysqlTime env wall = wall - me_tz env"

definition MetaStore_ParseTimestamp :: "('d, 'r) MetaEnv \<Rightarrow> int \<Rightarrow> int" where
  "MetaStore_ParseTimestamp env wall = ParseMysqlTime env wall"

definition TimePointToMySQL :: "int \<Rightarrow> int" where
  "TimePointToMySQL tp = tp"

definition IsRetryableTxnError :: "string \<Rightarrow> bool" where
  "IsRetryableTxnError err =
     (find_str ''Deadlock found'' err \<noteq> None \<or> find_str ''Lock wait timeout exceeded'' err \<noteq> None)"

definition IsDuplicateKeyError :: "string \<Rightarrow> bool" where
  "IsDuplicateKeyError err = (find_str ''Duplicate entry'' err \<noteq> None)"

definition ObjectMetaCacheKey :: "('d, 'r) MetaEnv \<Rightarrow> int \<Rightarrow> string \<Rightarrow> string" where
  "ObjectMetaCacheKey env bucket_id key =
     ''objmeta:'' @ int_to_string bucket_id @ '':'' @ Crypto_SHA256 (me_sha env) key"

definition SerializeObjectInfo :: "('d, 'r) MetaEnv \<Rightarrow> ObjectInfo \<Rightarrow> string" where
  "SerializeObjectInfo env info =
     me_dump env (JObj [(''id'', JInt (oi_id info)), (''bucket_id'', JInt (oi_bucket_id info)),
       (''key'', JStr (oi_key info)), (''cas_key'', JStr (oi_sha256_hash info)),
       (''size'', JInt (oi_size info)), (''etag'', JStr (oi_etag info)),
       (''content_type'', JStr (oi_content_type info)), (''created_at'', JInt (oi_created_at info))])"

definition plain_object :: "int \<Rightarrow> int \<Rightarrow> string \<Rightarrow> string \<Rightarrow> int \<Rightarrow> string \<Rightarrow> string \<Rightarrow> int \<Rightarrow> ObjectInfo" where
  "plain_object i b k cas sz etag ct created =
     \<lparr>oi_id = i, oi_bucket_id = b, oi_key = k, oi_version_id = '''', oi_is_latest = True,
      oi_is_delete_marker = False, oi_size = sz, oi_etag = etag, oi_content_type = ct,
      oi_storage_class = ''standard'', oi_sha256_hash = cas, oi_metadata_json = ''{}'',
      oi_owner_id = '''', oi_created_at = created\<rparr>"

text \<open>\<open>None\<close> is \<open>false\<close> (a parse or type error, or no \<open>cas_key\<close>); \<open>now\<close> is \<open>system_clock::now()\<close>.\<close>

definition DeserializeObjectInfo :: "('d, 'r) MetaEnv \<Rightarrow> int \<Rightarrow> string \<Rightarrow> ObjectInfo option" where
  "DeserializeObjectInfo env now payload =
     (case me_parse env payload of
        None \<Rightarrow> None
      | Some j \<Rightarrow>
          (case (json_value_int j ''id'' 0, json_value_int j ''bucket_id'' 0, json_value_string j ''key'' '''',
                 json_value_string j ''cas_key'' '''', json_value_int j ''size'' 0, json_value_string j ''etag'' '''',
                 json_value_string j ''content_type'' ''application/octet-stream'',
                 json_value_int j ''created_at'' 0) of
             (Inr i, Inr b, Inr k, Inr cas, Inr sz, Inr etag, Inr ct, Inr created_ts) \<Rightarrow>
               (if cas = '''' then None
                else Some (plain_object i b k cas sz etag ct (if created_ts > 0 then created_ts else now)))
           | _ \<Rightarrow> None))"

definition db_error :: "string \<Rightarrow> 'a Result" where
  "db_error msg = Err DatabaseError msg"

definition no_conn :: "'a Result" where
  "no_conn = Err DatabaseError ''No MySQL connection''"

text \<open>An operation that needs a connection: \<open>f\<close> runs on the database state.\<close>

definition with_conn ::
    "('d, 'r) MetaEnv \<Rightarrow> ('d, 'r) MetaStore \<Rightarrow> ('d \<Rightarrow> 'd \<times> 'a Result) \<Rightarrow> ('d, 'r) MetaStore \<times> 'a Result" where
  "with_conn env ms f =
     (case me_conn env (ms_db ms) of
        (d, False) \<Rightarrow> (ms\<lparr>ms_db := d\<rparr>, no_conn)
      | (d, True) \<Rightarrow> (case f d of (d', r) \<Rightarrow> (ms\<lparr>ms_db := d'\<rparr>, r)))"

text \<open>One statement; the continuation gets its result.\<close>

definition sql_then ::
    "('d, 'r) MetaEnv \<Rightarrow> Stmt \<Rightarrow> (SqlRes \<Rightarrow> 'd \<Rightarrow> 'd \<times> 'a Result) \<Rightarrow> 'd \<Rightarrow> 'd \<times> 'a Result" where
  "sql_then env s k d =
     (case me_sql env d s of
        (d', Sql_err e) \<Rightarrow> (d', db_error e)
      | (d', Sql_ok r) \<Rightarrow> k r d')"

section \<open>Transactions\<close>

definition Transaction_new :: "('d, 'r) MetaEnv \<Rightarrow> 'd \<Rightarrow> 'd" where
  "Transaction_new env d = fst (me_sql env d Start_transaction)"

definition Transaction_Commit :: "('d, 'r) MetaEnv \<Rightarrow> 'd \<Rightarrow> 'd \<times> (string + unit)" where
  "Transaction_Commit env d =
     (case me_sql env d Commit_tx of (d', Sql_err e) \<Rightarrow> (d', Inl e) | (d', Sql_ok _) \<Rightarrow> (d', Inr ()))"

definition Transaction_Rollback :: "('d, 'r) MetaEnv \<Rightarrow> 'd \<Rightarrow> 'd" where
  "Transaction_Rollback env d = fst (me_sql env d Rollback_tx)"

section \<open>Buckets\<close>

definition bucket_of_row :: "('d, 'r) MetaEnv \<Rightarrow> BucketRow \<Rightarrow> BucketInfo" where
  "bucket_of_row env r =
     \<lparr>bi_id = b_id r, bi_name = b_name r, bi_owner_id = '''', bi_region = ''default'',
      bi_acl = ''private'', bi_versioning_enabled = False,
      bi_created_at = ParseMysqlTime env (b_created r), bi_updated_at = ParseMysqlTime env (b_created r)\<rparr>"

definition MetaStore_CreateBucket ::
    "('d, 'r) MetaEnv \<Rightarrow> int \<Rightarrow> ('d, 'r) MetaStore \<Rightarrow> string \<Rightarrow> string \<Rightarrow> string \<Rightarrow> string \<Rightarrow>
     ('d, 'r) MetaStore \<times> int Result" where
  "MetaStore_CreateBucket env now ms name owner_id region acl =
     (case me_conn env (ms_db ms) of
        (d, False) \<Rightarrow> (ms\<lparr>ms_db := d\<rparr>, no_conn)
      | (d, True) \<Rightarrow>
          (case me_sql env d (Ins_bucket name) of
             (d, Sql_err err) \<Rightarrow>
               (ms\<lparr>ms_db := d\<rparr>,
                if find_str ''Duplicate'' err \<noteq> None then Err BucketAlreadyExists err else Err DatabaseError err)
           | (d, Sql_ok r) \<Rightarrow>
               let info = \<lparr>bi_id = sr_insert_id r, bi_name = name, bi_owner_id = owner_id,
                     bi_region = (if region = '''' then ''default'' else region),
                     bi_acl = (if acl = '''' then ''private'' else acl),
                     bi_versioning_enabled = False, bi_created_at = now, bi_updated_at = now\<rparr>
               in (ms\<lparr>ms_db := d, ms_bucket_cache := (ms_bucket_cache ms)(name \<mapsto> info)\<rparr>, Inr (bi_id info))))"

definition MetaStore_GetBucket ::
    "('d, 'r) MetaEnv \<Rightarrow> ('d, 'r) MetaStore \<Rightarrow> string \<Rightarrow> ('d, 'r) MetaStore \<times> BucketInfo Result" where
  "MetaStore_GetBucket env ms name =
     (case ms_bucket_cache ms name of
        Some info \<Rightarrow> (ms, Inr info)
      | None \<Rightarrow>
          (case with_conn env ms (sql_then env (Sel_bucket_name name) (\<lambda>r d.
                  (d, case sr_rows r of
                        Row_bucket row # _ \<Rightarrow> Inr (bucket_of_row env row)
                      | _ \<Rightarrow> Err NoSuchBucket ''Bucket not found''))) of
             (ms, Inl e) \<Rightarrow> (ms, Inl e)
           | (ms, Inr info) \<Rightarrow>
               (ms\<lparr>ms_bucket_cache := (ms_bucket_cache ms)(bi_name info \<mapsto> info)\<rparr>, Inr info)))"

definition MetaStore_GetBucketById ::
    "('d, 'r) MetaEnv \<Rightarrow> ('d, 'r) MetaStore \<Rightarrow> int \<Rightarrow> ('d, 'r) MetaStore \<times> BucketInfo Result" where
  "MetaStore_GetBucketById env ms bid =
     with_conn env ms (sql_then env (Sel_bucket_id bid) (\<lambda>r d.
       (d, case sr_rows r of
             Row_bucket row # _ \<Rightarrow> Inr (bucket_of_row env row)
           | _ \<Rightarrow> Err NoSuchBucket ''Bucket not found'')))"

definition bucket_rows :: "SqlRow list \<Rightarrow> BucketRow list" where
  "bucket_rows rs = List.map_filter (\<lambda>r. case r of Row_bucket b \<Rightarrow> Some b | _ \<Rightarrow> None) rs"

definition MetaStore_ListBuckets ::
    "('d, 'r) MetaEnv \<Rightarrow> ('d, 'r) MetaStore \<Rightarrow> string \<Rightarrow> ('d, 'r) MetaStore \<times> BucketInfo list Result" where
  "MetaStore_ListBuckets env ms owner_id =
     (case with_conn env ms (sql_then env Sel_buckets (\<lambda>r d.
             (d, Inr (map (bucket_of_row env) (bucket_rows (sr_rows r)))))) of
        (ms, Inl e) \<Rightarrow> (ms, Inl e)
      | (ms, Inr buckets) \<Rightarrow>
          (ms\<lparr>ms_bucket_cache := foldl (\<lambda>m b. m(bi_name b \<mapsto> b)) (ms_bucket_cache ms) buckets\<rparr>, Inr buckets))"

definition MetaStore_DeleteBucket ::
    "('d, 'r) MetaEnv \<Rightarrow> ('d, 'r) MetaStore \<Rightarrow> string \<Rightarrow> ('d, 'r) MetaStore \<times> unit Result" where
  "MetaStore_DeleteBucket env ms name =
     (case with_conn env ms (sql_then env (Del_bucket name) (\<lambda>r d.
             (d, if sr_affected r = 0 then Err NoSuchBucket ''Bucket not found'' else Inr ()))) of
        (ms, Inl e) \<Rightarrow> (ms, Inl e)
      | (ms, Inr _) \<Rightarrow> (ms\<lparr>ms_bucket_cache := (ms_bucket_cache ms)(name := None)\<rparr>, Inr ()))"

definition row_int :: "SqlRes \<Rightarrow> int" where
  "row_int r = (case sr_rows r of Row_int n # _ \<Rightarrow> n | _ \<Rightarrow> 0)"

definition MetaStore_IsBucketEmpty ::
    "('d, 'r) MetaEnv \<Rightarrow> ('d, 'r) MetaStore \<Rightarrow> int \<Rightarrow> ('d, 'r) MetaStore \<times> bool Result" where
  "MetaStore_IsBucketEmpty env ms bucket_id =
     with_conn env ms (sql_then env (Cnt_objects_bucket bucket_id) (\<lambda>r d. (d, Inr (row_int r = 0))))"

section \<open>Objects\<close>

definition MetaStore_PutObject ::
    "('d, 'r) MetaEnv \<Rightarrow> ('d, 'r) MetaStore \<Rightarrow> int \<Rightarrow> string \<Rightarrow> int \<Rightarrow> string \<Rightarrow> string \<Rightarrow> string \<Rightarrow>
     ('d, 'r) MetaStore \<times> int Result" where
  "MetaStore_PutObject env ms bucket_id key sz etag content_type sha256_hash =
     with_conn env ms (sql_then env (Upsert_object bucket_id key sha256_hash sz content_type etag) (\<lambda>r.
       if sr_insert_id r \<noteq> 0 then (\<lambda>d. (d, Inr (sr_insert_id r)))
       else sql_then env (Sel_object_id bucket_id key) (\<lambda>q d.
         (d, case sr_rows q of
               Row_int i # _ \<Rightarrow> Inr i
             | _ \<Rightarrow> Err DatabaseError ''Failed to fetch object id''))))"

definition kMaxRetries :: nat where "kMaxRetries = 3"

text \<open>The pause before the next attempt, in milliseconds.\<close>

definition RetryBackoff :: "nat \<Rightarrow> nat" where
  "RetryBackoff attempt = 5 * (attempt + 1)"

lemma RetryBackoff_total: "sum_list (map RetryBackoff [0..<kMaxRetries - 1]) = 15"
  by code_simp

datatype 'a Attempt = Again | Finish "'a Result"

text \<open>The two error exits of the retry loops.\<close>

definition txn_error :: "nat \<Rightarrow> string \<Rightarrow> 'a Attempt" where
  "txn_error attempt err =
     (if attempt + 1 < kMaxRetries \<and> IsRetryableTxnError err then Again else Finish (Err DatabaseError err))"

definition commit_error :: "nat \<Rightarrow> string \<Rightarrow> 'a Attempt" where
  "commit_error attempt err =
     (if attempt + 1 < kMaxRetries \<and> IsRetryableTxnError err then Again
      else Finish (Err DatabaseError (if err = '''' then ''Failed to commit transaction'' else err)))"

text \<open>A statement inside a transaction: on failure the transaction object is destroyed, which rolls
  back.\<close>

definition tx_then ::
    "('d, 'r) MetaEnv \<Rightarrow> nat \<Rightarrow> Stmt \<Rightarrow> (SqlRes \<Rightarrow> 'd \<Rightarrow> 'd \<times> 'a Attempt) \<Rightarrow> 'd \<Rightarrow> 'd \<times> 'a Attempt" where
  "tx_then env attempt s k d =
     (case me_sql env d s of
        (d', Sql_err e) \<Rightarrow> (Transaction_Rollback env d', txn_error attempt e)
      | (d', Sql_ok r) \<Rightarrow> k r d')"

definition tx_commit :: "('d, 'r) MetaEnv \<Rightarrow> nat \<Rightarrow> 'a \<Rightarrow> 'd \<Rightarrow> 'd \<times> 'a Attempt" where
  "tx_commit env attempt v d =
     (case Transaction_Commit env d of
        (d', Inl e) \<Rightarrow> (d', commit_error attempt e)
      | (d', Inr _) \<Rightarrow> (d', Finish (Inr v)))"

text \<open>The fast path of an upload (a key that is new): \<open>None\<close> when the insert hit a duplicate key, after
  the rollback of the increment.\<close>

definition put_object_fast ::
    "('d, 'r) MetaEnv \<Rightarrow> nat \<Rightarrow> int \<Rightarrow> string \<Rightarrow> int \<Rightarrow> string \<Rightarrow> string \<Rightarrow> string \<Rightarrow> 'd \<Rightarrow>
     'd \<times> string option Attempt option" where
  "put_object_fast env attempt bucket_id key sz etag content_type sha256_hash d =
     (let d = Transaction_new env d in
      case me_sql env d (Upsert_cas sha256_hash sz) of
        (d, Sql_err e) \<Rightarrow> (Transaction_Rollback env d, Some (txn_error attempt e))
      | (d, Sql_ok _) \<Rightarrow>
          (case me_sql env d (Ins_object bucket_id key sha256_hash sz content_type etag) of
             (d, Sql_ok _) \<Rightarrow> (case tx_commit env attempt None d of (d, a) \<Rightarrow> (d, Some a))
           | (d, Sql_err err) \<Rightarrow>
               if \<not> IsDuplicateKeyError err then (Transaction_Rollback env d, Some (txn_error attempt err))
               else (Transaction_Rollback env d, None)))"

definition first_string :: "SqlRes \<Rightarrow> string" where
  "first_string r = (case sr_rows r of Row_string s # _ \<Rightarrow> s | _ \<Rightarrow> '''')"

definition first_ref_zero :: "SqlRes \<Rightarrow> bool" where
  "first_ref_zero r = (case sr_rows r of Row_int n # _ \<Rightarrow> n = 0 | _ \<Rightarrow> False)"

text \<open>The middle of both reference-counted writes: count the new digest up when it differs from the
  old one, count the old one down and report it when it reached 0, then write the row and commit.\<close>

definition swap_refs ::
    "('d, 'r) MetaEnv \<Rightarrow> nat \<Rightarrow> string \<Rightarrow> string \<Rightarrow> int \<Rightarrow> Stmt \<Rightarrow> 'd \<Rightarrow> 'd \<times> string option Attempt" where
  "swap_refs env attempt old_cas sha256_hash sz upsert =
     (let finish = (\<lambda>gc. tx_then env attempt upsert (\<lambda>_. tx_commit env attempt gc));
          dec_old = (if old_cas \<noteq> '''' \<and> old_cas \<noteq> sha256_hash
            then tx_then env attempt (Dec_cas old_cas) (\<lambda>_.
              tx_then env attempt (Sel_ref old_cas) (\<lambda>r.
                finish (if first_ref_zero r then Some old_cas else None)))
            else finish None)
      in if old_cas = '''' \<or> old_cas \<noteq> sha256_hash
         then tx_then env attempt (Upsert_cas sha256_hash sz) (\<lambda>_. dec_old)
         else dec_old)"

definition put_object_slow ::
    "('d, 'r) MetaEnv \<Rightarrow> nat \<Rightarrow> int \<Rightarrow> string \<Rightarrow> int \<Rightarrow> string \<Rightarrow> string \<Rightarrow> string \<Rightarrow> 'd \<Rightarrow>
     'd \<times> string option Attempt" where
  "put_object_slow env attempt bucket_id key sz etag content_type sha256_hash d =
     tx_then env attempt (Sel_object_cas bucket_id key) (\<lambda>r.
       swap_refs env attempt (first_string r) sha256_hash sz
         (Upsert_object bucket_id key sha256_hash sz content_type etag)) (Transaction_new env d)"

text \<open>The loop over the attempts; the flag says that the slow path committed.\<close>

fun put_object_loop ::
    "('d, 'r) MetaEnv \<Rightarrow> nat \<Rightarrow> nat \<Rightarrow> int \<Rightarrow> string \<Rightarrow> int \<Rightarrow> string \<Rightarrow> string \<Rightarrow> string \<Rightarrow> 'd \<Rightarrow>
     'd \<times> bool \<times> string option Result" where
  "put_object_loop env 0 attempt b k sz etag ct h d =
     (d, False, Err DatabaseError ''Transaction retry exhausted'')"
| "put_object_loop env (Suc n) attempt b k sz etag ct h d =
     (case put_object_fast env attempt b k sz etag ct h d of
        (d, Some (Finish r)) \<Rightarrow> (d, False, r)
      | (d, Some Again) \<Rightarrow> put_object_loop env n (Suc attempt) b k sz etag ct h d
      | (d, None) \<Rightarrow>
          (case put_object_slow env attempt b k sz etag ct h d of
             (d, Finish r) \<Rightarrow> (d, True, r)
           | (d, Again) \<Rightarrow> put_object_loop env n (Suc attempt) b k sz etag ct h d))"

definition MetaStore_PutObjectWithRefCount ::
    "('d, 'r) MetaEnv \<Rightarrow> int \<Rightarrow> ('d, 'r) MetaStore \<Rightarrow> int \<Rightarrow> string \<Rightarrow> int \<Rightarrow> string \<Rightarrow> string \<Rightarrow> string \<Rightarrow>
     ('d, 'r) MetaStore \<times> string option Result" where
  "MetaStore_PutObjectWithRefCount env now ms bucket_id key sz etag content_type sha256_hash =
     (case me_conn env (ms_db ms) of
        (d, False) \<Rightarrow> (ms\<lparr>ms_db := d\<rparr>, no_conn)
      | (d, True) \<Rightarrow>
          (case put_object_loop env kMaxRetries 0 bucket_id key sz etag content_type sha256_hash d of
             (d, slow, r) \<Rightarrow>
               let ms = ms\<lparr>ms_db := d\<rparr> in
               if slow \<and> Result_ok r \<and> me_redis_on env
               then let info = plain_object 0 bucket_id key sha256_hash sz etag content_type now in
                 (ms\<lparr>ms_redis := fst (me_redis_setex env (ms_redis ms) (ObjectMetaCacheKey env bucket_id key)
                       (me_redis_ttl env) (SerializeObjectInfo env info))\<rparr>, r)
               else (ms, r)))"

definition object_of_row :: "('d, 'r) MetaEnv \<Rightarrow> ObjRow \<Rightarrow> ObjectInfo" where
  "object_of_row env r =
     plain_object (o_id r) (o_bucket r) (o_key r) (o_cas r) (o_size r) (o_etag r) (o_ct r)
       (ParseMysqlTime env (o_created r))"

definition get_object_db ::
    "('d, 'r) MetaEnv \<Rightarrow> ('d, 'r) MetaStore \<Rightarrow> int \<Rightarrow> string \<Rightarrow> ('d, 'r) MetaStore \<times> ObjectInfo Result" where
  "get_object_db env ms bucket_id key =
     (case with_conn env ms (sql_then env (Sel_object bucket_id key) (\<lambda>r d.
             (d, case sr_rows r of
                   Row_object row # _ \<Rightarrow> Inr (object_of_row env row)
                 | _ \<Rightarrow> Err NoSuchKey ''Object not found''))) of
        (ms, Inl e) \<Rightarrow> (ms, Inl e)
      | (ms, Inr info) \<Rightarrow>
          (if me_redis_on env
           then ms\<lparr>ms_redis := fst (me_redis_setex env (ms_redis ms) (ObjectMetaCacheKey env bucket_id key)
                     (me_redis_ttl env) (SerializeObjectInfo env info))\<rparr>
           else ms, Inr info))"

definition MetaStore_GetObject ::
    "('d, 'r) MetaEnv \<Rightarrow> int \<Rightarrow> ('d, 'r) MetaStore \<Rightarrow> int \<Rightarrow> string \<Rightarrow> ('d, 'r) MetaStore \<times> ObjectInfo Result" where
  "MetaStore_GetObject env now ms bucket_id key =
     (if me_redis_on env
      then let cache_key = ObjectMetaCacheKey env bucket_id key in
        (case me_redis_get env (ms_redis ms) cache_key of
           (r, Inr (Some payload)) \<Rightarrow>
             (case DeserializeObjectInfo env now payload of
                Some cached_info \<Rightarrow> (ms\<lparr>ms_redis := r\<rparr>, Inr cached_info)
              | None \<Rightarrow>
                  get_object_db env (ms\<lparr>ms_redis := fst (me_redis_del env r cache_key)\<rparr>) bucket_id key)
         | (r, _) \<Rightarrow> get_object_db env (ms\<lparr>ms_redis := r\<rparr>) bucket_id key)
      else get_object_db env ms bucket_id key)"

definition MetaStore_GetObjectVersion ::
    "('d, 'r) MetaEnv \<Rightarrow> int \<Rightarrow> ('d, 'r) MetaStore \<Rightarrow> int \<Rightarrow> string \<Rightarrow> string \<Rightarrow> ('d, 'r) MetaStore \<times> ObjectInfo Result" where
  "MetaStore_GetObjectVersion env now ms bucket_id key version_id = MetaStore_GetObject env now ms bucket_id key"

definition object_rows :: "SqlRow list \<Rightarrow> ObjRow list" where
  "object_rows rs = List.map_filter (\<lambda>r. case r of Row_object b \<Rightarrow> Some b | _ \<Rightarrow> None) rs"

definition list_objects_page :: "('d, 'r) MetaEnv \<Rightarrow> nat \<Rightarrow> ObjRow list \<Rightarrow> ListObjectsResult" where
  "list_objects_page env max_keys rs =
     (let trunc = max_keys < length rs; marker = (if trunc then o_key (rs ! max_keys) else '''') in
      \<lparr>lo_objects = map (object_of_row env) (take max_keys rs), lo_common_prefixes = [],
       lo_is_truncated = trunc, lo_next_continuation_token = marker, lo_next_key_marker = marker\<rparr>)"

definition MetaStore_ListObjects ::
    "('d, 'r) MetaEnv \<Rightarrow> ('d, 'r) MetaStore \<Rightarrow> int \<Rightarrow> string \<Rightarrow> string \<Rightarrow> string \<Rightarrow> int \<Rightarrow>
     ('d, 'r) MetaStore \<times> ListObjectsResult Result" where
  "MetaStore_ListObjects env ms bucket_id pre delimiter start_after max_keys =
     with_conn env ms (sql_then env
       (Sel_objects bucket_id (if pre = '''' then None else Some (pre @ ''%''))
          (if start_after = '''' then None else Some start_after) (int32 (max_keys + 1)))
       (\<lambda>r d. (d, Inr (list_objects_page env (nat max_keys) (object_rows (sr_rows r))))))"

definition MetaStore_DeleteObject ::
    "('d, 'r) MetaEnv \<Rightarrow> ('d, 'r) MetaStore \<Rightarrow> int \<Rightarrow> string \<Rightarrow> ('d, 'r) MetaStore \<times> unit Result" where
  "MetaStore_DeleteObject env ms bucket_id key =
     with_conn env ms (sql_then env (Del_object bucket_id key) (\<lambda>r d.
       (d, if sr_affected r = 0 then Err NoSuchKey ''Object not found'' else Inr ())))"

text \<open>A statement of a transaction without retries.\<close>

definition tx1_then ::
    "('d, 'r) MetaEnv \<Rightarrow> Stmt \<Rightarrow> (SqlRes \<Rightarrow> 'd \<Rightarrow> 'd \<times> 'a Result) \<Rightarrow> 'd \<Rightarrow> 'd \<times> 'a Result" where
  "tx1_then env s k d =
     (case me_sql env d s of
        (d', Sql_err e) \<Rightarrow> (Transaction_Rollback env d', db_error e)
      | (d', Sql_ok r) \<Rightarrow> k r d')"

definition tx1_commit :: "('d, 'r) MetaEnv \<Rightarrow> 'a \<Rightarrow> 'd \<Rightarrow> 'd \<times> 'a Result" where
  "tx1_commit env v d =
     (case Transaction_Commit env d of
        (d', Inl e) \<Rightarrow> (d', db_error ''Failed to commit transaction'')
      | (d', Inr _) \<Rightarrow> (d', Inr v))"

definition delete_object_tx :: "('d, 'r) MetaEnv \<Rightarrow> int \<Rightarrow> string \<Rightarrow> 'd \<Rightarrow> 'd \<times> string option Result" where
  "delete_object_tx env bucket_id key d =
     tx1_then env (Sel_object_cas bucket_id key) (\<lambda>r d.
       case sr_rows r of
         Row_string cas_key # _ \<Rightarrow>
           tx1_then env (Del_object bucket_id key) (\<lambda>_.
             if cas_key \<noteq> ''''
             then tx1_then env (Dec_cas cas_key) (\<lambda>_.
               tx1_then env (Sel_ref cas_key) (\<lambda>q.
                 tx1_commit env (if first_ref_zero q then Some cas_key else None)))
             else tx1_commit env None) d
       | _ \<Rightarrow> (Transaction_Rollback env d, Err NoSuchKey ''Object not found''))
     (Transaction_new env d)"

definition MetaStore_DeleteObjectWithRefCount ::
    "('d, 'r) MetaEnv \<Rightarrow> ('d, 'r) MetaStore \<Rightarrow> int \<Rightarrow> string \<Rightarrow> ('d, 'r) MetaStore \<times> string option Result" where
  "MetaStore_DeleteObjectWithRefCount env ms bucket_id key =
     (case with_conn env ms (delete_object_tx env bucket_id key) of
        (ms, Inl e) \<Rightarrow> (ms, Inl e)
      | (ms, Inr gc) \<Rightarrow>
          (if me_redis_on env
           then ms\<lparr>ms_redis := fst (me_redis_del env (ms_redis ms) (ObjectMetaCacheKey env bucket_id key))\<rparr>
           else ms, Inr gc))"

definition MetaStore_DeleteObjectVersion ::
    "('d, 'r) MetaEnv \<Rightarrow> ('d, 'r) MetaStore \<Rightarrow> int \<Rightarrow> string \<Rightarrow> string \<Rightarrow> ('d, 'r) MetaStore \<times> unit Result" where
  "MetaStore_DeleteObjectVersion env ms bucket_id key version_id = MetaStore_DeleteObject env ms bucket_id key"

section \<open>Blobs\<close>

definition MetaStore_RegisterCasBlob ::
    "('d, 'r) MetaEnv \<Rightarrow> ('d, 'r) MetaStore \<Rightarrow> string \<Rightarrow> int \<Rightarrow> ('d, 'r) MetaStore \<times> int Result" where
  "MetaStore_RegisterCasBlob env ms sha256_hash sz =
     with_conn env ms (sql_then env (Upsert_cas sha256_hash sz) (\<lambda>_ d. (d, Inr 1)))"

definition blob_of_row :: "('d, 'r) MetaEnv \<Rightarrow> CasRow \<Rightarrow> CasBlobInfo" where
  "blob_of_row env r =
     \<lparr>ci_id = 0, ci_sha256_hash = c_key r, ci_size = c_size r, ci_ref_count = int (c_ref r),
      ci_created_at = ParseMysqlTime env (c_created r), ci_last_accessed = ParseMysqlTime env (c_updated r)\<rparr>"

definition MetaStore_GetCasBlob ::
    "('d, 'r) MetaEnv \<Rightarrow> ('d, 'r) MetaStore \<Rightarrow> string \<Rightarrow> ('d, 'r) MetaStore \<times> CasBlobInfo Result" where
  "MetaStore_GetCasBlob env ms sha256_hash =
     with_conn env ms (sql_then env (Sel_cas sha256_hash) (\<lambda>r d.
       (d, case sr_rows r of
             Row_cas row # _ \<Rightarrow> Inr (blob_of_row env row)
           | _ \<Rightarrow> Err NoSuchKey ''CAS blob not found'')))"

definition MetaStore_IncrementRefCount ::
    "('d, 'r) MetaEnv \<Rightarrow> ('d, 'r) MetaStore \<Rightarrow> string \<Rightarrow> ('d, 'r) MetaStore \<times> unit Result" where
  "MetaStore_IncrementRefCount env ms sha256_hash =
     with_conn env ms (sql_then env (Inc_cas sha256_hash) (\<lambda>r d.
       (d, if sr_affected r = 0 then Err NoSuchKey ''CAS blob not found'' else Inr ())))"

definition MetaStore_DecrementRefCount ::
    "('d, 'r) MetaEnv \<Rightarrow> ('d, 'r) MetaStore \<Rightarrow> string \<Rightarrow> ('d, 'r) MetaStore \<times> unit Result" where
  "MetaStore_DecrementRefCount env ms sha256_hash =
     with_conn env ms (sql_then env (Dec_cas sha256_hash) (\<lambda>r d.
       (d, if sr_affected r = 0 then Err NoSuchKey ''CAS blob not found'' else Inr ())))"

definition MetaStore_DecrementRefCountAndCheckZero ::
    "('d, 'r) MetaEnv \<Rightarrow> ('d, 'r) MetaStore \<Rightarrow> string \<Rightarrow> ('d, 'r) MetaStore \<times> bool Result" where
  "MetaStore_DecrementRefCountAndCheckZero env ms sha256_hash =
     with_conn env ms (sql_then env (Dec_cas sha256_hash) (\<lambda>_.
       sql_then env (Sel_ref sha256_hash) (\<lambda>r d.
         (d, case sr_rows r of
               Row_int n # _ \<Rightarrow> Inr (n = 0)
             | _ \<Rightarrow> Err NoSuchKey ''CAS blob not found''))))"

definition MetaStore_DecreaseCasBlobRefCount ::
    "('d, 'r) MetaEnv \<Rightarrow> ('d, 'r) MetaStore \<Rightarrow> string \<Rightarrow> ('d, 'r) MetaStore \<times> unit Result" where
  "MetaStore_DecreaseCasBlobRefCount env ms cas_key = MetaStore_DecrementRefCount env ms cas_key"

definition cas_rows :: "SqlRow list \<Rightarrow> CasRow list" where
  "cas_rows rs = List.map_filter (\<lambda>r. case r of Row_cas b \<Rightarrow> Some b | _ \<Rightarrow> None) rs"

definition MetaStore_GetGarbageBlobs ::
    "('d, 'r) MetaEnv \<Rightarrow> ('d, 'r) MetaStore \<Rightarrow> int \<Rightarrow> int \<Rightarrow> ('d, 'r) MetaStore \<times> CasBlobInfo list Result" where
  "MetaStore_GetGarbageBlobs env ms min_age_seconds lim =
     with_conn env ms (sql_then env (Sel_garbage min_age_seconds lim) (\<lambda>r d.
       (d, Inr (map (blob_of_row env) (cas_rows (sr_rows r))))))"

definition MetaStore_DeleteCasBlob ::
    "('d, 'r) MetaEnv \<Rightarrow> ('d, 'r) MetaStore \<Rightarrow> string \<Rightarrow> ('d, 'r) MetaStore \<times> unit Result" where
  "MetaStore_DeleteCasBlob env ms sha256_hash =
     with_conn env ms (sql_then env (Del_cas sha256_hash) (\<lambda>_ d. (d, Inr ())))"

definition can_delete_tx :: "('d, 'r) MetaEnv \<Rightarrow> string \<Rightarrow> 'd \<Rightarrow> 'd \<times> bool Result" where
  "can_delete_tx env sha256_hash d =
     tx1_then env (Sel_ref sha256_hash) (\<lambda>r.
       case sr_rows r of
         Row_int ref_count # _ \<Rightarrow>
           (if ref_count \<noteq> 0 then tx1_commit env False
            else tx1_then env (Cnt_objects_cas sha256_hash) (\<lambda>q.
              if row_int q > 0 then tx1_commit env False
              else tx1_then env (Cnt_parts_cas sha256_hash) (\<lambda>p.
                tx1_commit env (row_int p = 0))))
       | _ \<Rightarrow> tx1_commit env False)
     (Transaction_new env d)"

definition MetaStore_CanDeleteCasBlob ::
    "('d, 'r) MetaEnv \<Rightarrow> ('d, 'r) MetaStore \<Rightarrow> string \<Rightarrow> ('d, 'r) MetaStore \<times> bool Result" where
  "MetaStore_CanDeleteCasBlob env ms sha256_hash = with_conn env ms (can_delete_tx env sha256_hash)"

section \<open>Multipart uploads\<close>

definition MetaStore_CreateMultipartUpload ::
    "('d, 'r) MetaEnv \<Rightarrow> ('d, 'r) MetaStore \<Rightarrow> string \<Rightarrow> int \<Rightarrow> string \<Rightarrow> string \<Rightarrow> string \<Rightarrow> int \<Rightarrow>
     ('d, 'r) MetaStore \<times> string Result" where
  "MetaStore_CreateMultipartUpload env ms upload_id bucket_id key content_type owner_id expires_at =
     with_conn env ms (sql_then env
       (Ins_upload upload_id bucket_id key content_type (TimePointToMySQL expires_at))
       (\<lambda>_ d. (d, Inr upload_id)))"

definition upload_of_row :: "('d, 'r) MetaEnv \<Rightarrow> UploadRow \<Rightarrow> MultipartUploadInfo" where
  "upload_of_row env r =
     \<lparr>mu_id = 0, mu_upload_id = u_id r, mu_bucket_id = u_bucket r, mu_key = u_key r,
      mu_content_type = u_ct r, mu_metadata_json = ''{}'', mu_owner_id = '''',
      mu_created_at = ParseMysqlTime env (u_created r)\<rparr>"

definition MetaStore_GetMultipartUpload ::
    "('d, 'r) MetaEnv \<Rightarrow> ('d, 'r) MetaStore \<Rightarrow> string \<Rightarrow> ('d, 'r) MetaStore \<times> MultipartUploadInfo Result" where
  "MetaStore_GetMultipartUpload env ms upload_id =
     with_conn env ms (sql_then env (Sel_upload upload_id) (\<lambda>r d.
       (d, case sr_rows r of
             Row_upload row # _ \<Rightarrow> Inr (upload_of_row env row)
           | _ \<Rightarrow> Err NoSuchUpload ''Upload not found'')))"

definition MetaStore_DeleteMultipartUpload ::
    "('d, 'r) MetaEnv \<Rightarrow> ('d, 'r) MetaStore \<Rightarrow> string \<Rightarrow> ('d, 'r) MetaStore \<times> unit Result" where
  "MetaStore_DeleteMultipartUpload env ms upload_id =
     with_conn env ms (sql_then env (Del_upload upload_id) (\<lambda>r d.
       (d, if sr_affected r = 0 then Err NoSuchUpload ''Upload not found'' else Inr ())))"

definition upload_rows :: "SqlRow list \<Rightarrow> UploadRow list" where
  "upload_rows rs = List.map_filter (\<lambda>r. case r of Row_upload b \<Rightarrow> Some b | _ \<Rightarrow> None) rs"

definition MetaStore_ListMultipartUploads ::
    "('d, 'r) MetaEnv \<Rightarrow> ('d, 'r) MetaStore \<Rightarrow> int \<Rightarrow> string \<Rightarrow> int \<Rightarrow>
     ('d, 'r) MetaStore \<times> MultipartUploadInfo list Result" where
  "MetaStore_ListMultipartUploads env ms bucket_id pre max_uploads =
     with_conn env ms (sql_then env
       (Sel_uploads bucket_id (if pre = '''' then None else Some (pre @ ''%'')) max_uploads)
       (\<lambda>r d. (d, Inr (map (upload_of_row env) (upload_rows (sr_rows r))))))"

definition MetaStore_CreateOrUpdatePart ::
    "('d, 'r) MetaEnv \<Rightarrow> ('d, 'r) MetaStore \<Rightarrow> string \<Rightarrow> int \<Rightarrow> string \<Rightarrow> int \<Rightarrow> string \<Rightarrow>
     ('d, 'r) MetaStore \<times> int Result" where
  "MetaStore_CreateOrUpdatePart env ms upload_id part_number sha256_hash sz etag =
     with_conn env ms (sql_then env (Upsert_part upload_id part_number sha256_hash sz etag) (\<lambda>_ d. (d, Inr 1)))"

definition put_part_tx ::
    "('d, 'r) MetaEnv \<Rightarrow> nat \<Rightarrow> string \<Rightarrow> int \<Rightarrow> string \<Rightarrow> int \<Rightarrow> string \<Rightarrow> 'd \<Rightarrow> 'd \<times> string option Attempt" where
  "put_part_tx env attempt upload_id part_number sha256_hash sz etag d =
     tx_then env attempt (Sel_part_cas upload_id part_number) (\<lambda>r.
       swap_refs env attempt (first_string r) sha256_hash sz
         (Upsert_part upload_id part_number sha256_hash sz etag)) (Transaction_new env d)"

fun put_part_loop ::
    "('d, 'r) MetaEnv \<Rightarrow> nat \<Rightarrow> nat \<Rightarrow> string \<Rightarrow> int \<Rightarrow> string \<Rightarrow> int \<Rightarrow> string \<Rightarrow> 'd \<Rightarrow> 'd \<times> string option Result" where
  "put_part_loop env 0 attempt u n h sz etag d = (d, Err DatabaseError ''Transaction retry exhausted'')"
| "put_part_loop env (Suc m) attempt u n h sz etag d =
     (case put_part_tx env attempt u n h sz etag d of
        (d, Finish r) \<Rightarrow> (d, r)
      | (d, Again) \<Rightarrow> put_part_loop env m (Suc attempt) u n h sz etag d)"

definition MetaStore_PutPartWithRefCount ::
    "('d, 'r) MetaEnv \<Rightarrow> ('d, 'r) MetaStore \<Rightarrow> string \<Rightarrow> int \<Rightarrow> string \<Rightarrow> int \<Rightarrow> string \<Rightarrow>
     ('d, 'r) MetaStore \<times> string option Result" where
  "MetaStore_PutPartWithRefCount env ms upload_id part_number sha256_hash sz etag =
     with_conn env ms (put_part_loop env kMaxRetries 0 upload_id part_number sha256_hash sz etag)"

definition MetaStore_PutPart ::
    "('d, 'r) MetaEnv \<Rightarrow> ('d, 'r) MetaStore \<Rightarrow> string \<Rightarrow> int \<Rightarrow> string \<Rightarrow> int \<Rightarrow> string \<Rightarrow>
     ('d, 'r) MetaStore \<times> int Result" where
  "MetaStore_PutPart env ms upload_id part_number sha256_hash sz etag =
     MetaStore_CreateOrUpdatePart env ms upload_id part_number sha256_hash sz etag"

definition part_rows :: "SqlRow list \<Rightarrow> PartRow list" where
  "part_rows rs = List.map_filter (\<lambda>r. case r of Row_part b \<Rightarrow> Some b | _ \<Rightarrow> None) rs"

definition part_of_row :: "('d, 'r) MetaEnv \<Rightarrow> PartRow \<Rightarrow> MultipartPartInfo" where
  "part_of_row env r =
     \<lparr>mp_id = 0, mp_upload_id = p_upload r, mp_part_number = p_number r, mp_sha256_hash = p_cas r,
      mp_size = p_size r, mp_etag = p_etag r, mp_created_at = ParseMysqlTime env (p_created r)\<rparr>"

definition list_parts_page :: "('d, 'r) MetaEnv \<Rightarrow> nat \<Rightarrow> PartRow list \<Rightarrow> ListPartsResult" where
  "list_parts_page env max_parts rs =
     (let trunc = max_parts < length rs in
      \<lparr>lp_parts = map (part_of_row env) (take max_parts rs), lp_is_truncated = trunc,
       lp_next_part_number_marker = (if trunc then p_number (rs ! max_parts) else 0)\<rparr>)"

definition MetaStore_ListParts ::
    "('d, 'r) MetaEnv \<Rightarrow> ('d, 'r) MetaStore \<Rightarrow> string \<Rightarrow> int \<Rightarrow> int \<Rightarrow> ('d, 'r) MetaStore \<times> ListPartsResult Result" where
  "MetaStore_ListParts env ms upload_id part_number_marker max_parts =
     with_conn env ms (sql_then env (Sel_parts upload_id part_number_marker (int32 (max_parts + 1)))
       (\<lambda>r d. (d, Inr (list_parts_page env (nat max_parts) (part_rows (sr_rows r))))))"

definition MetaStore_CompleteMultipartUpload ::
    "('d, 'r) MetaEnv \<Rightarrow> ('d, 'r) MetaStore \<Rightarrow> string \<Rightarrow> ('d, 'r) MetaStore \<times> unit Result" where
  "MetaStore_CompleteMultipartUpload env ms upload_id = MetaStore_DeleteMultipartUpload env ms upload_id"

definition MetaStore_AbortMultipartUpload ::
    "('d, 'r) MetaEnv \<Rightarrow> ('d, 'r) MetaStore \<Rightarrow> string \<Rightarrow> ('d, 'r) MetaStore \<times> unit Result" where
  "MetaStore_AbortMultipartUpload env ms upload_id = MetaStore_DeleteMultipartUpload env ms upload_id"

section \<open>Idempotency records\<close>

definition MetaStore_CheckIdempotency ::
    "('d, 'r) MetaEnv \<Rightarrow> int \<Rightarrow> ('d, 'r) MetaStore \<Rightarrow> string \<Rightarrow> ('d, 'r) MetaStore \<times> IdempotencyRecord option Result" where
  "MetaStore_CheckIdempotency env now ms idempotency_key =
     with_conn env ms (sql_then env (Sel_idem idempotency_key) (\<lambda>r d.
       (d, case sr_rows r of
             Row_idem row # _ \<Rightarrow>
               let record1 = \<lparr>ir_idempotency_key = i_key row, ir_request_hash = i_hash row,
                     ir_response_status = i_status row, ir_response_body = i_body row,
                     ir_created_at = ParseMysqlTime env (i_created row),
                     ir_expires_at = ParseMysqlTime env (i_expires row)\<rparr>
               in if ir_expires_at record1 \<le> now then Inr None else Inr (Some record1)
           | _ \<Rightarrow> Inr None)))"

definition MetaStore_RecordIdempotency ::
    "('d, 'r) MetaEnv \<Rightarrow> int \<Rightarrow> ('d, 'r) MetaStore \<Rightarrow> string \<Rightarrow> string \<Rightarrow> int \<Rightarrow> string \<Rightarrow> int \<Rightarrow>
     ('d, 'r) MetaStore \<times> unit Result" where
  "MetaStore_RecordIdempotency env now ms idempotency_key request_hash response_status response_body ttl_seconds =
     with_conn env ms (sql_then env
       (Upsert_idem idempotency_key request_hash response_status response_body (TimePointToMySQL (now + ttl_seconds)))
       (\<lambda>_ d. (d, Inr ())))"

definition MetaStore_CleanupIdempotencyRecords ::
    "('d, 'r) MetaEnv \<Rightarrow> ('d, 'r) MetaStore \<Rightarrow> ('d, 'r) MetaStore \<times> unit Result" where
  "MetaStore_CleanupIdempotencyRecords env ms =
     with_conn env ms (sql_then env Del_idem_expired (\<lambda>_ d. (d, Inr ())))"

end
