(* ===== verification/Ref_Counts.thy ===== *)
theory Ref_Counts
  imports Meta_Store
begin

text \<open>
  Reference counting: how the statements change the count of a blob and the rows that refer to it,
  the transactions of \<open>Meta_Store\<close> as atomic steps on the tables, and the invariant that a blob's
  \<open>ref_count\<close> is never below the number of objects and parts that refer to it. The locale
  \<open>counted_table\<close> is the contract of a table whose rows refer to blobs; it is interpreted for
  \<open>objects\<close> and \<open>multipart_parts\<close>.
\<close>

section \<open>Counts\<close>

definition obj_refs :: "Collation \<Rightarrow> Tables \<Rightarrow> string \<Rightarrow> nat" where
  "obj_refs col T k = length (filter (\<lambda>r. col_eq col (o_cas r) k) (t_objects T))"

definition part_refs :: "Collation \<Rightarrow> Tables \<Rightarrow> string \<Rightarrow> nat" where
  "part_refs col T k = length (filter (\<lambda>r. col_eq col (p_cas r) k) (t_parts T))"

definition refs :: "Collation \<Rightarrow> Tables \<Rightarrow> string \<Rightarrow> nat" where
  "refs col T k = obj_refs col T k + part_refs col T k"

definition ref_count :: "Collation \<Rightarrow> Tables \<Rightarrow> string \<Rightarrow> nat" where
  "ref_count col T k = (case List.find (cas_is col k) (t_cas T) of None \<Rightarrow> 0 | Some r \<Rightarrow> c_ref r)"

definition hit :: "Collation \<Rightarrow> string \<Rightarrow> string \<Rightarrow> nat" where
  "hit col a k = (if col_eq col a k then 1 else 0)"

text \<open>The unique keys of the schema; equal keys have equal indexed prefixes.\<close>

definition uniq_ok :: "Collation \<Rightarrow> Tables \<Rightarrow> bool" where
  "uniq_ok col T \<longleftrightarrow> col_ok col \<and>
     distinct (map (\<lambda>r. col_weight col (c_key r)) (t_cas T)) \<and>
     distinct (map (\<lambda>r. (o_bucket r, col_weight col (col_prefix col (o_key r)))) (t_objects T)) \<and>
     distinct (map (\<lambda>r. (col_weight col (p_upload r), p_number r)) (t_parts T))"

text \<open>No blob has more references than its count says.\<close>

definition rc_safe :: "Collation \<Rightarrow> Tables \<Rightarrow> bool" where
  "rc_safe col T \<longleftrightarrow> uniq_ok col T \<and> (\<forall>k. refs col T k \<le> ref_count col T k)"

definition rc_exact :: "Collation \<Rightarrow> Tables \<Rightarrow> bool" where
  "rc_exact col T \<longleftrightarrow> uniq_ok col T \<and> (\<forall>k. refs col T k = ref_count col T k)"

lemma col_eq_sym: "col_eq col a b = col_eq col b a"
  by (auto simp: col_eq_def)

lemma col_eq_trans: "col_eq col a b \<Longrightarrow> col_eq col b c \<Longrightarrow> col_eq col a c"
  by (simp add: col_eq_def)

lemma col_eq_refl [simp]: "col_eq col a a"
  by (simp add: col_eq_def)

section \<open>Updating the first row\<close>

lemma find_map_first:
  "List.find P xs = Some r \<Longrightarrow> \<exists>as bs. xs = as @ r # bs \<and> (\<forall>a \<in> set as. \<not> P a) \<and> P r \<and>
     map_first P f xs = as @ f r # bs"
proof (induction xs)
  case Nil
  then show ?case by simp
next
  case (Cons x xs)
  show ?case
  proof (cases "P x")
    case True
    with Cons.prems have "x = r" by simp
    with True have "x # xs = [] @ r # xs \<and> (\<forall>a \<in> set []. \<not> P a) \<and> P r \<and> map_first P f (x # xs) = [] @ f r # xs"
      by simp
    then show ?thesis by blast
  next
    case False
    with Cons obtain as bs where "xs = as @ r # bs" "\<forall>a \<in> set as. \<not> P a" "P r" "map_first P f xs = as @ f r # bs"
      by auto
    with False have "x # xs = (x # as) @ r # bs \<and> (\<forall>a \<in> set (x # as). \<not> P a) \<and> P r \<and>
        map_first P f (x # xs) = (x # as) @ f r # bs" by simp
    then show ?thesis by blast
  qed
qed

lemma map_first_none: "List.find P xs = None \<Longrightarrow> map_first P f xs = xs"
  by (induction xs) (auto split: if_splits)

lemma map_first_map:
  assumes "\<And>r. g (f r) = g r"
  shows "map g (map_first P f xs) = map g xs"
  by (induction xs) (auto simp: assms)

lemma length_filter_map_first:
  assumes "List.find P xs = Some r"
  shows "length (filter Q (map_first P f xs)) + (if Q r then 1 else 0) =
         length (filter Q xs) + (if Q (f r) then 1 else 0)"
  using find_map_first [OF assms, of f] by auto

lemma find_map_first_other:
  assumes "\<And>r. Q (f r) = Q r" "\<And>r. \<not> (P r \<and> Q r)"
  shows "List.find Q (map_first P f xs) = List.find Q xs"
  using assms by (induction xs) auto

lemma find_map_first_same:
  assumes "\<And>r. P (f r) = P r"
  shows "List.find P (map_first P f xs) = map_option f (List.find P xs)"
  by (induction xs) (auto simp: assms)

lemma find_append: "List.find P (xs @ ys) = (case List.find P xs of None \<Rightarrow> List.find P ys | Some r \<Rightarrow> Some r)"
  by (induction xs) auto

lemma find_None_ex: "List.find P xs = None \<longleftrightarrow> \<not> list_ex P xs"
  by (induction xs) auto

lemma find_cong_eq: "(\<And>r. P r = Q r) \<Longrightarrow> List.find P xs = List.find Q xs"
  by (induction xs) auto

section \<open>Statements and counts\<close>

lemma cas_is_eq: "col_eq col k k' \<Longrightarrow> cas_is col k = cas_is col k'"
  by (auto simp: cas_is_def col_eq_def fun_eq_iff)

lemma cas_is_excl: "\<not> col_eq col k k' \<Longrightarrow> \<not> (cas_is col k r \<and> cas_is col k' r)"
  by (auto simp: cas_is_def col_eq_def)

lemma ref_count_cong: "col_eq col k k' \<Longrightarrow> ref_count col T k = ref_count col T k'"
  by (simp add: ref_count_def cas_is_eq)

lemma upsert_cas_counts:
  assumes "upsert_cas col now T h sz = Some (T', r)"
  shows "ref_count col T' k = ref_count col T k + hit col h k"
    "t_objects T' = t_objects T" "t_parts T' = t_parts T" "t_buckets T' = t_buckets T" "t_uploads T' = t_uploads T"
    "uniq_ok col T \<Longrightarrow> uniq_ok col T'"
proof -
  show "t_objects T' = t_objects T" "t_parts T' = t_parts T" "t_buckets T' = t_buckets T" "t_uploads T' = t_uploads T"
    using assms by (auto simp: upsert_cas_def split: if_splits option.splits)
  show "ref_count col T' k = ref_count col T k + hit col h k"
  proof (cases "List.find (cas_is col h) (t_cas T)")
    case None
    then have T': "t_cas T' = t_cas T @ [\<lparr>c_key = h, c_size = sz, c_ref = 1, c_created = now, c_updated = now\<rparr>]"
      using assms by (auto simp: upsert_cas_def split: if_splits)
    show ?thesis
    proof (cases "col_eq col h k")
      case True
      with None have "List.find (cas_is col k) (t_cas T) = None" using cas_is_eq by metis
      with True T' show ?thesis by (simp add: ref_count_def find_append cas_is_def hit_def)
    next
      case False
      with T' show ?thesis
        by (auto simp: ref_count_def find_append cas_is_def hit_def split: option.splits)
    qed
  next
    case (Some c)
    let ?f = "\<lambda>r. r\<lparr>c_ref := c_ref r + 1, c_updated := now\<rparr>"
    from Some have T': "t_cas T' = map_first (cas_is col h) ?f (t_cas T)"
      using assms by (auto simp: upsert_cas_def split: if_splits)
    show ?thesis
    proof (cases "col_eq col h k")
      case True
      then have "cas_is col k = cas_is col h" using cas_is_eq by metis
      with True Some T' show ?thesis
        by (simp add: ref_count_def hit_def find_map_first_same cas_is_def)
    next
      case False
      have "List.find (cas_is col k) (t_cas T') = List.find (cas_is col k) (t_cas T)" unfolding T'
        by (rule find_map_first_other) (use False in \<open>auto simp: cas_is_def col_eq_def\<close>)
      with False show ?thesis by (simp add: ref_count_def hit_def)
    qed
  qed
  assume u: "uniq_ok col T"
  show "uniq_ok col T'"
  proof (cases "List.find (cas_is col h) (t_cas T)")
    case None
    then have "T' = T\<lparr>t_cas := t_cas T @ [\<lparr>c_key = h, c_size = sz, c_ref = 1, c_created = now, c_updated = now\<rparr>]\<rparr>"
      using assms by (auto simp: upsert_cas_def split: if_splits)
    moreover have "col_weight col h \<notin> (\<lambda>r. col_weight col (c_key r)) ` set (t_cas T)"
      using None by (auto simp: find_None_iff cas_is_def col_eq_def)
    ultimately show ?thesis using u by (auto simp: uniq_ok_def)
  next
    case (Some c)
    then show ?thesis using assms u
      by (auto simp: upsert_cas_def uniq_ok_def map_first_map split: if_splits)
  qed
qed

lemma update_cas_counts:
  assumes "update_cas col (\<lambda>r. r\<lparr>c_ref := g (c_ref r), c_updated := now\<rparr>) T h = Some (T', r)"
  shows "ref_count col T' k =
      (if col_eq col h k \<and> has_cas col T h then g (ref_count col T k) else ref_count col T k)"
    "t_objects T' = t_objects T" "t_parts T' = t_parts T" "t_buckets T' = t_buckets T" "t_uploads T' = t_uploads T"
    "uniq_ok col T \<Longrightarrow> uniq_ok col T'"
proof -
  let ?f = "\<lambda>r. r\<lparr>c_ref := g (c_ref r), c_updated := now\<rparr>"
  show "t_objects T' = t_objects T" "t_parts T' = t_parts T" "t_buckets T' = t_buckets T" "t_uploads T' = t_uploads T"
    using assms by (auto simp: update_cas_def split: if_splits option.splits)
  show "uniq_ok col T \<Longrightarrow> uniq_ok col T'"
    using assms by (auto simp: update_cas_def uniq_ok_def map_first_map split: if_splits option.splits)
  show "ref_count col T' k = (if col_eq col h k \<and> has_cas col T h then g (ref_count col T k) else ref_count col T k)"
  proof (cases "List.find (cas_is col h) (t_cas T)")
    case None
    then have "T' = T" using assms by (simp add: update_cas_def)
    with None show ?thesis using find_None_ex by (metis has_cas_def)
  next
    case (Some c)
    then have T': "t_cas T' = map_first (cas_is col h) ?f (t_cas T)"
      using assms by (auto simp: update_cas_def split: if_splits)
    have has: "has_cas col T h" using Some find_None_ex by (metis has_cas_def option.distinct(1))
    show ?thesis
    proof (cases "col_eq col h k")
      case True
      then have "cas_is col k = cas_is col h" using cas_is_eq by metis
      with True Some T' has show ?thesis
        by (simp add: ref_count_def find_map_first_same cas_is_def)
    next
      case False
      have "List.find (cas_is col k) (t_cas T') = List.find (cas_is col k) (t_cas T)" unfolding T'
        by (rule find_map_first_other) (use False in \<open>auto simp: cas_is_def col_eq_def\<close>)
      with False show ?thesis by (simp add: ref_count_def)
    qed
  qed
qed

text \<open>What a write of a row does to the references: \<open>cur\<close> is the digest of the row it replaces.\<close>

definition cur_hit :: "Collation \<Rightarrow> string option \<Rightarrow> string \<Rightarrow> nat" where
  "cur_hit col cur k = (case cur of None \<Rightarrow> 0 | Some c \<Rightarrow> hit col c k)"

lemma distinct_key_find:
  assumes "distinct (map key xs)" "x \<in> set xs" "P x" "\<And>a b. P a \<Longrightarrow> P b \<Longrightarrow> key a = key b"
  shows "List.find P xs = Some x"
proof (cases "List.find P xs")
  case None
  with assms(2,3) show ?thesis by (auto simp: find_None_iff)
next
  case (Some y)
  then have "y \<in> set xs" "P y" using find_Some_mem [OF Some] by auto
  with assms(4) [of y x] assms(1-3) Some show ?thesis by (auto simp: distinct_map inj_on_def)
qed

lemma upsert_object_counts:
  assumes "upsert_object col now nid T b k h sz ct etag = Some (T', r)"
  shows "obj_refs col T' x + cur_hit col (map_option o_cas (List.find (obj_clash col b k) (t_objects T))) x =
      obj_refs col T x + hit col h x"
    "t_cas T' = t_cas T" "t_parts T' = t_parts T" "t_buckets T' = t_buckets T" "t_uploads T' = t_uploads T"
    "uniq_ok col T \<Longrightarrow> uniq_ok col T'"
proof -
  let ?P = "obj_clash col b k" and ?f = "\<lambda>r. r\<lparr>o_cas := h, o_size := sz, o_ct := ct, o_etag := etag\<rparr>"
  show "t_cas T' = t_cas T" "t_parts T' = t_parts T" "t_buckets T' = t_buckets T" "t_uploads T' = t_uploads T"
    using assms by (auto simp: upsert_object_def ins_object_def split: if_splits option.splits)
  show "obj_refs col T' x + cur_hit col (map_option o_cas (List.find ?P (t_objects T))) x = obj_refs col T x + hit col h x"
  proof (cases "List.find ?P (t_objects T)")
    case None
    with assms show ?thesis
      by (auto simp: upsert_object_def ins_object_def obj_refs_def cur_hit_def hit_def new_object_def split: if_splits)
  next
    case (Some o1)
    with assms have "t_objects T' = map_first ?P ?f (t_objects T)"
      by (auto simp: upsert_object_def split: if_splits)
    with length_filter_map_first [OF Some, of "\<lambda>r. col_eq col (o_cas r) x" ?f] Some show ?thesis
      by (auto simp: obj_refs_def cur_hit_def hit_def split: if_splits)
  qed
  assume u: "uniq_ok col T"
  show "uniq_ok col T'"
  proof (cases "List.find ?P (t_objects T)")
    case None
    with assms have T': "T' = T\<lparr>t_objects := t_objects T @ [new_object nid now b k h sz ct etag]\<rparr>"
      by (auto simp: upsert_object_def ins_object_def split: if_splits)
    have "(b, col_weight col (col_prefix col k)) \<notin>
        (\<lambda>r. (o_bucket r, col_weight col (col_prefix col (o_key r)))) ` set (t_objects T)"
      using None by (auto simp: find_None_iff obj_clash_def col_uniq_def col_eq_def)
    with u T' show ?thesis by (auto simp: uniq_ok_def new_object_def)
  next
    case (Some o1)
    with assms have "T' = T\<lparr>t_objects := map_first ?P ?f (t_objects T)\<rparr>"
      by (auto simp: upsert_object_def split: if_splits)
    with u show ?thesis by (simp add: uniq_ok_def map_first_map)
  qed
qed

lemma upsert_part_counts:
  assumes "upsert_part col now T u n h sz etag = Some (T', r)"
  shows "part_refs col T' x + cur_hit col (map_option p_cas (List.find (part_is col u n) (t_parts T))) x =
      part_refs col T x + hit col h x"
    "t_cas T' = t_cas T" "t_objects T' = t_objects T" "t_buckets T' = t_buckets T" "t_uploads T' = t_uploads T"
    "uniq_ok col T \<Longrightarrow> uniq_ok col T'"
proof -
  let ?P = "part_is col u n" and ?f = "\<lambda>r. r\<lparr>p_cas := h, p_size := sz, p_etag := etag\<rparr>"
  show "t_cas T' = t_cas T" "t_objects T' = t_objects T" "t_buckets T' = t_buckets T" "t_uploads T' = t_uploads T"
    using assms by (auto simp: upsert_part_def split: if_splits)
  show "part_refs col T' x + cur_hit col (map_option p_cas (List.find ?P (t_parts T))) x = part_refs col T x + hit col h x"
  proof (cases "List.find ?P (t_parts T)")
    case None
    then have "\<not> list_ex ?P (t_parts T)" by (simp add: find_None_ex)
    with None assms show ?thesis
      by (auto simp: upsert_part_def part_refs_def cur_hit_def hit_def split: if_splits)
  next
    case (Some p)
    then have "list_ex ?P (t_parts T)" using find_None_ex by (metis option.distinct(1))
    with assms have "t_parts T' = map_first ?P ?f (t_parts T)" by (auto simp: upsert_part_def split: if_splits)
    with length_filter_map_first [OF Some, of "\<lambda>r. col_eq col (p_cas r) x" ?f] Some show ?thesis
      by (auto simp: part_refs_def cur_hit_def hit_def split: if_splits)
  qed
  assume u: "uniq_ok col T"
  show "uniq_ok col T'"
  proof (cases "list_ex ?P (t_parts T)")
    case False
    with assms have T': "t_parts T' = t_parts T @ [\<lparr>p_upload = u, p_number = n, p_cas = h, p_size = sz,
        p_etag = etag, p_created = now\<rparr>]" "t_cas T' = t_cas T" "t_objects T' = t_objects T"
      by (auto simp: upsert_part_def split: if_splits)
    have "(col_weight col u, n) \<notin> (\<lambda>r. (col_weight col (p_upload r), p_number r)) ` set (t_parts T)"
      using False by (auto simp: list_ex_iff part_is_def col_eq_def)
    with u T' show ?thesis by (auto simp: uniq_ok_def)
  next
    case True
    with assms have "T' = T\<lparr>t_parts := map_first ?P ?f (t_parts T)\<rparr>" by (auto simp: upsert_part_def split: if_splits)
    with u show ?thesis by (simp add: uniq_ok_def map_first_map)
  qed
qed

section \<open>The contract of a table that refers to blobs\<close>

text \<open>\<open>sel\<close> reads the digest of the addressed row, \<open>wr\<close> writes it; \<open>cur\<close> is the digest the write
  replaces. Reading gives the current digest or nothing.\<close>

locale counted_table =
  fixes col :: Collation
    and sel :: "Tables \<Rightarrow> string"
    and wr :: "string \<Rightarrow> Tables \<Rightarrow> Tables \<Rightarrow> bool"
    and cur :: "Tables \<Rightarrow> string option"
  assumes wr_refs: "wr h T T' \<Longrightarrow> refs col T' x + cur_hit col (cur T) x = refs col T x + hit col h x"
    and wr_counts: "wr h T T' \<Longrightarrow> ref_count col T' x = ref_count col T x"
    and wr_uniq: "wr h T T' \<Longrightarrow> uniq_ok col T \<Longrightarrow> uniq_ok col T'"
    and sel_cur: "uniq_ok col T \<Longrightarrow> sel T \<noteq> [] \<Longrightarrow> cur T = Some (sel T)"
    and cur_cong: "t_objects T = t_objects T' \<Longrightarrow> t_parts T = t_parts T' \<Longrightarrow> cur T = cur T'"
begin

text \<open>The write with its two count updates.\<close>

definition swap :: "string \<Rightarrow> int \<Rightarrow> Tables \<Rightarrow> Tables \<Rightarrow> Tables \<Rightarrow> bool" where
  "swap h sz T0 T2 T3 \<longleftrightarrow> (\<exists>T1 now now' r1 r2.
     (if sel T0 = [] \<or> sel T0 \<noteq> h then upsert_cas col now T0 h sz = Some (T1, r1) else T1 = T0) \<and>
     (if sel T0 \<noteq> [] \<and> sel T0 \<noteq> h
      then update_cas col (\<lambda>r. r\<lparr>c_ref := c_ref r - 1, c_updated := now'\<rparr>) T1 (sel T0) = Some (T2, r2) else T2 = T1) \<and>
     wr h T2 T3)"

lemma swap_counts:
  assumes u: "uniq_ok col T0" and sw: "swap h sz T0 T2 T3"
  shows "uniq_ok col T3"
    "refs col T3 x + cur_hit col (cur T0) x = refs col T0 x + hit col h x"
    "ref_count col T3 x = (if sel T0 = h \<and> h \<noteq> [] then ref_count col T0 x
       else ref_count col T0 x + hit col h x - (if sel T0 = [] then 0 else hit col (sel T0) x))"
    "ref_count col T2 x = ref_count col T3 x"
proof -
  from sw obtain T1 now now' r1 r2 where
    inc: "if sel T0 = [] \<or> sel T0 \<noteq> h then upsert_cas col now T0 h sz = Some (T1, r1) else T1 = T0"
    and dec: "if sel T0 \<noteq> [] \<and> sel T0 \<noteq> h
       then update_cas col (\<lambda>r. r\<lparr>c_ref := c_ref r - 1, c_updated := now'\<rparr>) T1 (sel T0) = Some (T2, r2) else T2 = T1"
    and wr: "wr h T2 T3" unfolding swap_def by blast
  have t1: "t_objects T1 = t_objects T0" "t_parts T1 = t_parts T0" "uniq_ok col T1"
    "ref_count col T1 x = ref_count col T0 x + (if sel T0 = [] \<or> sel T0 \<noteq> h then hit col h x else 0)"
    using inc u by (auto dest: upsert_cas_counts split: if_splits)
  have t2: "t_objects T2 = t_objects T1" "t_parts T2 = t_parts T1" "uniq_ok col T2"
    using dec t1(3) by (auto dest: update_cas_counts(2,3,6) split: if_splits)
  have c2: "ref_count col T2 x = ref_count col T1 x - (if sel T0 \<noteq> [] \<and> sel T0 \<noteq> h then hit col (sel T0) x else 0)"
  proof (cases "sel T0 \<noteq> [] \<and> sel T0 \<noteq> h")
    case True
    with dec have d: "update_cas col (\<lambda>r. r\<lparr>c_ref := c_ref r - 1, c_updated := now'\<rparr>) T1 (sel T0) = Some (T2, r2)" by simp
    have z: "col_eq col (sel T0) x \<Longrightarrow> \<not> has_cas col T1 (sel T0) \<Longrightarrow> ref_count col T1 x = 0"
      using find_None_ex by (metis cas_is_eq has_cas_def option.simps(4) ref_count_def)
    from update_cas_counts(1) [OF d, of x] z True show ?thesis by (auto simp: hit_def)
  next
    case False
    with dec show ?thesis by auto
  qed
  show "uniq_ok col T3" using wr_uniq [OF wr t2(3)] .
  have "cur T2 = cur T0" using cur_cong t1 t2 by metis
  moreover have "refs col T2 x = refs col T0 x" using t1 t2 by (simp add: refs_def obj_refs_def part_refs_def)
  ultimately show "refs col T3 x + cur_hit col (cur T0) x = refs col T0 x + hit col h x"
    using wr_refs [OF wr, of x] by simp
  show "ref_count col T3 x = (if sel T0 = h \<and> h \<noteq> [] then ref_count col T0 x
       else ref_count col T0 x + hit col h x - (if sel T0 = [] then 0 else hit col (sel T0) x))"
    using wr_counts [OF wr, of x] c2 t1(4) by auto
  show "ref_count col T2 x = ref_count col T3 x" using wr_counts [OF wr, of x] by simp
qed

text \<open>It keeps the counts above the references, and exact when the read sees the row that the write
  replaces.\<close>

lemma swap_safe:
  assumes safe: "rc_safe col T0" and sw: "swap h sz T0 T2 T3"
  shows "rc_safe col T3"
proof -
  have u: "uniq_ok col T0" and le: "refs col T0 x \<le> ref_count col T0 x" for x
    using safe by (auto simp: rc_safe_def)
  note s = swap_counts [OF u sw]
  have "refs col T3 x \<le> ref_count col T3 x" for x
  proof (cases "sel T0 = []")
    case True
    with s(2,3) [of x] le [of x] show ?thesis by (auto split: if_splits)
  next
    case False
    then have c: "cur T0 = Some (sel T0)" by (rule sel_cur [OF u])
    with s(2,3) [of x] le [of x] False show ?thesis by (auto simp: cur_hit_def split: if_splits)
  qed
  with s(1) show ?thesis by (simp add: rc_safe_def)
qed

lemma swap_exact:
  assumes ex: "rc_exact col T0" and sw: "swap h sz T0 T2 T3"
    and c: "cur T0 = None \<and> sel T0 = [] \<or> cur T0 = Some (sel T0) \<and> sel T0 \<noteq> []"
  shows "rc_exact col T3"
proof -
  have u: "uniq_ok col T0" and eq: "refs col T0 x = ref_count col T0 x" for x
    using ex by (auto simp: rc_exact_def)
  note s = swap_counts [OF u sw]
  have "refs col T3 x = ref_count col T3 x" for x
    using s(2,3) [of x] eq [of x] c by (auto simp: cur_hit_def split: if_splits)
  with s(1) show ?thesis by (simp add: rc_exact_def)
qed

end

definition obj_sel :: "Collation \<Rightarrow> int \<Rightarrow> string \<Rightarrow> Tables \<Rightarrow> string" where
  "obj_sel col b k T = (case filter (obj_is col b k) (t_objects T) of r # _ \<Rightarrow> o_cas r | [] \<Rightarrow> [])"

definition obj_cur :: "Collation \<Rightarrow> int \<Rightarrow> string \<Rightarrow> Tables \<Rightarrow> string option" where
  "obj_cur col b k T = map_option o_cas (List.find (obj_clash col b k) (t_objects T))"

definition obj_wr :: "Collation \<Rightarrow> int \<Rightarrow> string \<Rightarrow> string \<Rightarrow> Tables \<Rightarrow> Tables \<Rightarrow> bool" where
  "obj_wr col b k h T T' \<longleftrightarrow> (\<exists>now nid sz ct etag r. upsert_object col now nid T b k h sz ct etag = Some (T', r))"

definition part_sel :: "Collation \<Rightarrow> string \<Rightarrow> int \<Rightarrow> Tables \<Rightarrow> string" where
  "part_sel col u n T = (case filter (part_is col u n) (t_parts T) of r # _ \<Rightarrow> p_cas r | [] \<Rightarrow> [])"

definition part_cur :: "Collation \<Rightarrow> string \<Rightarrow> int \<Rightarrow> Tables \<Rightarrow> string option" where
  "part_cur col u n T = map_option p_cas (List.find (part_is col u n) (t_parts T))"

definition part_wr :: "Collation \<Rightarrow> string \<Rightarrow> int \<Rightarrow> string \<Rightarrow> Tables \<Rightarrow> Tables \<Rightarrow> bool" where
  "part_wr col u n h T T' \<longleftrightarrow> (\<exists>now sz etag r. upsert_part col now T u n h sz etag = Some (T', r))"

lemma find_filter: "List.find P xs = (case filter P xs of [] \<Rightarrow> None | x # _ \<Rightarrow> Some x)"
  by (induction xs) auto

lemma obj_find_clash:
  assumes "uniq_ok col T" "r \<in> set (t_objects T)" "obj_clash col b k r"
  shows "List.find (obj_clash col b k) (t_objects T) = Some r"
  using assms
  by (intro distinct_key_find [where key = "\<lambda>r. (o_bucket r, col_weight col (col_prefix col (o_key r)))"])
     (auto simp: uniq_ok_def obj_clash_def col_uniq_def col_eq_def)

lemma obj_is_clash: "uniq_ok col T \<Longrightarrow> obj_is col b k r \<Longrightarrow> obj_clash col b k r"
  by (auto simp: uniq_ok_def col_ok_def obj_is_def obj_clash_def)

interpretation objs: counted_table col "obj_sel col b k" "obj_wr col b k" "obj_cur col b k" for col b k
proof (unfold_locales, goal_cases)
  case (1 h T T' x)
  then show ?case
    using upsert_object_counts by (fastforce simp: obj_wr_def obj_cur_def refs_def part_refs_def)
next
  case (2 h T T' x)
  then show ?case using upsert_object_counts(2) by (fastforce simp: obj_wr_def ref_count_def)
next
  case (3 h T T')
  then show ?case using upsert_object_counts(6) by (fastforce simp: obj_wr_def)
next
  case (4 T)
  then obtain r rs where f: "filter (obj_is col b k) (t_objects T) = r # rs" "obj_sel col b k T = o_cas r"
    by (auto simp: obj_sel_def split: list.splits)
  then have "r \<in> set (filter (obj_is col b k) (t_objects T))" by simp
  then have "r \<in> set (t_objects T)" "obj_is col b k r" by simp_all
  with obj_find_clash [OF 4(1)] obj_is_clash [OF 4(1)] f(2) show ?case by (simp add: obj_cur_def)
next
  case (5 T T')
  then show ?case by (simp add: obj_cur_def)
qed

interpretation parts: counted_table col "part_sel col u n" "part_wr col u n" "part_cur col u n" for col u n
proof (unfold_locales, goal_cases)
  case (1 h T T' x)
  then show ?case
    using upsert_part_counts by (fastforce simp: part_wr_def part_cur_def refs_def obj_refs_def)
next
  case (2 h T T' x)
  then show ?case using upsert_part_counts(2) by (fastforce simp: part_wr_def ref_count_def)
next
  case (3 h T T')
  then show ?case using upsert_part_counts(6) by (fastforce simp: part_wr_def)
next
  case (4 T)
  then show ?case
    by (auto simp: part_sel_def part_cur_def find_filter [of "part_is col u n"] split: list.splits)
next
  case (5 T T')
  then show ?case by (simp add: part_cur_def)
qed

section \<open>Transactions as atomic steps\<close>

text \<open>What the operations need of their environment: a conforming database whose
  \<open>START TRANSACTION\<close> does not fail, and a pool that does not change the data.\<close>

definition meta_env_ok :: "Collation \<Rightarrow> ('d, 'r) MetaEnv \<Rightarrow> ('d \<Rightarrow> DbState) \<Rightarrow> bool" where
  "meta_env_ok col env view \<longleftrightarrow> sql_conforms col (me_sql env) view \<and>
     (\<forall>d. \<exists>d' r. me_sql env d Start_transaction = (d', Sql_ok r)) \<and>
     (\<forall>d. view (fst (me_conn env d)) = view d)"

definition data_stmt :: "Stmt \<Rightarrow> bool" where
  "data_stmt s \<longleftrightarrow> s \<noteq> Start_transaction \<and> s \<noteq> Commit_tx \<and> s \<noteq> Rollback_tx"

lemma stmt_effect_data:
  "data_stmt s \<Longrightarrow> stmt_effect col now nid D s =
     map_option (\<lambda>(T, r). (db_write D T, r)) (stmt_tables col now nid (db_current D) s)"
  by (cases s) (auto simp: stmt_effect_def data_stmt_def)

lemma conforms_ok:
  assumes "meta_env_ok col env view" "me_sql env d s = (d', Sql_ok r)"
  obtains now nid where "stmt_effect col now nid (view d) s = Some (view d', r)"
  using assms unfolding meta_env_ok_def sql_conforms_def by fastforce

lemma conforms_err:
  assumes "meta_env_ok col env view" "me_sql env d s = (d', Sql_err e)"
  shows "view d' = (view d)\<lparr>db_tx := None\<rparr> \<or> view d' = view d \<and> s \<noteq> Commit_tx \<and> s \<noteq> Rollback_tx"
  using assms unfolding meta_env_ok_def sql_conforms_def by fastforce

definition in_tx :: "('d \<Rightarrow> DbState) \<Rightarrow> 'd \<Rightarrow> Tables \<Rightarrow> Tables \<Rightarrow> bool" where
  "in_tx view d A W \<longleftrightarrow> view d = \<lparr>db_tables = A, db_tx = Some W\<rparr>"

definition no_tx :: "('d \<Rightarrow> DbState) \<Rightarrow> 'd \<Rightarrow> Tables \<Rightarrow> bool" where
  "no_tx view d A \<longleftrightarrow> view d = \<lparr>db_tables = A, db_tx = None\<rparr>"

lemma tx_new: "meta_env_ok col env view \<Longrightarrow> no_tx view d A \<Longrightarrow> in_tx view (Transaction_new env d) A A"
proof -
  assume ok: "meta_env_ok col env view" and n: "no_tx view d A"
  then obtain d' r where s: "me_sql env d Start_transaction = (d', Sql_ok r)" unfolding meta_env_ok_def by blast
  from conforms_ok [OF ok s] obtain now nid where
    "stmt_effect col now nid (view d) Start_transaction = Some (view d', r)" .
  with n s show ?thesis by (simp add: stmt_effect_def in_tx_def no_tx_def db_current_def Transaction_new_def)
qed

lemma tx_rollback:
  assumes ok: "meta_env_ok col env view" and n: "in_tx view d A W \<or> no_tx view d A"
  shows "no_tx view (Transaction_Rollback env d) A"
proof (cases "me_sql env d Rollback_tx")
  case (Pair d' out)
  show ?thesis
  proof (cases out)
    case (Sql_err e)
    with conforms_err [OF ok, of d Rollback_tx d' e] Pair n show ?thesis
      by (auto simp: Transaction_Rollback_def in_tx_def no_tx_def)
  next
    case (Sql_ok r)
    from conforms_ok [OF ok, of d Rollback_tx d' r] Pair Sql_ok obtain now nid where
      "stmt_effect col now nid (view d) Rollback_tx = Some (view d', r)" by auto
    with Pair n show ?thesis by (auto simp: stmt_effect_def Transaction_Rollback_def in_tx_def no_tx_def)
  qed
qed

lemma tx_stmt_ok:
  assumes ok: "meta_env_ok col env view" and i: "in_tx view d A W" and s: "me_sql env d s = (d', Sql_ok r)"
    and ds: "data_stmt s"
  shows "\<exists>now nid W'. stmt_tables col now nid W s = Some (W', r) \<and> in_tx view d' A W'"
proof -
  from conforms_ok [OF ok s] obtain now nid where "stmt_effect col now nid (view d) s = Some (view d', r)" .
  then obtain W' where "stmt_tables col now nid W s = Some (W', r)" "db_write (view d) W' = view d'"
    using i by (auto simp: stmt_effect_data [OF ds] in_tx_def db_current_def)
  moreover from this(2) have "in_tx view d' A W'" using i by (simp add: in_tx_def db_write_def)
  ultimately show ?thesis by blast
qed

lemma tx_stmt_err:
  assumes "meta_env_ok col env view" "in_tx view d A W" "me_sql env d s = (d', Sql_err e)"
  shows "in_tx view d' A W \<or> no_tx view d' A"
  using conforms_err [OF assms(1,3)] assms(2) by (auto simp: in_tx_def no_tx_def)

lemma tx_commit_ok:
  assumes ok: "meta_env_ok col env view" and i: "in_tx view d A W" and c: "Transaction_Commit env d = (d', q)"
  shows "no_tx view d' (case q of Inr _ \<Rightarrow> W | Inl _ \<Rightarrow> A)"
proof (cases "me_sql env d Commit_tx")
  case (Pair d1 out)
  show ?thesis
  proof (cases out)
    case (Sql_err e)
    with conforms_err [OF ok, of d Commit_tx d1 e] Pair i c show ?thesis
      by (auto simp: Transaction_Commit_def in_tx_def no_tx_def)
  next
    case (Sql_ok r)
    from conforms_ok [OF ok, of d Commit_tx d1 r] Pair Sql_ok obtain now nid where
      "stmt_effect col now nid (view d) Commit_tx = Some (view d1, r)" by auto
    with Pair Sql_ok i c show ?thesis
      by (auto simp: stmt_effect_def Transaction_Commit_def in_tx_def no_tx_def db_current_def)
  qed
qed

text \<open>Rules for the two forms of transactions: an attempt that does not finish with a value leaves the
  tables alone.\<close>

definition att_post :: "('d \<Rightarrow> DbState) \<Rightarrow> Tables \<Rightarrow> ('a \<Rightarrow> Tables \<Rightarrow> bool) \<Rightarrow> 'd \<times> 'a Attempt \<Rightarrow> bool" where
  "att_post view A Q res \<longleftrightarrow>
     (case res of
        (d, Finish (Inr v)) \<Rightarrow> \<exists>T. no_tx view d T \<and> Q v T
      | (d, _) \<Rightarrow> no_tx view d A)"

definition res_post :: "('d \<Rightarrow> DbState) \<Rightarrow> Tables \<Rightarrow> ('a \<Rightarrow> Tables \<Rightarrow> bool) \<Rightarrow> 'd \<times> 'a Result \<Rightarrow> bool" where
  "res_post view A Q res \<longleftrightarrow>
     (case res of
        (d, Inr v) \<Rightarrow> \<exists>T. no_tx view d T \<and> Q v T
      | (d, Inl _) \<Rightarrow> no_tx view d A)"

lemma txn_error_not_ok: "txn_error a e \<noteq> Finish (Inr v)" "commit_error a e \<noteq> Finish (Inr v)"
  by (auto simp: txn_error_def commit_error_def Err_def)

lemma att_post_error:
  "no_tx view d A \<Longrightarrow> att_post view A Q (d, txn_error a e)" "no_tx view d A \<Longrightarrow> att_post view A Q (d, commit_error a e)"
  by (auto simp: att_post_def txn_error_def commit_error_def Err_def)

lemma tx_then_post:
  assumes ok: "meta_env_ok col env view" and i: "in_tx view d A W" and ds: "data_stmt s"
    and k: "\<And>now nid W' r d'. stmt_tables col now nid W s = Some (W', r) \<Longrightarrow> in_tx view d' A W' \<Longrightarrow>
      att_post view A Q (k r d')"
  shows "att_post view A Q (tx_then env a s k d)"
proof (cases "me_sql env d s")
  case (Pair d' out)
  show ?thesis
  proof (cases out)
    case (Sql_err e)
    with tx_stmt_err [OF ok i] Pair have "in_tx view d' A W \<or> no_tx view d' A" by blast
    from att_post_error(1) [OF tx_rollback [OF ok this]] Pair Sql_err show ?thesis by (simp add: tx_then_def)
  next
    case (Sql_ok r)
    with tx_stmt_ok [OF ok i _ ds] Pair k show ?thesis by (auto simp: tx_then_def)
  qed
qed

lemma tx_commit_post:
  assumes ok: "meta_env_ok col env view" and i: "in_tx view d A W" and q: "Q v W"
  shows "att_post view A Q (tx_commit env a v d)"
proof (cases "Transaction_Commit env d")
  case (Pair d' r)
  note c = tx_commit_ok [OF ok i Pair]
  show ?thesis
  proof (cases r)
    case (Inl e)
    with c att_post_error(2) Pair show ?thesis by (simp add: tx_commit_def)
  next
    case (Inr u)
    with c q Pair show ?thesis by (auto simp: tx_commit_def att_post_def)
  qed
qed

lemma tx1_then_post:
  assumes ok: "meta_env_ok col env view" and i: "in_tx view d A W" and ds: "data_stmt s"
    and k: "\<And>now nid W' r d'. stmt_tables col now nid W s = Some (W', r) \<Longrightarrow> in_tx view d' A W' \<Longrightarrow>
      res_post view A Q (k r d')"
  shows "res_post view A Q (tx1_then env s k d)"
proof (cases "me_sql env d s")
  case (Pair d' out)
  show ?thesis
  proof (cases out)
    case (Sql_err e)
    with tx_stmt_err [OF ok i] Pair have "in_tx view d' A W \<or> no_tx view d' A" by blast
    from tx_rollback [OF ok this] Pair Sql_err show ?thesis
      by (simp add: tx1_then_def res_post_def db_error_def Err_def)
  next
    case (Sql_ok r)
    with tx_stmt_ok [OF ok i _ ds] Pair k show ?thesis by (auto simp: tx1_then_def)
  qed
qed

lemma tx1_commit_post:
  assumes ok: "meta_env_ok col env view" and i: "in_tx view d A W" and q: "Q v W"
  shows "res_post view A Q (tx1_commit env v d)"
proof (cases "Transaction_Commit env d")
  case (Pair d' r)
  with tx_commit_ok [OF ok i Pair] q show ?thesis
    by (cases r) (auto simp: tx1_commit_def res_post_def db_error_def Err_def)
qed

text \<open>A single statement outside a transaction.\<close>

lemma sql_then_post:
  assumes ok: "meta_env_ok col env view" and n: "no_tx view d A" and ds: "data_stmt s"
    and k: "\<And>now nid T r d'. stmt_tables col now nid A s = Some (T, r) \<Longrightarrow> no_tx view d' T \<Longrightarrow> P (k r d')"
    and e: "\<And>e d'. no_tx view d' A \<Longrightarrow> P (d', db_error e)"
  shows "P (sql_then env s k d)"
proof (cases "me_sql env d s")
  case (Pair d' out)
  show ?thesis
  proof (cases out)
    case (Sql_err m)
    with conforms_err [OF ok, of d s d' m] Pair n have "no_tx view d' A" by (auto simp: no_tx_def)
    with e Pair Sql_err show ?thesis by (simp add: sql_then_def)
  next
    case (Sql_ok r)
    from conforms_ok [OF ok, of d s d' r] Pair Sql_ok obtain now nid where
      "stmt_effect col now nid (view d) s = Some (view d', r)" by auto
    then obtain T where "stmt_tables col now nid A s = Some (T, r)" "no_tx view d' T"
      using n by (auto simp: stmt_effect_data [OF ds] no_tx_def db_current_def db_write_def)
    with k Pair Sql_ok show ?thesis by (simp add: sql_then_def)
  qed
qed

section \<open>The reference-counted writes\<close>

lemma data_stmts [simp]:
  "data_stmt (Upsert_cas h sz)" "data_stmt (Dec_cas h)" "data_stmt (Sel_ref h)" "data_stmt (Sel_object_cas b k)"
  "data_stmt (Upsert_object b k h sz ct etag)" "data_stmt (Ins_object b k h sz ct etag)" "data_stmt (Del_object b k)"
  "data_stmt (Upsert_part u n h sz etag)" "data_stmt (Sel_part_cas u n)" "data_stmt (Cnt_objects_cas h)"
  "data_stmt (Cnt_parts_cas h)" "data_stmt (Sel_object b k)" "data_stmt (Del_cas h)" "data_stmt (Del_upload u)"
  "data_stmt (Ins_bucket name)" "data_stmt (Del_bucket name)" "data_stmt (Ins_upload u b k ct ex)"
  "data_stmt (Sel_objects b pat af lim)" "data_stmt (Sel_parts u mk lim)"
  by (simp_all add: data_stmt_def)

lemma first_ref_zero_rows:
  "first_ref_zero (rows (map (\<lambda>r. Row_int (int (c_ref r))) (take 1 (filter (cas_is col k) (t_cas T))))) \<longleftrightarrow>
   has_cas col T k \<and> ref_count col T k = 0"
  by (auto simp: first_ref_zero_def rows_def ref_count_def has_cas_def find_filter list_ex_iff
      filter_empty_conv split: list.splits) (metis filter_set list.set_intros(1) mem_Collect_eq set_filter)+

context counted_table
begin

definition gc_spec :: "string \<Rightarrow> Tables \<Rightarrow> Tables \<Rightarrow> string option" where
  "gc_spec h T0 T2 = (if sel T0 \<noteq> [] \<and> sel T0 \<noteq> h \<and> has_cas col T2 (sel T0) \<and> ref_count col T2 (sel T0) = 0
     then Some (sel T0) else None)"

lemma swap_refs_post:
  assumes ok: "meta_env_ok col env view" and i: "in_tx view d A A" and ds: "data_stmt s"
    and w: "\<And>now nid T2 T3 r. stmt_tables col now nid T2 s = Some (T3, r) \<Longrightarrow> wr h T2 T3"
  shows "att_post view A (\<lambda>gc T3. \<exists>T2 now nid r. swap h sz A T2 T3 \<and> gc = gc_spec h A T2 \<and>
      stmt_tables col now nid T2 s = Some (T3, r)) (swap_refs env a (sel A) h sz s d)"
    (is "att_post view A ?Q _")
proof -
  define fin where "fin = (\<lambda>gc :: string option. tx_then env a s (\<lambda>_. tx_commit env a gc))"
  define dec_old where "dec_old = (if sel A \<noteq> [] \<and> sel A \<noteq> h
    then tx_then env a (Dec_cas (sel A)) (\<lambda>_. tx_then env a (Sel_ref (sel A)) (\<lambda>r.
      fin (if first_ref_zero r then Some (sel A) else None))) else fin None)"
  let ?inc = "\<lambda>now T1 r. if sel A = [] \<or> sel A \<noteq> h then upsert_cas col now A h sz = Some (T1, r) else T1 = A"
  let ?dec = "\<lambda>now T1 T2 r. if sel A \<noteq> [] \<and> sel A \<noteq> h
    then update_cas col (\<lambda>r. r\<lparr>c_ref := c_ref r - 1, c_updated := now\<rparr>) T1 (sel A) = Some (T2, r) else T2 = T1"
  have fin: "att_post view A ?Q (fin gc d')"
    if "in_tx view d' A T2" "?inc now T1 r1" "?dec now' T1 T2 r2" "gc = gc_spec h A T2" for d' gc T1 T2 now now' r1 r2
    unfolding fin_def
  proof (rule tx_then_post [OF ok that(1) ds])
    fix now3 nid T3 r d3
    assume st: "stmt_tables col now3 nid T2 s = Some (T3, r)" and i3: "in_tx view d3 A T3"
    have "swap h sz A T2 T3" unfolding swap_def using that(2,3) w [OF st] by blast
    with that(4) st have "?Q gc T3" by blast
    then show "att_post view A ?Q (tx_commit env a gc d3)" by (rule tx_commit_post [OF ok i3])
  qed
  have dec: "att_post view A ?Q (dec_old d')" if i1: "in_tx view d' A T1" and inc: "?inc now T1 r1" for d' T1 now r1
  proof (cases "sel A \<noteq> [] \<and> sel A \<noteq> h")
    case True
    have "att_post view A ?Q (tx_then env a (Dec_cas (sel A)) (\<lambda>_. tx_then env a (Sel_ref (sel A)) (\<lambda>r.
      fin (if first_ref_zero r then Some (sel A) else None))) d')"
    proof (rule tx_then_post [OF ok i1])
      fix now' nid T2 r2 d2
      assume st: "stmt_tables col now' nid T1 (Dec_cas (sel A)) = Some (T2, r2)" and i2: "in_tx view d2 A T2"
      show "att_post view A ?Q (tx_then env a (Sel_ref (sel A)) (\<lambda>r.
          fin (if first_ref_zero r then Some (sel A) else None)) d2)"
      proof (rule tx_then_post [OF ok i2])
        fix now3 nid3 T3 r d3
        assume "stmt_tables col now3 nid3 T2 (Sel_ref (sel A)) = Some (T3, r)" and i3: "in_tx view d3 A T3"
        then have "T3 = T2" "first_ref_zero r \<longleftrightarrow> has_cas col T2 (sel A) \<and> ref_count col T2 (sel A) = 0"
          using first_ref_zero_rows by auto
        then show "att_post view A ?Q (fin (if first_ref_zero r then Some (sel A) else None) d3)"
          using fin [of d3 T2 now T1 r1 now' r2] i3 inc True st by (simp add: gc_spec_def)
      qed simp
    qed simp
    with True show ?thesis by (simp add: dec_old_def)
  next
    case False
    then have "None = gc_spec h A T1" "?dec now T1 T1 r1" by (auto simp: gc_spec_def)
    moreover have "dec_old = fin None" using False by (auto simp: dec_old_def)
    ultimately show ?thesis using fin [OF i1 inc] by simp
  qed
  have sr: "swap_refs env a (sel A) h sz s = (if sel A = [] \<or> sel A \<noteq> h
      then tx_then env a (Upsert_cas h sz) (\<lambda>_. dec_old) else dec_old)"
    by (simp add: swap_refs_def dec_old_def fin_def Let_def)
  show ?thesis
  proof (cases "sel A = [] \<or> sel A \<noteq> h")
    case True
    have "att_post view A ?Q (tx_then env a (Upsert_cas h sz) (\<lambda>_. dec_old) d)"
    proof (rule tx_then_post [OF ok i])
      fix now nid T1 r d1
      assume "stmt_tables col now nid A (Upsert_cas h sz) = Some (T1, r)" "in_tx view d1 A T1"
      then show "att_post view A ?Q (dec_old d1)" using dec [of d1 T1 now r] True by simp
    qed simp
    with True sr show ?thesis by simp
  next
    case False
    then have "swap_refs env a (sel A) h sz s = dec_old" using sr by auto
    then show ?thesis using dec [OF i] False by auto
  qed
qed

end

text \<open>The state after an upload of a key: the swap on the objects table.\<close>

definition put_spec ::
    "Collation \<Rightarrow> int \<Rightarrow> string \<Rightarrow> string \<Rightarrow> int \<Rightarrow> string \<Rightarrow> string \<Rightarrow> Tables \<Rightarrow> string option \<Rightarrow> Tables \<Rightarrow> bool" where
  "put_spec col b k h sz ct etag A gc T \<longleftrightarrow> (\<exists>T2 now nid r.
     counted_table.swap col (obj_sel col b k) (obj_wr col b k) h sz A T2 T \<and>
     gc = counted_table.gc_spec col (obj_sel col b k) h A T2 \<and>
     upsert_object col now nid T2 b k h sz ct etag = Some (T, r))"

definition part_spec ::
    "Collation \<Rightarrow> string \<Rightarrow> int \<Rightarrow> string \<Rightarrow> int \<Rightarrow> string \<Rightarrow> Tables \<Rightarrow> string option \<Rightarrow> Tables \<Rightarrow> bool" where
  "part_spec col u n h sz etag A gc T \<longleftrightarrow> (\<exists>T2 now r.
     counted_table.swap col (part_sel col u n) (part_wr col u n) h sz A T2 T \<and>
     gc = counted_table.gc_spec col (part_sel col u n) h A T2 \<and>
     upsert_part col now T2 u n h sz etag = Some (T, r))"

lemma obj_sel_none:
  assumes "uniq_ok col T" "\<not> list_ex (obj_clash col b k) (t_objects T)"
  shows "obj_sel col b k T = []"
proof -
  have "filter (obj_is col b k) (t_objects T) = []"
    using obj_is_clash [OF assms(1)] assms(2) by (auto simp: filter_empty_conv list_ex_iff)
  then show ?thesis by (simp add: obj_sel_def)
qed

lemma put_object_slow_post:
  assumes ok: "meta_env_ok col env view" and n: "no_tx view d A"
  shows "att_post view A (put_spec col b k h sz ct etag A) (put_object_slow env a b k sz etag ct h d)"
  unfolding put_object_slow_def
proof (rule tx_then_post [OF ok tx_new [OF ok n]])
  fix now nid W r d'
  assume st: "stmt_tables col now nid A (Sel_object_cas b k) = Some (W, r)" and i: "in_tx view d' A W"
  then have W: "W = A" and s: "first_string r = obj_sel col b k A"
    by (auto simp: first_string_def rows_def obj_sel_def split: list.splits)
  have "att_post view A (\<lambda>gc T3. \<exists>T2 now nid r.
      counted_table.swap col (obj_sel col b k) (obj_wr col b k) h sz A T2 T3 \<and>
      gc = counted_table.gc_spec col (obj_sel col b k) h A T2 \<and>
      stmt_tables col now nid T2 (Upsert_object b k h sz ct etag) = Some (T3, r))
     (swap_refs env a (obj_sel col b k A) h sz (Upsert_object b k h sz ct etag) d')"
    using i W by (intro objs.swap_refs_post [OF ok]) (auto simp: obj_wr_def, blast)
  then show "att_post view A (put_spec col b k h sz ct etag A)
      (swap_refs env a (first_string r) h sz (Upsert_object b k h sz ct etag) d')"
    unfolding s put_spec_def [abs_def] by simp
qed simp

lemma put_object_fast_post:
  assumes ok: "meta_env_ok col env view" and n: "no_tx view d A" and u: "uniq_ok col A"
  shows "case put_object_fast env a b k sz etag ct h d of
      (d', Some at) \<Rightarrow> att_post view A (put_spec col b k h sz ct etag A) (d', at)
    | (d', None) \<Rightarrow> no_tx view d' A"
proof -
  obtain d1 o1 where s1: "me_sql env (Transaction_new env d) (Upsert_cas h sz) = (d1, o1)"
    by (cases "me_sql env (Transaction_new env d) (Upsert_cas h sz)")
  note i0 = tx_new [OF ok n]
  show ?thesis
  proof (cases o1)
    case (Sql_err e)
    have "no_tx view (Transaction_Rollback env d1) A"
      using tx_rollback [OF ok tx_stmt_err [OF ok i0]] s1 Sql_err by blast
    from att_post_error(1) [OF this] s1 Sql_err show ?thesis by (simp add: put_object_fast_def Let_def)
  next
    case (Sql_ok r1)
    have "me_sql env (Transaction_new env d) (Upsert_cas h sz) = (d1, Sql_ok r1)" using s1 Sql_ok by simp
    from tx_stmt_ok [OF ok i0 this] obtain now W where
      w: "upsert_cas col now A h sz = Some (W, r1)" and i1: "in_tx view d1 A W" by auto
    obtain d2 o2 where s2: "me_sql env d1 (Ins_object b k h sz ct etag) = (d2, o2)"
      by (cases "me_sql env d1 (Ins_object b k h sz ct etag)")
    show ?thesis
    proof (cases o2)
      case (Sql_err e)
      have "no_tx view (Transaction_Rollback env d2) A"
        using tx_rollback [OF ok tx_stmt_err [OF ok i1]] s2 Sql_err by blast
      from att_post_error(1) [OF this, where Q = "put_spec col b k h sz ct etag A"] this s1 s2 Sql_err \<open>o1 = Sql_ok r1\<close>
      show ?thesis by (simp add: put_object_fast_def Let_def)
    next
      case o2: (Sql_ok r2)
      have "me_sql env d1 (Ins_object b k h sz ct etag) = (d2, Sql_ok r2)" using s2 o2 by simp
      from tx_stmt_ok [OF ok i1 this] obtain now' nid W' where
        w': "ins_object col now' nid W b k h sz ct etag = Some (W', r2)" and i2: "in_tx view d2 A W'" by auto
      note uc = upsert_cas_counts [OF w]
      have nc: "\<not> list_ex (obj_clash col b k) (t_objects W)" using w' by (auto simp: ins_object_def split: if_splits)
      then have s: "obj_sel col b k A = []" using obj_sel_none [OF u] uc(2) by simp
      have up: "upsert_object col now' nid W b k h sz ct etag = Some (W', r2)"
        using w' nc find_None_ex [of "obj_clash col b k" "t_objects W"]
        by (auto simp: upsert_object_def ins_object_def split: if_splits)
      have "counted_table.swap col (obj_sel col b k) (obj_wr col b k) h sz A W W'"
        unfolding objs.swap_def obj_wr_def using s w up by auto metis+
      then have "put_spec col b k h sz ct etag A None W'"
        unfolding put_spec_def using up s by (auto simp: objs.gc_spec_def)
      from tx_commit_post [where Q = "put_spec col b k h sz ct etag A" and a = a, OF ok i2 this] s1 s2 \<open>o1 = Sql_ok r1\<close> o2 show ?thesis
        by (auto simp: put_object_fast_def Let_def split: prod.splits)
    qed
  qed
qed

lemma put_object_loop_post:
  assumes ok: "meta_env_ok col env view" and u: "uniq_ok col A"
  shows "no_tx view d A \<Longrightarrow> put_object_loop env n a b k sz etag ct h d = (d', slow, r) \<Longrightarrow>
    res_post view A (put_spec col b k h sz ct etag A) (d', r)"
proof (induction n arbitrary: a d)
  case 0
  then show ?case by (auto simp: res_post_def Err_def)
next
  case (Suc n)
  obtain d1 o1 where f: "put_object_fast env a b k sz etag ct h d = (d1, o1)" by (cases "put_object_fast env a b k sz etag ct h d")
  note fp = put_object_fast_post [OF ok Suc.prems(1) u, where a = a and b = b and k = k and sz = sz and etag = etag
      and ct = ct and h = h, unfolded f]
  show ?case
  proof (cases o1)
    case None
    with fp have n1: "no_tx view d1 A" by simp
    obtain d2 o2 where s: "put_object_slow env a b k sz etag ct h d1 = (d2, o2)" by (cases "put_object_slow env a b k sz etag ct h d1")
    note sp = put_object_slow_post [OF ok n1, where a = a and b = b and k = k and sz = sz and etag = etag
        and ct = ct and h = h, unfolded s]
    show ?thesis
    proof (cases o2)
      case Again
      with sp have "no_tx view d2 A" by (simp add: att_post_def)
      with Suc.IH Suc.prems(2) f None s Again show ?thesis by simp
    next
      case (Finish q)
      with Suc.prems(2) f None s sp show ?thesis by (cases q) (auto simp: att_post_def res_post_def)
    qed
  next
    case (Some at)
    show ?thesis
    proof (cases at)
      case Again
      with fp Some have "no_tx view d1 A" by (simp add: att_post_def)
      with Suc.IH Suc.prems(2) f Some Again show ?thesis by simp
    next
      case (Finish q)
      with Suc.prems(2) f Some fp show ?thesis by (cases q) (auto simp: att_post_def res_post_def)
    qed
  qed
qed

lemma put_part_loop_post:
  assumes ok: "meta_env_ok col env view"
  shows "no_tx view d A \<Longrightarrow> put_part_loop env m a u n h sz etag d = (d', r) \<Longrightarrow>
    res_post view A (part_spec col u n h sz etag A) (d', r)"
proof (induction m arbitrary: a d)
  case 0
  then show ?case by (auto simp: res_post_def Err_def)
next
  case (Suc m)
  have tx: "att_post view A (part_spec col u n h sz etag A) (put_part_tx env a u n h sz etag d)"
    unfolding put_part_tx_def
  proof (rule tx_then_post [OF ok tx_new [OF ok Suc.prems(1)]])
    fix now nid W r d'
    assume st: "stmt_tables col now nid A (Sel_part_cas u n) = Some (W, r)" and i: "in_tx view d' A W"
    then have W: "W = A" and s: "first_string r = part_sel col u n A"
      by (auto simp: first_string_def rows_def part_sel_def split: list.splits)
    have "att_post view A (\<lambda>gc T3. \<exists>T2 now nid r.
        counted_table.swap col (part_sel col u n) (part_wr col u n) h sz A T2 T3 \<and>
        gc = counted_table.gc_spec col (part_sel col u n) h A T2 \<and>
        stmt_tables col now nid T2 (Upsert_part u n h sz etag) = Some (T3, r))
       (swap_refs env a (part_sel col u n A) h sz (Upsert_part u n h sz etag) d')"
      using i W by (intro parts.swap_refs_post [OF ok]) (auto simp: part_wr_def)
    then show "att_post view A (part_spec col u n h sz etag A)
        (swap_refs env a (first_string r) h sz (Upsert_part u n h sz etag) d')"
      unfolding s part_spec_def [abs_def] by simp
  qed simp
  obtain d1 at where t: "put_part_tx env a u n h sz etag d = (d1, at)" by (cases "put_part_tx env a u n h sz etag d")
  show ?case
  proof (cases at)
    case Again
    with tx t have "no_tx view d1 A" by (simp add: att_post_def)
    with Suc.IH Suc.prems(2) t Again show ?thesis by simp
  next
    case (Finish q)
    with Suc.prems(2) t tx show ?thesis by (cases q) (auto simp: att_post_def res_post_def)
  qed
qed

text \<open>The state after the deletion of a key.\<close>

definition del_spec :: "Collation \<Rightarrow> int \<Rightarrow> string \<Rightarrow> Tables \<Rightarrow> string option \<Rightarrow> Tables \<Rightarrow> bool" where
  "del_spec col b k A gc T \<longleftrightarrow> (\<exists>r rs T1. filter (obj_is col b k) (t_objects A) = r # rs \<and>
     T1 = A\<lparr>t_objects := filter (\<lambda>r. \<not> obj_is col b k r) (t_objects A)\<rparr> \<and>
     (if o_cas r = [] then T = T1 \<and> gc = None
      else (\<exists>now q. update_cas col (\<lambda>r. r\<lparr>c_ref := c_ref r - 1, c_updated := now\<rparr>) T1 (o_cas r) = Some (T, q)) \<and>
        gc = (if has_cas col T (o_cas r) \<and> ref_count col T (o_cas r) = 0 then Some (o_cas r) else None)))"

lemma delete_object_tx_post:
  assumes ok: "meta_env_ok col env view" and n: "no_tx view d A"
  shows "res_post view A (del_spec col b k A) (delete_object_tx env b k d)"
  unfolding delete_object_tx_def
proof (rule tx1_then_post [OF ok tx_new [OF ok n]])
  fix now nid W r d'
  assume st: "stmt_tables col now nid A (Sel_object_cas b k) = Some (W, r)" and i: "in_tx view d' A W"
  have W: "W = A" and r: "sr_rows r = map (\<lambda>r. Row_string (o_cas r)) (filter (obj_is col b k) (t_objects A))"
    using st by (auto simp: rows_def)
  show "res_post view A (del_spec col b k A)
      (case sr_rows r of
         Row_string cas_key # _ \<Rightarrow>
           tx1_then env (Del_object b k) (\<lambda>_.
             if cas_key \<noteq> '''' then tx1_then env (Dec_cas cas_key) (\<lambda>_.
               tx1_then env (Sel_ref cas_key) (\<lambda>q. tx1_commit env (if first_ref_zero q then Some cas_key else None)))
             else tx1_commit env None) d'
       | _ \<Rightarrow> (Transaction_Rollback env d', Err NoSuchKey ''Object not found''))"
  proof (cases "filter (obj_is col b k) (t_objects A)")
    case Nil
    with r tx_rollback [OF ok] i W show ?thesis by (auto simp: res_post_def Err_def)
  next
    case (Cons o1 os)
    let ?T1 = "A\<lparr>t_objects := filter (\<lambda>r. \<not> obj_is col b k r) (t_objects A)\<rparr>"
    have "res_post view A (del_spec col b k A) (tx1_then env (Del_object b k) (\<lambda>_.
        if o_cas o1 \<noteq> '''' then tx1_then env (Dec_cas (o_cas o1)) (\<lambda>_.
          tx1_then env (Sel_ref (o_cas o1)) (\<lambda>q. tx1_commit env (if first_ref_zero q then Some (o_cas o1) else None)))
        else tx1_commit env None) d')"
    proof (rule tx1_then_post [OF ok i])
      fix now1 nid1 W1 r1 d1
      assume "stmt_tables col now1 nid1 W (Del_object b k) = Some (W1, r1)" and i1: "in_tx view d1 A W1"
      then have W1: "W1 = ?T1" using W by auto
      show "res_post view A (del_spec col b k A) ((if o_cas o1 \<noteq> '''' then tx1_then env (Dec_cas (o_cas o1)) (\<lambda>_.
          tx1_then env (Sel_ref (o_cas o1)) (\<lambda>q. tx1_commit env (if first_ref_zero q then Some (o_cas o1) else None)))
        else tx1_commit env None) d1)"
      proof (cases "o_cas o1 = []")
        case True
        have "del_spec col b k A None W1" using Cons True W1 by (auto simp: del_spec_def)
        with True tx1_commit_post [OF ok i1] show ?thesis by simp
      next
        case False
        have "res_post view A (del_spec col b k A) (tx1_then env (Dec_cas (o_cas o1)) (\<lambda>_.
          tx1_then env (Sel_ref (o_cas o1)) (\<lambda>q. tx1_commit env (if first_ref_zero q then Some (o_cas o1) else None))) d1)"
        proof (rule tx1_then_post [OF ok i1])
          fix now2 nid2 W2 r2 d2
          assume s2: "stmt_tables col now2 nid2 W1 (Dec_cas (o_cas o1)) = Some (W2, r2)" and i2: "in_tx view d2 A W2"
          show "res_post view A (del_spec col b k A) (tx1_then env (Sel_ref (o_cas o1))
              (\<lambda>q. tx1_commit env (if first_ref_zero q then Some (o_cas o1) else None)) d2)"
          proof (rule tx1_then_post [OF ok i2])
            fix now3 nid3 W3 r3 d3
            assume "stmt_tables col now3 nid3 W2 (Sel_ref (o_cas o1)) = Some (W3, r3)" and i3: "in_tx view d3 A W3"
            then have "W3 = W2" "first_ref_zero r3 \<longleftrightarrow> has_cas col W2 (o_cas o1) \<and> ref_count col W2 (o_cas o1) = 0"
              using first_ref_zero_rows by auto
            then have "del_spec col b k A (if first_ref_zero r3 then Some (o_cas o1) else None) W3"
              using Cons False s2 W1 by (auto simp: del_spec_def)
            then show "res_post view A (del_spec col b k A)
                (tx1_commit env (if first_ref_zero r3 then Some (o_cas o1) else None) d3)"
              by (rule tx1_commit_post [OF ok i3])
          qed simp
        qed simp
        with False show ?thesis by simp
      qed
    qed simp
    with r Cons show ?thesis by simp
  qed
qed simp

end
