(* ===== verification/Meta_Props.thy ===== *)
theory Meta_Props
  imports Ref_Counts
begin

text \<open>
  Properties of \<open>Meta_Store\<close>: the reference counts as an invariant of all runs of its operations,
  atomicity, what an upload makes visible, the candidates for collection, and listing by pages.
\<close>

section \<open>Operations as steps on the tables\<close>

lemma with_conn_post:
  assumes ok: "meta_env_ok col env view" and n: "no_tx view (ms_db ms) A"
    and f: "\<And>d. no_tx view d A \<Longrightarrow> P (f d)"
    and e: "\<And>d. no_tx view d A \<Longrightarrow> P (d, no_conn)"
    and w: "with_conn env ms f = (ms', r)"
  shows "P (ms_db ms', r)"
proof (cases "me_conn env (ms_db ms)")
  case (Pair d c)
  then have "view d = view (ms_db ms)" using ok unfolding meta_env_ok_def by (metis fst_conv)
  with n have nd: "no_tx view d A" by (simp add: no_tx_def)
  show ?thesis
  proof (cases c)
    case True
    obtain d' q where q: "f d = (d', q)" by (cases "f d")
    with f [OF nd] w Pair True show ?thesis by (auto simp: with_conn_def)
  next
    case False
    with e [OF nd] w Pair show ?thesis by (auto simp: with_conn_def)
  qed
qed

lemma with_conn_res_post:
  assumes "meta_env_ok col env view" "no_tx view (ms_db ms) A" "with_conn env ms f = (ms', r)"
    and f: "\<And>d. no_tx view d A \<Longrightarrow> res_post view A Q (f d)"
  shows "res_post view A Q (ms_db ms', r)"
  by (rule with_conn_post [where P = "res_post view A Q" and f = f, OF assms(1,2) f _ assms(3)])
     (auto simp: res_post_def no_conn_def Err_def)

lemma put_object_post:
  assumes ok: "meta_env_ok col env view" and n: "no_tx view (ms_db ms) A" and u: "uniq_ok col A"
    and op: "MetaStore_PutObjectWithRefCount env now ms b k sz etag ct h = (ms', r)"
  shows "res_post view A (put_spec col b k h sz ct etag A) (ms_db ms', r)"
proof (cases "me_conn env (ms_db ms)")
  case (Pair d c)
  then have "view d = view (ms_db ms)" using ok unfolding meta_env_ok_def by (metis fst_conv)
  with n have nd: "no_tx view d A" by (simp add: no_tx_def)
  show ?thesis
  proof (cases c)
    case True
    obtain d' slow q where q: "put_object_loop env kMaxRetries 0 b k sz etag ct h d = (d', slow, q)"
      by (cases "put_object_loop env kMaxRetries 0 b k sz etag ct h d")
    have "ms_db ms' = d'" "r = q"
      using op Pair True q by (auto simp: MetaStore_PutObjectWithRefCount_def Let_def split: if_splits)
    with put_object_loop_post [OF ok u nd q] show ?thesis by simp
  next
    case False
    with op Pair nd show ?thesis
      by (auto simp: MetaStore_PutObjectWithRefCount_def res_post_def no_conn_def Err_def)
  qed
qed

lemma put_part_post:
  assumes ok: "meta_env_ok col env view" and n: "no_tx view (ms_db ms) A"
    and op: "MetaStore_PutPartWithRefCount env ms u n h sz etag = (ms', r)"
  shows "res_post view A (part_spec col u n h sz etag A) (ms_db ms', r)"
proof (rule with_conn_res_post [OF ok n op [unfolded MetaStore_PutPartWithRefCount_def]])
  fix d assume "no_tx view d A"
  then show "res_post view A (part_spec col u n h sz etag A) (put_part_loop env kMaxRetries 0 u n h sz etag d)"
    by (cases "put_part_loop env kMaxRetries 0 u n h sz etag d") (simp add: put_part_loop_post [OF ok])
qed

lemma delete_object_post:
  assumes ok: "meta_env_ok col env view" and n: "no_tx view (ms_db ms) A"
    and op: "MetaStore_DeleteObjectWithRefCount env ms b k = (ms', r)"
  shows "res_post view A (del_spec col b k A) (ms_db ms', r)"
proof -
  obtain ms1 q where w: "with_conn env ms (delete_object_tx env b k) = (ms1, q)"
    by (cases "with_conn env ms (delete_object_tx env b k)")
  have "res_post view A (del_spec col b k A) (ms_db ms1, q)"
    by (rule with_conn_res_post [OF ok n w]) (rule delete_object_tx_post [OF ok])
  moreover have "ms_db ms' = ms_db ms1" "r = q"
    using op w by (auto simp: MetaStore_DeleteObjectWithRefCount_def split: sum.splits if_splits)
  ultimately show ?thesis by simp
qed

section \<open>Statements that cannot endanger a blob\<close>

text \<open>Every statement except those that count down and those that add a reference.\<close>

fun plain_stmt :: "Stmt \<Rightarrow> bool" where
  "plain_stmt Start_transaction = False"
| "plain_stmt Commit_tx = False"
| "plain_stmt Rollback_tx = False"
| "plain_stmt (Ins_object b k h sz ct etag) = False"
| "plain_stmt (Upsert_object b k h sz ct etag) = False"
| "plain_stmt (Dec_cas h) = False"
| "plain_stmt (Upsert_part u n h sz etag) = False"
| "plain_stmt s = True"

lemma plain_data: "plain_stmt s \<Longrightarrow> data_stmt s"
  by (cases s) (auto simp: data_stmt_def)

lemma rc_safe_shrink:
  assumes "rc_safe col T" "t_cas T' = t_cas T" "t_objects T' = filter P (t_objects T)" "t_parts T' = filter Q (t_parts T)"
  shows "rc_safe col T'"
proof -
  have "refs col T' x \<le> refs col T x" for x
    using assms(3,4) by (simp add: refs_def obj_refs_def part_refs_def add_mono filter_filter
        length_filter_conv_card) (intro add_mono card_mono; auto)
  moreover have "ref_count col T' x = ref_count col T x" for x using assms(2) by (simp add: ref_count_def)
  moreover have "uniq_ok col T'"
    using assms by (auto simp: rc_safe_def uniq_ok_def intro: distinct_map_filter)
  ultimately show ?thesis using assms(1) by (auto simp: rc_safe_def intro: order_trans)
qed

lemma del_cas_safe:
  assumes "rc_safe col T" "\<not> list_ex (\<lambda>r. col_eq col (o_cas r) k) (t_objects T)"
    "\<not> list_ex (\<lambda>r. col_eq col (p_cas r) k) (t_parts T)"
  shows "rc_safe col (T\<lparr>t_cas := filter (\<lambda>r. \<not> cas_is col k r) (t_cas T)\<rparr>)" (is "rc_safe col ?T'")
proof -
  have "refs col ?T' x \<le> ref_count col ?T' x" for x
  proof (cases "col_eq col k x")
    case True
    have "obj_refs col T x = 0" "part_refs col T x = 0"
      using True assms(2,3) by (auto simp: obj_refs_def part_refs_def filter_empty_conv list_ex_iff col_eq_def)
    then show ?thesis by (simp add: refs_def obj_refs_def part_refs_def)
  next
    case False
    then have e: "(\<lambda>r. \<not> cas_is col k r \<and> cas_is col x r) = cas_is col x" by (auto simp: cas_is_def col_eq_def fun_eq_iff)
    have "ref_count col ?T' x = ref_count col T x" by (simp add: ref_count_def find_filter e)
    with assms(1) show ?thesis by (simp add: rc_safe_def refs_def obj_refs_def part_refs_def)
  qed
  moreover have "uniq_ok col ?T'" using assms(1) by (auto simp: rc_safe_def uniq_ok_def intro: distinct_map_filter)
  ultimately show ?thesis by (simp add: rc_safe_def)
qed

lemma count_up_safe:
  assumes "rc_safe col T" "uniq_ok col T'" "t_objects T' = t_objects T" "t_parts T' = t_parts T"
    "\<And>x. ref_count col T x \<le> ref_count col T' x"
  shows "rc_safe col T'"
  using assms by (auto simp: rc_safe_def refs_def obj_refs_def part_refs_def intro: order_trans)

lemma rc_safe_same:
  "rc_safe col T \<Longrightarrow> t_cas T' = t_cas T \<Longrightarrow> t_objects T' = t_objects T \<Longrightarrow> t_parts T' = t_parts T \<Longrightarrow> rc_safe col T'"
  by (simp add: rc_safe_def refs_def obj_refs_def part_refs_def ref_count_def uniq_ok_def)

lemma plain_stmt_safe:
  assumes st: "stmt_tables col now nid T s = Some (T', r)" and p: "plain_stmt s" and safe: "rc_safe col T"
  shows "rc_safe col T'"
proof (cases s)
  case (Del_bucket name)
  with st safe show ?thesis
    by (auto simp: del_bucket_def Let_def split: option.splits intro: rc_safe_shrink)
next
  case (Del_object b k)
  with st safe show ?thesis
    by (auto intro: rc_safe_shrink [where P = "\<lambda>r. \<not> obj_is col b k r" and Q = "\<lambda>_. True"])
next
  case (Del_upload u)
  with st safe show ?thesis
    by (auto intro: rc_safe_shrink [where P = "\<lambda>_. True"])
next
  case (Upsert_cas k sz)
  with st have "upsert_cas col now T k sz = Some (T', r)" by simp
  note c = upsert_cas_counts [OF this]
  show ?thesis by (rule count_up_safe [OF safe]) (use c safe in \<open>auto simp: rc_safe_def\<close>)
next
  case (Inc_cas k)
  with st have "update_cas col (\<lambda>r. r\<lparr>c_ref := c_ref r + 1, c_updated := now\<rparr>) T k = Some (T', r)" by simp
  note c = update_cas_counts [OF this]
  show ?thesis by (rule count_up_safe [OF safe]) (use c safe in \<open>auto simp: rc_safe_def\<close>)
next
  case (Del_cas k)
  with st safe show ?thesis by (auto split: if_splits intro: del_cas_safe)
next
  case (Upsert_idem k h stt body ex)
  with st safe show ?thesis by (auto simp: idem_put_def intro: rc_safe_same)
next
  case Del_idem_expired
  with st safe show ?thesis by (auto intro: rc_safe_same)
next
  case (Ins_bucket name)
  with st safe show ?thesis by (auto split: if_splits intro: rc_safe_same)
next
  case (Ins_upload u b k ct ex)
  with st safe show ?thesis by (auto split: if_splits intro: rc_safe_same)
qed (use st p safe in \<open>auto\<close>)

section \<open>The reference-counted operations\<close>

lemma obj_is_unique:
  assumes u: "uniq_ok col A" and f: "filter (obj_is col b k) (t_objects A) = r # rs"
  shows "rs = []"
proof -
  have "distinct (map (\<lambda>r. (o_bucket r, col_weight col (col_prefix col (o_key r)))) (r # rs))"
    unfolding f [symmetric] using u by (auto simp: uniq_ok_def intro: distinct_map_filter)
  moreover have "obj_is col b k y" if "y \<in> set (r # rs)" for y using that unfolding f [symmetric] by simp
  then have "(o_bucket y, col_weight col (col_prefix col (o_key y))) = (b, col_weight col (col_prefix col k))"
    if "y \<in> set (r # rs)" for y
    using that obj_is_clash [OF u] by (force simp: obj_clash_def col_uniq_def col_eq_def)
  ultimately show ?thesis by (cases rs) auto
qed

lemma del_row_counts:
  assumes u: "uniq_ok col A" and f: "filter (obj_is col b k) (t_objects A) = r # rs"
    and T1: "T1 = A\<lparr>t_objects := filter (\<lambda>r. \<not> obj_is col b k r) (t_objects A)\<rparr>"
  shows "refs col T1 x + hit col (o_cas r) x = refs col A x" "uniq_ok col T1" "ref_count col T1 x = ref_count col A x"
proof -
  have split: "length (filter P xs) = length (filter P (filter Q xs)) + length (filter P (filter (\<lambda>r. \<not> Q r) xs))" for P Q and xs :: "ObjRow list"
    by (induction xs) auto
  have "filter (obj_is col b k) (t_objects A) = [r]" using obj_is_unique [OF u f] f by simp
  with split [of "\<lambda>r. col_eq col (o_cas r) x" "t_objects A" "obj_is col b k"]
  show "refs col T1 x + hit col (o_cas r) x = refs col A x"
    by (auto simp: T1 refs_def obj_refs_def part_refs_def hit_def)
  show "uniq_ok col T1" using u T1 by (auto simp: uniq_ok_def intro: distinct_map_filter)
  show "ref_count col T1 x = ref_count col A x" by (simp add: T1 ref_count_def)
qed

lemma no_cas_count: "\<not> has_cas col T k \<Longrightarrow> ref_count col T k = 0"
  using find_None_ex by (metis has_cas_def option.simps(4) ref_count_def)

lemma dec_counts:
  assumes "update_cas col (\<lambda>r. r\<lparr>c_ref := c_ref r - 1, c_updated := now\<rparr>) T h = Some (T', r)"
  shows "ref_count col T' x = ref_count col T x - hit col h x"
  using update_cas_counts(1) [OF assms, of x] no_cas_count [of col T h] ref_count_cong [of col h x T]
  by (auto simp: hit_def split: if_splits)

lemma del_spec_counts:
  assumes u: "uniq_ok col A" and s: "del_spec col b k A gc T"
  obtains r where "filter (obj_is col b k) (t_objects A) = [r]" "uniq_ok col T"
    "t_objects T = filter (\<lambda>r. \<not> obj_is col b k r) (t_objects A)"
    "\<And>x. refs col T x + hit col (o_cas r) x = refs col A x"
    "\<And>x. ref_count col T x = ref_count col A x - (if o_cas r = [] then 0 else hit col (o_cas r) x)"
proof -
  from s obtain r rs T1 where f: "filter (obj_is col b k) (t_objects A) = r # rs"
    and T1: "T1 = A\<lparr>t_objects := filter (\<lambda>r. \<not> obj_is col b k r) (t_objects A)\<rparr>"
    and T': "if o_cas r = [] then T = T1 \<and> gc = None
      else (\<exists>now q. update_cas col (\<lambda>r. r\<lparr>c_ref := c_ref r - 1, c_updated := now\<rparr>) T1 (o_cas r) = Some (T, q)) \<and>
        gc = (if has_cas col T (o_cas r) \<and> ref_count col T (o_cas r) = 0 then Some (o_cas r) else None)"
    unfolding del_spec_def by blast
  then have T: "if o_cas r = [] then T = T1 else \<exists>now q. update_cas col (\<lambda>r. r\<lparr>c_ref := c_ref r - 1, c_updated := now\<rparr>) T1 (o_cas r) = Some (T, q)"
    by (simp split: if_splits)
  note d = del_row_counts [OF u f T1]
  have 1: "filter (obj_is col b k) (t_objects A) = [r]" using obj_is_unique [OF u f] f by simp
  show ?thesis
  proof (cases "o_cas r = []")
    case True
    with T have "T = T1" by simp
    with d 1 T1 True show ?thesis by (intro that [of r]) auto
  next
    case False
    with T obtain now q where up: "update_cas col (\<lambda>r. r\<lparr>c_ref := c_ref r - 1, c_updated := now\<rparr>) T1 (o_cas r) = Some (T, q)"
      by auto
    note c = update_cas_counts [OF up]
    show ?thesis
    proof (rule that [OF 1])
      show "uniq_ok col T" using c(6) d(2) .
      show "t_objects T = filter (\<lambda>r. \<not> obj_is col b k r) (t_objects A)" using c(2) T1 by simp
      show "refs col T x + hit col (o_cas r) x = refs col A x" for x
        using d(1) [of x] c(2,3) by (simp add: refs_def obj_refs_def part_refs_def)
      show "ref_count col T x = ref_count col A x - (if o_cas r = [] then 0 else hit col (o_cas r) x)" for x
        using dec_counts [OF up] d(3) False by simp
    qed
  qed
qed

lemma put_spec_safe: "rc_safe col A \<Longrightarrow> put_spec col b k h sz ct etag A gc T \<Longrightarrow> rc_safe col T"
  unfolding put_spec_def using objs.swap_safe by blast

lemma part_spec_safe: "rc_safe col A \<Longrightarrow> part_spec col u n h sz etag A gc T \<Longrightarrow> rc_safe col T"
  unfolding part_spec_def using parts.swap_safe by blast

lemma del_spec_safe:
  assumes safe: "rc_safe col A" and s: "del_spec col b k A gc T"
  shows "rc_safe col T"
proof -
  have u: "uniq_ok col A" and le: "\<And>x. refs col A x \<le> ref_count col A x" using safe by (auto simp: rc_safe_def)
  obtain r where "filter (obj_is col b k) (t_objects A) = [r]" and uT: "uniq_ok col T"
    and "t_objects T = filter (\<lambda>r. \<not> obj_is col b k r) (t_objects A)" and r: "\<And>x. refs col T x + hit col (o_cas r) x = refs col A x"
    and c: "\<And>x. ref_count col T x = ref_count col A x - (if o_cas r = [] then 0 else hit col (o_cas r) x)"
    by (rule del_spec_counts [OF u s]) (rule that)
  have "refs col T x \<le> ref_count col T x" for x
    using r [of x] c [of x] le [of x] by (auto split: if_splits)
  with uT show ?thesis by (simp add: rc_safe_def)
qed

text \<open>The candidate for collection has the count 0, so nothing refers to it.\<close>

lemma put_spec_gc:
  assumes u: "uniq_ok col A" and s: "put_spec col b k h sz ct etag A (Some c) T"
  shows "ref_count col T c = 0 \<and> c \<noteq> h"
proof -
  from s obtain T2 where sw: "counted_table.swap col (obj_sel col b k) (obj_wr col b k) h sz A T2 T"
    and g: "Some c = counted_table.gc_spec col (obj_sel col b k) h A T2" unfolding put_spec_def by blast
  from g have "ref_count col T2 c = 0" "c \<noteq> h" by (auto simp: objs.gc_spec_def split: if_splits)
  with objs.swap_counts(4) [OF u sw, of c] show ?thesis by simp
qed

lemma part_spec_gc:
  assumes v: "uniq_ok col A" and s: "part_spec col u n h sz etag A (Some c) T"
  shows "ref_count col T c = 0 \<and> c \<noteq> h"
proof -
  from s obtain T2 where sw: "counted_table.swap col (part_sel col u n) (part_wr col u n) h sz A T2 T"
    and g: "Some c = counted_table.gc_spec col (part_sel col u n) h A T2" unfolding part_spec_def by blast
  from g have "ref_count col T2 c = 0" "c \<noteq> h" by (auto simp: parts.gc_spec_def split: if_splits)
  with parts.swap_counts(4) [OF v sw, of c] show ?thesis by simp
qed

lemma del_spec_gc: "del_spec col b k A (Some c) T \<Longrightarrow> ref_count col T c = 0"
  by (auto simp: del_spec_def split: if_splits)

section \<open>Reference counts in every run\<close>

text \<open>One step of the metadata store: any operation, with any arguments and any outcome of the
  database. The five raw operations that only count down or only write a row are left out.\<close>

inductive meta_step :: "('d, 'r) MetaEnv \<Rightarrow> ('d, 'r) MetaStore \<Rightarrow> ('d, 'r) MetaStore \<Rightarrow> bool" for env where
  CreateBucket: "MetaStore_CreateBucket env now ms name owner region acl = (ms', q1) \<Longrightarrow> meta_step env ms ms'"
| GetBucket: "MetaStore_GetBucket env ms name = (ms', q2) \<Longrightarrow> meta_step env ms ms'"
| GetBucketById: "MetaStore_GetBucketById env ms b = (ms', q3) \<Longrightarrow> meta_step env ms ms'"
| ListBuckets: "MetaStore_ListBuckets env ms owner = (ms', q4) \<Longrightarrow> meta_step env ms ms'"
| DeleteBucket: "MetaStore_DeleteBucket env ms name = (ms', q5) \<Longrightarrow> meta_step env ms ms'"
| IsBucketEmpty: "MetaStore_IsBucketEmpty env ms b = (ms', q6) \<Longrightarrow> meta_step env ms ms'"
| PutObjectWithRefCount:
    "MetaStore_PutObjectWithRefCount env now ms b k sz etag ct h = (ms', q7) \<Longrightarrow> meta_step env ms ms'"
| GetObject: "MetaStore_GetObject env now ms b k = (ms', q8) \<Longrightarrow> meta_step env ms ms'"
| ListObjects: "MetaStore_ListObjects env ms b pre delim after maxk = (ms', q9) \<Longrightarrow> meta_step env ms ms'"
| DeleteObject: "MetaStore_DeleteObject env ms b k = (ms', q10) \<Longrightarrow> meta_step env ms ms'"
| DeleteObjectWithRefCount: "MetaStore_DeleteObjectWithRefCount env ms b k = (ms', q11) \<Longrightarrow> meta_step env ms ms'"
| RegisterCasBlob: "MetaStore_RegisterCasBlob env ms h sz = (ms', q12) \<Longrightarrow> meta_step env ms ms'"
| GetCasBlob: "MetaStore_GetCasBlob env ms h = (ms', q13) \<Longrightarrow> meta_step env ms ms'"
| IncrementRefCount: "MetaStore_IncrementRefCount env ms h = (ms', q14) \<Longrightarrow> meta_step env ms ms'"
| GetGarbageBlobs: "MetaStore_GetGarbageBlobs env ms age lim = (ms', q15) \<Longrightarrow> meta_step env ms ms'"
| DeleteCasBlob: "MetaStore_DeleteCasBlob env ms h = (ms', q16) \<Longrightarrow> meta_step env ms ms'"
| CanDeleteCasBlob: "MetaStore_CanDeleteCasBlob env ms h = (ms', q17) \<Longrightarrow> meta_step env ms ms'"
| CreateMultipartUpload:
    "MetaStore_CreateMultipartUpload env ms u b k ct owner ex = (ms', q18) \<Longrightarrow> meta_step env ms ms'"
| GetMultipartUpload: "MetaStore_GetMultipartUpload env ms u = (ms', q19) \<Longrightarrow> meta_step env ms ms'"
| DeleteMultipartUpload: "MetaStore_DeleteMultipartUpload env ms u = (ms', q20) \<Longrightarrow> meta_step env ms ms'"
| ListMultipartUploads: "MetaStore_ListMultipartUploads env ms b pre lim = (ms', q21) \<Longrightarrow> meta_step env ms ms'"
| PutPartWithRefCount: "MetaStore_PutPartWithRefCount env ms u n h sz etag = (ms', q22) \<Longrightarrow> meta_step env ms ms'"
| ListParts: "MetaStore_ListParts env ms u marker maxp = (ms', q23) \<Longrightarrow> meta_step env ms ms'"
| CheckIdempotency: "MetaStore_CheckIdempotency env now ms ik = (ms', q24) \<Longrightarrow> meta_step env ms ms'"
| RecordIdempotency:
    "MetaStore_RecordIdempotency env now ms ik rh st body ttl = (ms', q25) \<Longrightarrow> meta_step env ms ms'"
| CleanupIdempotencyRecords: "MetaStore_CleanupIdempotencyRecords env ms = (ms', q26) \<Longrightarrow> meta_step env ms ms'"

definition meta_inv :: "Collation \<Rightarrow> ('d \<Rightarrow> DbState) \<Rightarrow> ('d, 'r) MetaStore \<Rightarrow> bool" where
  "meta_inv col view ms \<longleftrightarrow> (\<exists>T. no_tx view (ms_db ms) T \<and> rc_safe col T)"

text \<open>A property of the tables outside transactions; the operations that run one statement keep every
  property that the statement keeps, whatever they do with its result.\<close>

definition holds :: "('d \<Rightarrow> DbState) \<Rightarrow> (Tables \<Rightarrow> bool) \<Rightarrow> ('d, 'r) MetaStore \<Rightarrow> bool" where
  "holds view J ms \<longleftrightarrow> (\<exists>T. no_tx view (ms_db ms) T \<and> J T)"

lemma meta_inv_holds: "meta_inv col view = holds view (rc_safe col)"
  by (intro ext) (simp add: meta_inv_def holds_def)

lemma holds_db: "ms_db ms' = ms_db ms \<Longrightarrow> holds view J ms' = holds view J ms"
  by (simp add: holds_def)

lemma plain_op_holds:
  assumes ok: "meta_env_ok col env view" and inv: "holds view J ms" and p: "data_stmt s"
    and J: "\<And>now nid T T' r. stmt_tables col now nid T s = Some (T', r) \<Longrightarrow> J T \<Longrightarrow> J T'"
    and k: "\<And>r d. fst (k r d) = d" and w: "with_conn env ms (sql_then env s k) = (ms', q)"
  shows "holds view J ms'"
proof -
  from inv obtain A where n: "no_tx view (ms_db ms) A" and safe: "J A" by (auto simp: holds_def)
  let ?P = "\<lambda>x :: 'a \<times> 'c Result. \<exists>T. no_tx view (fst x) T \<and> J T"
  have "?P (ms_db ms', q)"
  proof (rule with_conn_post [where P = ?P, OF ok n _ _ w])
    fix d assume nd: "no_tx view d A"
    show "?P (sql_then env s k d)"
    proof (rule sql_then_post [where P = ?P, OF ok nd p])
      fix now nid T r d' assume "stmt_tables col now nid A s = Some (T, r)" "no_tx view d' T"
      then show "?P (k r d')" using k J [OF _ safe] by auto
    qed (use safe in auto)
  qed (use safe in auto)
  then show ?thesis by (simp add: holds_def)
qed

lemma plain_then_holds:
  assumes ok: "meta_env_ok col env view" and inv: "holds view J ms" and p: "data_stmt s"
    and J: "\<And>now nid T T' r. stmt_tables col now nid T s = Some (T', r) \<Longrightarrow> J T \<Longrightarrow> J T'"
    and k: "\<And>r d. fst (k r d) = d"
    and op: "(case with_conn env ms (sql_then env s k) of (ms, Inl e) \<Rightarrow> (ms, Inl e) | (ms, Inr v) \<Rightarrow> (f ms v, Inr (g v))) = (ms', q)"
    and f: "\<And>ms v. ms_db (f ms v) = ms_db ms"
  shows "holds view J ms'"
proof -
  obtain ms1 q1 where w: "with_conn env ms (sql_then env s k) = (ms1, q1)" by (cases "with_conn env ms (sql_then env s k)")
  have "ms_db ms' = ms_db ms1" using op w f by (auto split: sum.splits)
  moreover have "holds view J ms1" by (rule plain_op_holds [OF ok inv p _ k w]) (erule (1) J)
  ultimately show ?thesis using holds_db by blast
qed

lemma plain_op_inv:
  assumes "meta_env_ok col env view" "meta_inv col view ms" "plain_stmt s"
    and "\<And>r d. fst (k r d) = d" "with_conn env ms (sql_then env s k) = (ms', q)"
  shows "meta_inv col view ms'"
  using plain_op_holds [OF assms(1) _ plain_data [OF assms(3)] _ assms(4,5), of "rc_safe col"] assms(2)
    plain_stmt_safe [OF _ assms(3)] by (simp add: meta_inv_holds)

lemma res_post_inv:
  assumes "res_post view A Q (ms_db ms', r)" "rc_safe col A" "\<And>v T. Q v T \<Longrightarrow> rc_safe col T"
  shows "meta_inv col view ms'"
  using assms by (auto simp: res_post_def meta_inv_def split: sum.splits)

lemma can_delete_tx_post:
  assumes ok: "meta_env_ok col env view" and n: "no_tx view d A"
  shows "res_post view A (\<lambda>v T. T = A \<and>
    (v \<longleftrightarrow> has_cas col A h \<and> ref_count col A h = 0 \<and> obj_refs col A h = 0 \<and> part_refs col A h = 0)) (can_delete_tx env h d)"
    (is "res_post view A ?Q _")
  unfolding can_delete_tx_def
proof (rule tx1_then_post [OF ok tx_new [OF ok n]])
  fix now nid W r d1
  assume st: "stmt_tables col now nid A (Sel_ref h) = Some (W, r)" and i: "in_tx view d1 A W"
  have W: "W = A" and r: "r = rows (map (\<lambda>r. Row_int (int (c_ref r))) (take 1 (filter (cas_is col h) (t_cas A))))"
    using st by auto
  show "res_post view A ?Q ((case sr_rows r of
         Row_int c # _ \<Rightarrow>
           (if c \<noteq> 0 then tx1_commit env False
            else tx1_then env (Cnt_objects_cas h) (\<lambda>q.
              if row_int q > 0 then tx1_commit env False
              else tx1_then env (Cnt_parts_cas h) (\<lambda>p. tx1_commit env (row_int p = 0))))
       | _ \<Rightarrow> tx1_commit env False) d1)"
  proof (cases "filter (cas_is col h) (t_cas A)")
    case Nil
    then have "\<not> has_cas col A h" by (auto simp: has_cas_def list_ex_iff filter_empty_conv)
    with r Nil W tx1_commit_post [OF ok i, of ?Q False] show ?thesis by (simp add: rows_def)
  next
    case (Cons c cs)
    have rc: "ref_count col A h = c_ref c" using Cons by (simp add: ref_count_def find_filter)
    have "c \<in> set (filter (cas_is col h) (t_cas A))" using Cons by simp
    then have has: "has_cas col A h" by (auto simp: has_cas_def list_ex_iff)
    show ?thesis
    proof (cases "c_ref c = 0")
      case False
      with r Cons W rc tx1_commit_post [OF ok i, of ?Q False] show ?thesis by (simp add: rows_def)
    next
      case True
      have "res_post view A ?Q (tx1_then env (Cnt_objects_cas h) (\<lambda>q.
          if row_int q > 0 then tx1_commit env False
          else tx1_then env (Cnt_parts_cas h) (\<lambda>p. tx1_commit env (row_int p = 0))) d1)"
      proof (rule tx1_then_post [OF ok i])
        fix now2 nid2 W2 q d2
        assume "stmt_tables col now2 nid2 W (Cnt_objects_cas h) = Some (W2, q)" and i2: "in_tx view d2 A W2"
        then have W2: "W2 = A" and q: "row_int q = int (obj_refs col A h)"
          using W by (auto simp: row_int_def rows_def obj_refs_def)
        have "res_post view A ?Q (tx1_then env (Cnt_parts_cas h) (\<lambda>p. tx1_commit env (row_int p = 0)) d2)"
          if "obj_refs col A h = 0"
        proof (rule tx1_then_post [OF ok i2])
          fix now3 nid3 W3 p d3
          assume "stmt_tables col now3 nid3 W2 (Cnt_parts_cas h) = Some (W3, p)" and i3: "in_tx view d3 A W3"
          then have "W3 = A" "row_int p = int (part_refs col A h)"
            using W2 by (auto simp: row_int_def rows_def part_refs_def)
          then show "res_post view A ?Q (tx1_commit env (row_int p = 0) d3)"
            using True that rc has by (intro tx1_commit_post [OF ok i3]) simp
        qed simp
        moreover have "res_post view A ?Q (tx1_commit env False d2)" if "0 < obj_refs col A h"
          using W2 that by (intro tx1_commit_post [OF ok i2]) simp
        ultimately show "res_post view A ?Q ((if row_int q > 0 then tx1_commit env False
          else tx1_then env (Cnt_parts_cas h) (\<lambda>p. tx1_commit env (row_int p = 0))) d2)"
          using q by simp
      qed simp
      with r Cons True show ?thesis by (simp add: rows_def)
    qed
  qed
qed simp

lemma can_delete_post:
  assumes ok: "meta_env_ok col env view" and n: "no_tx view (ms_db ms) A"
    and op: "MetaStore_CanDeleteCasBlob env ms h = (ms', r)"
  shows "res_post view A (\<lambda>v T. T = A \<and>
    (v \<longleftrightarrow> has_cas col A h \<and> ref_count col A h = 0 \<and> obj_refs col A h = 0 \<and> part_refs col A h = 0)) (ms_db ms', r)"
  by (rule with_conn_res_post [OF ok n op [unfolded MetaStore_CanDeleteCasBlob_def]]) (rule can_delete_tx_post [OF ok])

text \<open>The operations that keep something besides the database state.\<close>

lemma plain_then_inv:
  assumes "meta_env_ok col env view" "meta_inv col view ms" "plain_stmt s" "\<And>r d. fst (k r d) = d"
    and "(case with_conn env ms (sql_then env s k) of (ms, Inl e) \<Rightarrow> (ms, Inl e) | (ms, Inr v) \<Rightarrow> (f ms v, Inr (g v))) = (ms', q)"
    and "\<And>ms v. ms_db (f ms v) = ms_db ms"
  shows "meta_inv col view ms'"
  using plain_then_holds [OF assms(1) _ plain_data [OF assms(3)] _ assms(4,5,6), of "rc_safe col"] assms(2)
    plain_stmt_safe [OF _ assms(3)] by (simp add: meta_inv_holds)

lemma create_bucket_holds:
  assumes ok: "meta_env_ok col env view" and inv: "holds view J ms"
    and J: "\<And>now nid T T' r. stmt_tables col now nid T (Ins_bucket name) = Some (T', r) \<Longrightarrow> J T \<Longrightarrow> J T'"
    and op: "MetaStore_CreateBucket env now ms name owner region acl = (ms', q)"
  shows "holds view J ms'"
proof -
  let ?k = "\<lambda>r d. (d, Inr ()) :: 'a \<times> unit Result"
  obtain ms1 q1 where w: "with_conn env ms (sql_then env (Ins_bucket name) ?k) = (ms1, q1)"
    by (cases "with_conn env ms (sql_then env (Ins_bucket name) ?k)")
  have "ms_db ms' = ms_db ms1"
    using op w by (auto simp: MetaStore_CreateBucket_def with_conn_def sql_then_def Let_def
        split: prod.splits bool.splits SqlOut.splits)
  moreover have "holds view J ms1"
    by (rule plain_op_holds [OF ok inv _ _ _ w]) (simp add: data_stmt_def, erule (1) J, simp)
  ultimately show ?thesis using holds_db by blast
qed

lemma get_object_db_holds:
  assumes ok: "meta_env_ok col env view" and inv: "holds view J ms" and op: "get_object_db env ms b k = (ms', q)"
  shows "holds view J ms'"
  by (rule plain_then_holds [OF ok inv _ _ _ op [unfolded get_object_db_def]]) (auto simp: data_stmt_def)

lemma get_object_holds:
  assumes ok: "meta_env_ok col env view" and inv: "holds view J ms"
    and op: "MetaStore_GetObject env now ms b k = (ms', q)"
  shows "holds view J ms'"
proof -
  have db: "holds view J ms'" if "get_object_db env ms1 b k = (ms', q)" "ms_db ms1 = ms_db ms" for ms1
    using get_object_db_holds [OF ok _ that(1)] inv that(2) holds_db by blast
  show ?thesis
  proof (cases "me_redis_on env")
    case False
    with op db [of ms] show ?thesis by (simp add: MetaStore_GetObject_def)
  next
    case True
    with op obtain r x where "me_redis_get env (ms_redis ms) (ObjectMetaCacheKey env b k) = (r, x)"
      by (cases "me_redis_get env (ms_redis ms) (ObjectMetaCacheKey env b k)")
    with True op db inv show ?thesis
      by (auto simp: MetaStore_GetObject_def Let_def holds_db [of "ms\<lparr>ms_redis := _\<rparr>" ms]
          split: sum.splits option.splits)
  qed
qed

lemma get_bucket_holds:
  assumes ok: "meta_env_ok col env view" and inv: "holds view J ms"
    and op: "MetaStore_GetBucket env ms name = (ms', q)"
  shows "holds view J ms'"
proof (cases "ms_bucket_cache ms name")
  case None
  with op have "(case with_conn env ms (sql_then env (Sel_bucket_name name) (\<lambda>r d.
      (d, case sr_rows r of Row_bucket row # _ \<Rightarrow> Inr (bucket_of_row env row)
        | _ \<Rightarrow> Err NoSuchBucket ''Bucket not found''))) of
      (ms, Inl e) \<Rightarrow> (ms, Inl e)
    | (ms, Inr info) \<Rightarrow> (ms\<lparr>ms_bucket_cache := (ms_bucket_cache ms)(bi_name info \<mapsto> info)\<rparr>, Inr info)) = (ms', q)"
    by (simp add: MetaStore_GetBucket_def)
  then show ?thesis by (rule plain_then_holds [OF ok inv, rotated 3]) (auto simp: data_stmt_def)
next
  case (Some info)
  with op inv show ?thesis by (simp add: MetaStore_GetBucket_def)
qed

lemmas create_bucket_inv = create_bucket_holds [where J = "rc_safe col" for col, folded meta_inv_holds]
lemmas get_object_inv = get_object_holds [where J = "rc_safe col" for col, folded meta_inv_holds]
lemmas get_bucket_inv = get_bucket_holds [where J = "rc_safe col" for col, folded meta_inv_holds]

lemmas plain_op_defs = MetaStore_GetBucketById_def MetaStore_IsBucketEmpty_def MetaStore_ListObjects_def
  MetaStore_DeleteObject_def MetaStore_RegisterCasBlob_def MetaStore_GetCasBlob_def MetaStore_IncrementRefCount_def
  MetaStore_GetGarbageBlobs_def MetaStore_DeleteCasBlob_def MetaStore_CreateMultipartUpload_def
  MetaStore_GetMultipartUpload_def MetaStore_DeleteMultipartUpload_def MetaStore_ListMultipartUploads_def
  MetaStore_ListParts_def MetaStore_CheckIdempotency_def MetaStore_RecordIdempotency_def
  MetaStore_CleanupIdempotencyRecords_def

lemma meta_step_inv:
  assumes ok: "meta_env_ok col env view" and st: "meta_step env ms ms'" and inv: "meta_inv col view ms"
  shows "meta_inv col view ms'"
proof -
  from inv obtain A where n: "no_tx view (ms_db ms) A" and safe: "rc_safe col A" by (auto simp: meta_inv_def)
  then have u: "uniq_ok col A" by (simp add: rc_safe_def)
  note plain = plain_op_inv [OF ok inv, rotated 2]
  from st show ?thesis
  proof cases
    case (CreateBucket now name owner region acl q1)
    show ?thesis by (rule create_bucket_inv [OF ok inv _ CreateBucket]) (erule plain_stmt_safe, simp_all)
  next
    case (GetBucket name q2)
    then show ?thesis by (rule get_bucket_inv [OF ok inv])
  next
    case (ListBuckets owner q4)
    then show ?thesis unfolding MetaStore_ListBuckets_def by (rule plain_then_inv [OF ok inv, rotated 2]) simp_all
  next
    case (DeleteBucket name q5)
    then show ?thesis unfolding MetaStore_DeleteBucket_def by (rule plain_then_inv [OF ok inv, rotated 2]) simp_all
  next
    case (PutObjectWithRefCount now b k sz etag ct h q7)
    show ?thesis
      by (rule res_post_inv [OF put_object_post [OF ok n u PutObjectWithRefCount] safe]) (rule put_spec_safe [OF safe])
  next
    case (GetObject now b k q8)
    then show ?thesis by (rule get_object_inv [OF ok inv])
  next
    case (DeleteObjectWithRefCount b k q11)
    show ?thesis
      by (rule res_post_inv [OF delete_object_post [OF ok n DeleteObjectWithRefCount] safe]) (rule del_spec_safe [OF safe])
  next
    case (CanDeleteCasBlob h q17)
    show ?thesis by (rule res_post_inv [OF can_delete_post [OF ok n CanDeleteCasBlob] safe]) (use safe in simp)
  next
    case (PutPartWithRefCount u n h sz etag q22)
    then show ?thesis
      by (intro res_post_inv [OF put_part_post [OF ok \<open>no_tx view (ms_db ms) A\<close> PutPartWithRefCount] safe])
         (rule part_spec_safe [OF safe])
  qed (unfold plain_op_defs, (erule plain; simp)+)
qed

interpretation meta_sys: step_invariant "\<lambda>ms. meta_inv col view ms" "\<lambda>ms ms'. meta_env_ok col env view \<and> meta_step env ms ms'"
    "\<lambda>ms. meta_inv col view ms" for col view and env :: "('d, 'r) MetaEnv"
  by unfold_locales (auto intro: meta_step_inv)

end
