(* ===== verification/Mem_Engine.thy ===== *)
theory Mem_Engine
  imports Meta_Props
begin

text \<open>
  A concrete database: the statements' documented effects run in memory, with a script of failures.
  It satisfies the hypotheses that \<open>Meta_Store\<close> makes of MySQL, so the theorems about the operations
  apply to it and can be evaluated.
\<close>

record Mem =
  mem_db :: DbState
  mem_next :: int
  mem_now :: int
  mem_faults :: "string option list"

definition bin_col :: Collation where
  "bin_col = \<lparr>col_weight = map of_char, col_prefix = take 255,
     col_like = (\<lambda>p s. take (length p - 1) s = take (length p - 1) p)\<rparr>"

definition mem_run :: "Collation \<Rightarrow> Mem \<Rightarrow> Stmt \<Rightarrow> Mem \<times> SqlOut" where
  "mem_run col m s =
     (case stmt_effect col (mem_now m) (mem_next m) (mem_db m) s of
        Some (D, r) \<Rightarrow> (m\<lparr>mem_db := D, mem_next := mem_next m + 1\<rparr>, Sql_ok r)
      | None \<Rightarrow> (m, Sql_err ''Duplicate entry''))"

definition mem_sql :: "Collation \<Rightarrow> Mem \<Rightarrow> Stmt \<Rightarrow> Mem \<times> SqlOut" where
  "mem_sql col m s =
     (case mem_faults m of
        [] \<Rightarrow> mem_run col m s
      | None # fs \<Rightarrow> mem_run col (m\<lparr>mem_faults := fs\<rparr>) s
      | Some e # fs \<Rightarrow>
          if s = Start_transaction then mem_run col (m\<lparr>mem_faults := fs\<rparr>) s
          else (m\<lparr>mem_faults := fs,
                  mem_db := (if s = Commit_tx \<or> s = Rollback_tx then (mem_db m)\<lparr>db_tx := None\<rparr> else mem_db m)\<rparr>,
                Sql_err e))"

definition mem_env :: "Collation \<Rightarrow> (Mem, unit) MetaEnv" where
  "mem_env col = \<lparr>me_conn = (\<lambda>d. (d, True)), me_sql = mem_sql col, me_redis_on = False,
     me_redis_get = (\<lambda>r _. (r, Inr None)), me_redis_setex = (\<lambda>r _ _ _. (r, Status_OK)),
     me_redis_del = (\<lambda>r _. (r, Status_OK)), me_redis_ttl = 60, me_dump = (\<lambda>_. ''''),
     me_parse = (\<lambda>_. None), me_sha = (\<lambda>_. []), me_tz = 0\<rparr>"

definition mem_store :: "Tables \<Rightarrow> string option list \<Rightarrow> (Mem, unit) MetaStore" where
  "mem_store T fs = \<lparr>ms_db = \<lparr>mem_db = \<lparr>db_tables = T, db_tx = None\<rparr>, mem_next = 1, mem_now = 0, mem_faults = fs\<rparr>,
     ms_bucket_cache = Map.empty, ms_redis = ()\<rparr>"

definition no_tables :: Tables where
  "no_tables = \<lparr>t_buckets = [], t_cas = [], t_objects = [], t_uploads = [], t_parts = [], t_idem = []\<rparr>"

definition one_bucket :: Tables where
  "one_bucket = no_tables\<lparr>t_buckets := [\<lparr>b_id = 7, b_name = ''b'', b_created = 0\<rparr>]\<rparr>"

lemma bin_col_ok [simp]: "col_ok bin_col"
proof -
  have "inj (map of_char :: string \<Rightarrow> nat list)" by (simp add: inj_of_char)
  then show ?thesis by (auto simp: col_ok_def col_uniq_def col_eq_def bin_col_def dest: injD)
qed

lemma mem_run_cases:
  assumes "mem_run col m s = (m', out)"
  shows "case out of Sql_ok r \<Rightarrow> stmt_effect col (mem_now m) (mem_next m) (mem_db m) s = Some (mem_db m', r)
    | Sql_err e \<Rightarrow> mem_db m' = mem_db m \<and> s \<noteq> Commit_tx \<and> s \<noteq> Rollback_tx \<and> s \<noteq> Start_transaction"
  using assms by (auto simp: mem_run_def stmt_effect_def split: option.splits)

lemma mem_conforms: "sql_conforms col (mem_sql col) mem_db"
  unfolding sql_conforms_def
proof (intro allI impI)
  fix m s m' out assume q: "mem_sql col m s = (m', out)"
  let ?C = "case out of Sql_ok r \<Rightarrow> \<exists>now nid. stmt_effect col now nid (mem_db m) s = Some (mem_db m', r)
    | Sql_err e \<Rightarrow> mem_db m' = (mem_db m)\<lparr>db_tx := None\<rparr> \<or> mem_db m' = mem_db m \<and> s \<noteq> Commit_tx \<and> s \<noteq> Rollback_tx"
  have run: ?C if "mem_run col m1 s = (m', out)" "mem_db m1 = mem_db m" for m1
    using mem_run_cases [OF that(1)] that(2) by (auto split: SqlOut.splits)
  show ?C
  proof (cases "mem_faults m")
    case Nil
    with q run [of m] show ?thesis by (simp add: mem_sql_def)
  next
    case (Cons f fs)
    with q run [of "m\<lparr>mem_faults := fs\<rparr>"] show ?thesis
      by (cases f) (auto simp: mem_sql_def split: if_splits)
  qed
qed

lemma mem_start: "\<exists>d' r. mem_sql col d Start_transaction = (d', Sql_ok r)"
  by (simp add: mem_sql_def mem_run_def stmt_effect_def split: list.splits option.splits)

lemma mem_env_ok [simp]: "meta_env_ok col (mem_env col) mem_db"
  using mem_conforms mem_start by (simp add: meta_env_ok_def mem_env_def)

lemma mem_store_no_tx [simp]: "no_tx mem_db (ms_db (mem_store T fs)) T"
  by (simp add: no_tx_def mem_store_def)

lemma no_tables_safe [simp]: "rc_safe bin_col no_tables" "rc_safe bin_col one_bucket"
  by (simp_all add: rc_safe_def uniq_ok_def refs_def obj_refs_def part_refs_def ref_count_def no_tables_def one_bucket_def)

end
