(* ===== verification/Meta_Theorems.thy ===== *)
theory Meta_Theorems
  imports Mem_Engine
begin

text \<open>The theorems about the metadata store, with witnesses on the in-memory database.\<close>

section \<open>Rows after an upsert\<close>

definition no_alias :: "Collation \<Rightarrow> int \<Rightarrow> string \<Rightarrow> Tables \<Rightarrow> bool" where
  "no_alias col b k T \<longleftrightarrow> list_all (\<lambda>r. obj_clash col b k r \<longrightarrow> obj_is col b k r) (t_objects T)"

lemma filter_map_first:
  assumes "\<And>r. P r \<Longrightarrow> \<not> Q r \<and> \<not> Q (f r)"
  shows "filter Q (map_first P f xs) = filter Q xs"
  using assms by (induction xs) auto

lemma filter_other:
  assumes "\<not> (b' = b \<and> col_uniq col k' k)" "col_ok col" "obj_clash col b k r"
  shows "\<not> obj_is col b' k' r"
proof
  assume "obj_is col b' k' r"
  then have "o_bucket r = b'" "col_uniq col (o_key r) k'" using assms(2) by (simp_all add: obj_is_def col_ok_def)
  with assms(1,3) show False by (simp add: obj_clash_def col_uniq_def col_eq_def)
qed

lemma upsert_object_rows:
  assumes up: "upsert_object col now nid T b k h sz ct etag = Some (T', q)" and u: "uniq_ok col T" and al: "no_alias col b k T"
  shows "\<exists>row. filter (obj_is col b k) (t_objects T') = [row] \<and> o_bucket row = b \<and> o_cas row = h \<and> o_size row = sz \<and>
    o_ct row = ct \<and> o_etag row = etag \<and> col_eq col (o_key row) k"
proof -
  let ?P = "obj_clash col b k" and ?f = "\<lambda>r. r\<lparr>o_cas := h, o_size := sz, o_ct := ct, o_etag := etag\<rparr>"
  have u': "uniq_ok col T'" using upsert_object_counts(6) [OF up u] .
  have "\<exists>row. row \<in> set (t_objects T') \<and> obj_is col b k row \<and> o_cas row = h \<and> o_size row = sz \<and> o_ct row = ct \<and> o_etag row = etag"
  proof (cases "List.find ?P (t_objects T)")
    case None
    with up show ?thesis
      by (auto simp: upsert_object_def ins_object_def new_object_def obj_is_def split: if_splits)
  next
    case (Some o1)
    from find_map_first [OF Some, of ?f] obtain as bs where
      xs: "t_objects T = as @ o1 # bs" "?P o1" "map_first ?P ?f (t_objects T) = as @ ?f o1 # bs" by blast
    with al have "obj_is col b k o1" by (simp add: no_alias_def)
    with xs Some up show ?thesis
      by (intro exI [of _ "?f o1"]) (auto simp: upsert_object_def obj_is_def split: if_splits)
  qed
  then obtain row where row: "row \<in> set (t_objects T')" "obj_is col b k row" "o_cas row = h" "o_size row = sz" "o_ct row = ct" "o_etag row = etag"
    by blast
  then have "row \<in> set (filter (obj_is col b k) (t_objects T'))" by simp
  then obtain y ys where y: "filter (obj_is col b k) (t_objects T') = y # ys" by (cases "filter (obj_is col b k) (t_objects T')") auto
  with obj_is_unique [OF u' y] \<open>row \<in> set (filter _ _)\<close> have "filter (obj_is col b k) (t_objects T') = [row]" by auto
  with row show ?thesis by (auto simp: obj_is_def)
qed

lemma upsert_object_frame:
  assumes up: "upsert_object col now nid T b k h sz ct etag = Some (T', q)" and c: "col_ok col"
    and ne: "\<not> (b' = b \<and> col_uniq col k' k)"
  shows "filter (obj_is col b' k') (t_objects T') = filter (obj_is col b' k') (t_objects T)"
proof (cases "List.find (obj_clash col b k) (t_objects T)")
  case None
  then have "t_objects T' = t_objects T @ [new_object nid now b k h sz ct etag]"
    using up by (auto simp: upsert_object_def ins_object_def split: if_splits)
  moreover have "\<not> obj_is col b' k' (new_object nid now b k h sz ct etag)"
    by (rule filter_other [OF ne c]) (simp add: obj_clash_def new_object_def col_uniq_def)
  ultimately show ?thesis by simp
next
  case (Some o1)
  let ?f = "\<lambda>r. r\<lparr>o_cas := h, o_size := sz, o_ct := ct, o_etag := etag\<rparr>"
  have "t_objects T' = map_first (obj_clash col b k) ?f (t_objects T)"
    using Some up by (auto simp: upsert_object_def split: if_splits)
  moreover have "\<not> obj_is col b' k' r \<and> \<not> obj_is col b' k' (?f r)" if "obj_clash col b k r" for r
    using filter_other [OF ne c that] by (simp add: obj_is_def)
  ultimately show ?thesis by (simp add: filter_map_first)
qed

lemma swap_objects:
  assumes "counted_table.swap col (obj_sel col b k) (obj_wr col b k) h sz A T2 T"
  shows "t_objects T2 = t_objects A" "t_parts T2 = t_parts A" "uniq_ok col A \<Longrightarrow> uniq_ok col T2"
proof -
  from assms obtain T1 now now' r1 r2 where
    i: "if obj_sel col b k A = [] \<or> obj_sel col b k A \<noteq> h then upsert_cas col now A h sz = Some (T1, r1) else T1 = A"
    and d: "if obj_sel col b k A \<noteq> [] \<and> obj_sel col b k A \<noteq> h
      then update_cas col (\<lambda>r. r\<lparr>c_ref := c_ref r - 1, c_updated := now'\<rparr>) T1 (obj_sel col b k A) = Some (T2, r2) else T2 = T1"
    unfolding objs.swap_def by blast
  from i have inc: "T1 = A \<or> upsert_cas col now A h sz = Some (T1, r1)" by (auto split: if_splits)
  from d have dec: "T2 = T1 \<or> update_cas col (\<lambda>r. r\<lparr>c_ref := c_ref r - 1, c_updated := now'\<rparr>) T1 (obj_sel col b k A) = Some (T2, r2)"
    by (auto split: if_splits)
  have 1: "t_objects T1 = t_objects A \<and> t_parts T1 = t_parts A \<and> (uniq_ok col A \<longrightarrow> uniq_ok col T1)"
    using inc upsert_cas_counts(2,3,6) [of col now A h sz T1 r1] by blast
  have 2: "t_objects T2 = t_objects T1 \<and> t_parts T2 = t_parts T1 \<and> (uniq_ok col T1 \<longrightarrow> uniq_ok col T2)"
    using dec update_cas_counts(2,3,6) [where col = col and g = "\<lambda>n. n - 1" and now = now' and T = T1 and h = "obj_sel col b k A" and T' = T2 and r = r2] by blast
  from 1 2 show "t_objects T2 = t_objects A" "t_parts T2 = t_parts A" "uniq_ok col A \<Longrightarrow> uniq_ok col T2" by simp_all
qed

lemma put_spec_rows:
  assumes s: "put_spec col b k h sz ct etag A gc T" and u: "uniq_ok col A"
  shows "no_alias col b k A \<Longrightarrow> \<exists>row. filter (obj_is col b k) (t_objects T) = [row] \<and> o_bucket row = b \<and> o_cas row = h \<and>
      o_size row = sz \<and> o_ct row = ct \<and> o_etag row = etag \<and> col_eq col (o_key row) k"
    "\<not> (b' = b \<and> col_uniq col k' k) \<Longrightarrow>
      filter (obj_is col b' k') (t_objects T) = filter (obj_is col b' k') (t_objects A)"
proof -
  from s obtain T2 now nid r where sw: "counted_table.swap col (obj_sel col b k) (obj_wr col b k) h sz A T2 T"
    and up: "upsert_object col now nid T2 b k h sz ct etag = Some (T, r)" unfolding put_spec_def by blast
  note o = swap_objects [OF sw]
  have c: "col_ok col" using u by (simp add: uniq_ok_def)
  show "no_alias col b k A \<Longrightarrow> \<exists>row. filter (obj_is col b k) (t_objects T) = [row] \<and> o_bucket row = b \<and> o_cas row = h \<and>
      o_size row = sz \<and> o_ct row = ct \<and> o_etag row = etag \<and> col_eq col (o_key row) k"
    using upsert_object_rows [OF up o(3) [OF u]] o(1) by (simp add: no_alias_def)
  show "\<not> (b' = b \<and> col_uniq col k' k) \<Longrightarrow>
      filter (obj_is col b' k') (t_objects T) = filter (obj_is col b' k') (t_objects A)"
    using upsert_object_frame [OF up c] o(1) by simp
qed

text \<open>Reading a row through \<open>GetObject\<close>, Redis off.\<close>

lemma get_object_row:
  assumes ok: "meta_env_ok col env view" and n: "no_tx view (ms_db ms) T" and off: "\<not> me_redis_on env"
    and op: "MetaStore_GetObject env now ms b k = (ms', r)"
  shows "no_tx view (ms_db ms') T \<and>
    (r = (case filter (obj_is col b k) (t_objects T) of row # _ \<Rightarrow> Inr (object_of_row env row)
       | [] \<Rightarrow> Err NoSuchKey ''Object not found'') \<or> (\<exists>m. r = Err DatabaseError m))"
proof -
  let ?k = "\<lambda>r d. (d, case sr_rows r of Row_object row # _ \<Rightarrow> Inr (object_of_row env row)
      | _ \<Rightarrow> Err NoSuchKey ''Object not found'')"
  let ?P = "\<lambda>(d, r). no_tx view d T \<and> (r = (case filter (obj_is col b k) (t_objects T) of row # _ \<Rightarrow> Inr (object_of_row env row)
       | [] \<Rightarrow> Err NoSuchKey ''Object not found'') \<or> (\<exists>m. r = Err DatabaseError m))"
  obtain ms1 q where w: "with_conn env ms (sql_then env (Sel_object b k) ?k) = (ms1, q)"
    by (cases "with_conn env ms (sql_then env (Sel_object b k) ?k)")
  have "?P (ms_db ms1, q)"
  proof (rule with_conn_post [where P = ?P, OF ok n _ _ w])
    fix d assume nd: "no_tx view d T"
    show "?P (sql_then env (Sel_object b k) ?k d)"
      by (rule sql_then_post [where P = ?P, OF ok nd]) (auto simp: rows_def db_error_def split: list.splits)
  qed (auto simp: no_conn_def)
  moreover have "ms' = ms1" "r = q"
    using op w off by (auto simp: MetaStore_GetObject_def get_object_db_def split: sum.splits)
  ultimately show ?thesis by simp
qed

section \<open>Theorems\<close>

text \<open>C14: In every run of the metadata operations of \<open>meta_step\<close> (buckets, reference-counted uploads, deletions and part
  uploads, the deletion of rows of objects, uploads and blobs, registering and incrementing, idempotency records and all
  reads; not the raw \<open>PutObject\<close>, \<open>CreateOrUpdatePart\<close> and decrements), whatever statements but \<open>START TRANSACTION\<close>
  fail and however often transactions are retried, no transaction is left open and no blob's \<open>ref_count\<close> is
  below the number of objects and parts that refer to it. The hypothesis \<open>meta_env_ok\<close> also says that a \<open>COMMIT\<close> that
  reports an error has no effect and that no connection is re-established inside a transaction; \<open>lost_start_counts\<close>
  shows that it is needed.\<close>

theorem ref_counts_safe:
  assumes ok: "meta_env_ok col env view" and start: "no_tx view (ms_db ms) T0" "rc_safe col T0"
    and run: "(meta_step env)\<^sup>*\<^sup>* ms ms'"
  shows "\<exists>T. view (ms_db ms') = \<lparr>db_tables = T, db_tx = None\<rparr> \<and> (\<forall>k. refs col T k \<le> ref_count col T k)"
proof -
  have "(\<lambda>ms ms'. meta_env_ok col env view \<and> meta_step env ms ms') = meta_step env" using ok by (simp add: fun_eq_iff)
  with run have r: "(\<lambda>ms ms'. meta_env_ok col env view \<and> meta_step env ms ms')\<^sup>*\<^sup>* ms ms'" by simp
  have "meta_inv col view ms" using start by (auto simp: meta_inv_def)
  from meta_sys.run_I [OF r this] show ?thesis by (auto simp: meta_inv_def no_tx_def rc_safe_def)
qed

definition sample_put :: "string option list \<Rightarrow> (Mem, unit) MetaStore \<times> string option Result" where
  "sample_put fs = MetaStore_PutObjectWithRefCount (mem_env bin_col) 0 (mem_store one_bucket fs) 7 ''k'' 3 ''h1'' ''t'' ''h1''"

definition sample_put2 :: "(Mem, unit) MetaStore \<times> string option Result" where
  "sample_put2 = MetaStore_PutObjectWithRefCount (mem_env bin_col) 0 (fst (sample_put [])) 7 ''k'' 4 ''h2'' ''t'' ''h2''"

lemma sample_run: "(meta_step (mem_env bin_col))\<^sup>*\<^sup>* (mem_store one_bucket []) (fst sample_put2)"
proof -
  have "meta_step (mem_env bin_col) (mem_store one_bucket []) (fst (sample_put []))"
    by (rule PutObjectWithRefCount [of _ 0 _ 7 "''k''" 3 "''h1''" "''t''" "''h1''"]) (simp add: sample_put_def prod_eq_iff)
  moreover have "meta_step (mem_env bin_col) (fst (sample_put [])) (fst sample_put2)"
    by (rule PutObjectWithRefCount [of _ 0 _ 7 "''k''" 4 "''h2''" "''t''" "''h2''"]) (simp add: sample_put2_def prod_eq_iff)
  ultimately show ?thesis by simp
qed

theorem ref_counts_safe_witness:
  "\<exists>T. mem_db (ms_db (fst sample_put2)) = \<lparr>db_tables = T, db_tx = None\<rparr> \<and> (\<forall>k. refs bin_col T k \<le> ref_count bin_col T k)"
  by (rule ref_counts_safe [OF mem_env_ok mem_store_no_tx no_tables_safe(2) sample_run])

lemma sample_put_ok: "snd (sample_put []) = Inr None"
  by code_simp
lemma sample_put2_ok: "snd sample_put2 = Inr (Some ''h1'')"
  by code_simp

text \<open>C15: A successful upload is visible (in a database of \<open>meta_env_ok\<close>): unless another key of the bucket shares the new key's indexed
  prefix, reading the key afterwards (Redis off) gives the digest, size, ETag and content type that were
  written or a database error, never "not found"; and no row of an unrelated key changed.\<close>

theorem put_object_visible:
  assumes ok: "meta_env_ok col env view" and n: "no_tx view (ms_db ms) A" and u: "uniq_ok col A"
    and put: "MetaStore_PutObjectWithRefCount env now ms b k sz etag ct h = (ms1, Inr gc)"
    and al: "no_alias col b k A" and off: "\<not> me_redis_on env"
    and get: "MetaStore_GetObject env now' ms1 b k = (ms2, r)"
  shows "((\<exists>info. r = Inr info \<and> oi_sha256_hash info = h \<and> oi_size info = sz \<and> oi_etag info = etag \<and>
        oi_content_type info = ct \<and> oi_bucket_id info = b \<and> col_eq col (oi_key info) k) \<or> (\<exists>m. r = Err DatabaseError m)) \<and>
    (\<exists>T. no_tx view (ms_db ms1) T \<and> (\<forall>b' k'. b' = b \<and> col_uniq col k' k \<or>
        filter (obj_is col b' k') (t_objects T) = filter (obj_is col b' k') (t_objects A)))"
proof -
  from put_object_post [OF ok n u put] obtain T where T: "no_tx view (ms_db ms1) T" and
    s: "put_spec col b k h sz ct etag A gc T" by (auto simp: res_post_def)
  from put_spec_rows(1) [OF s u al] obtain row where row: "filter (obj_is col b k) (t_objects T) = [row]"
    "o_bucket row = b" "o_cas row = h" "o_size row = sz" "o_ct row = ct" "o_etag row = etag" "col_eq col (o_key row) k" by blast
  from get_object_row [OF ok T off get] row have "r = Inr (object_of_row env row) \<or> (\<exists>m. r = Err DatabaseError m)" by simp
  moreover have "oi_sha256_hash (object_of_row env row) = h" "oi_size (object_of_row env row) = sz"
    "oi_etag (object_of_row env row) = etag" "oi_content_type (object_of_row env row) = ct"
    "oi_bucket_id (object_of_row env row) = b" "col_eq col (oi_key (object_of_row env row)) k"
    using row by (simp_all add: object_of_row_def plain_object_def)
  ultimately show ?thesis using T put_spec_rows(2) [OF s u] by blast
qed

lemma one_bucket_uniq [simp]: "uniq_ok bin_col one_bucket"
  using no_tables_safe(2) by (simp add: rc_safe_def)

lemma sample_put_eq: "sample_put [] = (fst (sample_put []), Inr None)"
  using sample_put_ok by (simp add: prod_eq_iff)

definition sample_get :: "(Mem, unit) MetaStore \<times> ObjectInfo Result" where
  "sample_get = MetaStore_GetObject (mem_env bin_col) 5 (fst (sample_put [])) 7 ''k''"

lemma sample_get_eq: "sample_get = (fst sample_get, Inr (plain_object 3 7 ''k'' ''h1'' 3 ''h1'' ''t'' 0))"
proof -
  have "snd sample_get = Inr (plain_object 3 7 ''k'' ''h1'' 3 ''h1'' ''t'' 0)" by code_simp
  then show ?thesis by (simp add: prod_eq_iff)
qed

theorem put_object_visible_witness:
  "\<exists>info. snd sample_get = Inr info \<and> oi_sha256_hash info = ''h1'' \<and> oi_size info = 3 \<and> oi_content_type info = ''t''"
proof -
  have al: "no_alias bin_col 7 ''k'' one_bucket" by (simp add: no_alias_def one_bucket_def no_tables_def)
  have off: "\<not> me_redis_on (mem_env bin_col)" by (simp add: mem_env_def)
  from put_object_visible [OF mem_env_ok mem_store_no_tx one_bucket_uniq sample_put_eq [unfolded sample_put_def] al off
      sample_get_eq [unfolded sample_get_def sample_put_def]]
  show ?thesis by (subst sample_get_eq) (auto simp: Err_def)
qed

text \<open>C16: A successful deletion removes the object (in a database of \<open>meta_env_ok\<close>): reading the key afterwards (Redis off) reports that
  there is no such key, or a database error; exactly the rows of the key are gone.\<close>

theorem delete_object_gone:
  assumes ok: "meta_env_ok col env view" and n: "no_tx view (ms_db ms) A" and u: "uniq_ok col A"
    and del: "MetaStore_DeleteObjectWithRefCount env ms b k = (ms1, Inr gc)" and off: "\<not> me_redis_on env"
    and get: "MetaStore_GetObject env now' ms1 b k = (ms2, r)"
  shows "(r = Err NoSuchKey ''Object not found'' \<or> (\<exists>m. r = Err DatabaseError m)) \<and>
    (\<exists>T. no_tx view (ms_db ms1) T \<and> t_objects T = filter (\<lambda>r. \<not> obj_is col b k r) (t_objects A))"
proof -
  from delete_object_post [OF ok n del] obtain T where T: "no_tx view (ms_db ms1) T" and
    s: "del_spec col b k A gc T" by (auto simp: res_post_def)
  obtain row where "filter (obj_is col b k) (t_objects A) = [row]" "uniq_ok col T" and
    o: "t_objects T = filter (\<lambda>r. \<not> obj_is col b k r) (t_objects A)" and
    "\<And>x. refs col T x + hit col (o_cas row) x = refs col A x"
    "\<And>x. ref_count col T x = ref_count col A x - (if o_cas row = [] then 0 else hit col (o_cas row) x)"
    by (rule del_spec_counts [OF u s]) (rule that)
  have "filter (obj_is col b k) (t_objects T) = []" unfolding o by (simp add: filter_empty_conv)
  with get_object_row [OF ok T off get] T o show ?thesis by auto
qed

definition sample_tables :: Tables where
  "sample_tables = db_tables (mem_db (ms_db (fst (sample_put []))))"

definition sample_store :: "string option list \<Rightarrow> (Mem, unit) MetaStore" where
  "sample_store fs = mem_store sample_tables fs"

lemma sample_tables_safe: "rc_safe bin_col sample_tables"
proof -
  from put_object_post [OF mem_env_ok mem_store_no_tx one_bucket_uniq sample_put_eq [unfolded sample_put_def]]
  obtain T where "no_tx mem_db (ms_db (fst (sample_put []))) T" "put_spec bin_col 7 ''k'' ''h1'' 3 ''t'' ''h1'' one_bucket None T"
    by (auto simp: res_post_def sample_put_def)
  then show ?thesis using put_spec_safe [OF no_tables_safe(2)] by (simp add: sample_tables_def no_tx_def)
qed

lemma sample_tables_uniq [simp]: "uniq_ok bin_col sample_tables"
  using sample_tables_safe by (simp add: rc_safe_def)

definition sample_del :: "(Mem, unit) MetaStore \<times> string option Result" where
  "sample_del = MetaStore_DeleteObjectWithRefCount (mem_env bin_col) (sample_store []) 7 ''k''"

lemma sample_del_eq: "sample_del = (fst sample_del, Inr (Some ''h1''))"
proof -
  have "snd sample_del = Inr (Some ''h1'')" by code_simp
  then show ?thesis by (simp add: prod_eq_iff)
qed

theorem delete_object_gone_witness:
  "(\<exists>T. no_tx mem_db (ms_db (fst sample_del)) T \<and>
     t_objects T = filter (\<lambda>r. \<not> obj_is bin_col 7 ''k'' r) (t_objects sample_tables)) \<and> length (t_objects sample_tables) = 1"
proof -
  have off: "\<not> me_redis_on (mem_env bin_col)" by (simp add: mem_env_def)
  have "length (t_objects sample_tables) = 1" by code_simp
  with delete_object_gone [OF mem_env_ok mem_store_no_tx sample_tables_uniq
      sample_del_eq [unfolded sample_del_def sample_store_def] off prod.collapse [symmetric], of 5]
  show ?thesis by (simp add: sample_del_def sample_store_def)
qed

text \<open>The blob that an upload, a part upload or a deletion reports for collection has the count 0 after
  the operation, and no object and no part refers to it.\<close>

theorem gc_candidate_unreferenced:
  assumes ok: "meta_env_ok col env view" and n: "no_tx view (ms_db ms) A" and safe: "rc_safe col A"
    and op: "MetaStore_PutObjectWithRefCount env now ms b k sz etag ct h = (ms', Inr (Some c)) \<or>
      MetaStore_PutPartWithRefCount env ms up pn h sz etag = (ms', Inr (Some c)) \<or>
      MetaStore_DeleteObjectWithRefCount env ms b k = (ms', Inr (Some c))"
  shows "\<exists>T. no_tx view (ms_db ms') T \<and> ref_count col T c = 0 \<and> refs col T c = 0"
proof -
  have u: "uniq_ok col A" using safe by (simp add: rc_safe_def)
  from op have "\<exists>T. no_tx view (ms_db ms') T \<and> rc_safe col T \<and> ref_count col T c = 0"
  proof (elim disjE)
    assume "MetaStore_PutObjectWithRefCount env now ms b k sz etag ct h = (ms', Inr (Some c))"
    from put_object_post [OF ok n u this] show ?thesis
      using put_spec_safe [OF safe] put_spec_gc [OF u] by (fastforce simp: res_post_def)
  next
    assume "MetaStore_PutPartWithRefCount env ms up pn h sz etag = (ms', Inr (Some c))"
    from put_part_post [OF ok n this] show ?thesis
      using part_spec_safe [OF safe] part_spec_gc [OF u] by (fastforce simp: res_post_def)
  next
    assume "MetaStore_DeleteObjectWithRefCount env ms b k = (ms', Inr (Some c))"
    from delete_object_post [OF ok n this] show ?thesis
      using del_spec_safe [OF safe] del_spec_gc by (fastforce simp: res_post_def)
  qed
  then show ?thesis by (auto simp: rc_safe_def) (metis le_zero_eq)
qed

theorem gc_candidate_unreferenced_witness:
  "\<exists>T. no_tx mem_db (ms_db (fst sample_del)) T \<and> ref_count bin_col T ''h1'' = 0 \<and> refs bin_col T ''h1'' = 0"
proof -
  have "MetaStore_DeleteObjectWithRefCount (mem_env bin_col) (mem_store sample_tables []) 7 ''k'' = (fst sample_del, Inr (Some ''h1''))"
    using sample_del_eq by (simp add: sample_del_def sample_store_def)
  from gc_candidate_unreferenced [OF mem_env_ok mem_store_no_tx sample_tables_safe disjI2 [OF disjI2 [OF this]]]
  show ?thesis .
qed

text \<open>C17: The reference-counted operations are atomic: one that reports an error, after whatever failing
  statements other than \<open>START TRANSACTION\<close>, failing commits and exhausted retries, leaves all tables as they were and no transaction
  open. A \<open>COMMIT\<close> that reports an error has had no effect (\<open>meta_env_ok\<close>).\<close>

theorem failed_op_changes_nothing:
  assumes ok: "meta_env_ok col env view" and n: "no_tx view (ms_db ms) A" and u: "uniq_ok col A"
    and op: "MetaStore_PutObjectWithRefCount env now ms b k sz etag ct h = (ms', Inl e) \<or>
      MetaStore_PutPartWithRefCount env ms up pn h sz etag = (ms', Inl e) \<or>
      MetaStore_DeleteObjectWithRefCount env ms b k = (ms', Inl e)"
  shows "view (ms_db ms') = view (ms_db ms)"
  using op put_object_post [OF ok n u] put_part_post [OF ok n] delete_object_post [OF ok n] n
  by (fastforce simp: res_post_def no_tx_def)

text \<open>The second upload: the insert and the update both meet failures, on every attempt.\<close>

definition sample_fail :: "(Mem, unit) MetaStore \<times> string option Result" where
  "sample_fail = MetaStore_PutObjectWithRefCount (mem_env bin_col) 0
     (sample_store [None, None, Some ''Duplicate entry'', None, None, None, None, Some ''Deadlock found'', None,
        None, None, Some ''Duplicate entry'', None, None, None, None, None, None, None, Some ''Lock wait timeout exceeded'',
        None, Some ''gone away'']) 7 ''k'' 4 ''h2'' ''t'' ''h2''"

lemma sample_fail_eq: "sample_fail = (fst sample_fail, Err DatabaseError ''gone away'')"
proof -
  have "snd sample_fail = Err DatabaseError ''gone away''" by code_simp
  then show ?thesis by (simp add: prod_eq_iff)
qed

theorem failed_op_changes_nothing_witness:
  "mem_db (ms_db (fst sample_fail)) = \<lparr>db_tables = sample_tables, db_tx = None\<rparr>"
proof -
  have e: "MetaStore_PutObjectWithRefCount (mem_env bin_col) 0
     (sample_store [None, None, Some ''Duplicate entry'', None, None, None, None, Some ''Deadlock found'', None,
        None, None, Some ''Duplicate entry'', None, None, None, None, None, None, None, Some ''Lock wait timeout exceeded'',
        None, Some ''gone away'']) 7 ''k'' 4 ''h2'' ''t'' ''h2'' = (fst sample_fail, Inl (Status_Error DatabaseError ''gone away''))"
    using sample_fail_eq by (simp add: sample_fail_def Err_def)
  from failed_op_changes_nothing [OF mem_env_ok mem_store_no_tx sample_tables_uniq disjI1 [OF e [unfolded sample_store_def]]]
  show ?thesis by (simp add: mem_store_def)
qed

text \<open>\<open>CanDeleteCasBlob\<close> answers yes exactly for a registered blob with the count 0 that no object and no
  part refers to, and it changes nothing.\<close>

theorem can_delete_exact:
  assumes ok: "meta_env_ok col env view" and n: "no_tx view (ms_db ms) A"
    and op: "MetaStore_CanDeleteCasBlob env ms h = (ms', Inr v)"
  shows "view (ms_db ms') = view (ms_db ms) \<and>
    (v \<longleftrightarrow> has_cas col A h \<and> ref_count col A h = 0 \<and> refs col A h = 0)"
  using can_delete_post [OF ok n op] n by (auto simp: res_post_def no_tx_def refs_def)

definition sample_can :: "(Mem, unit) MetaStore \<times> bool Result" where
  "sample_can = MetaStore_CanDeleteCasBlob (mem_env bin_col) (mem_store (db_tables (mem_db (ms_db (fst sample_del)))) []) ''h1''"

theorem can_delete_exact_witness:
  "snd sample_can = Inr True \<and> refs bin_col (db_tables (mem_db (ms_db (fst sample_del)))) ''h1'' = 0"
proof -
  have v: "snd sample_can = Inr True" by code_simp
  then have e: "MetaStore_CanDeleteCasBlob (mem_env bin_col) (mem_store (db_tables (mem_db (ms_db (fst sample_del)))) []) ''h1'' =
      (fst sample_can, Inr True)" by (simp add: sample_can_def prod_eq_iff)
  from can_delete_exact [OF mem_env_ok mem_store_no_tx e] v show ?thesis by simp
qed

section \<open>Exact counts\<close>

definition digests_ok :: "Tables \<Rightarrow> bool" where
  "digests_ok T \<longleftrightarrow> list_all (\<lambda>r. o_cas r \<noteq> []) (t_objects T) \<and> list_all (\<lambda>r. p_cas r \<noteq> []) (t_parts T)"

lemma obj_cur_sel:
  assumes u: "uniq_ok col A" and al: "no_alias col b k A" and d: "digests_ok A"
  shows "obj_cur col b k A = None \<and> obj_sel col b k A = [] \<or> obj_cur col b k A = Some (obj_sel col b k A) \<and> obj_sel col b k A \<noteq> []"
proof (cases "List.find (obj_clash col b k) (t_objects A)")
  case None
  then have "\<not> list_ex (obj_clash col b k) (t_objects A)" by (simp add: find_None_ex)
  with None obj_sel_none [OF u] show ?thesis by (simp add: obj_cur_def)
next
  case (Some r)
  then have "r \<in> set (t_objects A)" "obj_clash col b k r" using find_Some_mem [OF Some] by auto
  with al have "r \<in> set (filter (obj_is col b k) (t_objects A))" by (simp add: no_alias_def list_all_iff)
  then obtain y ys where y: "filter (obj_is col b k) (t_objects A) = y # ys" by (cases "filter (obj_is col b k) (t_objects A)") auto
  then have "y \<in> set (filter (obj_is col b k) (t_objects A))" by simp
  then have "y \<in> set (t_objects A)" by simp
  then have "obj_sel col b k A \<noteq> []" using d y by (simp add: obj_sel_def digests_ok_def list_all_iff)
  with objs.sel_cur [OF u this] show ?thesis by simp
qed

lemma part_cur_sel:
  assumes d: "digests_ok A"
  shows "part_cur col u n A = None \<and> part_sel col u n A = [] \<or> part_cur col u n A = Some (part_sel col u n A) \<and> part_sel col u n A \<noteq> []"
proof (cases "filter (part_is col u n) (t_parts A)")
  case Nil
  then show ?thesis by (simp add: part_cur_def part_sel_def find_filter)
next
  case (Cons y ys)
  then have "y \<in> set (filter (part_is col u n) (t_parts A))" by simp
  then have "y \<in> set (t_parts A)" by simp
  with d Cons show ?thesis by (simp add: part_cur_def part_sel_def find_filter digests_ok_def list_all_iff)
qed

text \<open>C18: The counts stay exact: when every blob's count equals the number of its references before a
  successful upload, part upload or deletion, it does so afterwards. Excepted are keys that share an indexed prefix
  with another key of the bucket; the digests in the rows are not empty, and the database is one of \<open>meta_env_ok\<close>.\<close>

theorem ref_counts_exact:
  assumes ok: "meta_env_ok col env view" and n: "no_tx view (ms_db ms) A" and ex: "rc_exact col A"
    and al: "no_alias col b k A" and d: "digests_ok A"
    and op: "MetaStore_PutObjectWithRefCount env now ms b k sz etag ct h = (ms', Inr gc) \<or>
      MetaStore_PutPartWithRefCount env ms up pn h sz etag = (ms', Inr gc) \<or>
      MetaStore_DeleteObjectWithRefCount env ms b k = (ms', Inr gc)"
  shows "\<exists>T. no_tx view (ms_db ms') T \<and> (\<forall>x. refs col T x = ref_count col T x)"
proof -
  have u: "uniq_ok col A" and eq: "\<And>x. refs col A x = ref_count col A x" using ex by (auto simp: rc_exact_def)
  from op show ?thesis
  proof (elim disjE)
    assume "MetaStore_PutObjectWithRefCount env now ms b k sz etag ct h = (ms', Inr gc)"
    from put_object_post [OF ok n u this] obtain T T2 where T: "no_tx view (ms_db ms') T"
      and sw: "counted_table.swap col (obj_sel col b k) (obj_wr col b k) h sz A T2 T"
      by (auto simp: res_post_def put_spec_def)
    from objs.swap_exact [OF ex sw obj_cur_sel [OF u al d]] T show ?thesis by (auto simp: rc_exact_def)
  next
    assume "MetaStore_PutPartWithRefCount env ms up pn h sz etag = (ms', Inr gc)"
    from put_part_post [OF ok n this] obtain T T2 where T: "no_tx view (ms_db ms') T"
      and sw: "counted_table.swap col (part_sel col up pn) (part_wr col up pn) h sz A T2 T"
      by (auto simp: res_post_def part_spec_def)
    from parts.swap_exact [OF ex sw part_cur_sel [OF d]] T show ?thesis by (auto simp: rc_exact_def)
  next
    assume "MetaStore_DeleteObjectWithRefCount env ms b k = (ms', Inr gc)"
    from delete_object_post [OF ok n this] obtain T where T: "no_tx view (ms_db ms') T" and s: "del_spec col b k A gc T"
      by (auto simp: res_post_def)
    obtain row where row: "filter (obj_is col b k) (t_objects A) = [row]" "uniq_ok col T"
      "t_objects T = filter (\<lambda>r. \<not> obj_is col b k r) (t_objects A)" and
      r: "\<And>x. refs col T x + hit col (o_cas row) x = refs col A x" and
      c: "\<And>x. ref_count col T x = ref_count col A x - (if o_cas row = [] then 0 else hit col (o_cas row) x)"
      by (rule del_spec_counts [OF u s]) (rule that)
    have "row \<in> set (filter (obj_is col b k) (t_objects A))" using row by simp
    then have "row \<in> set (t_objects A)" by simp
    with d have "o_cas row \<noteq> []" by (simp add: digests_ok_def list_all_iff)
    have "refs col T x = ref_count col T x" for x using r [of x] c [of x] eq [of x] \<open>o_cas row \<noteq> []\<close> by simp
    with T show ?thesis by blast
  qed
qed

theorem ref_counts_exact_witness:
  "\<exists>T. no_tx mem_db (ms_db (fst (sample_put []))) T \<and> (\<forall>x. refs bin_col T x = ref_count bin_col T x)"
proof -
  have ex: "rc_exact bin_col one_bucket"
    by (simp add: rc_exact_def refs_def obj_refs_def part_refs_def ref_count_def one_bucket_def no_tables_def uniq_ok_def)
  have al: "no_alias bin_col 7 ''k'' one_bucket" "digests_ok one_bucket"
    by (simp_all add: no_alias_def digests_ok_def one_bucket_def no_tables_def)
  have "MetaStore_PutObjectWithRefCount (mem_env bin_col) 0 (mem_store one_bucket []) 7 ''k'' 3 ''h1'' ''t'' ''h1'' =
      (fst (sample_put []), Inr None)" using sample_put_eq by (simp add: sample_put_def)
  from ref_counts_exact [OF mem_env_ok mem_store_no_tx ex al disjI1 [OF this]] show ?thesis .
qed

section \<open>Listing by pages\<close>

definition listed :: "Collation \<Rightarrow> Tables \<Rightarrow> int \<Rightarrow> string \<Rightarrow> string \<Rightarrow> ObjRow list" where
  "listed col T b pre after = sort_key (\<lambda>r. col_weight col (o_key r)) (filter (\<lambda>r. o_bucket r = b \<and>
     match_like col (if pre = [] then None else Some (pre @ ''%'')) (o_key r) \<and>
     match_after col (if after = [] then None else Some after) (o_key r)) (t_objects T))"

lemma object_rows_map [simp]: "object_rows (map Row_object xs) = xs"
  by (induction xs) (auto simp: object_rows_def List.map_filter_def)

lemma list_objects_post:
  assumes ok: "meta_env_ok col env view" and n: "no_tx view (ms_db ms) A"
    and op: "MetaStore_ListObjects env ms b pre delim after maxk = (ms', r)"
  shows "no_tx view (ms_db ms') A \<and> (r = Inr (list_objects_page env (nat maxk)
     (take (nat (int32 (maxk + 1))) (listed col A b pre after))) \<or> (\<exists>m. r = Err DatabaseError m))"
proof -
  let ?P = "\<lambda>(d, r). no_tx view d A \<and> (r = Inr (list_objects_page env (nat maxk)
     (take (nat (int32 (maxk + 1))) (listed col A b pre after))) \<or> (\<exists>m. r = Err DatabaseError m))"
  have "?P (ms_db ms', r)"
  proof (rule with_conn_post [where P = ?P, OF ok n _ _ op [unfolded MetaStore_ListObjects_def]])
    fix d assume nd: "no_tx view d A"
    let ?s = "Sel_objects b (if pre = [] then None else Some (pre @ ''%'')) (if after = [] then None else Some after) (int32 (maxk + 1))"
    show "?P (sql_then env ?s (\<lambda>r d. (d, Inr (list_objects_page env (nat maxk) (object_rows (sr_rows r))))) d)"
      by (rule sql_then_post [where P = ?P, OF ok nd])
         (auto simp: limited_def rows_def listed_def take_map db_error_def split: if_splits)
  qed (auto simp: no_conn_def)
  then show ?thesis by simp
qed

text \<open>C19: One page of a listing holds the first \<open>max_keys\<close> of the bucket's objects that match the prefix and
  follow the marker, in key order, and says whether there are more.\<close>

theorem list_objects_page_correct:
  assumes ok: "meta_env_ok col env view" and n: "no_tx view (ms_db ms) A" and m: "0 \<le> maxk" "maxk < 2 ^ 31 - 1"
    and op: "MetaStore_ListObjects env ms b pre delim after maxk = (ms', Inr res)"
  shows "lo_objects res = map (object_of_row env) (take (nat maxk) (listed col A b pre after)) \<and>
    (lo_is_truncated res \<longleftrightarrow> nat maxk < length (listed col A b pre after)) \<and> view (ms_db ms') = view (ms_db ms)"
proof -
  have i: "nat (int32 (maxk + 1)) = Suc (nat maxk)" using m by (simp add: int32_def)
  from list_objects_post [OF ok n op] have "no_tx view (ms_db ms') A" "res = list_objects_page env (nat maxk)
     (take (Suc (nat maxk)) (listed col A b pre after))" unfolding i by (auto simp: Err_def)
  then show ?thesis using n by (simp add: list_objects_page_def no_tx_def min_def Let_def)
qed

definition three_objects :: Tables where
  "three_objects = one_bucket\<lparr>
     t_cas := [\<lparr>c_key = ''h'', c_size = 1, c_ref = 3, c_created = 0, c_updated = 0\<rparr>],
     t_objects := map (\<lambda>(i, k). new_object i 0 7 k ''h'' 1 ''t'' ''h'') [(1, ''c''), (2, ''a''), (3, ''b'')]\<rparr>"

definition page1 :: "(Mem, unit) MetaStore \<times> ListObjectsResult Result" where
  "page1 = MetaStore_ListObjects (mem_env bin_col) (mem_store three_objects []) 7 '''' '''' '''' 1"

definition page1_res :: ListObjectsResult where
  "page1_res = \<lparr>lo_objects = [plain_object 2 7 ''a'' ''h'' 1 ''h'' ''t'' 0], lo_common_prefixes = [],
     lo_is_truncated = True, lo_next_continuation_token = ''b'', lo_next_key_marker = ''b''\<rparr>"

lemma page1_eq: "page1 = (mem_store three_objects []\<lparr>ms_db := ms_db (fst page1)\<rparr>, Inr page1_res)"
proof -
  have "snd page1 = Inr page1_res" by code_simp
  moreover have "fst page1 = mem_store three_objects []\<lparr>ms_db := ms_db (fst page1)\<rparr>"
    unfolding page1_def MetaStore_ListObjects_def with_conn_def by (simp add: mem_env_def split: prod.splits)
  ultimately show ?thesis by (metis prod.collapse)
qed

theorem list_objects_page_correct_witness:
  "map oi_key (lo_objects page1_res) = [''a''] \<and> 1 < length (listed bin_col three_objects 7 '''' '''')"
proof -
  have m: "(0 :: int) \<le> 1" "(1 :: int) < 2 ^ 31 - 1" by simp_all
  have "map oi_key (lo_objects page1_res) = [''a'']" by (simp add: page1_res_def plain_object_def)
  moreover have "lo_is_truncated page1_res" by (simp add: page1_res_def)
  ultimately show ?thesis
    using list_objects_page_correct [OF mem_env_ok mem_store_no_tx m page1_eq [unfolded page1_def]] by simp
qed

text \<open>C20: Following a truncated listing with its own marker loses an object: the object named by the marker
  matches the query but is neither on the page nor on the next one, which asks for keys strictly after
  the marker.\<close>

theorem list_objects_skips_marker:
  assumes ok: "meta_env_ok col env view" and n: "no_tx view (ms_db ms) A" and u: "uniq_ok col A"
    and m: "0 \<le> maxk" "maxk < 2 ^ 31 - 1"
    and p1: "MetaStore_ListObjects env ms b pre delim after maxk = (ms1, Inr res1)"
    and t: "lo_is_truncated res1" and ne: "lo_next_key_marker res1 \<noteq> []"
    and p2: "MetaStore_ListObjects env ms1 b pre delim (lo_next_key_marker res1) maxk = (ms2, Inr res2)"
  shows "lo_next_key_marker res1 \<in> o_key ` set (listed col A b pre after) \<and>
    lo_next_key_marker res1 \<notin> oi_key ` set (lo_objects res1) \<and> lo_next_key_marker res1 \<notin> oi_key ` set (lo_objects res2)"
proof -
  let ?L = "listed col A b pre after" and ?n = "nat maxk"
  have i: "nat (int32 (maxk + 1)) = Suc ?n" using m by (simp add: int32_def)
  from list_objects_post [OF ok n p1] have n1: "no_tx view (ms_db ms1) A"
    and r1: "res1 = list_objects_page env ?n (take (Suc ?n) ?L)" unfolding i by (auto simp: Err_def)
  from list_objects_post [OF ok n1 p2] have
    r2: "res2 = list_objects_page env ?n (take (Suc ?n) (listed col A b pre (lo_next_key_marker res1)))"
    unfolding i by (auto simp: Err_def)
  have len: "?n < length ?L" using t by (simp add: r1 list_objects_page_def Let_def)
  have mk: "lo_next_key_marker res1 = o_key (?L ! ?n)" using len by (simp add: r1 list_objects_page_def Let_def)
  have keys [simp]: "oi_key (object_of_row env r) = o_key r" for r by (simp add: object_of_row_def plain_object_def)
  have "distinct (map (\<lambda>r. (o_bucket r, col_weight col (col_prefix col (o_key r)))) (t_objects A))"
    using u by (simp add: uniq_ok_def)
  then have inj: "inj_on (\<lambda>r. (o_bucket r, col_weight col (col_prefix col (o_key r)))) (set (t_objects A))" "distinct (t_objects A)"
    by (auto simp: distinct_map)
  have sub: "r \<in> set (t_objects A)" "o_bucket r = b" if "r \<in> set ?L" for r using that by (auto simp: listed_def)
  have "r = r'" if "r \<in> set ?L" "r' \<in> set ?L" "o_key r = o_key r'" for r r'
    using that sub inj_onD [OF inj(1), of r r'] by simp
  moreover have "distinct ?L" using inj(2) by (simp add: listed_def)
  ultimately have neq: "o_key (?L ! j) \<noteq> o_key (?L ! ?n)" if "j < ?n" for j
    using that len by (metis less_imp_neq less_trans nth_eq_iff_index_eq nth_mem)
  have "o_key (?L ! ?n) \<notin> o_key ` set (take ?n ?L)" using len neq by (fastforce simp: in_set_conv_nth)
  moreover have "o_key (?L ! ?n) \<notin> o_key ` set (listed col A b pre (o_key (?L ! ?n)))"
    using ne mk by (auto simp: listed_def match_after_def)
  ultimately show ?thesis using len unfolding mk
    by (auto simp: r1 r2 mk list_objects_page_def Let_def image_image min_def dest!: in_set_takeD)
qed

definition page2 :: "(Mem, unit) MetaStore \<times> ListObjectsResult Result" where
  "page2 = MetaStore_ListObjects (mem_env bin_col) (fst page1) 7 '''' '''' ''b'' 1"

theorem list_objects_skips_marker_witness:
  "map oi_key (lo_objects page1_res) = [''a''] \<and> lo_next_key_marker page1_res = ''b'' \<and>
   (case snd page2 of Inr res \<Rightarrow> map oi_key (lo_objects res) = [''c''] \<and> ''b'' \<notin> oi_key ` set (lo_objects res) | _ \<Rightarrow> False)"
proof -
  have m: "(0 :: int) \<le> 1" "(1 :: int) < 2 ^ 31 - 1" by simp_all
  have u: "uniq_ok bin_col three_objects"
    by (simp add: uniq_ok_def three_objects_def one_bucket_def no_tables_def new_object_def bin_col_def [symmetric])
       (simp add: bin_col_def)
  have p1: "MetaStore_ListObjects (mem_env bin_col) (mem_store three_objects []) 7 '''' '''' '''' 1 = (fst page1, Inr page1_res)"
    using page1_eq by (metis fst_conv page1_def)
  have v: "case snd page2 of Inr res \<Rightarrow> map oi_key (lo_objects res) = [''c''] | _ \<Rightarrow> False" by code_simp
  then obtain res where s: "snd page2 = Inr res" by (auto split: sum.splits)
  then have res: "page2 = (fst page2, Inr res)" by (simp add: prod_eq_iff)
  have t: "lo_is_truncated page1_res" "lo_next_key_marker page1_res \<noteq> []" "lo_next_key_marker page1_res = ''b''"
    by (simp_all add: page1_res_def)
  from list_objects_skips_marker [OF mem_env_ok mem_store_no_tx u m p1 t(1,2)] res t(3) v
  have "''b'' \<notin> oi_key ` set (lo_objects res)" unfolding page2_def by metis
  with v s show ?thesis by (simp add: page1_res_def plain_object_def)
qed

section \<open>Where the counts and the keys go wrong\<close>

text \<open>C21: Two keys of a bucket that agree on the indexed prefix (their first 255 characters) are one row to
  the database: an upload to the second key succeeds but overwrites the object of the first, and the
  second key is not found afterwards.\<close>

theorem prefix_keys_collide:
  assumes ok: "meta_env_ok col env view" and n: "no_tx view (ms_db ms) A" and u: "uniq_ok col A"
    and row: "filter (obj_is col b k1) (t_objects A) = [row]" and k: "col_uniq col k1 k2" "\<not> col_eq col k1 k2"
    and put: "MetaStore_PutObjectWithRefCount env now ms b k2 sz etag ct h = (ms1, Inr gc)"
  shows "\<exists>T. no_tx view (ms_db ms1) T \<and> filter (obj_is col b k2) (t_objects T) = [] \<and>
    (\<exists>row'. filter (obj_is col b k1) (t_objects T) = [row'] \<and> o_key row' = o_key row \<and> o_cas row' = h \<and> o_size row' = sz)"
proof -
  from put_object_post [OF ok n u put] obtain T T2 now' nid r where T: "no_tx view (ms_db ms1) T"
    and sw: "counted_table.swap col (obj_sel col b k2) (obj_wr col b k2) h sz A T2 T"
    and up: "upsert_object col now' nid T2 b k2 h sz ct etag = Some (T, r)"
    by (auto simp: res_post_def put_spec_def)
  let ?f = "\<lambda>r. r\<lparr>o_cas := h, o_size := sz, o_ct := ct, o_etag := etag\<rparr>"
  have o2: "t_objects T2 = t_objects A" using swap_objects(1) [OF sw] .
  have "row \<in> set (filter (obj_is col b k1) (t_objects A))" using row by simp
  then have m: "row \<in> set (t_objects A)" "obj_is col b k1 row" by simp_all
  have cl: "obj_clash col b k2 row"
    using obj_is_clash [OF u m(2)] k(1) by (simp add: obj_clash_def col_uniq_def col_eq_def)
  note f = obj_find_clash [OF u m(1) cl]
  from find_map_first [OF f, of ?f] obtain as bs where xs: "t_objects A = as @ row # bs"
    "map_first (obj_clash col b k2) ?f (t_objects A) = as @ ?f row # bs" by blast
  have tT: "t_objects T = as @ ?f row # bs"
    using up f o2 xs(2) by (auto simp: upsert_object_def split: if_splits)
  have as1: "filter (obj_is col b k1) as = [] \<and> filter (obj_is col b k1) bs = []"
    using row xs(1) m(2) by (auto simp: append_eq_Cons_conv filter_empty_conv)
  have no2: "\<not> obj_is col b k2 r" if "r \<in> set (t_objects A)" for r
  proof
    assume "obj_is col b k2 r"
    then have "List.find (obj_clash col b k2) (t_objects A) = Some r" using obj_find_clash [OF u that] obj_is_clash [OF u] by simp
    with f have "r = row" by simp
    with \<open>obj_is col b k2 r\<close> m(2) k(2) show False by (simp add: obj_is_def col_eq_def)
  qed
  have "filter (obj_is col b k2) (t_objects T) = []"
    using no2 xs(1) m(1) by (auto simp: tT filter_empty_conv obj_is_def)
  moreover have "filter (obj_is col b k1) (t_objects T) = [?f row]" using as1 m(2) by (simp add: tT obj_is_def)
  ultimately show ?thesis using T by auto
qed

text \<open>A collation with a one-character prefix, for the witness.\<close>

definition short_col :: Collation where
  "short_col = bin_col\<lparr>col_prefix := take 1\<rparr>"

definition clash_put :: "(Mem, unit) MetaStore \<times> string option Result" where
  "clash_put = MetaStore_PutObjectWithRefCount (mem_env short_col) 0 (mem_store sample_tables []) 7 ''ky'' 4 ''h2'' ''t'' ''h2''"

lemma sample_tables_rows: "t_objects sample_tables = [new_object 3 0 7 ''k'' ''h1'' 3 ''t'' ''h1'']"
  by code_simp

lemma sample_tables_blobs: "t_cas sample_tables = [\<lparr>c_key = ''h1'', c_size = 3, c_ref = 1, c_created = 0, c_updated = 0\<rparr>]"
  "t_parts sample_tables = []"
  by code_simp+

theorem prefix_keys_collide_witness:
  "\<exists>T. no_tx mem_db (ms_db (fst clash_put)) T \<and> filter (obj_is short_col 7 ''ky'') (t_objects T) = [] \<and>
    (\<exists>row'. filter (obj_is short_col 7 ''k'') (t_objects T) = [row'] \<and> o_cas row' = ''h2'')"
proof -
  have "inj (map of_char :: string \<Rightarrow> nat list)" by (simp add: inj_of_char)
  then have c: "col_ok short_col" by (auto simp: col_ok_def col_uniq_def col_eq_def bin_col_def short_col_def dest: injD)
  then have u: "uniq_ok short_col sample_tables"
    by (simp add: uniq_ok_def sample_tables_rows sample_tables_blobs)
  have row: "filter (obj_is short_col 7 ''k'') (t_objects sample_tables) = [new_object 3 0 7 ''k'' ''h1'' 3 ''t'' ''h1'']"
    by (simp add: sample_tables_rows obj_is_def new_object_def)
  have k: "col_uniq short_col ''k'' ''ky''" "\<not> col_eq short_col ''k'' ''ky''" by code_simp+
  have "snd clash_put = Inr None" by code_simp
  then have p: "MetaStore_PutObjectWithRefCount (mem_env short_col) 0 (mem_store sample_tables []) 7 ''ky'' 4 ''h2'' ''t'' ''h2'' =
      (fst clash_put, Inr None)" by (simp add: clash_put_def prod_eq_iff)
  from prefix_keys_collide [OF mem_env_ok mem_store_no_tx u row k p] show ?thesis by auto
qed

text \<open>The parts that go with a bucket.\<close>

definition lost_parts :: "Collation \<Rightarrow> Tables \<Rightarrow> int \<Rightarrow> string \<Rightarrow> nat" where
  "lost_parts col T b h =
     length (filter (\<lambda>p. col_eq col (p_cas p) h \<and> list_ex (\<lambda>u. u_bucket u = b \<and> col_eq col (u_id u) (p_upload p)) (t_uploads T)) (t_parts T))"

lemma del_bucket_refs:
  assumes "List.find (\<lambda>r. col_eq col (b_name r) name) (t_buckets A) = Some row" "\<forall>r \<in> set (t_objects A). o_bucket r \<noteq> b_id row"
    and "del_bucket col A name = (T, q)"
  shows "t_cas T = t_cas A" "t_objects T = t_objects A" "refs col T h + lost_parts col A (b_id row) h = refs col A h"
proof -
  let ?gone = "\<lambda>p. list_ex (\<lambda>u. u_bucket u = b_id row \<and> col_eq col (u_id u) (p_upload p)) (t_uploads A)"
  have "list_ex P (filter Q xs) = list_ex (\<lambda>x. Q x \<and> P x) xs" for P Q and xs :: "UploadRow list" by (induction xs) auto
  with assms have T: "t_cas T = t_cas A" "t_objects T = t_objects A" "t_parts T = filter (\<lambda>p. \<not> ?gone p) (t_parts A)"
    by (auto simp: del_bucket_def Let_def filter_id_conv)
  have "length (filter (\<lambda>p. col_eq col (p_cas p) h) (filter (\<lambda>p. \<not> ?gone p) ps)) + length (filter (\<lambda>p. col_eq col (p_cas p) h \<and> ?gone p) ps) =
      length (filter (\<lambda>p. col_eq col (p_cas p) h) ps)" for ps by (induction ps) auto
  with T show "t_cas T = t_cas A" "t_objects T = t_objects A" "refs col T h + lost_parts col A (b_id row) h = refs col A h"
    by (simp_all add: refs_def obj_refs_def part_refs_def lost_parts_def)
qed

lemma cas_rows_Row_cas [simp]: "cas_rows (map Row_cas rs) = rs"
  by (induction rs) (auto simp: cas_rows_def)

text \<open>C22: A bucket without objects but with parts of an upload in progress counts as empty and can be deleted; the
  cascade removes the rows of the parts without giving their references back. Whatever the tables, when the counts
  were exact before, the count of every blob is afterwards too high by the number of its parts that went, and a blob
  that was one of those parts is never listed as garbage (\<open>START TRANSACTION\<close> apart, any statement may fail; the two
  operations here succeeded).\<close>

theorem delete_bucket_leaks_parts:
  assumes ok: "meta_env_ok col env view" and n: "no_tx view (ms_db ms) A" and exact: "rc_exact col A"
    and row: "List.find (\<lambda>r. col_eq col (b_name r) name) (t_buckets A) = Some row"
    and none: "\<forall>r \<in> set (t_objects A). o_bucket r \<noteq> b_id row"
    and ask: "MetaStore_IsBucketEmpty env ms (b_id row) = (ms1, Inr is_empty)" and del: "MetaStore_DeleteBucket env ms1 name = (ms2, Inr ())"
  shows "is_empty \<and> (\<exists>T. no_tx view (ms_db ms2) T \<and>
    (\<forall>h. ref_count col T h = refs col T h + lost_parts col A (b_id row) h)) \<and>
    (\<forall>age lim ms3 bs h. MetaStore_GetGarbageBlobs env ms2 age lim = (ms3, Inr bs) \<longrightarrow> 0 < lost_parts col A (b_id row) h \<longrightarrow>
      (\<forall>i \<in> set bs. \<not> col_eq col (ci_sha256_hash i) h))"
proof -
  let ?i = "\<lambda>(d, r :: bool Result). no_tx view d A \<and> (\<forall>v. r = Inr v \<longrightarrow> v)"
  have "?i (ms_db ms1, Inr is_empty)"
  proof (rule with_conn_post [where P = ?i, OF ok n _ _ ask [unfolded MetaStore_IsBucketEmpty_def]])
    fix d assume nd: "no_tx view d A"
    show "?i (sql_then env (Cnt_objects_bucket (b_id row)) (\<lambda>r d. (d, Inr (row_int r = 0))) d)"
      by (rule sql_then_post [where P = ?i, OF ok nd])
        (use none in \<open>auto simp: data_stmt_def rows_def row_int_def filter_empty_conv db_error_def Err_def\<close>)
  qed (auto simp: no_conn_def Err_def)
  then have n1: "no_tx view (ms_db ms1) A" and e: is_empty by auto
  let ?P = "\<lambda>(d, r :: unit Result). r = Inr () \<longrightarrow> (\<exists>T q. no_tx view d T \<and> del_bucket col A name = (T, q))"
  obtain ms' r where w: "with_conn env ms1 (sql_then env (Del_bucket name) (\<lambda>r d.
      (d, if sr_affected r = 0 then Err NoSuchBucket ''Bucket not found'' else Inr ()))) = (ms', r)" by (meson surj_pair)
  have "?P (ms_db ms', r)"
  proof (rule with_conn_post [where P = ?P, OF ok n1 _ _ w])
    fix d assume nd: "no_tx view d A"
    show "?P (sql_then env (Del_bucket name) (\<lambda>r d. (d, if sr_affected r = 0 then Err NoSuchBucket ''Bucket not found'' else Inr ())) d)"
      by (rule sql_then_post [where P = ?P, OF ok nd]) (auto simp: db_error_def Err_def)
  qed (auto simp: no_conn_def Err_def)
  moreover have "r = Inr ()" "ms_db ms2 = ms_db ms'" using del w by (auto simp: MetaStore_DeleteBucket_def split: sum.splits)
  ultimately obtain T q where T: "no_tx view (ms_db ms2) T" "del_bucket col A name = (T, q)" by auto
  note d = del_bucket_refs [OF row none T(2)]
  have c: "ref_count col T h = refs col T h + lost_parts col A (b_id row) h" for h
    using d(3) [of h] exact by (simp add: rc_exact_def ref_count_def d(1))
  let ?g = "\<lambda>(d, r). \<forall>bs. r = Inr bs \<longrightarrow> (\<forall>i \<in> set bs. \<exists>x \<in> set (t_cas T). c_ref x = 0 \<and> ci_sha256_hash i = c_key x)"
  have g: "?g (ms_db ms3, r)" if "MetaStore_GetGarbageBlobs env ms2 age lim = (ms3, r)" for age lim ms3 r
  proof (rule with_conn_post [where P = ?g, OF ok T(1) _ _ that [unfolded MetaStore_GetGarbageBlobs_def]])
    fix d assume nd: "no_tx view d T"
    show "?g (sql_then env (Sel_garbage age lim) (\<lambda>r d. (d, Inr (map (blob_of_row env) (cas_rows (sr_rows r))))) d)"
      by (rule sql_then_post [where P = ?g, OF ok nd])
        (auto simp: data_stmt_def limited_def rows_def blob_of_row_def db_error_def Err_def take_map dest!: in_set_takeD split: if_splits, blast)
  qed (auto simp: no_conn_def Err_def)
  have "False" if "x \<in> set (t_cas T)" "c_ref x = 0" "col_eq col (c_key x) h" "0 < lost_parts col A (b_id row) h" for x h
  proof -
    have "distinct (map (\<lambda>r. col_weight col (c_key r)) (t_cas T))" using exact d(1) by (simp add: rc_exact_def uniq_ok_def)
    then have "List.find (cas_is col h) (t_cas T) = Some x"
      using that(1,3) distinct_key_find [of "\<lambda>r. col_weight col (c_key r)" "t_cas T" x "cas_is col h"] by (auto simp: cas_is_def col_eq_def)
    with that(2,4) c [of h] show False by (simp add: ref_count_def)
  qed
  then have "\<not> col_eq col (ci_sha256_hash i) h"
    if "MetaStore_GetGarbageBlobs env ms2 age lim = (ms3, Inr bs)" "0 < lost_parts col A (b_id row) h" "i \<in> set bs" for age lim ms3 bs h i
    using g [OF that(1)] that(2,3) by (simp, metis)
  with e T(1) c show ?thesis by blast
qed

definition leak_tables :: Tables where
  "leak_tables = one_bucket\<lparr>t_cas := [\<lparr>c_key = ''h1'', c_size = 5, c_ref = 1, c_created = 0, c_updated = 0\<rparr>],
     t_uploads := [\<lparr>u_id = ''u1'', u_bucket = 7, u_key = ''k'', u_ct = ''t'', u_created = 0, u_expires = 99\<rparr>],
     t_parts := [\<lparr>p_upload = ''u1'', p_number = 1, p_cas = ''h1'', p_size = 5, p_etag = ''h1'', p_created = 0\<rparr>]\<rparr>"

theorem delete_bucket_leaks_parts_witness:
  "\<exists>ms1 ms2 T. MetaStore_IsBucketEmpty (mem_env bin_col) (mem_store leak_tables []) 7 = (ms1, Inr True) \<and>
     MetaStore_DeleteBucket (mem_env bin_col) ms1 ''b'' = (ms2, Inr ()) \<and> no_tx mem_db (ms_db ms2) T \<and>
     (\<forall>h. ref_count bin_col T h = refs bin_col T h + lost_parts bin_col leak_tables 7 h) \<and> lost_parts bin_col leak_tables 7 ''h1'' = 1"
proof -
  let ?row = "\<lparr>b_id = 7, b_name = ''b'', b_created = 0\<rparr>"
  let ?a = "MetaStore_IsBucketEmpty (mem_env bin_col) (mem_store leak_tables []) 7"
  let ?d = "MetaStore_DeleteBucket (mem_env bin_col) (fst ?a) ''b''"
  have x: "rc_exact bin_col leak_tables"
    by (auto simp: rc_exact_def uniq_ok_def leak_tables_def one_bucket_def no_tables_def refs_def obj_refs_def part_refs_def
        ref_count_def cas_is_def col_eq_def)
  have row: "List.find (\<lambda>r. col_eq bin_col (b_name r) ''b'') (t_buckets leak_tables) = Some ?row" by code_simp
  have none: "\<forall>r \<in> set (t_objects leak_tables). o_bucket r \<noteq> b_id ?row" by (simp add: leak_tables_def one_bucket_def no_tables_def)
  have "snd ?a = Inr True" "snd ?d = Inr ()" by code_simp+
  then have a: "MetaStore_IsBucketEmpty (mem_env bin_col) (mem_store leak_tables []) (b_id ?row) = (fst ?a, Inr True)"
    and d: "MetaStore_DeleteBucket (mem_env bin_col) (fst ?a) ''b'' = (fst ?d, Inr ())" by (simp_all add: prod_eq_iff)
  have "lost_parts bin_col leak_tables 7 ''h1'' = 1" by code_simp
  with delete_bucket_leaks_parts [OF mem_env_ok mem_store_no_tx x row none a d] a d show ?thesis by auto
qed

end
