(* ===== verification/Reliable_Db.thy ===== *)
theory Reliable_Db
  imports Meta_Theorems
begin

text \<open>
  A database that answers. The hypothesis \<open>meta_env_ok\<close> says what a statement has done when it reports success or an
  error, but lets every statement other than \<open>START TRANSACTION\<close> fail. The locale \<open>reliable_db\<close> adds that connections
  are to be had and that a statement fails only when the data forbid it, with the error of a duplicate key where
  an index forbids it. In it the operations succeed, so that results are stated without the way out of an error.
  \<open>lost_start\<close> shows at an example what the hypothesis on \<open>START TRANSACTION\<close> excludes.
\<close>

section \<open>The contract\<close>

text \<open>An identifier that the auto-increment may hand out for an object.\<close>

definition fresh :: "int \<Rightarrow> Tables \<Rightarrow> bool" where
  "fresh nid T \<longleftrightarrow> (\<forall>r \<in> set (t_objects T). o_id r \<noteq> nid)"

fun clashes :: "Collation \<Rightarrow> Stmt \<Rightarrow> Tables \<Rightarrow> bool" where
  "clashes col (Ins_object b k h sz ct etag) T = list_ex (obj_clash col b k) (t_objects T)"
| "clashes col _ T = False"

text \<open>Counts that fit the column with room for one more, and what an upload needs of the tables.\<close>

definition room :: "Tables \<Rightarrow> bool" where
  "room T \<longleftrightarrow> (\<forall>r \<in> set (t_cas T). c_ref r < 2 ^ 32 - 1)"

lemma find_set: "List.find P xs = Some x \<Longrightarrow> x \<in> set xs"
  by (induction xs) (auto split: if_splits)

lemma list_ex_map_first: "(\<And>r. P (f r) = P r) \<Longrightarrow> list_ex P (map_first Q f xs) = list_ex P xs"
  by (induction xs) auto

lemma set_map_first: "r \<in> set (map_first P f xs) \<Longrightarrow> r \<in> set xs \<or> (\<exists>x \<in> set xs. r = f x)"
  by (induction xs) (auto split: if_splits)

lemma upsert_cas_room:
  assumes "room T" "0 \<le> sz"
  shows "upsert_cas col now T h sz \<noteq> None"
proof (cases "List.find (cas_is col h) (t_cas T)")
  case (Some r)
  with assms(1) find_set [OF Some] have "c_ref r < 2 ^ 32 - 1" by (simp add: room_def)
  with Some assms(2) show ?thesis by (simp add: upsert_cas_def)
qed (use assms in \<open>simp add: upsert_cas_def\<close>)

lemma upsert_cas_keeps:
  assumes "upsert_cas col now T h sz = Some (T', r)"
  shows "has_cas col T' h" "has_cas col T x \<Longrightarrow> has_cas col T' x" "t_buckets T' = t_buckets T" "t_objects T' = t_objects T"
    "room T \<Longrightarrow> \<forall>r \<in> set (t_cas T'). c_ref r < 2 ^ 32"
proof -
  have e: "list_ex (cas_is col x) (map_first (cas_is col h) (\<lambda>r. r\<lparr>c_ref := Suc (c_ref r), c_updated := now\<rparr>) xs) = list_ex (cas_is col x) xs" for x xs
    by (rule list_ex_map_first) (simp add: cas_is_def)
  show "has_cas col T' h" "has_cas col T x \<Longrightarrow> has_cas col T' x" "t_buckets T' = t_buckets T" "t_objects T' = t_objects T"
    using assms find_None_ex [of "cas_is col h" "t_cas T"]
    by (auto simp: upsert_cas_def has_cas_def e cas_is_def split: option.splits if_splits)
  show "\<forall>r \<in> set (t_cas T'). c_ref r < 2 ^ 32" if "room T"
    using assms that by (auto simp: upsert_cas_def room_def split: option.splits if_splits dest!: set_map_first) fastforce+
qed

lemma dec_cas_keeps:
  assumes "\<forall>r \<in> set (t_cas T). c_ref r < 2 ^ 32"
  shows "update_cas col (\<lambda>r. r\<lparr>c_ref := c_ref r - 1, c_updated := now\<rparr>) T k \<noteq> None"
    "update_cas col (\<lambda>r. r\<lparr>c_ref := c_ref r - 1, c_updated := now\<rparr>) T k = Some (T', q) \<Longrightarrow>
     (has_cas col T x \<longrightarrow> has_cas col T' x) \<and> t_buckets T' = t_buckets T \<and> t_objects T' = t_objects T"
proof -
  let ?f = "\<lambda>r. r\<lparr>c_ref := c_ref r - 1, c_updated := now\<rparr>"
  have e: "list_ex (cas_is col x) (map_first (cas_is col k) ?f xs) = list_ex (cas_is col x) xs" for x xs
    by (rule list_ex_map_first) (simp add: cas_is_def)
  show "update_cas col ?f T k \<noteq> None"
  proof (cases "List.find (cas_is col k) (t_cas T)")
    case (Some r)
    with assms find_set [OF Some] have "c_ref r < 2 ^ 32" by simp
    with Some show ?thesis by (simp add: update_cas_def)
  qed (simp add: update_cas_def)
  show "update_cas col ?f T k = Some (T', q) \<Longrightarrow>
     (has_cas col T x \<longrightarrow> has_cas col T' x) \<and> t_buckets T' = t_buckets T \<and> t_objects T' = t_objects T"
    using e by (auto simp: update_cas_def has_cas_def split: option.splits if_splits)
qed

locale reliable_db =
  fixes col :: Collation and env :: "('d, 'r) MetaEnv" and view :: "'d \<Rightarrow> DbState" and up :: "'d \<Rightarrow> bool"
  assumes env_ok: "meta_env_ok col env view"
    and conn: "up d \<Longrightarrow> snd (me_conn env d) \<and> up (fst (me_conn env d))"
    and stays: "up d \<Longrightarrow> up (fst (me_sql env d s))"
    and fails: "up d \<Longrightarrow> me_sql env d s = (d', Sql_err e) \<Longrightarrow> view d' = view d \<and>
      (\<exists>now nid. fresh nid (db_current (view d)) \<and> stmt_effect col now nid (view d) s = None) \<and>
      (clashes col s (db_current (view d)) \<longrightarrow> IsDuplicateKeyError e)"
begin

lemma data_ok:
  assumes u: "up d" and i: "in_tx view d A W" and ds: "data_stmt s"
    and p: "\<And>now nid. fresh nid W \<Longrightarrow> stmt_tables col now nid W s \<noteq> None"
  obtains d' r now nid W' where "me_sql env d s = (d', Sql_ok r)" "up d'" "in_tx view d' A W'" "stmt_tables col now nid W s = Some (W', r)"
proof -
  obtain d' out where s: "me_sql env d s = (d', out)" by (cases "me_sql env d s")
  have c: "db_current (view d) = W" using i by (simp add: in_tx_def db_current_def)
  show ?thesis
  proof (cases out)
    case (Sql_ok r)
    with s have m: "me_sql env d s = (d', Sql_ok r)" by simp
    from tx_stmt_ok [OF env_ok i m ds] stays [OF u, of s] that [OF m] m show ?thesis by auto
  next
    case (Sql_err e)
    from fails [OF u] s Sql_err obtain now nid where f: "fresh nid W" "stmt_effect col now nid (view d) s = None" using c by metis
    with p [OF f(1), of now] c show ?thesis by (simp add: stmt_effect_data [OF ds])
  qed
qed

lemma start_up: "up d \<Longrightarrow> up (Transaction_new env d)"
  by (simp add: Transaction_new_def stays)

lemma rollback_up: "up d \<Longrightarrow> up (Transaction_Rollback env d)"
  by (simp add: Transaction_Rollback_def stays)

lemma commit_ok:
  assumes "up d"
  obtains d' where "Transaction_Commit env d = (d', Inr ())" "up d'"
proof -
  obtain d' out where s: "me_sql env d Commit_tx = (d', out)" by (cases "me_sql env d Commit_tx")
  with fails [OF assms] have "\<nexists>e. out = Sql_err e" by (fastforce simp: stmt_effect_def)
  with s stays [OF assms, of Commit_tx] that [of d'] show ?thesis by (cases out) (auto simp: Transaction_Commit_def)
qed

text \<open>An attempt and an operation that succeed.\<close>

definition done_att :: "'d \<times> 'a Attempt \<Rightarrow> bool" where
  "done_att res \<longleftrightarrow> up (fst res) \<and> (\<exists>v. snd res = Finish (Inr v))"

definition done_res :: "'d \<times> 'a Result \<Rightarrow> bool" where
  "done_res res \<longleftrightarrow> up (fst res) \<and> (\<exists>v. snd res = Inr v)"

lemma tx_then_done:
  assumes "up d" "in_tx view d A W" "data_stmt s" "\<And>now nid. fresh nid W \<Longrightarrow> stmt_tables col now nid W s \<noteq> None"
    and k: "\<And>now nid W' r d'. stmt_tables col now nid W s = Some (W', r) \<Longrightarrow> in_tx view d' A W' \<Longrightarrow> up d' \<Longrightarrow> done_att (k r d')"
  shows "done_att (tx_then env a s k d)"
proof (rule data_ok [OF assms(1-4)])
  fix d' r now nid W'
  assume "me_sql env d s = (d', Sql_ok r)" "up d'" "in_tx view d' A W'" "stmt_tables col now nid W s = Some (W', r)"
  with k [of now nid W' r d'] show ?thesis by (simp add: tx_then_def)
qed

lemma tx1_then_done:
  assumes "up d" "in_tx view d A W" "data_stmt s" "\<And>now nid. fresh nid W \<Longrightarrow> stmt_tables col now nid W s \<noteq> None"
    and k: "\<And>now nid W' r d'. stmt_tables col now nid W s = Some (W', r) \<Longrightarrow> in_tx view d' A W' \<Longrightarrow> up d' \<Longrightarrow> done_res (k r d')"
  shows "done_res (tx1_then env s k d)"
proof (rule data_ok [OF assms(1-4)])
  fix d' r now nid W'
  assume "me_sql env d s = (d', Sql_ok r)" "up d'" "in_tx view d' A W'" "stmt_tables col now nid W s = Some (W', r)"
  with k [of now nid W' r d'] show ?thesis by (simp add: tx1_then_def)
qed

text \<open>The special case of a query.\<close>

lemma tx1_query_done:
  assumes "up d" "in_tx view d A W" "data_stmt s" "\<And>now nid. \<exists>r. stmt_tables col now nid W s = Some (W, r)"
    and k: "\<And>r d'. in_tx view d' A W \<Longrightarrow> up d' \<Longrightarrow> done_res (k r d')"
  shows "done_res (tx1_then env s k d)"
proof (rule tx1_then_done [OF assms(1-3)])
  fix now nid W' r d' assume "stmt_tables col now nid W s = Some (W', r)" "in_tx view d' A W'" "up d'"
  with assms(4) [of now nid] k show "done_res (k r d')" by auto
qed (use assms(4) in fastforce)

lemma tx_commit_done: "up d \<Longrightarrow> done_att (tx_commit env a v d)"
  by (rule commit_ok) (auto simp: tx_commit_def done_att_def)

lemma tx1_commit_done: "up d \<Longrightarrow> done_res (tx1_commit env v d)"
  by (rule commit_ok) (auto simp: tx1_commit_def done_res_def)

lemma with_conn_done:
  assumes "up (ms_db ms)" "no_tx view (ms_db ms) A" "\<And>d. up d \<Longrightarrow> no_tx view d A \<Longrightarrow> done_res (f d)"
  shows "\<exists>ms' v. with_conn env ms f = (ms', Inr v) \<and> up (ms_db ms')"
proof -
  obtain d c where m: "me_conn env (ms_db ms) = (d, c)" by (cases "me_conn env (ms_db ms)")
  with conn [OF assms(1)] env_ok have "c" "up d" "view d = view (ms_db ms)" unfolding meta_env_ok_def by (auto dest: spec [of _ "ms_db ms"])
  with assms(2,3) m show ?thesis by (fastforce simp: with_conn_def done_res_def no_tx_def split: prod.splits)
qed

section \<open>The operations succeed\<close>

lemma can_delete_answers:
  assumes "up (ms_db ms)" "no_tx view (ms_db ms) A"
  shows "\<exists>ms' v. MetaStore_CanDeleteCasBlob env ms k = (ms', Inr v) \<and> up (ms_db ms')"
  unfolding MetaStore_CanDeleteCasBlob_def
proof (rule with_conn_done [OF assms])
  fix d assume d: "up d" "no_tx view d A"
  have parts: "done_res (tx1_then env (Cnt_parts_cas k) (\<lambda>p. tx1_commit env (row_int p = 0)) d')" if "up d'" "in_tx view d' A A" for d'
    by (rule tx1_query_done [OF that]) (auto simp: data_stmt_def intro: tx1_commit_done)
  have objects: "done_res (tx1_then env (Cnt_objects_cas k) (\<lambda>q. if row_int q > 0 then tx1_commit env False
      else tx1_then env (Cnt_parts_cas k) (\<lambda>p. tx1_commit env (row_int p = 0))) d')" if "up d'" "in_tx view d' A A" for d'
    by (rule tx1_query_done [OF that]) (auto simp: data_stmt_def intro: tx1_commit_done parts)
  show "done_res (can_delete_tx env k d)" unfolding can_delete_tx_def
    by (rule tx1_query_done [OF start_up [OF d(1)] tx_new [OF env_ok d(2)]])
      (auto simp: data_stmt_def intro: tx1_commit_done objects split: list.splits SqlRow.splits)
qed

lemma delete_cas_done:
  assumes "up (ms_db ms)" "no_tx view (ms_db ms) A" "refs col A k = 0"
  shows "\<exists>ms'. MetaStore_DeleteCasBlob env ms k = (ms', Inr ()) \<and> up (ms_db ms')"
proof -
  have "\<exists>ms' v. with_conn env ms (sql_then env (Del_cas k) (\<lambda>_ d. (d, Inr ()))) = (ms', Inr v) \<and> up (ms_db ms')"
  proof (rule with_conn_done [OF assms(1,2)])
    fix d assume d: "up d" "no_tx view d A"
    obtain d' out where s: "me_sql env d (Del_cas k) = (d', out)" by (cases "me_sql env d (Del_cas k)")
    have "stmt_effect col now nid (view d) (Del_cas k) \<noteq> None" for now nid
      using d(2) assms(3) by (auto simp: stmt_effect_def no_tx_def db_current_def refs_def obj_refs_def part_refs_def list_ex_iff filter_empty_conv)
    with fails [OF d(1)] s have "\<nexists>e. out = Sql_err e" by blast
    with s stays [OF d(1), of "Del_cas k"] show "done_res (sql_then env (Del_cas k) (\<lambda>_ d. (d, Inr ())) d)"
      by (cases out) (auto simp: sql_then_def done_res_def)
  qed
  then show ?thesis by (simp add: MetaStore_DeleteCasBlob_def)
qed

lemma get_object_found:
  assumes "up (ms_db ms)" "no_tx view (ms_db ms) A" "\<not> me_redis_on env" "MetaStore_GetObject env now ms b k = (ms', r)"
  shows "r = (case filter (obj_is col b k) (t_objects A) of row # _ \<Rightarrow> Inr (object_of_row env row) | [] \<Rightarrow> Err NoSuchKey ''Object not found'')"
    "up (ms_db ms')" "no_tx view (ms_db ms') A"
proof -
  let ?v = "\<lambda>r. case sr_rows r of Row_object row # _ \<Rightarrow> Inr (object_of_row env row) | _ \<Rightarrow> Err NoSuchKey ''Object not found''"
  obtain d c where m: "me_conn env (ms_db ms) = (d, c)" by (cases "me_conn env (ms_db ms)")
  with conn [OF assms(1)] have c: "c = True" "up d" by auto
  obtain d' out where s: "me_sql env d (Sel_object b k) = (d', out)" by (cases "me_sql env d (Sel_object b k)")
  have "out \<noteq> Sql_err e" for e using fails [OF c(2), of "Sel_object b k" d' e] s by (auto simp: stmt_effect_def)
  then obtain q where q: "me_sql env d (Sel_object b k) = (d', Sql_ok q)" using s by (cases out) auto
  have "with_conn env ms (sql_then env (Sel_object b k) (\<lambda>r d. (d, ?v r))) = (ms\<lparr>ms_db := d'\<rparr>, ?v q)"
    by (simp add: with_conn_def m c(1) sql_then_def q)
  then have g: "MetaStore_GetObject env now ms b k = (ms\<lparr>ms_db := d'\<rparr>, ?v q)"
    using assms(3) by (simp add: MetaStore_GetObject_def get_object_db_def split: sum.split)
  have "?v q \<noteq> Err DatabaseError t" for t by (auto simp: Err_def Status_Error_def split: list.split SqlRow.split)
  with get_object_row [OF env_ok assms(2-4)] g assms(4) stays [OF c(2), of "Sel_object b k"] q
  show "r = (case filter (obj_is col b k) (t_objects A) of row # _ \<Rightarrow> Inr (object_of_row env row) | [] \<Rightarrow> Err NoSuchKey ''Object not found'')"
    "up (ms_db ms')" "no_tx view (ms_db ms') A" by auto
qed

lemma swap_refs_done:
  assumes "up d" "in_tx view d A A" "room A" "0 \<le> sz" "has_bucket A b" "old = h \<Longrightarrow> old \<noteq> [] \<Longrightarrow> has_cas col A h"
  shows "done_att (swap_refs env a old h sz (Upsert_object b k h sz ct etag) d)"
proof -
  define fin where "fin = (\<lambda>gc :: string option. tx_then env a (Upsert_object b k h sz ct etag) (\<lambda>_. tx_commit env a gc))"
  define dec where "dec = (if old \<noteq> '''' \<and> old \<noteq> h then tx_then env a (Dec_cas old) (\<lambda>_. tx_then env a (Sel_ref old) (\<lambda>r.
      fin (if first_ref_zero r then Some old else None))) else fin None)"
  have fin: "done_att (fin gc d')" if "up d'" "in_tx view d' A W" "has_cas col W h" "has_bucket W b" for gc d' W
    unfolding fin_def
  proof (rule tx_then_done [OF that(1,2)])
    show "stmt_tables col now nid W (Upsert_object b k h sz ct etag) \<noteq> None" if "fresh nid W" for now nid
      using that \<open>has_cas col W h\<close> \<open>has_bucket W b\<close> assms(4) find_None_ex [of "obj_clash col b k" "t_objects W"]
      by (auto simp: upsert_object_def ins_object_def fresh_def list_ex_iff split: option.split)
  qed (simp_all add: tx_commit_done)
  have dec: "done_att (dec d')" if "up d'" "in_tx view d' A W" "has_cas col W h" "has_bucket W b" "\<forall>r \<in> set (t_cas W). c_ref r < 2 ^ 32" for d' W
  proof (cases "old \<noteq> '''' \<and> old \<noteq> h")
    case True
    have "done_att (tx_then env a (Dec_cas old) (\<lambda>_. tx_then env a (Sel_ref old) (\<lambda>r. fin (if first_ref_zero r then Some old else None))) d')"
    proof (rule tx_then_done [OF that(1,2)])
      fix now nid W' r d2
      assume st: "stmt_tables col now nid W (Dec_cas old) = Some (W', r)" and i: "in_tx view d2 A W'" and u: "up d2"
      then have w: "has_cas col W' h" "has_bucket W' b" using dec_cas_keeps(2) [OF that(5), where now = now and k = old and T' = W' and q = r and x = h] that(3,4) by (auto simp: has_bucket_def)
      show "done_att (tx_then env a (Sel_ref old) (\<lambda>r. fin (if first_ref_zero r then Some old else None)) d2)"
        by (rule tx_then_done [OF u i]) (use w fin in auto)
    qed (use dec_cas_keeps(1) [OF that(5)] in auto)
    with True show ?thesis by (simp add: dec_def)
  next
    case False
    with fin [OF that(1-4)] show ?thesis by (auto simp: dec_def)
  qed
  have small: "\<forall>r \<in> set (t_cas A). c_ref r < 2 ^ 32" using assms(3) by (fastforce simp: room_def)
  have "done_att (tx_then env a (Upsert_cas h sz) (\<lambda>_. dec) d)"
  proof (rule tx_then_done [OF assms(1,2)])
    fix now nid W r d'
    assume st: "stmt_tables col now nid A (Upsert_cas h sz) = Some (W, r)" and i: "in_tx view d' A W" and u: "up d'"
    then have st: "upsert_cas col now A h sz = Some (W, r)" by simp
    note k = upsert_cas_keeps [OF st]
    show "done_att (dec d')" by (rule dec [OF u i k(1) _ k(5) [OF assms(3)]]) (use k(3) assms(5) in \<open>simp add: has_bucket_def\<close>)
  qed (use upsert_cas_room [OF assms(3,4)] in auto)
  moreover have "done_att (dec d)" if "old = h" "old \<noteq> []" using dec [OF assms(1,2) assms(6) [OF that] assms(5) small] .
  moreover have "swap_refs env a old h sz (Upsert_object b k h sz ct etag) d =
      (if old = '''' \<or> old \<noteq> h then tx_then env a (Upsert_cas h sz) (\<lambda>_. dec) d else dec d)"
    by (simp add: swap_refs_def dec_def fin_def Let_def)
  ultimately show ?thesis by auto
qed

lemma put_object_slow_done:
  assumes "up d" "no_tx view d A" "room A" "0 \<le> sz" "has_bucket A b" "rc_safe col A"
  shows "done_att (put_object_slow env a b k sz etag ct h d)"
  unfolding put_object_slow_def
proof (rule tx_then_done [OF start_up [OF assms(1)] tx_new [OF env_ok assms(2)]])
  fix now nid W r d'
  assume st: "stmt_tables col now nid A (Sel_object_cas b k) = Some (W, r)" and i: "in_tx view d' A W" and u: "up d'"
  then have W: "W = A" and s: "first_string r = obj_sel col b k A"
    by (auto simp: first_string_def rows_def obj_sel_def split: list.splits)
  have c: "has_cas col A h" if "obj_sel col b k A = h" "h \<noteq> []"
  proof -
    from that obtain x rest where f: "filter (obj_is col b k) (t_objects A) = x # rest" "o_cas x = h" by (auto simp: obj_sel_def split: list.splits)
    then have "x \<in> set (filter (obj_is col b k) (t_objects A))" unfolding f by simp
    with f(2) have "x \<in> set (filter (\<lambda>r. col_eq col (o_cas r) h) (t_objects A))" by simp
    then have "0 < refs col A h" unfolding refs_def obj_refs_def by (metis length_pos_if_in_set trans_less_add1)
    with assms(6) have "0 < ref_count col A h" unfolding rc_safe_def by (metis less_le_trans)
    then show ?thesis using find_None_ex [of "cas_is col h" "t_cas A"] by (auto simp: ref_count_def has_cas_def split: option.splits)
  qed
  show "done_att (swap_refs env a (first_string r) h sz (Upsert_object b k h sz ct etag) d')"
    unfolding s using swap_refs_done [OF u i [unfolded W] assms(3-5)] c by blast
qed auto

lemma put_object_fast_done:
  assumes "up d" "no_tx view d A" "room A" "0 \<le> sz" "has_bucket A b"
    and f: "put_object_fast env a b k sz etag ct h d = (d', o1)"
  shows "up d' \<and> (o1 = None \<and> no_tx view d' A \<or> (\<exists>v. o1 = Some (Finish (Inr v))))"
proof -
  note d0 = start_up [OF assms(1)] tx_new [OF env_ok assms(2)]
  obtain d1 r1 now nid W where s1: "me_sql env (Transaction_new env d) (Upsert_cas h sz) = (d1, Sql_ok r1)" "up d1" "in_tx view d1 A W"
      "upsert_cas col now A h sz = Some (W, r1)"
    by (rule data_ok [OF d0, of "Upsert_cas h sz"]) (use upsert_cas_room [OF assms(3,4)] in auto)
  note k = upsert_cas_keeps [OF s1(4)]
  obtain d2 o2 where s2: "me_sql env d1 (Ins_object b k h sz ct etag) = (d2, o2)" by (cases "me_sql env d1 (Ins_object b k h sz ct etag)")
  with stays [OF s1(2), of "Ins_object b k h sz ct etag"] have u2: "up d2" by simp
  have c: "db_current (view d1) = W" using s1(3) by (simp add: in_tx_def db_current_def)
  show ?thesis
  proof (cases o2)
    case (Sql_ok r2)
    obtain dc where "Transaction_Commit env d2 = (dc, Inr ())" "up dc" by (rule commit_ok [OF u2])
    with f s1(1) s2 Sql_ok show ?thesis by (auto simp: put_object_fast_def tx_commit_def Let_def)
  next
    case (Sql_err e)
    from fails [OF s1(2)] s2 Sql_err obtain now nid where e: "view d2 = view d1" "fresh nid W"
        "stmt_effect col now nid (view d1) (Ins_object b k h sz ct etag) = None"
        "clashes col (Ins_object b k h sz ct etag) W \<longrightarrow> IsDuplicateKeyError e" unfolding c by blast
    from e(2,3) c k(1,3) assms(4,5) have "clashes col (Ins_object b k h sz ct etag) W"
      by (auto simp: stmt_effect_def ins_object_def fresh_def list_ex_iff has_bucket_def split: if_splits)
    with e(4) f s1(1) s2 Sql_err have o: "o1 = None" "d' = Transaction_Rollback env d2" by (auto simp: put_object_fast_def Let_def)
    have "in_tx view d2 A W \<or> no_tx view d2 A" using s1(3) e(1) by (simp add: in_tx_def)
    from tx_rollback [OF env_ok this] rollback_up [OF u2] o show ?thesis by simp
  qed
qed

lemma put_object_done:
  assumes "up (ms_db ms)" "no_tx view (ms_db ms) A" "room A" "0 \<le> sz" "has_bucket A b" "rc_safe col A"
    and op: "MetaStore_PutObjectWithRefCount env now ms b k sz etag ct h = (ms', r)"
  shows "(\<exists>gc. r = Inr gc) \<and> up (ms_db ms')"
proof -
  obtain d c where m: "me_conn env (ms_db ms) = (d, c)" by (cases "me_conn env (ms_db ms)")
  with conn [OF assms(1)] have c: "c = True" "up d" by auto
  from m env_ok have "view d = view (ms_db ms)" unfolding meta_env_ok_def by (metis fst_conv)
  with assms(2) have n: "no_tx view d A" by (simp add: no_tx_def)
  obtain d1 o1 where f: "put_object_fast env 0 b k sz etag ct h d = (d1, o1)" by (cases "put_object_fast env 0 b k sz etag ct h d")
  note fd = put_object_fast_done [OF c(2) n assms(3-5) f]
  have "\<exists>d' slow v. put_object_loop env kMaxRetries 0 b k sz etag ct h d = (d', slow, Inr v) \<and> up d'"
  proof (cases o1)
    case None
    with fd put_object_slow_done [OF _ _ assms(3-6), of d1 0 k etag ct h] f show ?thesis
      by (auto simp: kMaxRetries_def numeral_3_eq_3 done_att_def split: prod.splits)
  next
    case (Some at)
    with fd f show ?thesis by (auto simp: kMaxRetries_def numeral_3_eq_3)
  qed
  with op m c(1) show ?thesis by (auto simp: MetaStore_PutObjectWithRefCount_def Let_def split: if_splits)
qed

end

section \<open>The memory database answers\<close>

definition mem_up :: "Mem \<Rightarrow> bool" where
  "mem_up m \<longleftrightarrow> mem_faults m = [] \<and> (\<forall>T \<in> insert (db_tables (mem_db m)) (set_option (db_tx (mem_db m))).
     \<forall>r \<in> set (t_objects T). o_id r < mem_next m)"

lemma stmt_tables_ids:
  assumes "stmt_tables col now nid T s = Some (T', r)"
  shows "o_id ` set (t_objects T') \<subseteq> insert nid (o_id ` set (t_objects T))"
proof -
  show "o_id ` set (t_objects T') \<subseteq> insert nid (o_id ` set (t_objects T))"
    using assms by (cases s) (auto simp: upsert_object_def ins_object_def upsert_cas_def update_cas_def upsert_part_def new_object_def del_bucket_def
        idem_put_def Let_def split: if_splits option.splits dest!: set_map_first)
qed

lemma mem_conn [simp]: "me_conn (mem_env col) d = (d, True)"
  by (simp add: mem_env_def)

interpretation mem_db: reliable_db col "mem_env col" mem_db mem_up
proof
  fix d d' :: Mem and s :: Stmt and e :: string
  assume d: "mem_up d"
  then have run: "me_sql (mem_env col) d s = mem_run col d s" by (simp add: mem_up_def mem_env_def mem_sql_def)
  have cur: "\<forall>r \<in> set (t_objects (db_current (mem_db d))). o_id r < mem_next d"
    using d by (auto simp: mem_up_def db_current_def split: option.split)
  show "mem_up (fst (me_sql (mem_env col) d s))"
  proof (cases "stmt_effect col (mem_now d) (mem_next d) (mem_db d) s")
    case (Some x)
    obtain D r where x: "x = (D, r)" by (cases x)
    let ?low = "\<lambda>T. \<forall>r \<in> set (t_objects T). o_id r < mem_next d + 1"
    have low: "?low T" if "T \<in> insert (db_tables (mem_db d)) (set_option (db_tx (mem_db d)))" for T using d that by (fastforce simp: mem_up_def)
    have "?low T'" if "stmt_tables col (mem_now d) (mem_next d) (db_current (mem_db d)) s = Some (T', r)" for T'
      using stmt_tables_ids [OF that] cur by fastforce
    note data = this
    have c: "?low (db_current (mem_db d))" using cur by fastforce
    have "?low T" if t: "T \<in> insert (db_tables D) (set_option (db_tx D))" for T
    proof (cases "data_stmt s")
      case True
      with Some x obtain T' where "stmt_tables col (mem_now d) (mem_next d) (db_current (mem_db d)) s = Some (T', r)" "D = db_write (mem_db d) T'"
        by (auto simp: stmt_effect_data)
      with data t low show ?thesis by (auto simp: db_write_def split: option.splits)
    next
      case False
      with Some x have "D \<in> {\<lparr>db_tables = db_current (mem_db d), db_tx = Some (db_current (mem_db d))\<rparr>,
          \<lparr>db_tables = db_current (mem_db d), db_tx = None\<rparr>, (mem_db d)\<lparr>db_tx := None\<rparr>}"
        by (auto simp: data_stmt_def stmt_effect_def)
      with t c low [of "db_tables (mem_db d)"] show ?thesis by auto
    qed
    with run Some x d show ?thesis by (simp add: mem_run_def mem_up_def)
  qed (use run d in \<open>simp add: mem_run_def\<close>)
  assume "me_sql (mem_env col) d s = (d', Sql_err e)"
  with run have e: "d' = d" "e = ''Duplicate entry''" "stmt_effect col (mem_now d) (mem_next d) (mem_db d) s = None"
    by (auto simp: mem_run_def split: option.splits)
  have "IsDuplicateKeyError ''Duplicate entry''" by code_simp
  moreover have "fresh (mem_next d) (db_current (mem_db d))" using cur by (auto simp: fresh_def)
  ultimately show "mem_db d' = mem_db d \<and>
      (\<exists>now nid. fresh nid (db_current (mem_db d)) \<and> stmt_effect col now nid (mem_db d) s = None) \<and>
      (clashes col s (db_current (mem_db d)) \<longrightarrow> IsDuplicateKeyError e)" using e by blast
qed simp_all

section \<open>A transaction that did not start\<close>

text \<open>The constructor of \<open>Transaction\<close> only logs that \<open>START TRANSACTION\<close> failed, and the statements that follow take
  effect one by one. Here the object \<open>k\<close> is overwritten, the statement after the count of the old blob went down
  fails, and the error leaves the old blob with a count below its references.\<close>

definition no_start_env :: "(Mem, unit) MetaEnv" where
  "no_start_env = (mem_env bin_col)\<lparr>me_sql := \<lambda>m s. if s = Start_transaction then (m, Sql_err ''gone away'') else mem_sql bin_col m s\<rparr>"

definition lost_start :: "(Mem, unit) MetaStore \<times> string option Result" where
  "lost_start = MetaStore_PutObjectWithRefCount no_start_env 0
     (fst (MetaStore_PutObjectWithRefCount (mem_env bin_col) 0 (mem_store one_bucket []) 7 ''k'' 1 ''e'' ''t'' ''h1'')
      \<lparr>ms_db := (ms_db (fst (MetaStore_PutObjectWithRefCount (mem_env bin_col) 0 (mem_store one_bucket []) 7 ''k'' 1 ''e'' ''t'' ''h1'')))
        \<lparr>mem_faults := [None, None, None, None, None, None, None, Some ''lost'']\<rparr>\<rparr>) 7 ''k'' 1 ''e'' ''t'' ''h2''"

lemma lost_start_counts:
  "isl (snd lost_start) \<and> refs bin_col (db_tables (mem_db (ms_db (fst lost_start)))) ''h1'' = 1 \<and>
   ref_count bin_col (db_tables (mem_db (ms_db (fst lost_start)))) ''h1'' = 0"
  by code_simp

end
