(* ===== verification/Gc.thy ===== *)
theory Gc
  imports Cas_Integrity Reliable_Db
begin

text \<open>
  \<^verbatim>\<open>storage/gc.{h,cpp}\<close> with the delete callback that \<^verbatim>\<open>server/server.cpp\<close> installs: the queue of
  candidates and the batch that checks a candidate, moves its file to quarantine, checks again,
  and then removes the file and the metadata or restores the file. The two halves of a candidate are
  separate definitions, so that other threads' steps can be put between them.
\<close>

record GarbageCollector =
  gc_interval_seconds :: int
  gc_batch_size :: int
  gc_running :: bool
  gc_pending_deletes :: "string list"

definition GarbageCollector_new :: "int \<Rightarrow> int \<Rightarrow> GarbageCollector" where
  "GarbageCollector_new interval_seconds batch_size =
     \<lparr>gc_interval_seconds = interval_seconds, gc_batch_size = batch_size, gc_running = False, gc_pending_deletes = []\<rparr>"

text \<open>\<open>Start\<close> and \<open>Stop\<close> set the flag; the thread they start and join runs \<open>GCLoop\<close>.\<close>

definition GarbageCollector_Start :: "GarbageCollector \<Rightarrow> GarbageCollector" where
  "GarbageCollector_Start gc = (if gc_running gc then gc else gc\<lparr>gc_running := True\<rparr>)"

definition GarbageCollector_Stop :: "GarbageCollector \<Rightarrow> GarbageCollector" where
  "GarbageCollector_Stop gc = (if \<not> gc_running gc then gc else gc\<lparr>gc_running := False\<rparr>)"

definition GarbageCollector_destroy :: "GarbageCollector \<Rightarrow> GarbageCollector" where
  "GarbageCollector_destroy gc = GarbageCollector_Stop gc"

definition GarbageCollector_AddPendingDelete :: "GarbageCollector \<Rightarrow> string \<Rightarrow> GarbageCollector" where
  "GarbageCollector_AddPendingDelete gc cas_key = gc\<lparr>gc_pending_deletes := gc_pending_deletes gc @ [cas_key]\<rparr>"

definition GarbageCollector_AddPendingDeletes :: "GarbageCollector \<Rightarrow> string list \<Rightarrow> GarbageCollector" where
  "GarbageCollector_AddPendingDeletes gc cas_keys = foldl GarbageCollector_AddPendingDelete gc cas_keys"

definition GarbageCollector_QueueLength :: "GarbageCollector \<Rightarrow> nat" where
  "GarbageCollector_QueueLength gc = length (gc_pending_deletes gc)"

text \<open>Taking a batch off the queue.\<close>

function take_batch :: "int \<Rightarrow> string list \<Rightarrow> string list \<Rightarrow> string list \<times> string list" where
  "take_batch batch_size batch pending =
     (if pending \<noteq> [] \<and> int (length batch) < batch_size
      then take_batch batch_size (batch @ [hd pending]) (tl pending) else (batch, pending))"
  by pat_completeness auto
termination by (relation "measure (\<lambda>(n, b, p). length p)") auto

declare take_batch.simps [simp del]

datatype GcOutcome = Gc_deleted | Gc_failed | Gc_skipped

text \<open>The first half: \<open>Inl\<close> is \<open>continue\<close>, \<open>Inr renamed\<close> goes on.\<close>

definition gc_quarantine ::
    "('d, 'r) MetaEnv \<Rightarrow> StoreEnv \<Rightarrow> DataStore \<Rightarrow> string \<Rightarrow> string \<Rightarrow> ('d, 'r) MetaStore \<Rightarrow> FileSys \<Rightarrow>
     ('d, 'r) MetaStore \<times> FileSys \<times> (GcOutcome + bool)" where
  "gc_quarantine env se ds cas_key uuid ms fs =
     (case MetaStore_CanDeleteCasBlob env ms cas_key of
        (ms, Inl e) \<Rightarrow> (ms, fs, Inl Gc_failed)
      | (ms, Inr False) \<Rightarrow> (ms, fs, Inl Gc_skipped)
      | (ms, Inr True) \<Rightarrow>
          let file_path = DataStore_GetFilePath ds cas_key;
              quarantine_path = file_path @ ''.gc.'' @ uuid;
              (fs, source_exists) = FileSystem_FileExists fs file_path
          in if source_exists
             then (case FileSystem_AtomicRename (se_strerror se) fs file_path quarantine_path of
                     (fs, rename_status) \<Rightarrow>
                       if \<not> Status_ok rename_status then (ms, fs, Inl Gc_failed) else (ms, fs, Inr True))
             else (ms, fs, Inr False))"

type_synonym ('d, 'r) DeleteCallback = "('d, 'r) MetaStore \<Rightarrow> string \<Rightarrow> bool \<Rightarrow> ('d, 'r) MetaStore"

definition gc_reclaim ::
    "('d, 'r) MetaEnv \<Rightarrow> StoreEnv \<Rightarrow> DataStore \<Rightarrow> ('d, 'r) DeleteCallback option \<Rightarrow> string \<Rightarrow> string \<Rightarrow> bool \<Rightarrow>
     ('d, 'r) MetaStore \<Rightarrow> FileSys \<Rightarrow> ('d, 'r) MetaStore \<times> FileSys \<times> GcOutcome" where
  "gc_reclaim env se ds callback cas_key uuid renamed ms fs =
     (let file_path = DataStore_GetFilePath ds cas_key;
          quarantine_path = file_path @ ''.gc.'' @ uuid
      in case MetaStore_CanDeleteCasBlob env ms cas_key of
           (ms, Inl e) \<Rightarrow>
             if renamed then (ms, fst (FileSystem_AtomicRename (se_strerror se) fs quarantine_path file_path), Gc_failed)
             else (ms, fs, Gc_failed)
         | (ms, Inr False) \<Rightarrow>
             if renamed
             then (case FileSystem_AtomicRename (se_strerror se) fs quarantine_path file_path of
                     (fs, restore_status) \<Rightarrow> (ms, fs, if \<not> Status_ok restore_status then Gc_failed else Gc_skipped))
             else (ms, fs, Gc_skipped)
         | (ms, Inr True) \<Rightarrow>
             (case (if renamed then FileSystem_RemoveFile (se_strerror se) fs quarantine_path else (fs, Status_OK)) of
                (fs, status) \<Rightarrow>
                  let success = Status_ok status in
                  (case callback of None \<Rightarrow> ms | Some cb \<Rightarrow> cb ms cas_key success, fs,
                   if success then Gc_deleted else Gc_failed)))"

definition gc_process_key ::
    "('d, 'r) MetaEnv \<Rightarrow> StoreEnv \<Rightarrow> DataStore \<Rightarrow> ('d, 'r) DeleteCallback option \<Rightarrow> string \<Rightarrow> string \<Rightarrow>
     ('d, 'r) MetaStore \<Rightarrow> FileSys \<Rightarrow> ('d, 'r) MetaStore \<times> FileSys \<times> GcOutcome" where
  "gc_process_key env se ds callback cas_key uuid ms fs =
     (case gc_quarantine env se ds cas_key uuid ms fs of
        (ms, fs, Inl o1) \<Rightarrow> (ms, fs, o1)
      | (ms, fs, Inr renamed) \<Rightarrow> gc_reclaim env se ds callback cas_key uuid renamed ms fs)"

text \<open>The loop over the batch; \<open>uuid i\<close> is the identifier drawn for the \<open>i\<close>-th key.\<close>

fun gc_batch ::
    "('d, 'r) MetaEnv \<Rightarrow> StoreEnv \<Rightarrow> DataStore \<Rightarrow> ('d, 'r) DeleteCallback option \<Rightarrow> (nat \<Rightarrow> string) \<Rightarrow> nat \<Rightarrow>
     string list \<Rightarrow> ('d, 'r) MetaStore \<Rightarrow> FileSys \<Rightarrow> ('d, 'r) MetaStore \<times> FileSys \<times> GcOutcome list" where
  "gc_batch env se ds callback uuid i [] ms fs = (ms, fs, [])"
| "gc_batch env se ds callback uuid i (cas_key # batch) ms fs =
     (case gc_process_key env se ds callback cas_key (uuid i) ms fs of
        (ms, fs, o1) \<Rightarrow>
          (case gc_batch env se ds callback uuid (Suc i) batch ms fs of
             (ms, fs, os) \<Rightarrow> (ms, fs, o1 # os)))"

definition GarbageCollector_ProcessBatch ::
    "('d, 'r) MetaEnv \<Rightarrow> StoreEnv \<Rightarrow> DataStore \<Rightarrow> ('d, 'r) DeleteCallback option \<Rightarrow> (nat \<Rightarrow> string) \<Rightarrow>
     GarbageCollector \<Rightarrow> ('d, 'r) MetaStore \<Rightarrow> FileSys \<Rightarrow>
     GarbageCollector \<times> ('d, 'r) MetaStore \<times> FileSys \<times> GcOutcome list" where
  "GarbageCollector_ProcessBatch env se ds callback uuid gc ms fs =
     (case take_batch (gc_batch_size gc) [] (gc_pending_deletes gc) of
        (batch, pending) \<Rightarrow>
          let gc = gc\<lparr>gc_pending_deletes := pending\<rparr> in
          if batch = [] then (gc, ms, fs, [])
          else (gc, gc_batch env se ds callback uuid 0 batch ms fs))"

definition GarbageCollector_RunOnce ::
    "('d, 'r) MetaEnv \<Rightarrow> StoreEnv \<Rightarrow> DataStore \<Rightarrow> ('d, 'r) DeleteCallback option \<Rightarrow> (nat \<Rightarrow> string) \<Rightarrow>
     GarbageCollector \<Rightarrow> ('d, 'r) MetaStore \<Rightarrow> FileSys \<Rightarrow>
     GarbageCollector \<times> ('d, 'r) MetaStore \<times> FileSys \<times> GcOutcome list" where
  "GarbageCollector_RunOnce = GarbageCollector_ProcessBatch"

text \<open>One turn of \<open>GCLoop\<close> after the wait; \<open>False\<close>: the loop ends.\<close>

definition gc_loop_turn ::
    "('d, 'r) MetaEnv \<Rightarrow> StoreEnv \<Rightarrow> DataStore \<Rightarrow> ('d, 'r) DeleteCallback option \<Rightarrow> (nat \<Rightarrow> string) \<Rightarrow>
     GarbageCollector \<Rightarrow> ('d, 'r) MetaStore \<Rightarrow> FileSys \<Rightarrow> bool \<times> GarbageCollector \<times> ('d, 'r) MetaStore \<times> FileSys" where
  "gc_loop_turn env se ds callback uuid gc ms fs =
     (if \<not> gc_running gc then (False, gc, ms, fs)
      else case GarbageCollector_ProcessBatch env se ds callback uuid gc ms fs of
             (gc, ms, fs, _) \<Rightarrow> (True, gc, ms, fs))"

text \<open>The callback that \<open>Server::Init\<close> installs.\<close>

definition gc_delete_callback :: "('d, 'r) MetaEnv \<Rightarrow> ('d, 'r) DeleteCallback" where
  "gc_delete_callback env ms cas_key success =
     (if success
      then (case MetaStore_CanDeleteCasBlob env ms cas_key of
              (ms, Inl _) \<Rightarrow> ms
            | (ms, Inr False) \<Rightarrow> ms
            | (ms, Inr True) \<Rightarrow> fst (MetaStore_DeleteCasBlob env ms cas_key))
      else ms)"

section \<open>Lemmas\<close>

lemma take_batch_eq:
  "take_batch n batch pending =
     (batch @ take (nat n - length batch) pending, drop (nat n - length batch) pending)"
proof (induction n batch pending rule: take_batch.induct)
  case (1 n batch pending)
  show ?case
  proof (cases "pending \<noteq> [] \<and> int (length batch) < n")
    case True
    then obtain x xs where p: "pending = x # xs" by (cases pending) auto
    have "nat n - length batch = Suc (nat n - Suc (length batch))" using True by linarith
    with 1 [OF True] True p show ?thesis by (subst take_batch.simps) simp
  next
    case False
    then show ?thesis by (subst take_batch.simps) auto
  qed
qed

lemma match_groups_last:
  "match_groups ns s \<Longrightarrow> ns \<noteq> [] \<Longrightarrow> \<exists>p q. s = p @ q \<and> length q = last ns \<and> list_all is_hex_icase q"
proof (induction ns s rule: match_groups.induct)
  case (2 n s)
  then show ?case by (intro exI [of _ "[]"] exI [of _ s]) simp
next
  case (3 n m ns s)
  then obtain p q where "drop (Suc n) s = p @ q" "length q = last (m # ns)" "list_all is_hex_icase q" by auto
  then have "s = (take (Suc n) s @ p) @ q" by (metis append.assoc append_take_drop_id)
  then have "s = (take (Suc n) s @ p) @ q \<and> length q = last (n # m # ns) \<and> list_all is_hex_icase q"
    using \<open>length q = _\<close> \<open>list_all is_hex_icase q\<close> by simp
  then show ?case by blast
qed simp

lemma uuid_not_blob:
  assumes "UUID_IsValid u"
  shows "x @ u \<noteq> y @ ''.blob''"
proof
  assume e: "x @ u = y @ ''.blob''"
  from assms match_groups_last [of "[8, 4, 4, 4, 12]" u] obtain p q where
    u: "u = p @ q" "length q = 12" "list_all is_hex_icase q" by (auto simp: UUID_IsValid_def)
  have "rev q ! 1 = rev (x @ u) ! 1" using u by (simp add: nth_append rev_append)
  also have "\<dots> = CHR ''o''" unfolding e by simp
  finally have "CHR ''o'' = rev q ! 1" by simp
  then have "CHR ''o'' \<in> set q" using u(2) by (metis length_rev nth_mem one_less_numeral_iff semiring_norm(76) set_rev less_trans)
  then have "is_hex_icase (CHR ''o'')" using u(3) by (simp add: list_all_iff)
  then show False by (simp add: is_hex_icase_def is_lower_hex_def tolower_def)
qed

lemma quarantine_not_cas:
  assumes "UUID_IsValid u"
  shows "DataStore_GetFilePath ds k @ ''.gc.'' @ u \<noteq> CasLayout_GetCasPath base k'"
proof -
  obtain p where "CasLayout_GetCasPath base k' = (p @ k') @ ''.blob''" using GetCasPath_suffix [of base k'] by auto
  then show ?thesis using uuid_not_blob [OF assms, of "DataStore_GetFilePath ds k @ ''.gc.''" "p @ k'"] by simp
qed

lemma cas_path_inj:
  "CasLayout_IsValidCasKey k \<Longrightarrow> CasLayout_IsValidCasKey k' \<Longrightarrow>
   CasLayout_GetCasPath base k = CasLayout_GetCasPath base k' \<Longrightarrow> k = k'"
  using GetCasPath_inj valid_key_length by metis

text \<open>A check of a candidate on tables \<open>A\<close>.\<close>

definition collectable :: "Collation \<Rightarrow> Tables \<Rightarrow> string \<Rightarrow> bool" where
  "collectable col A k \<longleftrightarrow> has_cas col A k \<and> ref_count col A k = 0 \<and> refs col A k = 0"

lemma can_delete_cases:
  assumes ok: "meta_env_ok col env view" and n: "no_tx view (ms_db ms) A"
    and op: "MetaStore_CanDeleteCasBlob env ms h = (ms', r)"
  shows "no_tx view (ms_db ms') A" "r = Inr v \<Longrightarrow> v = collectable col A h"
  using can_delete_post [OF ok n op] by (auto simp: res_post_def collectable_def refs_def split: sum.splits)

lemma refs_cong: "t_objects T = t_objects A \<Longrightarrow> t_parts T = t_parts A \<Longrightarrow> refs col T k = refs col A k"
  by (simp add: refs_def obj_refs_def part_refs_def)

lemma delete_cas_post:
  assumes ok: "meta_env_ok col env view" and n: "no_tx view (ms_db ms) A"
    and op: "MetaStore_DeleteCasBlob env ms h = (ms', r)"
  shows "\<exists>T. no_tx view (ms_db ms') T \<and> (rc_safe col A \<longrightarrow> rc_safe col T) \<and> t_objects T = t_objects A \<and> t_parts T = t_parts A \<and>
    (r = Inr () \<longrightarrow> refs col A h = 0 \<longrightarrow> \<not> has_cas col T h) \<and> (\<forall>x. collectable col T x \<longrightarrow> collectable col A x) \<and>
    t_buckets T = t_buckets A \<and> set (t_cas T) \<subseteq> set (t_cas A)"
proof -
  let ?P = "\<lambda>(d, r :: unit Result). \<exists>T. no_tx view d T \<and> (rc_safe col A \<longrightarrow> rc_safe col T) \<and> t_objects T = t_objects A \<and>
    t_parts T = t_parts A \<and> (r = Inr () \<longrightarrow> refs col A h = 0 \<longrightarrow> \<not> has_cas col T h) \<and> (\<forall>x. collectable col T x \<longrightarrow> collectable col A x) \<and>
    t_buckets T = t_buckets A \<and> set (t_cas T) \<subseteq> set (t_cas A)"
  have "?P (ms_db ms', r)"
  proof (rule with_conn_post [where P = ?P, OF ok n _ _ op [unfolded MetaStore_DeleteCasBlob_def]])
    fix d assume nd: "no_tx view d A"
    show "?P (sql_then env (Del_cas h) (\<lambda>_ d. (d, Inr ())) d)"
    proof (rule sql_then_post [where P = ?P, OF ok nd])
      fix now nid T r d' assume st: "stmt_tables col now nid A (Del_cas h) = Some (T, r)" and n': "no_tx view d' T"
      have "rc_safe col A \<longrightarrow> rc_safe col T" using plain_stmt_safe [OF st] by simp
      moreover have "t_objects T = t_objects A" "t_parts T = t_parts A" using st by (auto split: if_splits)
      moreover have "\<not> has_cas col T h" if "refs col A h = 0"
        using st that by (auto simp: refs_def obj_refs_def part_refs_def list_ex_iff has_cas_def filter_empty_conv split: if_splits)
      moreover have "collectable col A x" if "collectable col T x" for x
      proof (cases "T = A")
        case False
        with st have T: "t_cas T = filter (\<lambda>r. \<not> cas_is col h r) (t_cas A)" "t_objects T = t_objects A" "t_parts T = t_parts A"
          by (auto split: if_splits)
        with that obtain r where r: "r \<in> set (t_cas A)" "cas_is col x r" "\<not> cas_is col h r" by (auto simp: collectable_def has_cas_def list_ex_iff)
        then have "\<not> col_eq col x h" by (auto simp: cas_is_def col_eq_def)
        then have "List.find (cas_is col x) (filter (\<lambda>r. \<not> cas_is col h r) xs) = List.find (cas_is col x) xs" for xs
          using cas_is_excl [of col x h] by (induction xs) auto
        then have "ref_count col T x = ref_count col A x" by (simp add: ref_count_def T(1))
        with that r(1,2) show ?thesis using refs_cong [OF T(2,3)] by (auto simp: collectable_def has_cas_def list_ex_iff)
      qed (use that in simp)
      moreover have "t_buckets T = t_buckets A" "set (t_cas T) \<subseteq> set (t_cas A)" using st by (auto split: if_splits)
      ultimately show "?P (d', Inr ())" using n' by auto
    qed (use n in \<open>auto simp: db_error_def Err_def\<close>)
  qed (auto simp: no_conn_def Err_def)
  then show ?thesis by simp
qed

lemma gc_callback_post:
  assumes ok: "meta_env_ok col env view" and n: "no_tx view (ms_db ms) A"
  shows "\<exists>T. no_tx view (ms_db (gc_delete_callback env ms k b)) T \<and> (rc_safe col A \<longrightarrow> rc_safe col T) \<and>
    t_objects T = t_objects A \<and> t_parts T = t_parts A \<and> (\<forall>x. collectable col T x \<longrightarrow> collectable col A x)"
proof -
  obtain ms1 r where c: "MetaStore_CanDeleteCasBlob env ms k = (ms1, r)" by (cases "MetaStore_CanDeleteCasBlob env ms k")
  note n1 = can_delete_cases(1) [OF ok n c]
  obtain ms2 q where d: "MetaStore_DeleteCasBlob env ms1 k = (ms2, q)" by (cases "MetaStore_DeleteCasBlob env ms1 k")
  have "gc_delete_callback env ms k b \<in> {ms, ms1, ms2}"
    using c d by (auto simp: gc_delete_callback_def split: sum.splits bool.splits)
  then show ?thesis using n n1 delete_cas_post [OF ok n1 d] by auto
qed

text \<open>The files: only the candidate's file and its quarantine name change.\<close>

lemma gc_quarantine_files:
  assumes "gc_quarantine env se ds k u ms fs = (ms', fs', out)"
  shows "fs_files fs' = fs_files fs \<and> out \<noteq> Inr True \<or>
    out = Inr True \<and> (\<exists>c. blob ds fs k = Some c \<and>
      fs_files fs' = (fs_files fs)(CasLayout_GetCasPath (ds_base_dir ds) k := None, DataStore_GetFilePath ds k @ ''.gc.'' @ u := Some c))"
proof -
  let ?p = "DataStore_GetFilePath ds k" and ?q = "DataStore_GetFilePath ds k @ ''.gc.'' @ u"
  obtain f ex where e: "FileSystem_FileExists fs ?p = (f, ex)" by (cases "FileSystem_FileExists fs ?p")
  obtain g st where r: "FileSystem_AtomicRename (se_strerror se) f ?p ?q = (g, st)"
    by (cases "FileSystem_AtomicRename (se_strerror se) f ?p ?q")
  note f = FileExists_files [OF e] and g = AtomicRename_files [OF r]
  have "(fs', out) \<in> {(fs, Inl Gc_failed), (fs, Inl Gc_skipped), (f, Inr False), (g, if Status_ok st then Inr True else Inl Gc_failed)}"
    using assms e r by (auto simp: gc_quarantine_def Let_def split: prod.splits sum.splits bool.splits if_splits)
  with f g show ?thesis by (auto simp: blob_def DataStore_GetFilePath_def split: if_splits)
qed

lemma gc_reclaim_files:
  assumes "gc_reclaim env se ds cb k u renamed ms fs = (ms', fs', out)"
  shows "same_except {CasLayout_GetCasPath (ds_base_dir ds) k, DataStore_GetFilePath ds k @ ''.gc.'' @ u} fs fs' \<and>
    (blob ds fs' k = blob ds fs k \<or> blob ds fs' k = fs_files fs (DataStore_GetFilePath ds k @ ''.gc.'' @ u) \<and> blob ds fs' k \<noteq> None) \<or>
    \<not> UUID_IsValid u"
proof (cases "UUID_IsValid u")
  case True
  let ?p = "DataStore_GetFilePath ds k" and ?q = "DataStore_GetFilePath ds k @ ''.gc.'' @ u"
  obtain f st where r: "FileSystem_AtomicRename (se_strerror se) fs ?q ?p = (f, st)" by (cases "FileSystem_AtomicRename (se_strerror se) fs ?q ?p")
  obtain g st' where d: "FileSystem_RemoveFile (se_strerror se) fs ?q = (g, st')" by (cases "FileSystem_RemoveFile (se_strerror se) fs ?q")
  have fs': "fs' \<in> {fs, f, g}"
    using assms r d by (auto simp: gc_reclaim_def Let_def split: prod.splits sum.splits bool.splits if_splits)
  have pq: "?q \<noteq> CasLayout_GetCasPath (ds_base_dir ds) k" using quarantine_not_cas [OF True] .
  note f = AtomicRename_files [OF r] and g = RemoveFile_files [OF d]
  from fs' show ?thesis
  proof (elim insertE emptyE)
    assume "fs' = f"
    with f pq show ?thesis
      by (auto simp: same_except_def blob_def DataStore_GetFilePath_def split: if_splits)
  next
    assume "fs' = g"
    with g pq show ?thesis by (auto simp: same_except_def blob_def)
  qed simp
qed simp

text \<open>What a run of the collector keeps: the tables' references, the invariant of the counts, and every
  file of a blob that is referred to; no file gets other content.\<close>

definition gc_keeps ::
    "Collation \<Rightarrow> ('d \<Rightarrow> DbState) \<Rightarrow> DataStore \<Rightarrow> Tables \<Rightarrow> FileSys \<Rightarrow> ('d, 'r) MetaStore \<Rightarrow> FileSys \<Rightarrow> bool" where
  "gc_keeps col view ds A fs ms' fs' \<longleftrightarrow>
     (\<exists>T. no_tx view (ms_db ms') T \<and> (rc_safe col A \<longrightarrow> rc_safe col T) \<and> t_objects T = t_objects A \<and> t_parts T = t_parts A) \<and>
     (\<forall>k. CasLayout_IsValidCasKey k \<longrightarrow>
        blob ds fs' k \<in> {None, blob ds fs k} \<and> (0 < refs col A k \<longrightarrow> blob ds fs' k = blob ds fs k))"

lemma gc_keeps_trans:
  assumes 1: "gc_keeps col view ds A fs ms1 fs1"
    and 2: "\<And>T. no_tx view (ms_db ms1) T \<Longrightarrow> gc_keeps col view ds T fs1 ms2 fs2"
  shows "gc_keeps col view ds A fs ms2 fs2"
proof -
  from 1 obtain T where T: "no_tx view (ms_db ms1) T" "rc_safe col A \<longrightarrow> rc_safe col T" "t_objects T = t_objects A" "t_parts T = t_parts A"
    and b1: "\<And>k. CasLayout_IsValidCasKey k \<Longrightarrow> blob ds fs1 k \<in> {None, blob ds fs k} \<and> (0 < refs col A k \<longrightarrow> blob ds fs1 k = blob ds fs k)"
    unfolding gc_keeps_def by blast
  from 2 [OF T(1)] obtain T' where T': "no_tx view (ms_db ms2) T'" "rc_safe col T \<longrightarrow> rc_safe col T'" "t_objects T' = t_objects T" "t_parts T' = t_parts T"
    and b2: "\<And>k. CasLayout_IsValidCasKey k \<Longrightarrow> blob ds fs2 k \<in> {None, blob ds fs1 k} \<and> (0 < refs col T k \<longrightarrow> blob ds fs2 k = blob ds fs1 k)"
    unfolding gc_keeps_def by blast
  have r: "refs col T k = refs col A k" for k using refs_cong [OF T(3,4)] .
  have "blob ds fs2 k \<in> {None, blob ds fs k} \<and> (0 < refs col A k \<longrightarrow> blob ds fs2 k = blob ds fs k)" if "CasLayout_IsValidCasKey k" for k
    using b1 [OF that] b2 [OF that] r by auto
  with T T' show ?thesis unfolding gc_keeps_def by auto
qed

lemma gc_process_key_keeps:
  assumes ok: "meta_env_ok col env view" and n: "no_tx view (ms_db ms) A" and v: "CasLayout_IsValidCasKey k" "UUID_IsValid u"
    and op: "gc_process_key env se ds (Some (gc_delete_callback env)) k u ms fs = (ms', fs', out)"
  shows "gc_keeps col view ds A fs ms' fs'"
proof -
  let ?p = "CasLayout_GetCasPath (ds_base_dir ds) k" and ?q = "DataStore_GetFilePath ds k @ ''.gc.'' @ u"
  obtain ms0 r0 where c0: "MetaStore_CanDeleteCasBlob env ms k = (ms0, r0)" by (cases "MetaStore_CanDeleteCasBlob env ms k")
  note n0 = can_delete_cases(1) [OF ok n c0]
  obtain ms1 fs1 q where q: "gc_quarantine env se ds k u ms fs = (ms1, fs1, q)" by (cases "gc_quarantine env se ds k u ms fs")
  have ms1: "ms1 = ms0" "\<exists>b. q = Inr b \<Longrightarrow> r0 = Inr True"
    using q c0 by (auto simp: gc_quarantine_def Let_def split: prod.splits sum.splits bool.splits if_splits)
  note f1 = gc_quarantine_files [OF q]
  show ?thesis
  proof (cases q)
    case (Inl o1)
    with op q have "ms' = ms1" "fs' = fs1" by (simp_all add: gc_process_key_def)
    moreover have "fs_files fs1 = fs_files fs" using f1 Inl by blast
    ultimately have b: "blob ds fs' k' = blob ds fs k'" for k' by (simp add: blob_def)
    have "no_tx view (ms_db ms') A" using n0 ms1(1) \<open>ms' = ms1\<close> by simp
    with b show ?thesis unfolding gc_keeps_def by simp (metis)
  next
    case (Inr ren)
    then have "r0 = Inr True" using ms1(2) by blast
    from can_delete_cases(2) [OF ok n c0 this] have "collectable col A k" by simp
    then have z: "refs col A k = 0" by (simp add: collectable_def)
    from Inr op q have rec: "gc_reclaim env se ds (Some (gc_delete_callback env)) k u ren ms1 fs1 = (ms', fs', out)"
      by (simp add: gc_process_key_def)
    have pq: "?q \<noteq> CasLayout_GetCasPath (ds_base_dir ds) k'" for k' using quarantine_not_cas [OF v(2)] .
    from gc_reclaim_files [OF rec] v(2) have s: "same_except {?p, ?q} fs1 fs'"
      and b: "blob ds fs' k = blob ds fs1 k \<or> blob ds fs' k = fs_files fs1 ?q \<and> blob ds fs' k \<noteq> None" by auto
    have other: "blob ds fs' k' = blob ds fs k'" if "CasLayout_IsValidCasKey k'" "k' \<noteq> k" for k'
    proof -
      have "CasLayout_GetCasPath (ds_base_dir ds) k' \<notin> {?p, ?q}" using cas_path_inj [OF that(1) v(1), of "ds_base_dir ds"] that(2) pq [of k'] by force
      moreover from this f1 have "blob ds fs1 k' = blob ds fs k'" by (elim disjE conjE exE) (simp_all add: blob_def)
      ultimately show ?thesis using s by (simp add: blob_def same_except_def)
    qed
    have same: "blob ds fs' k \<in> {None, blob ds fs k}"
    proof (cases ren)
      case True
      with f1 Inr obtain c where c: "blob ds fs k = Some c" "fs_files fs1 = (fs_files fs)(?p := None, ?q := Some c)" by blast
      then have "blob ds fs1 k = None" "fs_files fs1 ?q = Some c" using pq [of k] by (simp_all add: blob_def)
      with b c(1) show ?thesis by auto
    next
      case False
      with f1 Inr have e: "fs_files fs1 = fs_files fs" by blast
      have "fs' = fs1" using rec False by (auto simp: gc_reclaim_def Let_def split: prod.splits sum.splits bool.splits)
      with e show ?thesis by (simp add: blob_def)
    qed
    obtain ms2 r2 where c2: "MetaStore_CanDeleteCasBlob env ms1 k = (ms2, r2)" by (cases "MetaStore_CanDeleteCasBlob env ms1 k")
    have n1: "no_tx view (ms_db ms1) A" using n0 ms1(1) by simp
    note n2 = can_delete_cases(1) [OF ok n1 c2]
    have "ms' = ms2 \<or> (\<exists>b. ms' = gc_delete_callback env ms2 k b)"
      using rec c2 by (auto simp: gc_reclaim_def Let_def split: prod.splits sum.splits bool.splits if_splits)
    then have "\<exists>T. no_tx view (ms_db ms') T \<and> (rc_safe col A \<longrightarrow> rc_safe col T) \<and> t_objects T = t_objects A \<and> t_parts T = t_parts A"
    proof (elim disjE exE)
      assume "ms' = ms2"
      with n2 show ?thesis by blast
    next
      fix b assume "ms' = gc_delete_callback env ms2 k b"
      with gc_callback_post [OF ok n2, of k b] show ?thesis by blast
    qed
    moreover have "blob ds fs' k' \<in> {None, blob ds fs k'} \<and> (0 < refs col A k' \<longrightarrow> blob ds fs' k' = blob ds fs k')"
      if "CasLayout_IsValidCasKey k'" for k'
      using other [OF that] same z by (cases "k' = k") auto
    ultimately show ?thesis unfolding gc_keeps_def by blast
  qed
qed

lemma gc_batch_keeps:
  assumes ok: "meta_env_ok col env view" and u: "\<And>i. UUID_IsValid (uuid i)"
  shows "no_tx view (ms_db ms) A \<Longrightarrow> list_all CasLayout_IsValidCasKey ks \<Longrightarrow>
    gc_batch env se ds (Some (gc_delete_callback env)) uuid i ks ms fs = (ms', fs', os) \<Longrightarrow> gc_keeps col view ds A fs ms' fs'"
proof (induction ks arbitrary: i ms fs A os)
  case Nil
  then show ?case by (auto simp: gc_keeps_def)
next
  case (Cons k ks)
  obtain ms1 fs1 o1 where p: "gc_process_key env se ds (Some (gc_delete_callback env)) k (uuid i) ms fs = (ms1, fs1, o1)"
    by (cases "gc_process_key env se ds (Some (gc_delete_callback env)) k (uuid i) ms fs")
  obtain ms2 fs2 os2 where b: "gc_batch env se ds (Some (gc_delete_callback env)) uuid (Suc i) ks ms1 fs1 = (ms2, fs2, os2)"
    by (cases "gc_batch env se ds (Some (gc_delete_callback env)) uuid (Suc i) ks ms1 fs1")
  have e: "ms' = ms2" "fs' = fs2" using Cons.prems(3) p b by simp_all
  show ?case unfolding e
  proof (rule gc_keeps_trans)
    show "gc_keeps col view ds A fs ms1 fs1"
      using gc_process_key_keeps [OF ok Cons.prems(1) _ u p] Cons.prems(2) by simp
    show "gc_keeps col view ds T fs1 ms2 fs2" if "no_tx view (ms_db ms1) T" for T
      using Cons.IH [OF that _ b [folded e]] Cons.prems(2) e by simp
  qed
qed

text \<open>Which files a candidate may touch, and that no blob becomes collectable.\<close>

definition gc_paths :: "DataStore \<Rightarrow> string \<Rightarrow> string \<Rightarrow> string set" where
  "gc_paths ds k u = {CasLayout_GetCasPath (ds_base_dir ds) k, DataStore_GetFilePath ds k @ ''.gc.'' @ u}"

lemma gc_process_key_only:
  assumes ok: "meta_env_ok col env view" and n: "no_tx view (ms_db ms) A" and u: "UUID_IsValid u"
    and op: "gc_process_key env se ds (Some (gc_delete_callback env)) k u ms fs = (ms', fs', out)"
  shows "same_except (if collectable col A k then gc_paths ds k u else {}) fs fs' \<and>
    (\<exists>T. no_tx view (ms_db ms') T \<and> (\<forall>x. collectable col T x \<longrightarrow> collectable col A x))"
proof -
  obtain ms0 r0 where c0: "MetaStore_CanDeleteCasBlob env ms k = (ms0, r0)" by (cases "MetaStore_CanDeleteCasBlob env ms k")
  note n0 = can_delete_cases(1) [OF ok n c0]
  obtain ms1 fs1 q where q: "gc_quarantine env se ds k u ms fs = (ms1, fs1, q)" by (cases "gc_quarantine env se ds k u ms fs")
  have ms1: "ms1 = ms0" "\<exists>b. q = Inr b \<Longrightarrow> r0 = Inr True"
    using q c0 by (auto simp: gc_quarantine_def Let_def split: prod.splits sum.splits bool.splits if_splits)
  note f1 = gc_quarantine_files [OF q]
  show ?thesis
  proof (cases q)
    case (Inl o1)
    with op q f1 have "ms' = ms1" "fs_files fs' = fs_files fs" by (auto simp: gc_process_key_def)
    with n0 ms1(1) show ?thesis by (auto simp: same_except_def)
  next
    case (Inr ren)
    then have "r0 = Inr True" using ms1(2) by blast
    from can_delete_cases(2) [OF ok n c0 this] have free: "collectable col A k" by simp
    from Inr op q have rec: "gc_reclaim env se ds (Some (gc_delete_callback env)) k u ren ms1 fs1 = (ms', fs', out)"
      by (simp add: gc_process_key_def)
    have "same_except (gc_paths ds k u) fs fs1" using f1 by (auto simp: same_except_def gc_paths_def)
    moreover have "same_except (gc_paths ds k u) fs1 fs'" using gc_reclaim_files [OF rec] u by (auto simp: gc_paths_def)
    ultimately have s: "same_except (gc_paths ds k u) fs fs'" by (simp add: same_except_def)
    obtain ms2 r2 where c2: "MetaStore_CanDeleteCasBlob env ms1 k = (ms2, r2)" by (cases "MetaStore_CanDeleteCasBlob env ms1 k")
    have n1: "no_tx view (ms_db ms1) A" using n0 ms1(1) by simp
    note n2 = can_delete_cases(1) [OF ok n1 c2]
    have "ms' = ms2 \<or> (\<exists>b. ms' = gc_delete_callback env ms2 k b)"
      using rec c2 by (auto simp: gc_reclaim_def Let_def split: prod.splits sum.splits bool.splits if_splits)
    with n2 gc_callback_post [OF ok n2, of k] free s show ?thesis by metis
  qed
qed

lemma gc_batch_only:
  assumes ok: "meta_env_ok col env view" and u: "\<And>i. UUID_IsValid (uuid i)"
  shows "no_tx view (ms_db ms) A \<Longrightarrow>
    gc_batch env se ds (Some (gc_delete_callback env)) uuid i ks ms fs = (ms', fs', os) \<Longrightarrow>
    same_except (\<Union>k \<in> {k \<in> set ks. collectable col A k}. \<Union>i. gc_paths ds k (uuid i)) fs fs'"
proof (induction ks arbitrary: i ms fs A os)
  case (Cons k ks)
  obtain ms1 fs1 o1 where p: "gc_process_key env se ds (Some (gc_delete_callback env)) k (uuid i) ms fs = (ms1, fs1, o1)"
    by (cases "gc_process_key env se ds (Some (gc_delete_callback env)) k (uuid i) ms fs")
  obtain ms2 fs2 os2 where b: "gc_batch env se ds (Some (gc_delete_callback env)) uuid (Suc i) ks ms1 fs1 = (ms2, fs2, os2)"
    by (cases "gc_batch env se ds (Some (gc_delete_callback env)) uuid (Suc i) ks ms1 fs1")
  have e: "ms' = ms2" "fs' = fs2" using Cons.prems(2) p b by simp_all
  from gc_process_key_only [OF ok Cons.prems(1) u p] obtain T where s: "same_except (if collectable col A k then gc_paths ds k (uuid i) else {}) fs fs1"
    and T: "no_tx view (ms_db ms1) T" "\<And>x. collectable col T x \<Longrightarrow> collectable col A x" by blast
  from Cons.IH [OF T(1) b [folded e]] s T(2) e show ?case by (fastforce simp: same_except_def split: if_splits)
qed (simp add: same_except_def)

lemma gc_paths_other:
  assumes "CasLayout_IsValidCasKey k" "CasLayout_IsValidCasKey k'" "UUID_IsValid u" "k \<noteq> k'"
  shows "CasLayout_GetCasPath (ds_base_dir ds) k \<notin> gc_paths ds k' u"
  using cas_path_inj [OF assms(1,2), of "ds_base_dir ds"] quarantine_not_cas [OF assms(3), of ds k' "ds_base_dir ds" k] assms(4)
  unfolding gc_paths_def by (metis insertE singletonD)

section \<open>Theorems\<close>

text \<open>C23: A batch of the collector, whatever its queue holds and whatever system calls and statements (but
  \<open>START TRANSACTION\<close>) fail, takes the first \<open>batch_size\<close> keys of the queue and changes no file but those of the
  taken keys that are collectable (a row, count 0, no object and no part), under their name or in quarantine.
  So the file of a blob that was not taken, that is referred to or that has a positive count is as before; no
  blob gets other content, every reference stays and counts stay at least the references. Keys are well formed.\<close>

theorem gc_batch_safe:
  assumes ok: "meta_env_ok col env view" and n: "no_tx view (ms_db ms) A" and safe: "rc_safe col A"
    and u: "\<And>i. UUID_IsValid (uuid i)" and ks: "list_all CasLayout_IsValidCasKey (gc_pending_deletes gc)"
    and op: "GarbageCollector_ProcessBatch env se ds (Some (gc_delete_callback env)) uuid gc ms fs = (gc', ms', fs', os)"
  defines "batch \<equiv> take (nat (gc_batch_size gc)) (gc_pending_deletes gc)"
  shows "gc_pending_deletes gc' = drop (nat (gc_batch_size gc)) (gc_pending_deletes gc) \<and>
    same_except (\<Union>k \<in> {k \<in> set batch. collectable col A k}. \<Union>i. gc_paths ds k (uuid i)) fs fs' \<and>
    (\<forall>k. CasLayout_IsValidCasKey k \<longrightarrow> blob ds fs' k \<in> {None, blob ds fs k} \<and>
      (k \<notin> set batch \<or> 0 < refs col A k \<or> 0 < ref_count col A k \<longrightarrow> blob ds fs' k = blob ds fs k)) \<and>
    (\<exists>T. no_tx view (ms_db ms') T \<and> rc_safe col T \<and> (\<forall>k. refs col T k = refs col A k))"
proof -
  have gb: "gc_batch env se ds (Some (gc_delete_callback env)) uuid 0 batch ms fs = (ms', fs', os)"
    and d: "gc_pending_deletes gc' = drop (nat (gc_batch_size gc)) (gc_pending_deletes gc)"
    using op by (auto simp: batch_def GarbageCollector_ProcessBatch_def take_batch_eq Let_def split: if_splits)
  have v: "list_all CasLayout_IsValidCasKey batch" using ks by (auto simp: batch_def list_all_iff dest: in_set_takeD)
  note only = gc_batch_only [OF ok u n gb]
  have same: "blob ds fs' k = blob ds fs k" if k: "CasLayout_IsValidCasKey k" "k \<notin> set batch \<or> 0 < refs col A k \<or> 0 < ref_count col A k" for k
  proof -
    have "CasLayout_GetCasPath (ds_base_dir ds) k \<notin> gc_paths ds k' (uuid i)" if "k' \<in> set batch" "collectable col A k'" for k' i
    proof -
      have "k \<noteq> k'" using that k(2) by (auto simp: collectable_def)
      with v that(1) show ?thesis using gc_paths_other [OF k(1) _ u] by (simp add: list_all_iff)
    qed
    then have "CasLayout_GetCasPath (ds_base_dir ds) k \<notin> (\<Union>k \<in> {k \<in> set batch. collectable col A k}. \<Union>i. gc_paths ds k (uuid i))" by blast
    then show ?thesis using only unfolding blob_def same_except_def by blast
  qed
  note keeps = gc_batch_keeps [OF ok u n v gb, unfolded gc_keeps_def]
  from keeps safe obtain T where "no_tx view (ms_db ms') T" "rc_safe col T" "t_objects T = t_objects A" "t_parts T = t_parts A" by blast
  then have T: "\<exists>T. no_tx view (ms_db ms') T \<and> rc_safe col T \<and> (\<forall>k. refs col T k = refs col A k)" using refs_cong by blast
  have "blob ds fs' k \<in> {None, blob ds fs k}" if "CasLayout_IsValidCasKey k" for k using keeps that by blast
  with d only same T show ?thesis by blast
qed

lemma can_delete_ms:
  assumes "MetaStore_CanDeleteCasBlob env ms h = (ms', r)"
  shows "ms_bucket_cache ms' = ms_bucket_cache ms" "ms_redis ms' = ms_redis ms"
  using assms by (auto simp: MetaStore_CanDeleteCasBlob_def with_conn_def split: prod.splits bool.splits)

lemma AtomicRename_ok:
  assumes "fs_script fs = []" "fs_files fs src = Some c"
  shows "FileSystem_AtomicRename se fs src dst = (fs\<lparr>fs_files := (fs_files fs)(src := None, dst := Some c)\<rparr>, Status_OK)"
  using assms by (simp add: FileSystem_AtomicRename_def Let_def FileSystem_CreateDirectories_def sys_call_def sys_rename_def
      next_outcome_def Status_ok_def Status_OK_def split: if_splits)

lemma RemoveFile_ok:
  assumes "fs_script fs = []" "fs_files fs p = Some c"
  shows "FileSystem_RemoveFile se fs p = (fs\<lparr>fs_files := (fs_files fs)(p := None)\<rparr>, Status_OK)"
  using assms by (simp add: FileSystem_RemoveFile_def sys_unlink_def next_outcome_def)

text \<open>C24: The second check closes the race with an upload: when other threads, between the two halves of a
  candidate, made the database refer to the blob (or count it) again, and the second check and the
  rename do not fail, the quarantined file is back under its name with its content, whether or not an
  upload stored the same blob anew meanwhile, and the metadata are untouched (\<open>meta_env_ok\<close>).\<close>

theorem gc_restores_after_race:
  assumes ok: "meta_env_ok col env view" and n: "no_tx view (ms_db ms) A" and u: "UUID_IsValid uuid"
    and used: "0 < refs col A k \<or> 0 < ref_count col A k"
    and chk: "snd (MetaStore_CanDeleteCasBlob env ms k) = Inr v"
    and q: "fs_files fs (DataStore_GetFilePath ds k @ ''.gc.'' @ uuid) = Some c" and nofault: "fs_script fs = []"
    and op: "gc_reclaim env se ds cb k uuid True ms fs = (ms', fs', out)"
  shows "out = Gc_skipped \<and> blob ds fs' k = Some c \<and> no_tx view (ms_db ms') A \<and>
    same_except {CasLayout_GetCasPath (ds_base_dir ds) k, DataStore_GetFilePath ds k @ ''.gc.'' @ uuid} fs fs'"
proof -
  obtain ms1 where c: "MetaStore_CanDeleteCasBlob env ms k = (ms1, Inr v)"
    using chk by (cases "MetaStore_CanDeleteCasBlob env ms k") simp
  have "v = False" using can_delete_cases(2) [OF ok n c refl] used by (auto simp: collectable_def)
  with op c AtomicRename_ok [OF nofault q, of "se_strerror se" "DataStore_GetFilePath ds k"]
  have "ms' = ms1" "out = Gc_skipped"
    "fs' = fs\<lparr>fs_files := (fs_files fs)(DataStore_GetFilePath ds k @ ''.gc.'' @ uuid := None, DataStore_GetFilePath ds k := Some c)\<rparr>"
    by (simp_all add: gc_reclaim_def Let_def Status_ok_def Status_OK_def)
  with can_delete_cases(1) [OF ok n c] show ?thesis
    by (simp add: blob_def DataStore_GetFilePath_def same_except_def)
qed

lemma gc_process_key_reclaims:
  assumes db: "reliable_db col env view up" "up (ms_db ms)" and n: "no_tx view (ms_db ms) A" and u: "UUID_IsValid uuid"
    and free: "collectable col A k" and nofault: "fs_script fs = []"
    and op: "gc_process_key env se ds (Some (gc_delete_callback env)) k uuid ms fs = (ms', fs', out)"
  shows "out = Gc_deleted \<and> fs_script fs' = [] \<and> fs_files fs' (CasLayout_GetCasPath (ds_base_dir ds) k) = None \<and>
    (fs_files fs (CasLayout_GetCasPath (ds_base_dir ds) k) \<noteq> None \<longrightarrow> fs_files fs' (DataStore_GetFilePath ds k @ ''.gc.'' @ uuid) = None) \<and>
    (fs_files fs (CasLayout_GetCasPath (ds_base_dir ds) k) = None \<longrightarrow> fs' = fs) \<and>
    same_except (gc_paths ds k uuid) fs fs' \<and> up (ms_db ms') \<and>
    (\<exists>T. no_tx view (ms_db ms') T \<and> \<not> has_cas col T k \<and> t_objects T = t_objects A \<and> t_parts T = t_parts A \<and>
      t_buckets T = t_buckets A \<and> set (t_cas T) \<subseteq> set (t_cas A))"
proof -
  let ?p = "CasLayout_GetCasPath (ds_base_dir ds) k" and ?q = "DataStore_GetFilePath ds k @ ''.gc.'' @ uuid"
  note ok = reliable_db.env_ok [OF db(1)]
  have yes: "\<exists>ms'. MetaStore_CanDeleteCasBlob env m k = (ms', Inr True) \<and> no_tx view (ms_db ms') A \<and> up (ms_db ms')"
    if m: "no_tx view (ms_db m) A" "up (ms_db m)" for m
  proof -
    obtain m' v where c: "MetaStore_CanDeleteCasBlob env m k = (m', Inr v)" "up (ms_db m')"
      using reliable_db.can_delete_answers [OF db(1) m(2,1)] by blast
    from can_delete_cases(1) [OF ok m(1) c(1)] can_delete_cases(2) [OF ok m(1) c(1) refl] free c show ?thesis by auto
  qed
  from yes [OF n db(2)] obtain ms1 where c1: "MetaStore_CanDeleteCasBlob env ms k = (ms1, Inr True)" and n1: "no_tx view (ms_db ms1) A" "up (ms_db ms1)" by blast
  from yes [OF n1] obtain ms2 where c2: "MetaStore_CanDeleteCasBlob env ms1 k = (ms2, Inr True)" and n2: "no_tx view (ms_db ms2) A" "up (ms_db ms2)" by blast
  from yes [OF n2] obtain ms3 where c3: "MetaStore_CanDeleteCasBlob env ms2 k = (ms3, Inr True)" and n3: "no_tx view (ms_db ms3) A" "up (ms_db ms3)" by blast
  from reliable_db.delete_cas_done [OF db(1) n3(2,1)] free obtain ms4 where d: "MetaStore_DeleteCasBlob env ms3 k = (ms4, Inr ())" "up (ms_db ms4)"
    by (auto simp: collectable_def)
  have cb: "gc_delete_callback env ms2 k True = ms4" by (simp add: gc_delete_callback_def c3 d)
  have T: "\<exists>T. no_tx view (ms_db ms4) T \<and> \<not> has_cas col T k \<and> t_objects T = t_objects A \<and> t_parts T = t_parts A \<and>
      t_buckets T = t_buckets A \<and> set (t_cas T) \<subseteq> set (t_cas A)"
    using delete_cas_post [OF ok n3(1) d(1)] free by (auto simp: collectable_def)
  have pq: "?q \<noteq> ?p" using quarantine_not_cas [OF u] .
  show ?thesis
  proof (cases "fs_files fs ?p")
    case None
    then have "gc_quarantine env se ds k uuid ms fs = (ms1, fs, Inr False)" using nofault c1
      by (simp add: gc_quarantine_def Let_def FileSystem_FileExists_def sys_stat_def next_outcome_def DataStore_GetFilePath_def)
    then have "ms' = ms4" "fs' = fs" "out = Gc_deleted"
      using op c2 cb by (simp_all add: gc_process_key_def gc_reclaim_def Let_def Status_ok_def Status_OK_def)
    with None T nofault d(2) show ?thesis by (simp add: same_except_def)
  next
    case (Some c)
    let ?fs1 = "fs\<lparr>fs_files := (fs_files fs)(?p := None, ?q := Some c)\<rparr>"
    have "gc_quarantine env se ds k uuid ms fs = (ms1, ?fs1, Inr True)"
      using nofault c1 Some AtomicRename_ok [OF nofault Some, of "se_strerror se" ?q]
      by (simp add: gc_quarantine_def Let_def FileSystem_FileExists_def sys_stat_def next_outcome_def DataStore_GetFilePath_def
          Status_ok_def Status_OK_def)
    moreover have "FileSystem_RemoveFile (se_strerror se) ?fs1 ?q = (?fs1\<lparr>fs_files := (fs_files ?fs1)(?q := None)\<rparr>, Status_OK)"
      by (rule RemoveFile_ok [where c = c]) (simp_all add: nofault)
    ultimately have "ms' = ms4" "fs' = ?fs1\<lparr>fs_files := (fs_files ?fs1)(?q := None)\<rparr>" "out = Gc_deleted"
      using op c2 cb by (simp_all add: gc_process_key_def gc_reclaim_def Let_def Status_ok_def Status_OK_def)
    with T pq Some nofault d(2) show ?thesis by (simp add: same_except_def gc_paths_def)
  qed
qed

text \<open>C25: Progress: when the database answers and no system call fails, processing a key whose blob has a row with
  count 0 and no reference removes its file, leaves no copy of it in quarantine, touches no other file and
  removes its row; objects and parts stay. When the file was gone before, only the row goes.\<close>

theorem gc_reclaims_unreferenced:
  assumes db: "reliable_db col env view up" "up (ms_db ms)" and n: "no_tx view (ms_db ms) A" and u: "UUID_IsValid uuid"
    and free: "collectable col A k" and nofault: "fs_script fs = []"
    and fresh: "fs_files fs (DataStore_GetFilePath ds k @ ''.gc.'' @ uuid) = None"
    and op: "gc_process_key env se ds (Some (gc_delete_callback env)) k uuid ms fs = (ms', fs', out)"
  shows "out = Gc_deleted \<and> fs_files fs' = (fs_files fs)(CasLayout_GetCasPath (ds_base_dir ds) k := None) \<and>
    (\<exists>T. no_tx view (ms_db ms') T \<and> \<not> has_cas col T k \<and> t_objects T = t_objects A \<and> t_parts T = t_parts A)"
proof -
  note r = gc_process_key_reclaims [OF db n u free nofault op]
  have "fs_files fs' x = ((fs_files fs)(CasLayout_GetCasPath (ds_base_dir ds) k := None)) x" for x
    using r fresh quarantine_not_cas [OF u, of ds k "ds_base_dir ds" k]
    by (cases "x \<in> gc_paths ds k uuid"; cases "fs_files fs (CasLayout_GetCasPath (ds_base_dir ds) k)") (auto simp: same_except_def gc_paths_def)
  with r show ?thesis by blast
qed

section \<open>Witnesses\<close>

definition sample_uuid :: string where
  "sample_uuid = UUID_Generate 0 0 0 0 0 0"

lemma sample_uuid_valid: "UUID_IsValid sample_uuid"
  by code_simp

text \<open>A referenced blob in the queue.\<close>

definition hi_tables :: Tables where
  "hi_tables = one_bucket\<lparr>t_cas := [\<lparr>c_key = hi_key, c_size = 2, c_ref = 1, c_created = 0, c_updated = 0\<rparr>],
     t_objects := [new_object 1 0 7 ''k'' hi_key 2 ''t'' hi_key]\<rparr>"

definition hi_gc :: GarbageCollector where
  "hi_gc = GarbageCollector_AddPendingDelete (GarbageCollector_new 300 100) hi_key"

definition hi_batch :: "GarbageCollector \<times> (Mem, unit) MetaStore \<times> FileSys \<times> GcOutcome list" where
  "hi_batch = GarbageCollector_ProcessBatch (mem_env bin_col) toy_env toy_store
     (Some (gc_delete_callback (mem_env bin_col))) (\<lambda>_. sample_uuid) hi_gc (mem_store hi_tables [None, None, Some ''gone'']) hi_fs"

theorem gc_batch_safe_witness:
  "blob toy_store (fst (snd (snd hi_batch))) hi_key = blob toy_store hi_fs hi_key \<and> blob toy_store hi_fs hi_key = Some ''hi'' \<and>
   gc_pending_deletes (fst hi_batch) = []"
proof -
  have c: "col_ok bin_col" by simp
  have safe: "rc_safe bin_col hi_tables"
    by (auto simp: rc_safe_def uniq_ok_def hi_tables_def one_bucket_def no_tables_def refs_def obj_refs_def part_refs_def
        ref_count_def cas_is_def new_object_def col_eq_def)
  have refs: "0 < refs bin_col hi_tables hi_key"
    by (simp add: refs_def obj_refs_def hi_tables_def new_object_def)
  have key: "CasLayout_IsValidCasKey hi_key" by code_simp
  have ks: "list_all CasLayout_IsValidCasKey (gc_pending_deletes hi_gc)"
    using key by (simp add: hi_gc_def GarbageCollector_AddPendingDelete_def GarbageCollector_new_def)
  have op: "GarbageCollector_ProcessBatch (mem_env bin_col) toy_env toy_store
     (Some (gc_delete_callback (mem_env bin_col))) (\<lambda>_. sample_uuid) hi_gc (mem_store hi_tables [None, None, Some ''gone'']) hi_fs =
     (fst hi_batch, fst (snd hi_batch), fst (snd (snd hi_batch)), snd (snd (snd hi_batch)))" by (simp add: hi_batch_def)
  have b: "blob toy_store hi_fs hi_key = Some ''hi''" by code_simp
  from gc_batch_safe [OF mem_env_ok mem_store_no_tx safe sample_uuid_valid ks op] key refs b
  show ?thesis by (simp add: hi_gc_def GarbageCollector_AddPendingDelete_def GarbageCollector_new_def)
qed

definition race_fs :: FileSys where
  "race_fs = \<lparr>fs_files = [DataStore_GetFilePath toy_store ''h1'' @ ''.gc.'' @ sample_uuid \<mapsto> ''abc''], fs_script = []\<rparr>"

definition race_out :: "(Mem, unit) MetaStore \<times> FileSys \<times> GcOutcome" where
  "race_out = gc_reclaim (mem_env bin_col) toy_env toy_store None ''h1'' sample_uuid True (mem_store sample_tables []) race_fs"

theorem gc_restores_after_race_witness:
  "snd (snd race_out) = Gc_skipped \<and> blob toy_store (fst (snd race_out)) ''h1'' = Some ''abc''"
proof -
  have used: "0 < refs bin_col sample_tables ''h1'' \<or> 0 < ref_count bin_col sample_tables ''h1''" by code_simp
  have chk: "snd (MetaStore_CanDeleteCasBlob (mem_env bin_col) (mem_store sample_tables []) ''h1'') = Inr False" by code_simp
  have q: "fs_files race_fs (DataStore_GetFilePath toy_store ''h1'' @ ''.gc.'' @ sample_uuid) = Some ''abc''" "fs_script race_fs = []"
    by (simp_all add: race_fs_def)
  have op: "gc_reclaim (mem_env bin_col) toy_env toy_store None ''h1'' sample_uuid True (mem_store sample_tables []) race_fs =
      (fst race_out, fst (snd race_out), snd (snd race_out))" by (simp add: race_out_def)
  from gc_restores_after_race [OF mem_env_ok mem_store_no_tx sample_uuid_valid used chk q op] show ?thesis by simp
qed

definition freed_tables :: Tables where
  "freed_tables = no_tables\<lparr>t_cas := [\<lparr>c_key = ''h1'', c_size = 3, c_ref = 0, c_created = 0, c_updated = 0\<rparr>]\<rparr>"

definition freed_fs :: FileSys where
  "freed_fs = \<lparr>fs_files = [DataStore_GetFilePath toy_store ''h1'' \<mapsto> ''abc''], fs_script = []\<rparr>"

definition freed_out :: "(Mem, unit) MetaStore \<times> FileSys \<times> GcOutcome" where
  "freed_out = gc_process_key (mem_env bin_col) toy_env toy_store (Some (gc_delete_callback (mem_env bin_col))) ''h1'' sample_uuid
     (mem_store freed_tables []) freed_fs"

theorem gc_reclaims_unreferenced_witness:
  "snd (snd freed_out) = Gc_deleted \<and> blob toy_store freed_fs ''h1'' = Some ''abc'' \<and> fs_files (fst (snd freed_out)) = Map.empty"
proof -
  have free: "collectable bin_col freed_tables ''h1''" unfolding collectable_def by code_simp
  have up: "mem_up (ms_db (mem_store freed_tables []))" by (simp add: mem_up_def mem_store_def freed_tables_def no_tables_def)
  have fs: "fs_script freed_fs = []" "fs_files freed_fs (DataStore_GetFilePath toy_store ''h1'' @ ''.gc.'' @ sample_uuid) = None"
    by (simp_all add: freed_fs_def)
  have op: "gc_process_key (mem_env bin_col) toy_env toy_store (Some (gc_delete_callback (mem_env bin_col))) ''h1'' sample_uuid
     (mem_store freed_tables []) freed_fs = (fst freed_out, fst (snd freed_out), snd (snd freed_out))" by (simp add: freed_out_def)
  from gc_reclaims_unreferenced [OF mem_db.reliable_db_axioms up mem_store_no_tx sample_uuid_valid free fs op]
  show ?thesis by (simp add: freed_fs_def blob_def DataStore_GetFilePath_def toy_store_def)
qed

end
