(* ===== verification/Http_Request.thy ===== *)
theory Http_Request
  imports Cpp_Strings
begin

text \<open>
  \<^verbatim>\<open>net/http/http_request.{h,cpp}\<close>: methods, the request object, case-insensitive headers, path and
  query parameters, keep-alive and reset. An \<open>unordered_map\<close> is a map. The lazily filled query
  cache (\<open>mutable\<close> fields) is kept, and shown to be unobservable.
\<close>

datatype HttpMethod = UNKNOWN | GET | POST | PUT | DELETE | HEAD | OPTIONS | PATCH

definition StringToMethod :: "string \<Rightarrow> HttpMethod" where
  "StringToMethod m =
     (if m = ''GET'' then GET
      else if m = ''POST'' then POST
      else if m = ''PUT'' then PUT
      else if m = ''DELETE'' then DELETE
      else if m = ''HEAD'' then HEAD
      else if m = ''OPTIONS'' then OPTIONS
      else if m = ''PATCH'' then PATCH
      else UNKNOWN)"

fun MethodToString :: "HttpMethod \<Rightarrow> string" where
  "MethodToString GET = ''GET''"
| "MethodToString POST = ''POST''"
| "MethodToString PUT = ''PUT''"
| "MethodToString DELETE = ''DELETE''"
| "MethodToString HEAD = ''HEAD''"
| "MethodToString OPTIONS = ''OPTIONS''"
| "MethodToString PATCH = ''PATCH''"
| "MethodToString UNKNOWN = ''UNKNOWN''"

fun HttpMethodToString :: "HttpMethod \<Rightarrow> string" where
  "HttpMethodToString GET = ''GET''"
| "HttpMethodToString POST = ''POST''"
| "HttpMethodToString PUT = ''PUT''"
| "HttpMethodToString DELETE = ''DELETE''"
| "HttpMethodToString HEAD = ''HEAD''"
| "HttpMethodToString OPTIONS = ''OPTIONS''"
| "HttpMethodToString PATCH = ''PATCH''"
| "HttpMethodToString UNKNOWN = ''UNKNOWN''"

record HttpRequest =
  rq_method :: HttpMethod
  rq_path :: string
  rq_query :: string
  rq_version :: string
  rq_headers :: "string \<rightharpoonup> string"
  rq_body :: string
  rq_path_params :: "string \<rightharpoonup> string"
  rq_query_params :: "string \<rightharpoonup> string"
  rq_query_parsed :: bool
  rq_trace_id :: string
  rq_client_ip :: string

definition HttpRequest_new :: HttpRequest where
  "HttpRequest_new =
     \<lparr>rq_method = UNKNOWN, rq_path = '''', rq_query = '''', rq_version = ''HTTP/1.1'',
      rq_headers = Map.empty, rq_body = '''', rq_path_params = Map.empty,
      rq_query_params = Map.empty, rq_query_parsed = False, rq_trace_id = '''', rq_client_ip = ''''\<rparr>"

definition HttpRequest_AddHeader :: "HttpRequest \<Rightarrow> string \<Rightarrow> string \<Rightarrow> HttpRequest" where
  "HttpRequest_AddHeader r key value = r\<lparr>rq_headers := (rq_headers r)(lower key \<mapsto> value)\<rparr>"

definition HttpRequest_SetHeader :: "HttpRequest \<Rightarrow> string \<Rightarrow> string \<Rightarrow> HttpRequest" where
  "HttpRequest_SetHeader r key value =
     (let lower_key = lower key in r\<lparr>rq_headers := (rq_headers r)(lower_key \<mapsto> value)\<rparr>)"

definition HttpRequest_GetHeader :: "HttpRequest \<Rightarrow> string \<Rightarrow> string" where
  "HttpRequest_GetHeader r key =
     (case rq_headers r (lower key) of Some v \<Rightarrow> v | None \<Rightarrow> '''')"

definition HttpRequest_ContentLength :: "HttpRequest \<Rightarrow> size_t" where
  "HttpRequest_ContentLength r =
     (let header = HttpRequest_GetHeader r ''content-length'' in
      if header \<noteq> '''' then (case stoull header of Inr v \<Rightarrow> v | Inl _ \<Rightarrow> 0) else 0)"

definition HttpRequest_ContentType :: "HttpRequest \<Rightarrow> string" where
  "HttpRequest_ContentType r = HttpRequest_GetHeader r ''content-type''"

definition HttpRequest_Host :: "HttpRequest \<Rightarrow> string" where
  "HttpRequest_Host r = HttpRequest_GetHeader r ''host''"

definition HttpRequest_IsKeepAlive :: "HttpRequest \<Rightarrow> bool" where
  "HttpRequest_IsKeepAlive r =
     (let connection = lower (HttpRequest_GetHeader r ''connection'') in
      if connection = ''close'' then False
      else if connection = ''keep-alive'' then True
      else rq_version r = ''HTTP/1.1'')"

definition HttpRequest_SetPathParam :: "HttpRequest \<Rightarrow> string \<Rightarrow> string \<Rightarrow> HttpRequest" where
  "HttpRequest_SetPathParam r key value = r\<lparr>rq_path_params := (rq_path_params r)(key \<mapsto> value)\<rparr>"

definition HttpRequest_GetPathParam :: "HttpRequest \<Rightarrow> string \<Rightarrow> string" where
  "HttpRequest_GetPathParam r key =
     (case rq_path_params r key of Some v \<Rightarrow> v | None \<Rightarrow> '''')"

definition HttpRequest_AppendBody :: "HttpRequest \<Rightarrow> string \<Rightarrow> HttpRequest" where
  "HttpRequest_AppendBody r data = r\<lparr>rq_body := rq_body r @ data\<rparr>"

text \<open>The pieces a loop of \<open>std::getline(stream, piece, c)\<close> yields.\<close>

function getline_split :: "char \<Rightarrow> string \<Rightarrow> string list" where
  "getline_split c s =
     (if s = [] then []
      else case find_char c s of
             None \<Rightarrow> [s]
           | Some i \<Rightarrow> take i s # getline_split c (drop (Suc i) s))"
  by pat_completeness auto
termination
  by (relation "measure (\<lambda>(c, s). length s)") (auto dest: find_char_less)

declare getline_split.simps [simp del]

definition query_pair :: "(string \<rightharpoonup> string) \<Rightarrow> string \<Rightarrow> (string \<rightharpoonup> string)" where
  "query_pair m pair =
     (case find_char (CHR ''='') pair of
        Some eq_pos \<Rightarrow> m(take eq_pos pair \<mapsto> drop (eq_pos + 1) pair)
      | None \<Rightarrow> m(pair \<mapsto> ''''))"

definition HttpRequest_ParseQueryString :: "HttpRequest \<Rightarrow> HttpRequest" where
  "HttpRequest_ParseQueryString r =
     (if rq_query_parsed r \<or> rq_query r = '''' then r\<lparr>rq_query_parsed := True\<rparr>
      else r\<lparr>rq_query_params := foldl query_pair (rq_query_params r) (getline_split (CHR ''&'') (rq_query r)),
             rq_query_parsed := True\<rparr>)"

definition HttpRequest_GetQueryParam :: "HttpRequest \<Rightarrow> string \<Rightarrow> string" where
  "HttpRequest_GetQueryParam r key =
     (case rq_query_params (HttpRequest_ParseQueryString r) key of Some v \<Rightarrow> v | None \<Rightarrow> '''')"

definition HttpRequest_Reset :: "HttpRequest \<Rightarrow> HttpRequest" where
  "HttpRequest_Reset r =
     r\<lparr>rq_method := UNKNOWN, rq_path := '''', rq_query := '''', rq_version := ''HTTP/1.1'',
       rq_headers := Map.empty, rq_body := '''', rq_path_params := Map.empty,
       rq_query_params := Map.empty, rq_query_parsed := False\<rparr>"

section \<open>Laws\<close>

lemma StringToMethod_MethodToString [simp]: "StringToMethod (MethodToString m) = m"
  by (cases m) (simp_all add: StringToMethod_def)

lemma HttpMethodToString_eq: "HttpMethodToString m = MethodToString m"
  by (cases m) simp_all

lemma MethodToString_StringToMethod:
  "StringToMethod s \<noteq> UNKNOWN \<Longrightarrow> MethodToString (StringToMethod s) = s"
  by (auto simp: StringToMethod_def split: if_splits)

lemma MethodToString_no_space [simp]: "CHR '' '' \<notin> set (MethodToString m)"
  by (cases m) simp_all

lemma GetHeader_SetHeader [simp]:
  "HttpRequest_GetHeader (HttpRequest_SetHeader r k v) k' =
   (if lower k' = lower k then v else HttpRequest_GetHeader r k')"
  by (simp add: HttpRequest_GetHeader_def HttpRequest_SetHeader_def)

lemma SetHeader_sel [simp]:
  "rq_path (HttpRequest_SetHeader r k v) = rq_path r"
  "rq_method (HttpRequest_SetHeader r k v) = rq_method r"
  "rq_query (HttpRequest_SetHeader r k v) = rq_query r"
  "rq_body (HttpRequest_SetHeader r k v) = rq_body r"
  "rq_path_params (HttpRequest_SetHeader r k v) = rq_path_params r"
  by (simp_all add: HttpRequest_SetHeader_def)

text \<open>Filling the query cache is idempotent and does not change any lookup.\<close>

lemma query_cache_unobservable:
  "HttpRequest_GetQueryParam (HttpRequest_ParseQueryString r) k = HttpRequest_GetQueryParam r k"
  "HttpRequest_ParseQueryString (HttpRequest_ParseQueryString r) = HttpRequest_ParseQueryString r"
  by (simp_all add: HttpRequest_GetQueryParam_def HttpRequest_ParseQueryString_def)

lemma getline_split_single [simp]: "s \<noteq> [] \<Longrightarrow> c \<notin> set s \<Longrightarrow> getline_split c s = [s]"
  by (subst getline_split.simps) (simp add: find_char_None [THEN iffD2])

lemma getline_split_cons [simp]:
  "c \<notin> set a \<Longrightarrow> getline_split c (a @ c # b) = a # getline_split c b"
  by (subst getline_split.simps) simp

lemma query_pair_eq [simp]:
  "CHR ''='' \<notin> set k \<Longrightarrow> query_pair m (k @ CHR ''='' # v) = m(k \<mapsto> v)"
  by (simp add: query_pair_def)

end
