(* ===== verification/Byte_Buffer.thy ===== *)
theory Byte_Buffer
  imports Cpp_Strings
begin

text \<open>
  \<^verbatim>\<open>net/buffer/byte_buffer.{h,cpp}\<close>: the growable byte buffer behind every connection. A pointer
  into the vector is its index. The system calls \<open>readv\<close> and \<open>write\<close> are the arguments of
  \<open>ByteBuffer_ReadFd\<close> and \<open>ByteBuffer_WriteFd\<close>: an errno, or the bytes read or the count written.
  The locale \<open>byte_queue\<close> states what the parser and the connection rely on.
\<close>

definition kInitialSize :: size_t where "kInitialSize = 1024"
definition kPrependSize :: size_t where "kPrependSize = 8"
definition kExtraBufSize :: size_t where "kExtraBufSize = 65536"

record ByteBuffer =
  bb_buffer :: string
  bb_reader_index :: size_t
  bb_writer_index :: size_t

definition ByteBuffer_new :: "size_t \<Rightarrow> ByteBuffer" where
  "ByteBuffer_new initial_size =
     \<lparr>bb_buffer = replicate (kPrependSize + initial_size) (CHR 0x00),
      bb_reader_index = kPrependSize, bb_writer_index = kPrependSize\<rparr>"

definition ByteBuffer_ReadableBytes :: "ByteBuffer \<Rightarrow> size_t" where
  "ByteBuffer_ReadableBytes b = size_sub (bb_writer_index b) (bb_reader_index b)"

definition ByteBuffer_WritableBytes :: "ByteBuffer \<Rightarrow> size_t" where
  "ByteBuffer_WritableBytes b = size_sub (length (bb_buffer b)) (bb_writer_index b)"

definition ByteBuffer_PrependableBytes :: "ByteBuffer \<Rightarrow> size_t" where
  "ByteBuffer_PrependableBytes b = bb_reader_index b"

definition ByteBuffer_RetrieveAll :: "ByteBuffer \<Rightarrow> ByteBuffer" where
  "ByteBuffer_RetrieveAll b = b\<lparr>bb_reader_index := kPrependSize, bb_writer_index := kPrependSize\<rparr>"

definition ByteBuffer_Retrieve :: "ByteBuffer \<Rightarrow> size_t \<Rightarrow> ByteBuffer" where
  "ByteBuffer_Retrieve b len =
     (if len < ByteBuffer_ReadableBytes b
      then b\<lparr>bb_reader_index := size_add (bb_reader_index b) len\<rparr>
      else ByteBuffer_RetrieveAll b)"

definition ByteBuffer_RetrieveUntil :: "ByteBuffer \<Rightarrow> nat \<Rightarrow> ByteBuffer" where
  "ByteBuffer_RetrieveUntil b end = ByteBuffer_Retrieve b (size_sub end (bb_reader_index b))"

definition ByteBuffer_RetrieveAsString :: "ByteBuffer \<Rightarrow> size_t \<Rightarrow> string \<times> ByteBuffer" where
  "ByteBuffer_RetrieveAsString b len =
     (take (min len (ByteBuffer_ReadableBytes b)) (drop (bb_reader_index b) (bb_buffer b)),
      ByteBuffer_Retrieve b len)"

definition ByteBuffer_RetrieveAllAsString :: "ByteBuffer \<Rightarrow> string \<times> ByteBuffer" where
  "ByteBuffer_RetrieveAllAsString b = ByteBuffer_RetrieveAsString b (ByteBuffer_ReadableBytes b)"

definition ByteBuffer_HasWritten :: "ByteBuffer \<Rightarrow> size_t \<Rightarrow> ByteBuffer" where
  "ByteBuffer_HasWritten b len = b\<lparr>bb_writer_index := size_add (bb_writer_index b) len\<rparr>"

definition ByteBuffer_Unwrite :: "ByteBuffer \<Rightarrow> size_t \<Rightarrow> ByteBuffer" where
  "ByteBuffer_Unwrite b len = b\<lparr>bb_writer_index := size_sub (bb_writer_index b) len\<rparr>"

text \<open>\<open>std::vector::resize\<close>.\<close>

definition resize_vec :: "string \<Rightarrow> nat \<Rightarrow> string" where
  "resize_vec v n = take n v @ replicate (n - length v) (CHR 0x00)"

definition ByteBuffer_MakeSpace :: "ByteBuffer \<Rightarrow> size_t \<Rightarrow> ByteBuffer" where
  "ByteBuffer_MakeSpace b len =
     (if size_add (ByteBuffer_WritableBytes b) (ByteBuffer_PrependableBytes b)
           < size_add len kPrependSize
      then b\<lparr>bb_buffer := resize_vec (bb_buffer b) (size_add (bb_writer_index b) len)\<rparr>
      else let readable = ByteBuffer_ReadableBytes b in
        b\<lparr>bb_buffer := overwrite (bb_buffer b) kPrependSize
             (drop (bb_reader_index b) (take (bb_writer_index b) (bb_buffer b))),
          bb_reader_index := kPrependSize,
          bb_writer_index := size_add kPrependSize readable\<rparr>)"

definition ByteBuffer_EnsureWritableBytes :: "ByteBuffer \<Rightarrow> size_t \<Rightarrow> ByteBuffer" where
  "ByteBuffer_EnsureWritableBytes b len =
     (if ByteBuffer_WritableBytes b < len then ByteBuffer_MakeSpace b len else b)"

definition ByteBuffer_Append :: "ByteBuffer \<Rightarrow> string \<Rightarrow> ByteBuffer" where
  "ByteBuffer_Append b data =
     (let b1 = ByteBuffer_EnsureWritableBytes b (length data);
          b2 = b1\<lparr>bb_buffer := overwrite (bb_buffer b1) (bb_writer_index b1) data\<rparr>
      in ByteBuffer_HasWritten b2 (length data))"

text \<open>\<open>None\<close>: the write would fall outside the vector (undefined behaviour in C++).\<close>

definition ByteBuffer_Prepend :: "ByteBuffer \<Rightarrow> string \<Rightarrow> ByteBuffer option" where
  "ByteBuffer_Prepend b data =
     (let r = size_sub (bb_reader_index b) (length data) in
      if r + length data \<le> length (bb_buffer b)
      then Some (b\<lparr>bb_reader_index := r, bb_buffer := overwrite (bb_buffer b) r data\<rparr>)
      else None)"

definition ByteBuffer_Shrink :: "ByteBuffer \<Rightarrow> size_t \<Rightarrow> ByteBuffer" where
  "ByteBuffer_Shrink b reserve =
     (let readable = ByteBuffer_ReadableBytes b;
          buf = replicate (kPrependSize + readable + reserve) (CHR 0x00);
          buf = overwrite buf kPrependSize (take readable (drop (bb_reader_index b) (bb_buffer b)))
      in b\<lparr>bb_buffer := buf, bb_reader_index := kPrependSize,
           bb_writer_index := size_add kPrependSize readable\<rparr>)"

text \<open>The bytes from an index up to the write position.\<close>

definition bytes_from :: "ByteBuffer \<Rightarrow> nat \<Rightarrow> string" where
  "bytes_from b start = drop start (take (bb_writer_index b) (bb_buffer b))"

definition ByteBuffer_FindCRLF_from :: "ByteBuffer \<Rightarrow> nat \<Rightarrow> nat option" where
  "ByteBuffer_FindCRLF_from b start = map_option (\<lambda>i. start + i) (find_str CRLF (bytes_from b start))"

definition ByteBuffer_FindCRLF :: "ByteBuffer \<Rightarrow> nat option" where
  "ByteBuffer_FindCRLF b = ByteBuffer_FindCRLF_from b (bb_reader_index b)"

definition ByteBuffer_FindEOL_from :: "ByteBuffer \<Rightarrow> nat \<Rightarrow> nat option" where
  "ByteBuffer_FindEOL_from b start = map_option (\<lambda>i. start + i) (find_char LF (bytes_from b start))"

definition ByteBuffer_FindEOL :: "ByteBuffer \<Rightarrow> nat option" where
  "ByteBuffer_FindEOL b = ByteBuffer_FindEOL_from b (bb_reader_index b)"

text \<open>The outcome of \<open>readv\<close> (\<open>Inl\<close> errno, \<open>Inr\<close> the bytes delivered) fills the writable region
  first and the stack buffer with the rest.\<close>

definition readv_capacity :: "ByteBuffer \<Rightarrow> nat" where
  "readv_capacity b =
     (let writable = ByteBuffer_WritableBytes b in
      if writable < kExtraBufSize then writable + kExtraBufSize else writable)"

definition ByteBuffer_ReadFd :: "ByteBuffer \<Rightarrow> nat + string \<Rightarrow> ByteBuffer \<times> (nat + nat)" where
  "ByteBuffer_ReadFd b res =
     (case res of
        Inl saved_errno \<Rightarrow> (b, Inl saved_errno)
      | Inr data \<Rightarrow>
          let writable = ByteBuffer_WritableBytes b; n = length data;
              b1 = b\<lparr>bb_buffer := overwrite (bb_buffer b) (bb_writer_index b) (take writable data)\<rparr>
          in (if n \<le> writable
              then (b1\<lparr>bb_writer_index := size_add (bb_writer_index b1) n\<rparr>, Inr n)
              else (ByteBuffer_Append (b1\<lparr>bb_writer_index := length (bb_buffer b1)\<rparr>)
                      (drop writable data), Inr n)))"

text \<open>The outcome of \<open>write\<close>: an errno or the number of bytes taken.\<close>

definition ByteBuffer_WriteFd :: "ByteBuffer \<Rightarrow> nat + nat \<Rightarrow> ByteBuffer \<times> (nat + nat)" where
  "ByteBuffer_WriteFd b res =
     (case res of
        Inl saved_errno \<Rightarrow> (b, Inl saved_errno)
      | Inr n \<Rightarrow> (ByteBuffer_Retrieve b n, Inr n))"

section \<open>The readable bytes, the invariant and the capacity\<close>

definition bb_view :: "ByteBuffer \<Rightarrow> string" where
  "bb_view b = bytes_from b (bb_reader_index b)"

definition bb_inv :: "ByteBuffer \<Rightarrow> bool" where
  "bb_inv b \<longleftrightarrow> bb_reader_index b \<le> bb_writer_index b \<and> bb_writer_index b \<le> length (bb_buffer b)
     \<and> kPrependSize \<le> length (bb_buffer b) \<and> length (bb_buffer b) < size_bound"

text \<open>\<open>bb_room b n\<close>: appending \<open>n\<close> bytes does not exceed the address range of \<open>size_t\<close>.\<close>

definition bb_room :: "ByteBuffer \<Rightarrow> nat \<Rightarrow> bool" where
  "bb_room b n \<longleftrightarrow> length (bb_buffer b) + n + kPrependSize < size_bound"

lemmas bb_defs = bb_view_def bb_inv_def bb_room_def bytes_from_def kPrependSize_def

lemma bb_new: "n + 8 < size_bound \<Longrightarrow> bb_inv (ByteBuffer_new n) \<and> bb_view (ByteBuffer_new n) = []"
  by (simp add: bb_defs ByteBuffer_new_def)

lemma bb_view_length: "bb_inv b \<Longrightarrow> length (bb_view b) = bb_writer_index b - bb_reader_index b"
  by (simp add: bb_defs)

lemma bb_view_bound: "bb_inv b \<Longrightarrow> bb_reader_index b + length (bb_view b) \<le> length (bb_buffer b)"
  by (simp add: bb_view_length) (simp add: bb_inv_def)

lemma readable_view [buf_simps]: "bb_inv b \<Longrightarrow> ByteBuffer_ReadableBytes b = length (bb_view b)"
  by (simp add: bb_defs ByteBuffer_ReadableBytes_def)

lemma writable_exact [buf_simps]:
  "bb_inv b \<Longrightarrow> ByteBuffer_WritableBytes b = length (bb_buffer b) - bb_writer_index b"
  by (simp add: bb_defs ByteBuffer_WritableBytes_def)

lemma RetrieveAll_inv [buf_simps]:
  "bb_inv b \<Longrightarrow> bb_inv (ByteBuffer_RetrieveAll b)"
  "bb_view (ByteBuffer_RetrieveAll b) = []"
  by (simp_all add: bb_defs ByteBuffer_RetrieveAll_def)

lemma Retrieve_inv [buf_simps]: "bb_inv b \<Longrightarrow> bb_inv (ByteBuffer_Retrieve b n)"
  by (auto simp: ByteBuffer_Retrieve_def RetrieveAll_inv readable_view) (auto simp: bb_defs)

lemma Retrieve_view [buf_simps]:
  "bb_inv b \<Longrightarrow> bb_view (ByteBuffer_Retrieve b n) = drop n (bb_view b)"
  by (auto simp: ByteBuffer_Retrieve_def RetrieveAll_inv readable_view)
     (auto simp: bb_defs add.commute)

lemma Retrieve_buffer: "bb_buffer (ByteBuffer_Retrieve b n) = bb_buffer b"
  by (simp add: ByteBuffer_Retrieve_def ByteBuffer_RetrieveAll_def)

text \<open>Making room keeps the readable bytes and leaves at least \<open>len\<close> writable bytes.\<close>

lemma Ensure_spec:
  assumes inv: "bb_inv b" and room: "bb_room b len"
  defines "c \<equiv> ByteBuffer_EnsureWritableBytes b len"
  shows "bb_inv c" "bb_view c = bb_view b"
    "bb_writer_index c + len \<le> length (bb_buffer c)"
    "length (bb_buffer c) \<le> length (bb_buffer b) + len"
proof -
  let ?B = "length (bb_buffer b)" and ?r = "bb_reader_index b" and ?w = "bb_writer_index b"
  have i: "?r \<le> ?w" "?w \<le> ?B" "8 \<le> ?B" "?B + len + 8 < size_bound"
    using inv room by (auto simp: bb_defs)
  have w: "ByteBuffer_WritableBytes b = ?B - ?w" using inv by (rule writable_exact)
  consider (enough) "\<not> ?B - ?w < len" | (grow) "?B - ?w < len" "(?B - ?w) + ?r < len + 8"
    | (move) "?B - ?w < len" "\<not> (?B - ?w) + ?r < len + 8" by blast
  then have "bb_inv c \<and> bb_view c = bb_view b \<and> bb_writer_index c + len \<le> length (bb_buffer c)
    \<and> length (bb_buffer c) \<le> ?B + len"
  proof cases
    case enough
    with i w inv show ?thesis by (simp add: c_def ByteBuffer_EnsureWritableBytes_def)
  next
    case grow
    with i w have "c = b\<lparr>bb_buffer := resize_vec (bb_buffer b) (?w + len)\<rparr>"
      by (simp add: c_def ByteBuffer_EnsureWritableBytes_def ByteBuffer_MakeSpace_def
          ByteBuffer_PrependableBytes_def kPrependSize_def)
    with i grow show ?thesis by (simp add: bb_defs resize_vec_def)
  next
    case move
    let ?v = "drop ?r (take ?w (bb_buffer b))"
    from move i w inv have c: "c = b\<lparr>bb_buffer := overwrite (bb_buffer b) 8 ?v,
        bb_reader_index := 8, bb_writer_index := 8 + (?w - ?r)\<rparr>"
      by (simp add: c_def ByteBuffer_EnsureWritableBytes_def ByteBuffer_MakeSpace_def
          ByteBuffer_PrependableBytes_def readable_view Let_def) (simp add: bb_defs)
    have fits: "8 + length ?v \<le> ?B" using move i by simp
    have "drop 8 (take (8 + length ?v) (overwrite (bb_buffer b) 8 ?v)) = ?v"
      using fits by (rule overwrite_at)
    moreover have "length ?v = ?w - ?r" using i by simp
    ultimately have "bb_view c = bb_view b" using c by (simp add: bb_view_def bytes_from_def)
    moreover have "8 + (?w - ?r) + len \<le> ?B" using move i by linarith
    moreover have "length (bb_buffer c) = ?B" using c fits by simp
    moreover have "bb_reader_index c = 8" "bb_writer_index c = 8 + (?w - ?r)" using c by simp_all
    ultimately show ?thesis using i(4) unfolding bb_inv_def kPrependSize_def by linarith
  qed
  then show "bb_inv c" "bb_view c = bb_view b"
    "bb_writer_index c + len \<le> length (bb_buffer c)"
    "length (bb_buffer c) \<le> length (bb_buffer b) + len" by blast+
qed

lemma Append_spec:
  assumes "bb_inv b" "bb_room b (length s)"
  defines "c \<equiv> ByteBuffer_Append b s"
  shows "bb_inv c" "bb_view c = bb_view b @ s"
    "length (bb_buffer c) \<le> length (bb_buffer b) + length s"
proof -
  let ?e = "ByteBuffer_EnsureWritableBytes b (length s)"
  note e = Ensure_spec [OF assms(1,2)]
  have lt: "bb_writer_index ?e + length s < size_bound"
    using e(1,3) by (simp add: bb_inv_def)
  have c: "c = ?e\<lparr>bb_buffer := overwrite (bb_buffer ?e) (bb_writer_index ?e) s,
      bb_writer_index := bb_writer_index ?e + length s\<rparr>"
    using lt by (simp add: c_def ByteBuffer_Append_def ByteBuffer_HasWritten_def Let_def)
  have "drop (bb_reader_index ?e) (take (bb_writer_index ?e + length s)
        (overwrite (bb_buffer ?e) (bb_writer_index ?e) s)) = bb_view ?e @ s"
    using e(1,3) by (simp add: overwrite_after bb_defs)
  with c e(2) show "bb_view c = bb_view b @ s" by (simp add: bb_view_def bytes_from_def)
  show "bb_inv c" using c e(1,3) by (simp add: bb_inv_def)
  show "length (bb_buffer c) \<le> length (bb_buffer b) + length s" using c e(3,4) by simp
qed

lemmas Append_view [buf_simps] = Append_spec(2)
  and Append_inv [buf_simps] = Append_spec(1)

lemma Shrink_spec:
  assumes "bb_inv b" "bb_room b reserve"
  shows "bb_inv (ByteBuffer_Shrink b reserve)" "bb_view (ByteBuffer_Shrink b reserve) = bb_view b"
proof -
  let ?v = "bb_view b"
  have v: "take (length ?v) (drop (bb_reader_index b) (bb_buffer b)) = ?v"
    using bb_view_length [OF assms(1)] by (simp add: bb_view_def bytes_from_def drop_take)
  have le: "8 + length ?v + reserve < size_bound"
    using bb_view_bound [OF assms(1)] assms(2) unfolding bb_room_def kPrependSize_def by linarith
  let ?z = "replicate (8 + length ?v + reserve) (CHR 0x00)"
  have "drop 8 (take (8 + length ?v) (overwrite ?z 8 ?v)) = ?v"
    by (rule overwrite_at) simp
  moreover have s: "ByteBuffer_Shrink b reserve = b\<lparr>bb_buffer := overwrite ?z 8 ?v,
      bb_reader_index := 8, bb_writer_index := 8 + length ?v\<rparr>"
    using assms(1) le v
    by (simp add: ByteBuffer_Shrink_def readable_view Let_def kPrependSize_def)
  ultimately show "bb_view (ByteBuffer_Shrink b reserve) = bb_view b"
    by (simp add: bb_view_def bytes_from_def)
  have "length (overwrite ?z 8 ?v) = 8 + length ?v + reserve" by simp
  with s le show "bb_inv (ByteBuffer_Shrink b reserve)" by (simp add: bb_inv_def kPrependSize_def)
qed

lemma ReadFd_spec:
  assumes inv: "bb_inv b" and room: "bb_room b (length data)"
  shows "bb_inv (fst (ByteBuffer_ReadFd b (Inr data)))"
    "bb_view (fst (ByteBuffer_ReadFd b (Inr data))) = bb_view b @ data"
    "length (bb_buffer (fst (ByteBuffer_ReadFd b (Inr data)))) \<le> length (bb_buffer b) + length data"
proof -
  let ?wr = "length (bb_buffer b) - bb_writer_index b"
  let ?d1 = "take ?wr data"
  have i: "bb_writer_index b \<le> length (bb_buffer b)" "bb_reader_index b \<le> bb_writer_index b"
    using inv by (auto simp: bb_defs)
  define b1 where "b1 = b\<lparr>bb_buffer := overwrite (bb_buffer b) (bb_writer_index b) ?d1,
      bb_writer_index := bb_writer_index b + length ?d1\<rparr>"
  have fits: "bb_writer_index b + length ?d1 \<le> length (bb_buffer b)" using i by simp
  have v1: "bb_view b1 = bb_view b @ ?d1"
    using overwrite_after [OF fits i(2)] by (simp add: bb_view_def bytes_from_def b1_def)
  have l1: "length (bb_buffer b1) = length (bb_buffer b)"
    using length_overwrite [OF fits] by (simp add: b1_def)
  have i1: "bb_inv b1" using inv fits l1 by (simp add: bb_inv_def b1_def)
  have res: "fst (ByteBuffer_ReadFd b (Inr data)) =
      (if length data \<le> ?wr then b1 else ByteBuffer_Append b1 (drop ?wr data))"
  proof (cases "length data \<le> ?wr")
    case True
    then have "bb_writer_index b + length data < size_bound" using inv i
      unfolding bb_inv_def by linarith
    with True inv show ?thesis
      by (simp add: ByteBuffer_ReadFd_def writable_exact Let_def b1_def)
  next
    case False
    then have "bb_writer_index b + length ?d1 = length (bb_buffer b)" using i by simp
    with False inv l1 show ?thesis
      by (simp add: ByteBuffer_ReadFd_def writable_exact Let_def b1_def)
  qed
  have r1: "bb_room b1 (length (drop ?wr data))"
    using room l1 by (simp add: bb_room_def)
  note app = Append_spec [OF i1 r1]
  show "bb_inv (fst (ByteBuffer_ReadFd b (Inr data)))"
    "bb_view (fst (ByteBuffer_ReadFd b (Inr data))) = bb_view b @ data"
    "length (bb_buffer (fst (ByteBuffer_ReadFd b (Inr data)))) \<le> length (bb_buffer b) + length data"
    using app i1 v1 l1 by (auto simp: res)
qed

lemma FindCRLF_view:
  "ByteBuffer_FindCRLF b = map_option (\<lambda>i. bb_reader_index b + i) (find_str CRLF (bb_view b))"
  by (simp add: ByteBuffer_FindCRLF_def ByteBuffer_FindCRLF_from_def bb_view_def)

lemma FindEOL_view:
  "ByteBuffer_FindEOL b = map_option (\<lambda>i. bb_reader_index b + i) (find_char LF (bb_view b))"
  by (simp add: ByteBuffer_FindEOL_def ByteBuffer_FindEOL_from_def bb_view_def)

section \<open>The interface the parser and the connection rely on\<close>

locale byte_queue =
  fixes view :: "'b \<Rightarrow> string"
    and inv :: "'b \<Rightarrow> bool"
    and room :: "'b \<Rightarrow> nat \<Rightarrow> bool"
    and append :: "'b \<Rightarrow> string \<Rightarrow> 'b"
    and retrieve :: "'b \<Rightarrow> nat \<Rightarrow> 'b"
  assumes view_append: "inv b \<Longrightarrow> room b (length s) \<Longrightarrow> view (append b s) = view b @ s"
    and inv_append: "inv b \<Longrightarrow> room b (length s) \<Longrightarrow> inv (append b s)"
    and room_append: "inv b \<Longrightarrow> room b (length s + n) \<Longrightarrow> room (append b s) n"
    and view_retrieve: "inv b \<Longrightarrow> view (retrieve b n) = drop n (view b)"
    and inv_retrieve: "inv b \<Longrightarrow> inv (retrieve b n)"
    and room_retrieve: "inv b \<Longrightarrow> room b m \<Longrightarrow> room (retrieve b n) m"
    and room_mono: "room b m \<Longrightarrow> n \<le> m \<Longrightarrow> room b n"
begin

text \<open>Whatever the fragmentation of the incoming bytes, the buffer holds their concatenation.\<close>

lemma append_all:
  "inv b \<Longrightarrow> room b (length (concat ss) + n) \<Longrightarrow>
   view (foldl append b ss) = view b @ concat ss \<and> inv (foldl append b ss) \<and>
   room (foldl append b ss) n"
proof (induction ss arbitrary: b)
  case Nil
  then show ?case by simp
next
  case (Cons s ss)
  have r: "room b (length s)" using Cons.prems(2) by (rule room_mono) simp
  have "room (append b s) (length (concat ss) + n)"
    using Cons.prems by (intro room_append) (simp_all add: add.assoc)
  with Cons.IH [OF inv_append [OF Cons.prems(1) r]] view_append [OF Cons.prems(1) r]
  show ?case by simp
qed

lemma retrieve_append:
  assumes "inv b" "room b (length s)" "n \<le> length (view b)"
  shows "view (retrieve (append b s) n) = view (append (retrieve b n) s)"
  using assms by (simp add: view_append inv_append view_retrieve inv_retrieve room_retrieve)

end

interpretation bb: byte_queue bb_view bb_inv bb_room ByteBuffer_Append ByteBuffer_Retrieve
proof (unfold_locales, goal_cases)
  case (3 b s n)
  then have "bb_room b (length s)" by (simp add: bb_room_def)
  with Append_spec(3) [of b s] 3 show ?case by (simp add: bb_room_def)
qed (auto simp: buf_simps Retrieve_buffer bb_room_def)

section \<open>Refinement of the string queue\<close>

datatype buf_op = Op_Append string | Op_Retrieve nat | Op_Ensure nat | Op_Shrink nat

fun buf_step :: "ByteBuffer \<Rightarrow> buf_op \<Rightarrow> ByteBuffer" where
  "buf_step b (Op_Append s) = ByteBuffer_Append b s"
| "buf_step b (Op_Retrieve n) = ByteBuffer_Retrieve b n"
| "buf_step b (Op_Ensure n) = ByteBuffer_EnsureWritableBytes b n"
| "buf_step b (Op_Shrink n) = ByteBuffer_Shrink b n"

fun queue_step :: "string \<Rightarrow> buf_op \<Rightarrow> string" where
  "queue_step q (Op_Append s) = q @ s"
| "queue_step q (Op_Retrieve n) = drop n q"
| "queue_step q (Op_Ensure n) = q"
| "queue_step q (Op_Shrink n) = q"

fun op_bytes :: "buf_op \<Rightarrow> nat" where
  "op_bytes (Op_Append s) = length s"
| "op_bytes (Op_Retrieve n) = 0"
| "op_bytes (Op_Ensure n) = n"
| "op_bytes (Op_Shrink n) = n"

lemma Shrink_length:
  "bb_inv b \<Longrightarrow> length (bb_buffer (ByteBuffer_Shrink b n)) \<le> length (bb_buffer b) + n + 8"
proof -
  assume inv: "bb_inv b"
  let ?k = "length (bb_view b)"
  have "length (take ?k (drop (bb_reader_index b) (bb_buffer b))) \<le> ?k" by simp
  moreover have "?k \<le> length (bb_buffer b)" using bb_view_bound [OF inv] by simp
  ultimately show ?thesis using inv
    by (simp add: ByteBuffer_Shrink_def readable_view Let_def kPrependSize_def overwrite_def
        del: length_take)
qed

lemma buf_step_spec:
  assumes "bb_inv b" "bb_room b (op_bytes op + n + 8)"
  shows "bb_inv (buf_step b op)" "bb_view (buf_step b op) = queue_step (bb_view b) op"
    "bb_room (buf_step b op) n"
proof -
  have r: "bb_room b (op_bytes op)" using assms(2) by (simp add: bb_room_def)
  show "bb_inv (buf_step b op)" "bb_view (buf_step b op) = queue_step (bb_view b) op"
    using assms(1) r by (cases op; simp add: buf_simps Ensure_spec Shrink_spec)+
  show "bb_room (buf_step b op) n"
  proof (cases op)
    case (Op_Append s)
    with assms r Append_spec(3) [of b s] show ?thesis by (simp add: bb_room_def)
  next
    case (Op_Retrieve m)
    with assms show ?thesis by (simp add: bb_room_def Retrieve_buffer)
  next
    case (Op_Ensure m)
    with assms r Ensure_spec(4) [of b m] show ?thesis by (simp add: bb_room_def)
  next
    case (Op_Shrink m)
    with assms Shrink_length [of b m] show ?thesis by (simp add: bb_room_def kPrependSize_def)
  qed
qed

text \<open>
  C5: For every sequence of appends, retrieves, reservations and shrinks that stays within the
  address space, the byte buffer behaves as the queue of its readable bytes and keeps its index
  invariant (reader \<open>\<le>\<close> writer \<open>\<le>\<close> size), starting from a freshly constructed buffer.
\<close>

theorem byte_buffer_refines_queue:
  assumes "bb_inv b" "bb_room b (\<Sum>op\<leftarrow>ops. op_bytes op + 8)"
  shows "bb_view (foldl buf_step b ops) = foldl queue_step (bb_view b) ops
    \<and> bb_inv (foldl buf_step b ops)"
  using assms
proof (induction ops arbitrary: b)
  case Nil
  then show ?case by simp
next
  case (Cons op ops)
  have "bb_room b (op_bytes op + (\<Sum>op\<leftarrow>ops. op_bytes op + 8) + 8)"
    using Cons.prems(2) by (simp add: ac_simps)
  note s = buf_step_spec [OF Cons.prems(1) this]
  from Cons.IH [OF s(1,3)] s(2) show ?case by simp
qed

theorem byte_buffer_refines_queue_witness:
  "bb_view (foldl buf_step (ByteBuffer_new 4)
      [Op_Append ''hello'', Op_Retrieve 2, Op_Shrink 1, Op_Append '' world'']) = ''llo world''
   \<and> bb_inv (foldl buf_step (ByteBuffer_new 4)
      [Op_Append ''hello'', Op_Retrieve 2, Op_Shrink 1, Op_Append '' world''])"
proof -
  let ?ops = "[Op_Append ''hello'', Op_Retrieve 2, Op_Shrink 1, Op_Append '' world'']"
  have "bb_room (ByteBuffer_new 4) (\<Sum>op\<leftarrow>?ops. op_bytes op + 8)"
    by (simp add: bb_defs ByteBuffer_new_def)
  then show ?thesis
    using byte_buffer_refines_queue [of "ByteBuffer_new 4" ?ops] bb_new [of 4] by simp
qed

end
