(* ===== verification/Http_Response.thy ===== *)
theory Http_Response
  imports Byte_Buffer Json_Value Status
begin

text \<open>
  \<^verbatim>\<open>net/http/http_response.{h,cpp}\<close>: the response object, its constructors and its serialisation into a
  byte buffer. The header table is an \<open>unordered_map\<close>: a map, whose order of iteration is the
  parameter \<open>order\<close> of \<open>AppendToBuffer\<close>. The JSON library's \<open>dump\<close> is a parameter of the error responses.
\<close>

datatype HttpStatusCode =
    HTTP_OK | CREATED | NO_CONTENT | PARTIAL_CONTENT | MOVED_PERMANENTLY | FOUND | NOT_MODIFIED
  | BAD_REQUEST | UNAUTHORIZED | FORBIDDEN | NOT_FOUND | METHOD_NOT_ALLOWED | CONFLICT
  | PAYLOAD_TOO_LARGE | RANGE_NOT_SATISFIABLE | INTERNAL_SERVER_ERROR | SERVICE_UNAVAILABLE

fun status_code :: "HttpStatusCode \<Rightarrow> int" where
  "status_code HTTP_OK = 200"
| "status_code CREATED = 201"
| "status_code NO_CONTENT = 204"
| "status_code PARTIAL_CONTENT = 206"
| "status_code MOVED_PERMANENTLY = 301"
| "status_code FOUND = 302"
| "status_code NOT_MODIFIED = 304"
| "status_code BAD_REQUEST = 400"
| "status_code UNAUTHORIZED = 401"
| "status_code FORBIDDEN = 403"
| "status_code NOT_FOUND = 404"
| "status_code METHOD_NOT_ALLOWED = 405"
| "status_code CONFLICT = 409"
| "status_code PAYLOAD_TOO_LARGE = 413"
| "status_code RANGE_NOT_SATISFIABLE = 416"
| "status_code INTERNAL_SERVER_ERROR = 500"
| "status_code SERVICE_UNAVAILABLE = 503"

record HttpResponse =
  rs_status_code :: int
  rs_status_message :: string
  rs_headers :: "string \<rightharpoonup> string"
  rs_body :: string
  rs_file_path :: string
  rs_file_size :: size_t
  rs_file_offset :: size_t
  rs_file_length :: size_t
  rs_keep_alive :: bool

definition HttpResponse_new :: HttpResponse where
  "HttpResponse_new =
     \<lparr>rs_status_code = 200, rs_status_message = ''OK'', rs_headers = Map.empty, rs_body = '''',
      rs_file_path = '''', rs_file_size = 0, rs_file_offset = 0, rs_file_length = 0, rs_keep_alive = True\<rparr>"

definition HttpResponse_SetHeader :: "HttpResponse \<Rightarrow> string \<Rightarrow> string \<Rightarrow> HttpResponse" where
  "HttpResponse_SetHeader r key value = r\<lparr>rs_headers := (rs_headers r)(key \<mapsto> value)\<rparr>"

definition HttpResponse_AddHeader :: "HttpResponse \<Rightarrow> string \<Rightarrow> string \<Rightarrow> HttpResponse" where
  "HttpResponse_AddHeader r key value =
     (case rs_headers r key of
        Some old \<Rightarrow> r\<lparr>rs_headers := (rs_headers r)(key \<mapsto> old @ '', '' @ value)\<rparr>
      | None \<Rightarrow> r\<lparr>rs_headers := (rs_headers r)(key \<mapsto> value)\<rparr>)"

definition HttpResponse_SetBody :: "HttpResponse \<Rightarrow> string \<Rightarrow> HttpResponse" where
  "HttpResponse_SetBody r body = r\<lparr>rs_body := body\<rparr>"

definition HttpResponse_AppendBody :: "HttpResponse \<Rightarrow> string \<Rightarrow> HttpResponse" where
  "HttpResponse_AppendBody r data = r\<lparr>rs_body := rs_body r @ data\<rparr>"

definition HttpResponse_SetJsonBody :: "HttpResponse \<Rightarrow> string \<Rightarrow> HttpResponse" where
  "HttpResponse_SetJsonBody r json =
     HttpResponse_SetHeader (r\<lparr>rs_body := json\<rparr>) ''Content-Type'' ''application/json; charset=utf-8''"

definition HttpResponse_SetFile :: "HttpResponse \<Rightarrow> string \<Rightarrow> size_t \<Rightarrow> size_t \<Rightarrow> size_t \<Rightarrow> HttpResponse" where
  "HttpResponse_SetFile r file_path file_size offset len =
     r\<lparr>rs_file_path := file_path, rs_file_size := file_size, rs_file_offset := offset,
       rs_file_length := (if len > 0 then len else file_size)\<rparr>"

definition HttpResponse_SetFileRange :: "HttpResponse \<Rightarrow> size_t \<Rightarrow> size_t \<Rightarrow> HttpResponse" where
  "HttpResponse_SetFileRange r offset len = r\<lparr>rs_file_offset := offset, rs_file_length := len\<rparr>"

definition HttpResponse_HasFile :: "HttpResponse \<Rightarrow> bool" where
  "HttpResponse_HasFile r = (rs_file_path r \<noteq> [])"

definition HttpResponse_FileLength :: "HttpResponse \<Rightarrow> size_t" where
  "HttpResponse_FileLength r = (if rs_file_length r > 0 then rs_file_length r else rs_file_size r)"

definition HttpResponse_GetStatusMessage :: "int \<Rightarrow> string" where
  "HttpResponse_GetStatusMessage code =
     (if code = 200 then ''OK''
      else if code = 201 then ''Created''
      else if code = 204 then ''No Content''
      else if code = 206 then ''Partial Content''
      else if code = 301 then ''Moved Permanently''
      else if code = 302 then ''Found''
      else if code = 304 then ''Not Modified''
      else if code = 400 then ''Bad Request''
      else if code = 401 then ''Unauthorized''
      else if code = 403 then ''Forbidden''
      else if code = 404 then ''Not Found''
      else if code = 405 then ''Method Not Allowed''
      else if code = 409 then ''Conflict''
      else if code = 413 then ''Payload Too Large''
      else if code = 416 then ''Range Not Satisfiable''
      else if code = 500 then ''Internal Server Error''
      else if code = 503 then ''Service Unavailable''
      else ''Unknown'')"

text \<open>The constructor from an enumerator.\<close>

definition HttpResponse_code :: "HttpStatusCode \<Rightarrow> HttpResponse" where
  "HttpResponse_code code =
     HttpResponse_new\<lparr>rs_status_code := status_code code, rs_status_message := HttpResponse_GetStatusMessage (status_code code)\<rparr>"

definition HttpResponse_Reset :: "HttpResponse \<Rightarrow> HttpResponse" where
  "HttpResponse_Reset r =
     r\<lparr>rs_status_code := 200, rs_status_message := ''OK'', rs_headers := Map.empty, rs_body := '''',
       rs_file_path := '''', rs_file_size := 0, rs_file_offset := 0, rs_file_length := 0, rs_keep_alive := True\<rparr>"

definition HttpResponse_Ok :: "string \<Rightarrow> HttpResponse" where
  "HttpResponse_Ok body =
     (let resp = HttpResponse_new\<lparr>rs_status_code := 200, rs_status_message := ''OK''\<rparr> in
      if body \<noteq> [] then HttpResponse_SetBody resp body else resp)"

definition HttpResponse_Json :: "string \<Rightarrow> int \<Rightarrow> HttpResponse" where
  "HttpResponse_Json json code =
     HttpResponse_SetJsonBody
       (HttpResponse_new\<lparr>rs_status_code := code, rs_status_message := HttpResponse_GetStatusMessage code\<rparr>) json"

definition HttpResponse_Error :: "(Json \<Rightarrow> string) \<Rightarrow> int \<Rightarrow> string \<Rightarrow> string \<Rightarrow> string \<Rightarrow> HttpResponse" where
  "HttpResponse_Error dump status code message trace_id =
     (let error = JObj [(''error'', JObj ([(''code'', JStr code), (''message'', JStr message)] @
                    (if trace_id \<noteq> [] then [(''trace_id'', JStr trace_id)] else [])))] in
      HttpResponse_SetJsonBody
        (HttpResponse_new\<lparr>rs_status_code := status, rs_status_message := HttpResponse_GetStatusMessage status\<rparr>) (dump error))"

definition HttpResponse_NotFound :: "(Json \<Rightarrow> string) \<Rightarrow> string \<Rightarrow> string \<Rightarrow> HttpResponse" where
  "HttpResponse_NotFound dump message trace_id = HttpResponse_Error dump 404 ''NotFound'' message trace_id"

definition HttpResponse_BadRequest :: "(Json \<Rightarrow> string) \<Rightarrow> string \<Rightarrow> string \<Rightarrow> HttpResponse" where
  "HttpResponse_BadRequest dump message trace_id = HttpResponse_Error dump 400 ''BadRequest'' message trace_id"

definition HttpResponse_Unauthorized :: "(Json \<Rightarrow> string) \<Rightarrow> string \<Rightarrow> string \<Rightarrow> HttpResponse" where
  "HttpResponse_Unauthorized dump message trace_id = HttpResponse_Error dump 401 ''Unauthorized'' message trace_id"

definition HttpResponse_Forbidden :: "(Json \<Rightarrow> string) \<Rightarrow> string \<Rightarrow> string \<Rightarrow> HttpResponse" where
  "HttpResponse_Forbidden dump message trace_id = HttpResponse_Error dump 403 ''Forbidden'' message trace_id"

definition HttpResponse_Conflict :: "(Json \<Rightarrow> string) \<Rightarrow> string \<Rightarrow> string \<Rightarrow> HttpResponse" where
  "HttpResponse_Conflict dump message trace_id = HttpResponse_Error dump 409 ''Conflict'' message trace_id"

definition HttpResponse_InternalError :: "(Json \<Rightarrow> string) \<Rightarrow> string \<Rightarrow> string \<Rightarrow> HttpResponse" where
  "HttpResponse_InternalError dump message trace_id = HttpResponse_Error dump 500 ''InternalError'' message trace_id"

definition HttpResponse_ServiceUnavailable :: "(Json \<Rightarrow> string) \<Rightarrow> string \<Rightarrow> string \<Rightarrow> HttpResponse" where
  "HttpResponse_ServiceUnavailable dump message trace_id = HttpResponse_Error dump 503 ''ServiceUnavailable'' message trace_id"

definition HttpResponse_RangeNotSatisfiable :: "size_t \<Rightarrow> HttpResponse" where
  "HttpResponse_RangeNotSatisfiable file_size =
     HttpResponse_SetHeader (HttpResponse_new\<lparr>rs_status_code := 416, rs_status_message := ''Range Not Satisfiable''\<rparr>)
       ''Content-Range'' (''bytes */'' @ nat_to_string file_size)"

definition HttpResponse_OK :: "string \<Rightarrow> HttpResponse" where
  "HttpResponse_OK body = HttpResponse_Ok body"

definition HttpResponse_Created :: "string \<Rightarrow> HttpResponse" where
  "HttpResponse_Created body =
     (let resp = HttpResponse_new\<lparr>rs_status_code := 201, rs_status_message := ''Created''\<rparr> in
      if body \<noteq> [] then HttpResponse_SetJsonBody resp body else resp)"

definition HttpResponse_NoContent :: HttpResponse where
  "HttpResponse_NoContent = HttpResponse_new\<lparr>rs_status_code := 204, rs_status_message := ''No Content''\<rparr>"

section \<open>Serialisation\<close>

definition header_line :: "string \<times> string \<Rightarrow> string" where
  "header_line kv = fst kv @ '': '' @ snd kv @ CRLF"

text \<open>The text that \<open>AppendToBuffer\<close> builds.\<close>

definition render_response :: "((string \<rightharpoonup> string) \<Rightarrow> (string \<times> string) list) \<Rightarrow> HttpResponse \<Rightarrow> string" where
  "render_response order r =
     ''HTTP/1.1 '' @ int_to_string (rs_status_code r) @ '' '' @ rs_status_message r @ CRLF @
     concat (map header_line (order (rs_headers r))) @
     (if rs_body r \<noteq> [] \<and> rs_headers r ''Content-Length'' = None
      then ''Content-Length: '' @ nat_to_string (length (rs_body r)) @ CRLF else '''') @
     (if rs_headers r ''Connection'' = None
      then ''Connection: '' @ (if rs_keep_alive r then ''keep-alive'' else ''close'') @ CRLF else '''') @
     CRLF @
     (if \<not> HttpResponse_HasFile r \<and> rs_body r \<noteq> [] then rs_body r else '''')"

definition HttpResponse_AppendToBuffer ::
    "((string \<rightharpoonup> string) \<Rightarrow> (string \<times> string) list) \<Rightarrow> HttpResponse \<Rightarrow> ByteBuffer \<Rightarrow> ByteBuffer" where
  "HttpResponse_AppendToBuffer order r buffer = ByteBuffer_Append buffer (render_response order r)"

text \<open>What iteration over the table gives: every entry once.\<close>

definition enumerates :: "((string \<rightharpoonup> string) \<Rightarrow> (string \<times> string) list) \<Rightarrow> (string \<rightharpoonup> string) \<Rightarrow> bool" where
  "enumerates order m \<longleftrightarrow> map_of (order m) = m \<and> distinct (map fst (order m))"

lemmas response_simps =
  HttpResponse_new_def HttpResponse_SetHeader_def HttpResponse_SetBody_def HttpResponse_SetJsonBody_def HttpResponse_SetFile_def
  HttpResponse_Ok_def HttpResponse_OK_def HttpResponse_code_def HttpResponse_Created_def HttpResponse_NoContent_def
  HttpResponse_Error_def HttpResponse_NotFound_def HttpResponse_BadRequest_def HttpResponse_Unauthorized_def
  HttpResponse_Forbidden_def HttpResponse_Conflict_def HttpResponse_InternalError_def HttpResponse_ServiceUnavailable_def
  HttpResponse_RangeNotSatisfiable_def HttpResponse_Json_def

lemma status_of_errors [simp]:
  "rs_status_code (HttpResponse_NotFound dump m t) = 404" "rs_status_code (HttpResponse_BadRequest dump m t) = 400"
  "rs_status_code (HttpResponse_Unauthorized dump m t) = 401" "rs_status_code (HttpResponse_Forbidden dump m t) = 403"
  "rs_status_code (HttpResponse_Conflict dump m t) = 409" "rs_status_code (HttpResponse_InternalError dump m t) = 500"
  "rs_status_code (HttpResponse_ServiceUnavailable dump m t) = 503" "rs_status_code (HttpResponse_RangeNotSatisfiable n) = 416"
  "rs_status_code (HttpResponse_OK b) = 200" "rs_status_code (HttpResponse_Created b) = 201"
  "rs_status_code HttpResponse_NoContent = 204" "rs_status_code (HttpResponse_code c) = status_code c"
  by (simp_all add: response_simps Let_def)

lemma SetHeader_fields [simp]:
  "rs_status_code (HttpResponse_SetHeader r k v) = rs_status_code r"
  "rs_body (HttpResponse_SetHeader r k v) = rs_body r"
  "rs_file_path (HttpResponse_SetHeader r k v) = rs_file_path r"
  "rs_file_size (HttpResponse_SetHeader r k v) = rs_file_size r"
  "rs_file_offset (HttpResponse_SetHeader r k v) = rs_file_offset r"
  "rs_file_length (HttpResponse_SetHeader r k v) = rs_file_length r"
  "rs_headers (HttpResponse_SetHeader r k v) = (rs_headers r)(k \<mapsto> v)"
  by (simp_all add: HttpResponse_SetHeader_def)

lemma SetFile_fields [simp]:
  "rs_status_code (HttpResponse_SetFile r p n off len) = rs_status_code r"
  "rs_headers (HttpResponse_SetFile r p n off len) = rs_headers r"
  "rs_file_path (HttpResponse_SetFile r p n off len) = p"
  "rs_file_size (HttpResponse_SetFile r p n off len) = n"
  "rs_file_offset (HttpResponse_SetFile r p n off len) = off"
  "HttpResponse_FileLength (HttpResponse_SetFile r p n off len) = (if len > 0 then len else n)"
  by (simp_all add: HttpResponse_SetFile_def HttpResponse_FileLength_def)

lemma SetBody_fields [simp]:
  "rs_status_code (HttpResponse_SetBody r b) = rs_status_code r" "rs_headers (HttpResponse_SetBody r b) = rs_headers r"
  "rs_body (HttpResponse_SetBody r b) = b" "rs_file_path (HttpResponse_SetBody r b) = rs_file_path r"
  by (simp_all add: HttpResponse_SetBody_def)

end
