(* ===== verification/Http_Router.thy ===== *)
theory Http_Router
  imports Http_Request Http_Response
begin

text \<open>
  \<^verbatim>\<open>net/http/http_router.{h,cpp}\<close>: compilation of path patterns, matching, middleware and dispatch. A
  handler changes the state of the server and may end in an uncaught exception. \<open>CompilePattern\<close>
  writes a regular expression; its items and \<open>std::regex_match\<close> on them (greedy, with backtracking,
  captures as sub-matches) are modelled directly. A character that the source writes unescaped
  although it is special (\<open>Raw\<close>) has no meaning here: such a pattern matches nothing.
\<close>

type_synonym 's HttpHandler = "HttpRequest \<Rightarrow> 's \<Rightarrow> 's \<times> (cpp_exn + HttpResponse)"

type_synonym 's Middleware = "HttpRequest \<Rightarrow> 's HttpHandler \<Rightarrow> 's \<Rightarrow> 's \<times> (cpp_exn + HttpResponse)"

datatype RegexItem = Lit char | Seg | Wild | Raw char

text \<open>The escaped characters, and those that stay special.\<close>

definition escaped :: "char \<Rightarrow> bool" where
  "escaped c = (c \<in> set ''.+?()[]$^'')"

definition special :: "char \<Rightarrow> bool" where
  "special c = (c = CHR ''|'' \<or> c = CHR 0x5C \<or> c = CHR ''}'')"

function compile_from :: "string \<Rightarrow> cpp_exn + (RegexItem list \<times> string list)" where
  "compile_from s =
     (case s of
        [] \<Rightarrow> Inr ([], [])
      | c # rest \<Rightarrow>
          if c = CHR ''{''
          then (case find_char (CHR ''}'') s of
                  None \<Rightarrow> Inl Invalid_argument
                | Some k \<Rightarrow>
                    (case compile_from (drop (Suc k) s) of
                       Inl e \<Rightarrow> Inl e
                     | Inr (items, names) \<Rightarrow> Inr (Seg # items, take (k - 1) rest # names)))
          else (case compile_from rest of
                  Inl e \<Rightarrow> Inl e
                | Inr (items, names) \<Rightarrow>
                    Inr ((if c = CHR ''*'' then Wild
                          else if \<not> escaped c \<and> special c then Raw c else Lit c) # items, names)))"
  by pat_completeness auto
termination by (relation "measure length") auto

declare compile_from.simps [simp del]

definition HttpRouter_CompilePattern :: "string \<Rightarrow> cpp_exn + (RegexItem list \<times> string list)" where
  "HttpRouter_CompilePattern pattern = compile_from pattern"

text \<open>The first alternative that succeeds.\<close>

fun first_some :: "('a \<Rightarrow> 'b option) \<Rightarrow> 'a list \<Rightarrow> 'b option" where
  "first_some f [] = None"
| "first_some f (x # xs) = (case f x of None \<Rightarrow> first_some f xs | Some y \<Rightarrow> Some y)"

text \<open>\<open>std::regex_match\<close>: the captures; \<open>(.*)\<close> does not match line ends.\<close>

primrec regex_match :: "RegexItem list \<Rightarrow> string \<Rightarrow> string list option" where
  "regex_match [] = (\<lambda>s. if s = [] then Some [] else None)"
| "regex_match (i # is) = (\<lambda>s.
     (case i of
        Lit c \<Rightarrow> (case s of x # xs \<Rightarrow> if x = c then regex_match is xs else None | [] \<Rightarrow> None)
      | Seg \<Rightarrow> first_some (\<lambda>n. map_option ((#) (take n s)) (regex_match is (drop n s)))
                 (rev [1..<Suc (length (takeWhile (\<lambda>c. c \<noteq> CHR ''/'') s))])
      | Wild \<Rightarrow> first_some (\<lambda>n. map_option ((#) (take n s)) (regex_match is (drop n s)))
                 (rev [0..<Suc (length (takeWhile (\<lambda>c. c \<noteq> LF \<and> c \<noteq> CR) s))])
      | Raw c \<Rightarrow> None))"

record 's RouteEntry =
  re_method :: HttpMethod
  re_pattern :: string
  re_regex :: "RegexItem list"
  re_param_names :: "string list"
  re_handler :: "'s HttpHandler"

record 's HttpRouter =
  hr_routes :: "'s RouteEntry list"
  hr_middlewares :: "'s Middleware list"
  hr_not_found :: "'s HttpHandler option"

definition HttpRouter_new :: "'s HttpRouter" where
  "HttpRouter_new = \<lparr>hr_routes = [], hr_middlewares = [], hr_not_found = None\<rparr>"

definition HttpRouter_Route :: "'s HttpRouter \<Rightarrow> HttpMethod \<Rightarrow> string \<Rightarrow> 's HttpHandler \<Rightarrow> cpp_exn + 's HttpRouter" where
  "HttpRouter_Route r method pattern handler =
     (case HttpRouter_CompilePattern pattern of
        Inl e \<Rightarrow> Inl e
      | Inr (regex, param_names) \<Rightarrow>
          Inr (r\<lparr>hr_routes := hr_routes r @ [\<lparr>re_method = method, re_pattern = pattern, re_regex = regex,
                   re_param_names = param_names, re_handler = handler\<rparr>]\<rparr>))"

definition HttpRouter_Use :: "'s HttpRouter \<Rightarrow> 's Middleware \<Rightarrow> 's HttpRouter" where
  "HttpRouter_Use r middleware = r\<lparr>hr_middlewares := hr_middlewares r @ [middleware]\<rparr>"

definition HttpRouter_SetNotFoundHandler :: "'s HttpRouter \<Rightarrow> 's HttpHandler \<Rightarrow> 's HttpRouter" where
  "HttpRouter_SetNotFoundHandler r handler = r\<lparr>hr_not_found := Some handler\<rparr>"

text \<open>The parameters of a match, and the chain of middleware, wrapped from the last to the first.\<close>

fun set_params :: "HttpRequest \<Rightarrow> string list \<Rightarrow> string list \<Rightarrow> HttpRequest" where
  "set_params rq (n # ns) (v # vs) = set_params (HttpRequest_SetPathParam rq n v) ns vs"
| "set_params rq _ _ = rq"

definition wrap :: "'s Middleware list \<Rightarrow> 's HttpHandler \<Rightarrow> 's HttpHandler" where
  "wrap ms handler = foldr (\<lambda>m h rq. m rq h) ms handler"

fun find_route :: "'s RouteEntry list \<Rightarrow> HttpRequest \<Rightarrow> ('s RouteEntry \<times> string list) option" where
  "find_route [] rq = None"
| "find_route (route # routes) rq =
     (if re_method route \<noteq> rq_method rq then find_route routes rq
      else case regex_match (re_regex route) (rq_path rq) of
             None \<Rightarrow> find_route routes rq
           | Some caps \<Rightarrow> Some (route, caps))"

definition HttpRouter_Handle :: "(Json \<Rightarrow> string) \<Rightarrow> 's HttpRouter \<Rightarrow> 's HttpHandler" where
  "HttpRouter_Handle dump r request s =
     (case find_route (hr_routes r) request of
        Some (route, caps) \<Rightarrow>
          wrap (hr_middlewares r) (re_handler route) (set_params request (re_param_names route) caps) s
      | None \<Rightarrow>
          (case hr_not_found r of
             Some handler \<Rightarrow> handler request s
           | None \<Rightarrow> (s, Inr (HttpResponse_NotFound dump (''Route not found: '' @ rq_path request) (rq_trace_id request)))))"

section \<open>Matching\<close>

lemma first_some_Some: "first_some f xs = Some y \<Longrightarrow> \<exists>x \<in> set xs. f x = Some y"
  by (induction xs) (auto split: option.splits)

lemma first_some_unique:
  assumes "x \<in> set xs" "f x = Some y" "\<And>z. z \<in> set xs \<Longrightarrow> z \<noteq> x \<Longrightarrow> f z = None"
  shows "first_some f xs = Some y"
proof -
  have "first_some f xs = Some y" if "x \<in> set xs" "\<forall>z \<in> set xs. z \<noteq> x \<longrightarrow> f z = None" for xs
    using that assms(2) by (induction xs) (auto split: option.splits)
  with assms show ?thesis by blast
qed

lemma take_while_slash:
  assumes "n \<le> length (takeWhile P s)"
  shows "\<forall>c \<in> set (take n s). P c"
proof -
  have "take n s = take n (takeWhile P s)" using assms takeWhile_eq_take [of P s] by (metis min.absorb1 take_take)
  then show ?thesis using in_set_takeD set_takeWhileD by metis
qed

text \<open>The text of a pattern with its parameters filled in.\<close>

fun fill :: "RegexItem list \<Rightarrow> string list \<Rightarrow> string" where
  "fill [] vs = []"
| "fill (Lit c # is) vs = c # fill is vs"
| "fill (Seg # is) (v # vs) = v @ fill is vs"
| "fill (i # is) vs = []"

definition seg_value :: "string \<Rightarrow> bool" where
  "seg_value v \<longleftrightarrow> v \<noteq> [] \<and> CHR ''/'' \<notin> set v"

text \<open>A pattern of literals and parameters in which every parameter is a whole path segment.\<close>

fun separated :: "RegexItem list \<Rightarrow> bool" where
  "separated [] = True"
| "separated (Lit c # is) = separated is"
| "separated (Seg # is) = ((is = [] \<or> (\<exists>js. is = Lit (CHR ''/'') # js)) \<and> separated is)"
| "separated (i # is) = False"

fun segs :: "RegexItem list \<Rightarrow> nat" where
  "segs [] = 0"
| "segs (Seg # is) = Suc (segs is)"
| "segs (i # is) = segs is"

lemma regex_match_Seg:
  assumes "regex_match (Seg # is) s = Some vs"
  obtains n ws where "1 \<le> n" "n \<le> length (takeWhile (\<lambda>c. c \<noteq> CHR ''/'') s)"
    "regex_match is (drop n s) = Some ws" "vs = take n s # ws"
proof -
  let ?f = "\<lambda>n. map_option ((#) (take n s)) (regex_match is (drop n s))"
  have "first_some ?f (rev [1..<Suc (length (takeWhile (\<lambda>c. c \<noteq> CHR ''/'') s))]) = Some vs"
    using assms by simp
  then obtain n where n: "n \<in> set (rev [1..<Suc (length (takeWhile (\<lambda>c. c \<noteq> CHR ''/'') s))])" "?f n = Some vs"
    using first_some_Some by fast
  from n(1) have "1 \<le> n" "n \<le> length (takeWhile (\<lambda>c. c \<noteq> CHR ''/'') s)" by auto
  moreover from n(2) obtain ws where "regex_match is (drop n s) = Some ws" "vs = take n s # ws" by blast
  ultimately show ?thesis by (rule that)
qed

lemma regex_match_Lit:
  assumes "regex_match (Lit c # is) s = Some vs"
  obtains xs where "s = c # xs" "regex_match is xs = Some vs"
  using assms by (cases s) (auto split: if_splits)

lemma regex_match_sound:
  "regex_match is s = Some vs \<Longrightarrow> separated is \<Longrightarrow> s = fill is vs \<and> list_all seg_value vs \<and> length vs = segs is"
proof (induction "is" arbitrary: s vs)
  case Nil
  then show ?case by (auto split: if_splits)
next
  case (Cons i "is")
  show ?case
  proof (cases i)
    case (Lit c)
    with Cons.prems(1) have "regex_match (Lit c # is) s = Some vs" by (simp only:)
    then obtain xs where xs: "s = c # xs" "regex_match is xs = Some vs" by (rule regex_match_Lit)
    have "separated is" using Cons.prems(2) Lit by simp
    from Cons.IH [OF xs(2) this] xs(1) Lit show ?thesis by simp
  next
    case Seg
    with Cons.prems(1) have "regex_match (Seg # is) s = Some vs" by (simp only:)
    then obtain n ws where n: "1 \<le> n" "n \<le> length (takeWhile (\<lambda>c. c \<noteq> CHR ''/'') s)"
      and w: "regex_match is (drop n s) = Some ws" "vs = take n s # ws" by (rule regex_match_Seg)
    have v: "seg_value (take n s)"
      using take_while_slash [OF n(2)] n by (cases s) (auto simp: seg_value_def)
    have "separated is" using Cons.prems(2) Seg by simp
    with Cons.IH [OF w(1)] have "drop n s = fill is ws" "list_all seg_value ws" "length ws = segs is" by blast+
    have "take n s @ fill is ws = s" using append_take_drop_id [of n s] \<open>drop n s = fill is ws\<close> by simp
    then have "fill (i # is) vs = s" unfolding w(2) Seg by simp
    moreover have "list_all seg_value vs" "length vs = segs (i # is)"
      using v Seg \<open>list_all seg_value ws\<close> \<open>length ws = segs is\<close> by (simp_all add: w(2))
    ultimately show ?thesis by blast
  qed (use Cons.prems in simp_all)
qed

lemma regex_match_complete:
  "separated is \<Longrightarrow> list_all seg_value vs \<Longrightarrow> length vs = segs is \<Longrightarrow> regex_match is (fill is vs) = Some vs"
proof (induction "is" arbitrary: vs)
  case (Cons i "is")
  show ?case
  proof (cases i)
    case Seg
    with Cons.prems obtain v ws where vs: "vs = v # ws" "seg_value v" "list_all seg_value ws" "length ws = segs is"
      by (cases vs) auto
    let ?s = "v @ fill is ws" and ?P = "\<lambda>c. c \<noteq> CHR ''/''"
    let ?f = "\<lambda>n. map_option ((#) (take n ?s)) (regex_match is (drop n ?s))"
    have sep: "is = [] \<or> (\<exists>js. is = Lit (CHR ''/'') # js)" "separated is" using Cons.prems Seg by auto
    have "takeWhile ?P (fill is ws) = []" using sep(1) vs(4) by auto
    moreover have "takeWhile ?P ?s = v @ takeWhile ?P (fill is ws)"
      by (rule takeWhile_append2) (use vs(2) in \<open>auto simp: seg_value_def\<close>)
    ultimately have tw: "takeWhile ?P ?s = v" by simp
    have "first_some ?f (rev [1..<Suc (length (takeWhile ?P ?s))]) = Some (v # ws)"
    proof (rule first_some_unique [where x = "length v"])
      show "length v \<in> set (rev [1..<Suc (length (takeWhile ?P ?s))])" using vs(2) tw by (cases v) (auto simp: seg_value_def)
      show "?f (length v) = Some (v # ws)" using Cons.IH [OF sep(2) vs(3,4)] by simp
      fix n assume "n \<in> set (rev [1..<Suc (length (takeWhile ?P ?s))])" "n \<noteq> length v"
      then have n: "n < length v" using tw by auto
      then obtain c cs where d: "drop n v = c # cs" by (cases "drop n v") auto
      have "c \<noteq> CHR ''/''" using vs(2) d by (metis in_set_dropD list.set_intros(1) seg_value_def)
      then have "regex_match is (drop n ?s) = None" using sep(1) d n by auto
      then show "?f n = None" by simp
    qed
    with vs Seg show ?thesis by simp
  qed (use Cons in auto)
qed simp

lemma set_params_fields [simp]:
  "rq_method (set_params rq ns vs) = rq_method rq" "rq_path (set_params rq ns vs) = rq_path rq"
  "rq_query (set_params rq ns vs) = rq_query rq" "rq_headers (set_params rq ns vs) = rq_headers rq"
  "rq_body (set_params rq ns vs) = rq_body rq"
  by (induction rq ns vs rule: set_params.induct) (simp_all add: HttpRequest_SetPathParam_def)

lemma wrap_simps [simp]:
  "wrap [] h = h" "wrap (m # ms) h = (\<lambda>rq. m rq (wrap ms h))"
  by (simp_all add: wrap_def)

text \<open>A route whose parameters are whole path segments matches exactly the paths obtained by filling
  non-empty, slash-free values into its pattern, and the captures are those values.\<close>

theorem router_match_exact:
  assumes "separated is"
  shows "regex_match is s = Some vs \<longleftrightarrow> s = fill is vs \<and> list_all seg_value vs \<and> length vs = segs is"
  using regex_match_sound [OF _ assms] regex_match_complete [OF assms] by blast

theorem router_match_exact_witness:
  "\<exists>is names. HttpRouter_CompilePattern ''/buckets/{bucket}/objects/{object}'' = Inr (is, names) \<and>
     names = [''bucket'', ''object''] \<and> regex_match is ''/buckets/b1/objects/k'' = Some [''b1'', ''k''] \<and>
     regex_match is ''/buckets/b1/objects/a/b'' \<noteq> Some [''b1'', ''a/b'']"
proof -
  define it where "it = map Lit ''/buckets/'' @ [Seg] @ map Lit ''/objects/'' @ [Seg]"
  have e: "HttpRouter_CompilePattern ''/buckets/{bucket}/objects/{object}'' = Inr (it, [''bucket'', ''object''])"
    unfolding it_def HttpRouter_CompilePattern_def by (simp add: compile_from.simps escaped_def special_def)
  have sep: "separated it" and n: "segs it = 2" and f: "fill it [''b1'', ''k''] = ''/buckets/b1/objects/k''"
    by (simp_all add: it_def)
  from router_match_exact [OF sep] n f have "regex_match it ''/buckets/b1/objects/k'' = Some [''b1'', ''k'']"
    by (simp add: seg_value_def)
  moreover from router_match_exact [OF sep] have "regex_match it ''/buckets/b1/objects/a/b'' \<noteq> Some [''b1'', ''a/b'']"
    by (simp add: seg_value_def)
  ultimately show ?thesis using e by auto
qed

end
