(* ===== verification/Api_World.thy ===== *)
theory Api_World
  imports Gc Http_Router
begin

text \<open>
  What the request handlers share: the environment (the parameters of the stores, the data store's
  configuration, the clock and the identifiers drawn while a request is handled) and the state (the
  metadata store, the file system and the collector, absent when collection is disabled), with the
  handlers' common steps: answering, finding the bucket, queueing a candidate, and
  \<open>CleanupUnreferencedCas\<close> of the object and multipart handlers.
\<close>

record ('d, 'r) Api =
  ap_meta :: "('d, 'r) MetaEnv"
  ap_store :: StoreEnv
  ap_ds :: DataStore
  ap_now :: int
  ap_uuid :: "nat \<Rightarrow> string"

record ('d, 'r) World =
  w_ms :: "('d, 'r) MetaStore"
  w_fs :: FileSys
  w_gc :: "GarbageCollector option"

type_synonym ('d, 'r) Answer = "('d, 'r) World \<times> (cpp_exn + HttpResponse)"

abbreviation ap_dump :: "('d, 'r) Api \<Rightarrow> Json \<Rightarrow> string" where
  "ap_dump api \<equiv> me_dump (ap_meta api)"

definition answer :: "('d, 'r) World \<Rightarrow> HttpResponse \<Rightarrow> ('d, 'r) Answer" where
  "answer w r = (w, Inr r)"

definition bad_request :: "('d, 'r) Api \<Rightarrow> string \<Rightarrow> ('d, 'r) World \<Rightarrow> ('d, 'r) Answer" where
  "bad_request api msg w = answer w (HttpResponse_BadRequest (ap_dump api) msg '''')"

definition not_found :: "('d, 'r) Api \<Rightarrow> string \<Rightarrow> ('d, 'r) World \<Rightarrow> ('d, 'r) Answer" where
  "not_found api msg w = answer w (HttpResponse_NotFound (ap_dump api) msg '''')"

definition internal_error :: "('d, 'r) Api \<Rightarrow> string \<Rightarrow> ('d, 'r) World \<Rightarrow> ('d, 'r) Answer" where
  "internal_error api msg w = answer w (HttpResponse_InternalError (ap_dump api) msg '''')"

definition conflict :: "('d, 'r) Api \<Rightarrow> string \<Rightarrow> ('d, 'r) World \<Rightarrow> ('d, 'r) Answer" where
  "conflict api msg w = answer w (HttpResponse_Conflict (ap_dump api) msg '''')"

text \<open>An operation of the metadata store on the state.\<close>

definition meta_op ::
    "(('d, 'r) MetaStore \<Rightarrow> ('d, 'r) MetaStore \<times> 'a Result) \<Rightarrow> ('d, 'r) World \<Rightarrow> ('d, 'r) World \<times> 'a Result" where
  "meta_op f w = (case f (w_ms w) of (ms, r) \<Rightarrow> (w\<lparr>w_ms := ms\<rparr>, r))"

text \<open>The lookup of the bucket, which most handlers begin with.\<close>

definition with_bucket ::
    "('d, 'r) Api \<Rightarrow> string \<Rightarrow> ('d, 'r) World \<Rightarrow> (BucketInfo \<Rightarrow> ('d, 'r) World \<Rightarrow> ('d, 'r) Answer) \<Rightarrow> ('d, 'r) Answer" where
  "with_bucket api bucket_name w k =
     (case meta_op (\<lambda>ms. MetaStore_GetBucket (ap_meta api) ms bucket_name) w of
        (w, Inl e) \<Rightarrow>
          if st_code e = NoSuchBucket then not_found api ''Bucket not found'' w
          else internal_error api ''Failed to get bucket'' w
      | (w, Inr bucket) \<Rightarrow> k bucket w)"

text \<open>\<open>if (gc && key.has_value()) gc->AddPendingDelete(*key)\<close>.\<close>

definition enqueue :: "string option \<Rightarrow> ('d, 'r) World \<Rightarrow> ('d, 'r) World" where
  "enqueue key w =
     (case (w_gc w, key) of
        (Some gc, Some k) \<Rightarrow> w\<lparr>w_gc := Some (GarbageCollector_AddPendingDelete gc k)\<rparr>
      | _ \<Rightarrow> w)"

definition delete_blob :: "('d, 'r) Api \<Rightarrow> string \<Rightarrow> ('d, 'r) World \<Rightarrow> ('d, 'r) World" where
  "delete_blob api cas_key w = w\<lparr>w_fs := fst (DataStore_Delete (ap_store api) (ap_ds api) (w_fs w) cas_key)\<rparr>"

definition CleanupUnreferencedCas :: "('d, 'r) Api \<Rightarrow> string \<Rightarrow> ('d, 'r) World \<Rightarrow> ('d, 'r) World" where
  "CleanupUnreferencedCas api cas_key w =
     (case meta_op (\<lambda>ms. MetaStore_GetCasBlob (ap_meta api) ms cas_key) w of
        (w, Inl e) \<Rightarrow> if st_code e = NoSuchKey then delete_blob api cas_key w else w
      | (w, Inr info) \<Rightarrow> if ci_ref_count info = 0 then delete_blob api cas_key w else w)"

text \<open>The data of an upload: the blob that the connection layer has committed already (named in the
  internal headers), or a new one. \<open>Inr (cas_key, data_size, may_need_cleanup)\<close>; \<open>Inl\<close>: the write
  failed.\<close>

definition store_body ::
    "('d, 'r) Api \<Rightarrow> HttpRequest \<Rightarrow> ('d, 'r) World \<Rightarrow> ('d, 'r) World \<times> (unit + (string \<times> size_t \<times> bool))" where
  "store_body api request w =
     (let body = rq_body request;
          internal_cas = HttpRequest_GetHeader request ''X-Internal-CAS-Key'';
          internal_size = HttpRequest_GetHeader request ''X-Internal-Size''
      in if internal_cas \<noteq> ''''
         then (w, Inr (internal_cas,
                       case stoull internal_size of Inr n \<Rightarrow> n | Inl _ \<Rightarrow> length body, False))
         else let predicted_cas = Crypto_SHA256 (se_sha (ap_store api)) body;
                  (fs, existed_before) = DataStore_Exists (ap_ds api) (w_fs w) predicted_cas
              in case DataStore_Write (ap_store api) (ap_ds api) fs (ap_uuid api 1) body of
                   (fs, Inl _) \<Rightarrow> (w\<lparr>w_fs := fs\<rparr>, Inl ())
                 | (fs, Inr cas_key) \<Rightarrow>
                     (w\<lparr>w_fs := fs\<rparr>, Inr (cas_key, length body, \<not> existed_before \<and> cas_key = predicted_cas)))"

text \<open>Conversions between \<open>size_t\<close> and \<open>int64_t\<close>.\<close>

definition int64_of :: "size_t \<Rightarrow> int" where
  "int64_of n = (if n mod 2 ^ 64 < 2 ^ 63 then int (n mod 2 ^ 64) else int (n mod 2 ^ 64) - 2 ^ 64)"

definition size_of :: "int \<Rightarrow> size_t" where
  "size_of i = nat (i mod 2 ^ 64)"

definition quoted :: "string \<Rightarrow> string" where
  "quoted s = DQ # s @ [DQ]"

lemma size_of_int [simp]: "n < 2 ^ 64 \<Longrightarrow> size_of (int n) = n"
  unfolding size_of_def by (metis (no_types, lifting) mod_less nat_int of_nat_mod of_nat_numeral of_nat_power)

lemma int64_of_small [simp]: "n < 2 ^ 63 \<Longrightarrow> int64_of n = int n"
  by (simp add: int64_of_def)

end
