(* ===== verification/Bucket_Handlers.thy ===== *)
theory Bucket_Handlers
  imports Api_World
begin

text \<open>\<^verbatim>\<open>api/handlers/bucket_handlers.cpp\<close> and \<^verbatim>\<open>api/handlers/health_handlers.cpp\<close>.\<close>

definition owner_of :: "HttpRequest \<Rightarrow> string" where
  "owner_of request =
     (let owner_id = HttpRequest_GetHeader request ''X-User-Id'' in if owner_id = '''' then ''anonymous'' else owner_id)"

definition BucketHandlers_CreateBucket :: "('d, 'r) Api \<Rightarrow> HttpRequest \<Rightarrow> ('d, 'r) World \<Rightarrow> ('d, 'r) Answer" where
  "BucketHandlers_CreateBucket api request w =
     (let bucket_name = HttpRequest_GetPathParam request ''bucket'' in
      if bucket_name = '''' then bad_request api ''Bucket name is required'' w
      else if length bucket_name < 3 \<or> length bucket_name > 63
      then bad_request api ''Bucket name must be between 3 and 63 characters'' w
      else case meta_op (\<lambda>ms. MetaStore_CreateBucket (ap_meta api) (ap_now api) ms bucket_name (owner_of request)
                           ''default'' ''private'') w of
             (w, Inl e) \<Rightarrow>
               if st_code e = BucketAlreadyExists then conflict api ''Bucket already exists'' w
               else internal_error api ''Failed to create bucket'' w
           | (w, Inr _) \<Rightarrow>
               answer w (HttpResponse_Created (ap_dump api (JObj [(''bucket'', JStr bucket_name), (''created'', JBool True)]))))"

definition BucketHandlers_GetBucket :: "('d, 'r) Api \<Rightarrow> HttpRequest \<Rightarrow> ('d, 'r) World \<Rightarrow> ('d, 'r) Answer" where
  "BucketHandlers_GetBucket api request w =
     (let bucket_name = HttpRequest_GetPathParam request ''bucket'' in
      if bucket_name = '''' then bad_request api ''Bucket name is required'' w
      else with_bucket api bucket_name w (\<lambda>bucket w.
        answer w (HttpResponse_OK (ap_dump api (JObj [(''name'', JStr (bi_name bucket)), (''owner_id'', JStr (bi_owner_id bucket)),
          (''region'', JStr (bi_region bucket)), (''created_at'', JInt (bi_created_at bucket))])))))"

definition BucketHandlers_DeleteBucket :: "('d, 'r) Api \<Rightarrow> HttpRequest \<Rightarrow> ('d, 'r) World \<Rightarrow> ('d, 'r) Answer" where
  "BucketHandlers_DeleteBucket api request w =
     (let bucket_name = HttpRequest_GetPathParam request ''bucket'' in
      if bucket_name = '''' then bad_request api ''Bucket name is required'' w
      else with_bucket api bucket_name w (\<lambda>bucket w.
        case meta_op (\<lambda>ms. MetaStore_IsBucketEmpty (ap_meta api) ms (bi_id bucket)) w of
          (w, Inl _) \<Rightarrow> internal_error api ''Failed to check bucket'' w
        | (w, Inr False) \<Rightarrow> conflict api ''Bucket is not empty'' w
        | (w, Inr True) \<Rightarrow>
            (case meta_op (\<lambda>ms. MetaStore_DeleteBucket (ap_meta api) ms bucket_name) w of
               (w, Inl _) \<Rightarrow> internal_error api ''Failed to delete bucket'' w
             | (w, Inr _) \<Rightarrow> answer w HttpResponse_NoContent)))"

definition BucketHandlers_ListBuckets :: "('d, 'r) Api \<Rightarrow> HttpRequest \<Rightarrow> ('d, 'r) World \<Rightarrow> ('d, 'r) Answer" where
  "BucketHandlers_ListBuckets api request w =
     (case meta_op (\<lambda>ms. MetaStore_ListBuckets (ap_meta api) ms (owner_of request)) w of
        (w, Inl _) \<Rightarrow> internal_error api ''Failed to list buckets'' w
      | (w, Inr buckets) \<Rightarrow>
          answer w (HttpResponse_OK (ap_dump api (JObj [(''buckets'', JArr (map (\<lambda>bucket.
            JObj [(''name'', JStr (bi_name bucket)), (''created_at'', JInt (bi_created_at bucket))]) buckets))]))))"

section \<open>Health\<close>

definition HealthHandlers_HealthCheck :: "('d, 'r) Api \<Rightarrow> HttpRequest \<Rightarrow> ('d, 'r) World \<Rightarrow> ('d, 'r) Answer" where
  "HealthHandlers_HealthCheck api request w =
     answer w (HttpResponse_OK (ap_dump api (JObj [(''status'', JStr ''healthy''), (''service'', JStr ''minis3''),
       (''version'', JStr ''1.0.0'')])))"

definition HealthHandlers_ReadyCheck :: "('d, 'r) Api \<Rightarrow> HttpRequest \<Rightarrow> ('d, 'r) World \<Rightarrow> ('d, 'r) Answer" where
  "HealthHandlers_ReadyCheck api request w =
     (let is_ready = True in
      if is_ready then answer w (HttpResponse_OK (ap_dump api (JObj [(''status'', JStr ''ready'')])))
      else answer w (HttpResponse_ServiceUnavailable (ap_dump api)
             (ap_dump api (JObj [(''status'', JStr ''not ready''), (''reason'', JStr ''dependencies not available'')])) ''''))"

text \<open>\<open>metrics\<close> is the text of \<open>Metrics::GetInstance().Export()\<close>.\<close>

definition HealthHandlers_Metrics :: "string \<Rightarrow> HttpRequest \<Rightarrow> ('d, 'r) World \<Rightarrow> ('d, 'r) Answer" where
  "HealthHandlers_Metrics metrics request w =
     answer w (HttpResponse_SetBody (HttpResponse_SetHeader (HttpResponse_code HTTP_OK) ''Content-Type''
       ''text/plain; version=0.0.4; charset=utf-8'') metrics)"

end
