(* ===== verification/Object_Handlers.thy ===== *)
theory Object_Handlers
  imports Bucket_Handlers
begin

text \<open>
  \<^verbatim>\<open>api/handlers/object_handlers.cpp\<close>: upload, download with ranges, head, deletion and listing. The
  handlers' uncaught exceptions (a range number that does not fit 64 bits) are values.
\<close>

section \<open>Ranges\<close>

text \<open>The regular expression \<^verbatim>\<open>bytes=(\d*)-(\d*)\<close>.\<close>

definition range_regex :: "string \<Rightarrow> (string \<times> string) option" where
  "range_regex s =
     (if take 6 s = ''bytes=''
      then let t = drop 6 s; a = takeWhile isdigit t; u = drop (length a) t in
           if u \<noteq> [] \<and> hd u = CHR ''-'' \<and> list_all isdigit (tl u) then Some (a, tl u) else None
      else None)"

definition ObjectHandlers_ParseRange :: "string \<Rightarrow> size_t \<Rightarrow> cpp_exn + (size_t \<times> size_t) option" where
  "ObjectHandlers_ParseRange range_header file_size =
     (if file_size = 0 then Inr None
      else case range_regex range_header of
        None \<Rightarrow> Inr None
      | Some (start_str, end_str) \<Rightarrow>
          if start_str = [] \<and> end_str = [] then Inr None
          else if start_str = [] then
            (case stoull end_str of
               Inl e \<Rightarrow> Inl e
             | Inr suffix_length \<Rightarrow>
                 let suffix_length = (if suffix_length > file_size then file_size else suffix_length) in
                 Inr (Some (size_sub file_size suffix_length, size_sub file_size 1)))
          else if end_str = [] then
            (case stoull start_str of
               Inl e \<Rightarrow> Inl e
             | Inr start \<Rightarrow> if start \<ge> file_size then Inr None else Inr (Some (start, size_sub file_size 1)))
          else
            (case stoull start_str of
               Inl e \<Rightarrow> Inl e
             | Inr start \<Rightarrow>
                 (case stoull end_str of
                    Inl e \<Rightarrow> Inl e
                  | Inr end1 \<Rightarrow>
                      if start > end1 \<or> start \<ge> file_size then Inr None
                      else Inr (Some (start, if end1 \<ge> file_size then size_sub file_size 1 else end1)))))"

section \<open>Handlers\<close>

text \<open>The key parameters of a request.\<close>

definition with_key ::
    "('d, 'r) Api \<Rightarrow> HttpRequest \<Rightarrow> ('d, 'r) World \<Rightarrow>
     (string \<Rightarrow> string \<Rightarrow> BucketInfo \<Rightarrow> ('d, 'r) World \<Rightarrow> ('d, 'r) Answer) \<Rightarrow> ('d, 'r) Answer" where
  "with_key api request w k =
     (let bucket_name = HttpRequest_GetPathParam request ''bucket'';
          object_key = HttpRequest_GetPathParam request ''object''
      in if bucket_name = '''' \<or> object_key = ''''
         then bad_request api ''Bucket and object key are required'' w
         else with_bucket api bucket_name w (k bucket_name object_key))"

definition content_type_of :: "HttpRequest \<Rightarrow> string" where
  "content_type_of request =
     (let content_type = HttpRequest_GetHeader request ''Content-Type'' in
      if content_type = '''' then ''application/octet-stream'' else content_type)"

definition put_request_hash :: "('d, 'r) Api \<Rightarrow> HttpRequest \<Rightarrow> size_t \<Rightarrow> string \<Rightarrow> string" where
  "put_request_hash api request data_size expected_sha256 =
     Crypto_SHA256 (se_sha (ap_store api))
       (HttpMethodToString (rq_method request) @ [LF] @ rq_path request @ [LF] @
        nat_to_string data_size @ [LF] @ expected_sha256)"

text \<open>The idempotency check: \<open>Inl\<close> is the answer, \<open>Inr\<close> the hash to record.\<close>

definition put_idempotency ::
    "('d, 'r) Api \<Rightarrow> HttpRequest \<Rightarrow> size_t \<Rightarrow> string \<Rightarrow> ('d, 'r) World \<Rightarrow> ('d, 'r) World \<times> (HttpResponse + string)" where
  "put_idempotency api request data_size expected_sha256 w =
     (let idempotency_key = HttpRequest_GetHeader request ''Idempotency-Key'' in
      if idempotency_key = '''' then (w, Inr '''')
      else let request_hash = put_request_hash api request data_size expected_sha256 in
        (case meta_op (\<lambda>ms. MetaStore_CheckIdempotency (ap_meta api) (ap_now api) ms idempotency_key) w of
           (w, Inl _) \<Rightarrow> (w, Inl (HttpResponse_InternalError (ap_dump api) ''Failed to check idempotency'' ''''))
         | (w, Inr (Some record1)) \<Rightarrow>
             if ir_request_hash record1 \<noteq> request_hash
             then (w, Inl (HttpResponse_Conflict (ap_dump api) ''Idempotency conflict'' ''''))
             else (w, Inl (HttpResponse_SetBody (HttpResponse_SetHeader
                    (HttpResponse_new\<lparr>rs_status_code := ir_response_status record1\<rparr>) ''Content-Type'' ''application/json'')
                    (ir_response_body record1)))
         | (w, Inr None) \<Rightarrow> (w, Inr request_hash)))"

definition put_response :: "('d, 'r) Api \<Rightarrow> string \<Rightarrow> string \<Rightarrow> string \<Rightarrow> size_t \<Rightarrow> HttpResponse" where
  "put_response api bucket_name object_key etag_value data_size =
     HttpResponse_SetBody (HttpResponse_SetHeader (HttpResponse_SetHeader (HttpResponse_code HTTP_OK)
       ''ETag'' (quoted etag_value)) ''Content-Type'' ''application/json'')
       (ap_dump api (JObj [(''bucket'', JStr bucket_name), (''key'', JStr object_key), (''etag'', JStr etag_value),
          (''size'', JInt (int data_size))]))"

text \<open>The metadata step of an upload.\<close>

definition put_metadata ::
    "('d, 'r) Api \<Rightarrow> HttpRequest \<Rightarrow> string \<Rightarrow> string \<Rightarrow> int \<Rightarrow> string \<Rightarrow> size_t \<Rightarrow> bool \<Rightarrow> string \<Rightarrow> ('d, 'r) World \<Rightarrow> ('d, 'r) Answer" where
  "put_metadata api request bucket_name object_key bucket_id cas_key data_size may_need_cleanup request_hash w =
     (let etag_value = take 32 cas_key; etag = quoted etag_value;
          idempotency_key = HttpRequest_GetHeader request ''Idempotency-Key''
      in case meta_op (\<lambda>ms. MetaStore_PutObjectWithRefCount (ap_meta api) (ap_now api) ms bucket_id object_key
                 (int64_of data_size) etag (content_type_of request) cas_key) w of
           (w, Inl _) \<Rightarrow>
             internal_error api ''Failed to create object''
               (if may_need_cleanup then CleanupUnreferencedCas api cas_key w else w)
         | (w, Inr old) \<Rightarrow>
             let w = enqueue old w;
                 response = put_response api bucket_name object_key etag_value data_size;
                 w = (if idempotency_key \<noteq> ''''
                      then fst (meta_op (\<lambda>ms. MetaStore_RecordIdempotency (ap_meta api) (ap_now api) ms idempotency_key
                                  request_hash (rs_status_code response) (rs_body response) 86400) w)
                      else w)
             in answer w response)"

definition ObjectHandlers_PutObject :: "('d, 'r) Api \<Rightarrow> HttpRequest \<Rightarrow> ('d, 'r) World \<Rightarrow> ('d, 'r) Answer" where
  "ObjectHandlers_PutObject api request w =
     with_key api request w (\<lambda>bucket_name object_key bucket w.
       if rq_body request = '''' \<and> HttpRequest_GetHeader request ''X-Internal-CAS-Key'' = ''''
       then bad_request api ''Request body is empty'' w
       else let expected_sha256 = HttpRequest_GetHeader request ''X-Content-SHA256'' in
         (case store_body api request w of
            (w, Inl _) \<Rightarrow> internal_error api ''Failed to write object data'' w
          | (w, Inr (cas_key, data_size, may_need_cleanup)) \<Rightarrow>
              if expected_sha256 \<noteq> '''' \<and> expected_sha256 \<noteq> cas_key
              then bad_request api ''Checksum mismatch''
                     (if may_need_cleanup then CleanupUnreferencedCas api cas_key w else w)
              else case put_idempotency api request data_size expected_sha256 w of
                     (w, Inl response) \<Rightarrow> answer w response
                   | (w, Inr request_hash) \<Rightarrow>
                       put_metadata api request bucket_name object_key (bi_id bucket) cas_key data_size
                         may_need_cleanup request_hash w))"

text \<open>The lookup of the object after that of the bucket.\<close>

definition with_object ::
    "('d, 'r) Api \<Rightarrow> int \<Rightarrow> string \<Rightarrow> ('d, 'r) World \<Rightarrow> (ObjectInfo \<Rightarrow> ('d, 'r) World \<Rightarrow> ('d, 'r) Answer) \<Rightarrow> ('d, 'r) Answer" where
  "with_object api bucket_id object_key w k =
     (case meta_op (\<lambda>ms. MetaStore_GetObject (ap_meta api) (ap_now api) ms bucket_id object_key) w of
        (w, Inl e) \<Rightarrow>
          if st_code e = NoSuchKey then not_found api ''Object not found'' w
          else internal_error api ''Failed to get object'' w
      | (w, Inr obj) \<Rightarrow> k obj w)"

definition object_headers :: "ObjectInfo \<Rightarrow> string \<Rightarrow> HttpResponse \<Rightarrow> HttpResponse" where
  "object_headers obj len r =
     HttpResponse_SetHeader (HttpResponse_SetHeader (HttpResponse_SetHeader (HttpResponse_SetHeader (HttpResponse_SetHeader r
       ''Content-Type'' (oi_content_type obj)) ''Content-Length'' len) ''ETag'' (oi_etag obj)) ''Accept-Ranges'' ''bytes'')
       ''Last-Modified'' (int_to_string (oi_created_at obj))"

definition object_response :: "string \<Rightarrow> ObjectInfo \<Rightarrow> (size_t \<times> size_t) option \<Rightarrow> HttpResponse" where
  "object_response file_path obj rng =
     (let (offset, len) = (case rng of None \<Rightarrow> (0, size_of (oi_size obj)) | Some (s, e) \<Rightarrow> (s, size_add (size_sub e s) 1));
          response = object_headers obj (nat_to_string len)
            (HttpResponse_code (if rng \<noteq> None then PARTIAL_CONTENT else HTTP_OK));
          response = (if rng \<noteq> None
            then HttpResponse_SetHeader response ''Content-Range''
                   (''bytes '' @ nat_to_string offset @ ''-'' @ nat_to_string (size_sub (size_add offset len) 1) @ ''/'' @
                    int_to_string (oi_size obj))
            else response)
      in HttpResponse_SetFile response file_path (size_of (oi_size obj)) offset len)"

definition ObjectHandlers_GetObject :: "('d, 'r) Api \<Rightarrow> HttpRequest \<Rightarrow> ('d, 'r) World \<Rightarrow> ('d, 'r) Answer" where
  "ObjectHandlers_GetObject api request w =
     with_key api request w (\<lambda>bucket_name object_key bucket w.
       with_object api (bi_id bucket) object_key w (\<lambda>obj w.
         let file_path = DataStore_GetFilePath (ap_ds api) (oi_sha256_hash obj);
             (fs, exists) = DataStore_Exists (ap_ds api) (w_fs w) (oi_sha256_hash obj);
             w = w\<lparr>w_fs := fs\<rparr>
         in if \<not> exists then internal_error api ''Object data not found'' w
            else let range_header = HttpRequest_GetHeader request ''Range'' in
              if range_header = '''' then answer w (object_response file_path obj None)
              else case ObjectHandlers_ParseRange range_header (size_of (oi_size obj)) of
                     Inl e \<Rightarrow> (w, Inl e)
                   | Inr None \<Rightarrow> answer w (HttpResponse_RangeNotSatisfiable (size_of (oi_size obj)))
                   | Inr (Some rng) \<Rightarrow> answer w (object_response file_path obj (Some rng))))"

definition ObjectHandlers_HeadObject :: "('d, 'r) Api \<Rightarrow> HttpRequest \<Rightarrow> ('d, 'r) World \<Rightarrow> ('d, 'r) Answer" where
  "ObjectHandlers_HeadObject api request w =
     with_key api request w (\<lambda>bucket_name object_key bucket w.
       with_object api (bi_id bucket) object_key w (\<lambda>obj w.
         answer w (object_headers obj (int_to_string (oi_size obj)) (HttpResponse_code HTTP_OK))))"

definition ObjectHandlers_DeleteObject :: "('d, 'r) Api \<Rightarrow> HttpRequest \<Rightarrow> ('d, 'r) World \<Rightarrow> ('d, 'r) Answer" where
  "ObjectHandlers_DeleteObject api request w =
     with_key api request w (\<lambda>bucket_name object_key bucket w.
       with_object api (bi_id bucket) object_key w (\<lambda>obj w.
         case meta_op (\<lambda>ms. MetaStore_DeleteObjectWithRefCount (ap_meta api) ms (bi_id bucket) object_key) w of
           (w, Inl _) \<Rightarrow> internal_error api ''Failed to delete object'' w
         | (w, Inr old) \<Rightarrow> answer (enqueue old w) HttpResponse_NoContent))"

text \<open>A numeric query parameter with its limits.\<close>

definition max_keys_of :: "string \<Rightarrow> int" where
  "max_keys_of max_keys_str =
     (if max_keys_str = '''' then 1000
      else case stoi max_keys_str of
             Inr n \<Rightarrow> if n < 1 \<or> n > 1000 then 1000 else n
           | Inl _ \<Rightarrow> 1000)"

definition ObjectHandlers_ListObjects :: "('d, 'r) Api \<Rightarrow> HttpRequest \<Rightarrow> ('d, 'r) World \<Rightarrow> ('d, 'r) Answer" where
  "ObjectHandlers_ListObjects api request w =
     (let bucket_name = HttpRequest_GetPathParam request ''bucket'' in
      if bucket_name = '''' then bad_request api ''Bucket name is required'' w
      else with_bucket api bucket_name w (\<lambda>bucket w.
        let pre = HttpRequest_GetQueryParam request ''prefix'';
            delimiter = HttpRequest_GetQueryParam request ''delimiter'';
            start_after = HttpRequest_GetQueryParam request ''start-after'';
            max_keys = max_keys_of (HttpRequest_GetQueryParam request ''max-keys'')
        in case meta_op (\<lambda>ms. MetaStore_ListObjects (ap_meta api) ms (bi_id bucket) pre delimiter start_after max_keys) w of
             (w, Inl _) \<Rightarrow> internal_error api ''Failed to list objects'' w
           | (w, Inr res) \<Rightarrow>
               answer w (HttpResponse_OK (ap_dump api (JObj ([(''name'', JStr bucket_name), (''prefix'', JStr pre),
                 (''delimiter'', JStr delimiter), (''max_keys'', JInt max_keys), (''is_truncated'', JBool (lo_is_truncated res)),
                 (''contents'', JArr (map (\<lambda>obj. JObj [(''key'', JStr (oi_key obj)), (''size'', JInt (oi_size obj)),
                    (''etag'', JStr (oi_etag obj)), (''last_modified'', JInt (oi_created_at obj))]) (lo_objects res))),
                 (''common_prefixes'', JArr (map JStr (lo_common_prefixes res)))] @
                 (if lo_next_continuation_token res \<noteq> ''''
                  then [(''next_continuation_token'', JStr (lo_next_continuation_token res))] else [])))))))"

section \<open>Lemmas on ranges\<close>

lemma range_regex_Some:
  "range_regex s = Some (a, b) \<longleftrightarrow> s = ''bytes='' @ a @ CHR ''-'' # b \<and> list_all isdigit a \<and> list_all isdigit b"
  (is "?L \<longleftrightarrow> ?R")
proof
  assume ?L
  then have t: "take 6 s = ''bytes=''" and a: "a = takeWhile isdigit (drop 6 s)"
    and u: "drop (length a) (drop 6 s) \<noteq> []" "hd (drop (length a) (drop 6 s)) = CHR ''-''"
    and b: "b = tl (drop (length a) (drop 6 s))" "list_all isdigit b"
    by (auto simp: range_regex_def Let_def split: if_splits)
  have "drop 6 s = a @ drop (length a) (drop 6 s)" unfolding a by (metis append_take_drop_id takeWhile_eq_take)
  also have "drop (length a) (drop 6 s) = CHR ''-'' # b" using u b by (metis list.collapse)
  finally have "drop 6 s = a @ CHR ''-'' # b" .
  moreover have "s = take 6 s @ drop 6 s" by simp
  moreover have "list_all isdigit a" unfolding a by (auto simp: list_all_iff dest: set_takeWhileD)
  ultimately show ?R using t b(2) by metis
next
  assume r: ?R
  have "takeWhile isdigit (a @ CHR ''-'' # b) = a"
    using r by (subst takeWhile_append2) (auto simp: list_all_iff isdigit_def)
  with r show ?L by (simp add: range_regex_def Let_def)
qed

lemma strto_digits:
  assumes "list_all isdigit s" "s \<noteq> []"
  shows "strto s = Some (False, digits_val s)"
proof -
  obtain c t where s: "s = c # t" using assms by (cases s) auto
  have tw: "takeWhile isdigit s = s" using assms(1) by (simp add: takeWhile_eq_all_conv list_all_iff)
  have "dropWhile isspace s = s" using assms(1) s by simp
  moreover have "isdigit c" using assms(1) s by simp
  then have "hd s \<noteq> CHR ''-''" "hd s \<noteq> CHR ''+''" using s by auto
  ultimately show ?thesis using assms(2) by (simp add: strto_def Let_def tw)
qed

lemma stoull_digits:
  "list_all isdigit s \<Longrightarrow> s \<noteq> [] \<Longrightarrow>
   stoull s = (if size_bound \<le> digits_val s then Inl Out_of_range else Inr (digits_val s))"
  by (simp add: stoull_def strto_digits)

lemma ParseRange_shape:
  assumes n: "0 < n" "n < size_bound" and r: "ObjectHandlers_ParseRange h n = Inr (Some (s, e))"
  shows "\<exists>a b. h = ''bytes='' @ a @ CHR ''-'' # b \<and> list_all isdigit a \<and> list_all isdigit b \<and>
    e < n \<and> (s \<le> e \<or> a = [] \<and> digits_val b = 0 \<and> s = n) \<and>
    s = (if a = [] then n - min n (digits_val b) else digits_val a) \<and>
    e = (if a = [] \<or> b = [] then n - 1 else min (digits_val b) (n - 1))"
proof -
  from r n obtain a b where ab: "range_regex h = Some (a, b)"
    by (auto simp: ObjectHandlers_ParseRange_def split: option.splits)
  then have h: "h = ''bytes='' @ a @ CHR ''-'' # b" "list_all isdigit a" "list_all isdigit b" by (simp_all add: range_regex_Some)
  have sub: "size_sub n 1 = n - 1" "size_sub n (Suc 0) = n - 1" "size_sub n (min n x) = n - min n x" for x using n by simp_all
  have "e < n \<and> (s \<le> e \<or> a = [] \<and> digits_val b = 0 \<and> s = n) \<and>
    s = (if a = [] then n - min n (digits_val b) else digits_val a) \<and>
    e = (if a = [] \<or> b = [] then n - 1 else min (digits_val b) (n - 1))"
  proof (cases "a = []")
    case True
    with r ab n have b: "b \<noteq> []" by (auto simp: ObjectHandlers_ParseRange_def)
    have m: "(if digits_val b > n then n else digits_val b) = min n (digits_val b)" by (simp add: min_def)
    from r ab n True b stoull_digits [OF h(3) b] have "s = n - min n (digits_val b)" "e = n - 1"
      by (auto simp: ObjectHandlers_ParseRange_def Let_def m sub simp del: size_sub_exact split: if_splits)
    with True b n show ?thesis by (auto simp: min_def)
  next
    case False
    note sa = stoull_digits [OF h(2) False]
    show ?thesis
    proof (cases "b = []")
      case True
      with r ab n False sa show ?thesis
        by (auto simp: ObjectHandlers_ParseRange_def sub split: if_splits)
    next
      case b: False
      from r ab n False b sa stoull_digits [OF h(3) b] show ?thesis
        by (auto simp: ObjectHandlers_ParseRange_def sub min_def split: if_splits)
    qed
  qed
  with h show ?thesis by blast
qed

text \<open>C26: A range that is accepted lies inside the object, starts where the client asked (or the suffix of
  the length asked for) and ends at the requested or the last byte; the only exception is the empty
  suffix \<^verbatim>\<open>bytes=-0\<close>, for which the range ends one byte before it starts.\<close>

theorem parse_range_within:
  assumes n: "0 < n" "n < size_bound" and r: "ObjectHandlers_ParseRange h n = Inr (Some (s, e))"
  shows "\<exists>a b. h = ''bytes='' @ a @ CHR ''-'' # b \<and> list_all isdigit a \<and> list_all isdigit b \<and>
    e < n \<and> (s \<le> e \<or> a = [] \<and> digits_val b = 0 \<and> s = n) \<and>
    s = (if a = [] then n - min n (digits_val b) else digits_val a) \<and>
    e = (if a = [] \<or> b = [] then n - 1 else min (digits_val b) (n - 1))"
  using ParseRange_shape [OF assms] .

theorem parse_range_within_witness:
  "ObjectHandlers_ParseRange ''bytes=2-9'' 5 = Inr (Some (2, 4)) \<and>
   (\<exists>a b. ''bytes=2-9'' = ''bytes='' @ a @ CHR ''-'' # b \<and> (4 :: nat) = (if a = [] \<or> b = [] then 5 - 1 else min (digits_val b) (5 - 1)))"
proof -
  have r: "ObjectHandlers_ParseRange ''bytes=2-9'' 5 = Inr (Some (2, 4))" by code_simp
  have n: "(0 :: nat) < 5" "(5 :: nat) < size_bound" by simp_all
  from parse_range_within [OF n r] r show ?thesis by blast
qed

end
