(* ===== verification/Multipart_Handlers.thy ===== *)
theory Multipart_Handlers
  imports Object_Handlers
begin

text \<open>
  \<^verbatim>\<open>api/handlers/multipart_handlers.cpp\<close>: starting an upload, uploading parts, completing, aborting and
  listing. A JSON value of the wrong type in the body of a completion ends in an uncaught exception.
\<close>

definition NormalizeEtagValue :: "string \<Rightarrow> string" where
  "NormalizeEtagValue etag =
     (if length etag \<ge> 2 \<and> hd etag = DQ \<and> last etag = DQ then take (length etag - 2) (drop 1 etag) else etag)"

definition MultipartHandlers_InitUpload :: "('d, 'r) Api \<Rightarrow> HttpRequest \<Rightarrow> ('d, 'r) World \<Rightarrow> ('d, 'r) Answer" where
  "MultipartHandlers_InitUpload api request w =
     with_key api request w (\<lambda>bucket_name object_key bucket w.
       let upload_id = ap_uuid api 2; expires_at = ap_now api + 24 * 3600 in
       case meta_op (\<lambda>ms. MetaStore_CreateMultipartUpload (ap_meta api) ms upload_id (bi_id bucket) object_key
              (content_type_of request) (owner_of request) expires_at) w of
         (w, Inl _) \<Rightarrow> internal_error api ''Failed to initiate upload'' w
       | (w, Inr _) \<Rightarrow>
           answer w (HttpResponse_OK (ap_dump api (JObj [(''upload_id'', JStr upload_id), (''bucket'', JStr bucket_name),
             (''key'', JStr object_key), (''expires_at'', JInt expires_at)]))))"

text \<open>The lookup of an upload.\<close>

definition with_upload ::
    "('d, 'r) Api \<Rightarrow> string \<Rightarrow> ('d, 'r) World \<Rightarrow> (MultipartUploadInfo \<Rightarrow> ('d, 'r) World \<Rightarrow> ('d, 'r) Answer) \<Rightarrow> ('d, 'r) Answer" where
  "with_upload api upload_id w k =
     (case meta_op (\<lambda>ms. MetaStore_GetMultipartUpload (ap_meta api) ms upload_id) w of
        (w, Inl e) \<Rightarrow>
          if st_code e = NoSuchUpload then not_found api ''Upload not found'' w
          else internal_error api ''Failed to get upload'' w
      | (w, Inr upload) \<Rightarrow> k upload w)"

text \<open>Storing a part whose upload and key have been checked.\<close>

definition upload_part_data ::
    "('d, 'r) Api \<Rightarrow> HttpRequest \<Rightarrow> string \<Rightarrow> int \<Rightarrow> ('d, 'r) World \<Rightarrow> ('d, 'r) Answer" where
  "upload_part_data api request upload_id part_number w =
     (if rq_body request = '''' \<and> HttpRequest_GetHeader request ''X-Internal-CAS-Key'' = ''''
      then bad_request api ''Request body is empty'' w
      else case store_body api request w of
             (w, Inl _) \<Rightarrow> internal_error api ''Failed to write part data'' w
           | (w, Inr (cas_key, data_size, may_need_cleanup)) \<Rightarrow>
               let etag_value = take 32 cas_key; etag = quoted etag_value in
               case meta_op (\<lambda>ms. MetaStore_PutPartWithRefCount (ap_meta api) ms upload_id part_number cas_key
                      (int64_of data_size) etag) w of
                 (w, Inl _) \<Rightarrow>
                   internal_error api ''Failed to create part''
                     (if may_need_cleanup then CleanupUnreferencedCas api cas_key w else w)
               | (w, Inr old) \<Rightarrow>
                   answer (enqueue old w) (HttpResponse_SetBody (HttpResponse_SetHeader (HttpResponse_code HTTP_OK) ''ETag'' etag)
                     (ap_dump api (JObj [(''etag'', JStr etag_value), (''part_number'', JInt part_number),
                        (''size'', JInt (int data_size))]))))"

definition MultipartHandlers_UploadPart :: "('d, 'r) Api \<Rightarrow> HttpRequest \<Rightarrow> ('d, 'r) World \<Rightarrow> ('d, 'r) Answer" where
  "MultipartHandlers_UploadPart api request w =
     (let bucket_name = HttpRequest_GetPathParam request ''bucket'';
          object_key = HttpRequest_GetPathParam request ''object'';
          upload_id = HttpRequest_GetPathParam request ''upload_id'';
          part_number_str = HttpRequest_GetPathParam request ''part_number''
      in if bucket_name = '''' \<or> object_key = '''' \<or> upload_id = '''' \<or> part_number_str = ''''
         then bad_request api ''Missing required parameters'' w
         else case stoi part_number_str of
           Inl _ \<Rightarrow> bad_request api ''Invalid part number'' w
         | Inr part_number \<Rightarrow>
             if part_number < 1 \<or> part_number > 10000
             then bad_request api ''Part number must be between 1 and 10000'' w
             else with_upload api upload_id w (\<lambda>upload w.
               case meta_op (\<lambda>ms. MetaStore_GetBucketById (ap_meta api) ms (mu_bucket_id upload)) w of
                 (w, Inl _) \<Rightarrow> bad_request api ''Upload ID does not match bucket'' w
               | (w, Inr bucket) \<Rightarrow>
                   if bi_name bucket \<noteq> bucket_name then bad_request api ''Upload ID does not match bucket'' w
                   else if mu_key upload \<noteq> object_key then bad_request api ''Upload ID does not match object key'' w
                   else upload_part_data api request upload_id part_number w))"

text \<open>The client's list of parts: \<open>Inl\<close> an uncaught type error, \<open>Inr None\<close> a part without its fields.\<close>

fun client_parts :: "Json list \<Rightarrow> cpp_exn + (int \<times> string) list option" where
  "client_parts [] = Inr (Some [])"
| "client_parts (part # parts) =
     (if \<not> json_contains part ''part_number'' \<or> \<not> json_contains part ''etag'' then Inr None
      else case (json_value_int part ''part_number'' 0, json_value_string part ''etag'' '''') of
             (Inl e, _) \<Rightarrow> Inl e
           | (_, Inl e) \<Rightarrow> Inl e
           | (Inr n, Inr etag) \<Rightarrow>
               (case client_parts parts of
                  Inl e \<Rightarrow> Inl e
                | Inr None \<Rightarrow> Inr None
                | Inr (Some ps) \<Rightarrow> Inr (Some ((int32 n, NormalizeEtagValue etag) # ps))))"

text \<open>The comparison with the parts the server has: the digests in order and their total size, or the
  message of the first mismatch.\<close>

fun match_parts :: "(int \<times> string) list \<Rightarrow> MultipartPartInfo list \<Rightarrow> size_t \<Rightarrow> string + (string list \<times> size_t)" where
  "match_parts ((n, etag) # cs) (p # ps) total_size =
     (if n \<noteq> mp_part_number p then Inl ''Part number mismatch''
      else if etag \<noteq> NormalizeEtagValue (mp_etag p) then Inl (''Part ETag mismatch for part '' @ int_to_string n)
      else case match_parts cs ps (size_add total_size (size_of (mp_size p))) of
             Inl e \<Rightarrow> Inl e
           | Inr (ks, t) \<Rightarrow> Inr (mp_sha256_hash p # ks, t))"
| "match_parts _ _ total_size = Inr ([], total_size)"

text \<open>Counting the parts' blobs down.\<close>

fun release_parts :: "('d, 'r) Api \<Rightarrow> string list \<Rightarrow> ('d, 'r) World \<Rightarrow> ('d, 'r) World" where
  "release_parts api [] w = w"
| "release_parts api (cas_key # ks) w =
     (case meta_op (\<lambda>ms. MetaStore_DecrementRefCountAndCheckZero (ap_meta api) ms cas_key) w of
        (w, Inr True) \<Rightarrow> release_parts api ks (enqueue (Some cas_key) w)
      | (w, _) \<Rightarrow> release_parts api ks w)"

text \<open>The end of a completion, from the merge on.\<close>

definition complete_merge ::
    "('d, 'r) Api \<Rightarrow> string \<Rightarrow> string \<Rightarrow> string \<Rightarrow> MultipartUploadInfo \<Rightarrow> string list \<Rightarrow> size_t \<Rightarrow> ('d, 'r) World \<Rightarrow> ('d, 'r) Answer" where
  "complete_merge api bucket_name object_key upload_id upload cas_keys total_size w =
     (case DataStore_Merge (ap_store api) (ap_ds api) (w_fs w) (ap_uuid api 3) cas_keys of
        (fs, Inl _) \<Rightarrow> internal_error api ''Failed to merge parts'' (w\<lparr>w_fs := fs\<rparr>)
      | (fs, Inr final_cas_key) \<Rightarrow>
          let w = w\<lparr>w_fs := fs\<rparr>; final_etag_value = take 32 final_cas_key; final_etag = quoted final_etag_value in
          case meta_op (\<lambda>ms. MetaStore_PutObjectWithRefCount (ap_meta api) (ap_now api) ms (mu_bucket_id upload) (mu_key upload)
                 (int64_of total_size) final_etag (mu_content_type upload) final_cas_key) w of
            (w, Inl _) \<Rightarrow> internal_error api ''Failed to create object'' (CleanupUnreferencedCas api final_cas_key w)
          | (w, Inr old) \<Rightarrow>
              let w = release_parts api cas_keys (enqueue old w);
                  w = fst (meta_op (\<lambda>ms. MetaStore_DeleteMultipartUpload (ap_meta api) ms upload_id) w)
              in answer w (HttpResponse_SetBody (HttpResponse_SetHeader (HttpResponse_code HTTP_OK) ''ETag'' final_etag)
                   (ap_dump api (JObj [(''bucket'', JStr bucket_name), (''key'', JStr object_key), (''etag'', JStr final_etag_value),
                      (''size'', JInt (int total_size))]))))"

definition complete_parts ::
    "('d, 'r) Api \<Rightarrow> string \<Rightarrow> string \<Rightarrow> string \<Rightarrow> MultipartUploadInfo \<Rightarrow> (int \<times> string) list \<Rightarrow> ('d, 'r) World \<Rightarrow> ('d, 'r) Answer" where
  "complete_parts api bucket_name object_key upload_id upload cps w =
     (case meta_op (\<lambda>ms. MetaStore_ListParts (ap_meta api) ms upload_id 0 10000) w of
        (w, Inl _) \<Rightarrow> internal_error api ''Failed to list parts'' w
      | (w, Inr res) \<Rightarrow>
          let server_parts = lp_parts res; cps = sort_key fst cps in
          if length cps \<noteq> length server_parts then bad_request api ''Part count mismatch'' w
          else case match_parts cps server_parts 0 of
                 Inl msg \<Rightarrow> bad_request api msg w
               | Inr (cas_keys, total_size) \<Rightarrow>
                   complete_merge api bucket_name object_key upload_id upload cas_keys total_size w)"

definition MultipartHandlers_CompleteUpload :: "('d, 'r) Api \<Rightarrow> HttpRequest \<Rightarrow> ('d, 'r) World \<Rightarrow> ('d, 'r) Answer" where
  "MultipartHandlers_CompleteUpload api request w =
     (let bucket_name = HttpRequest_GetPathParam request ''bucket'';
          object_key = HttpRequest_GetPathParam request ''object'';
          upload_id = HttpRequest_GetPathParam request ''upload_id''
      in if bucket_name = '''' \<or> object_key = '''' \<or> upload_id = ''''
         then bad_request api ''Missing required parameters'' w
         else with_upload api upload_id w (\<lambda>upload w.
           case me_parse (ap_meta api) (rq_body request) of
             None \<Rightarrow> bad_request api ''Invalid JSON body'' w
           | Some request_body \<Rightarrow>
               (case request_body of
                  JObj kvs \<Rightarrow>
                    (case map_of kvs ''parts'' of
                       Some (JArr parts) \<Rightarrow>
                         (case client_parts parts of
                            Inl e \<Rightarrow> (w, Inl e)
                          | Inr None \<Rightarrow> bad_request api ''Invalid part format'' w
                          | Inr (Some cps) \<Rightarrow> complete_parts api bucket_name object_key upload_id upload cps w)
                     | _ \<Rightarrow> bad_request api ''Missing parts array'' w)
                | _ \<Rightarrow> bad_request api ''Missing parts array'' w)))"

definition MultipartHandlers_AbortUpload :: "('d, 'r) Api \<Rightarrow> HttpRequest \<Rightarrow> ('d, 'r) World \<Rightarrow> ('d, 'r) Answer" where
  "MultipartHandlers_AbortUpload api request w =
     (let bucket_name = HttpRequest_GetPathParam request ''bucket'';
          object_key = HttpRequest_GetPathParam request ''object'';
          upload_id = HttpRequest_GetPathParam request ''upload_id''
      in if bucket_name = '''' \<or> object_key = '''' \<or> upload_id = ''''
         then bad_request api ''Missing required parameters'' w
         else with_upload api upload_id w (\<lambda>upload w.
           let w = (case meta_op (\<lambda>ms. MetaStore_ListParts (ap_meta api) ms upload_id 0 10000) w of
                      (w, Inr res) \<Rightarrow> release_parts api (map mp_sha256_hash (lp_parts res)) w
                    | (w, Inl _) \<Rightarrow> w)
           in case meta_op (\<lambda>ms. MetaStore_DeleteMultipartUpload (ap_meta api) ms upload_id) w of
                (w, Inl _) \<Rightarrow> internal_error api ''Failed to abort upload'' w
              | (w, Inr _) \<Rightarrow> answer w HttpResponse_NoContent))"

definition MultipartHandlers_ListParts :: "('d, 'r) Api \<Rightarrow> HttpRequest \<Rightarrow> ('d, 'r) World \<Rightarrow> ('d, 'r) Answer" where
  "MultipartHandlers_ListParts api request w =
     (let bucket_name = HttpRequest_GetPathParam request ''bucket'';
          object_key = HttpRequest_GetPathParam request ''object'';
          upload_id = HttpRequest_GetPathParam request ''upload_id''
      in if bucket_name = '''' \<or> object_key = '''' \<or> upload_id = ''''
         then bad_request api ''Missing required parameters'' w
         else with_upload api upload_id w (\<lambda>upload w.
           let marker_str = HttpRequest_GetQueryParam request ''part-number-marker'';
               part_number_marker = (if marker_str = '''' then 0 else case stoi marker_str of Inr n \<Rightarrow> n | Inl _ \<Rightarrow> 0);
               max_parts = max_keys_of (HttpRequest_GetQueryParam request ''max-parts'')
           in case meta_op (\<lambda>ms. MetaStore_ListParts (ap_meta api) ms upload_id part_number_marker max_parts) w of
                (w, Inl _) \<Rightarrow> internal_error api ''Failed to list parts'' w
              | (w, Inr res) \<Rightarrow>
                  answer w (HttpResponse_OK (ap_dump api (JObj ([(''bucket'', JStr bucket_name), (''key'', JStr object_key),
                    (''upload_id'', JStr upload_id),
                    (''parts'', JArr (map (\<lambda>part. JObj [(''part_number'', JInt (mp_part_number part)),
                       (''etag'', JStr (NormalizeEtagValue (mp_etag part))), (''size'', JInt (mp_size part)),
                       (''last_modified'', JInt (mp_created_at part))]) (lp_parts res))),
                    (''is_truncated'', JBool (lp_is_truncated res)), (''max_parts'', JInt max_parts)] @
                    (if lp_is_truncated res then [(''next_part_number_marker'', JInt (lp_next_part_number_marker res))] else [])))))))"

end
