(* ===== verification/Data_Safety.thy ===== *)
theory Data_Safety
  imports Multipart_Handlers
begin

text \<open>
  The system-wide invariant of the handlers and the collector: every object and every part refers to a blob
  that is on disk under its digest, counts are never below the number of references, and only well-formed
  keys are queued for collection. The locale \<open>safe_api\<close> collects what the proofs rely on of the environment.
  Completing and aborting a multipart upload are left out: they count the parts down before the rows are
  deleted, so between the two steps, and for ever when the deletion fails, counts are below references.
\<close>

section \<open>The keys that the tables refer to\<close>

definition held :: "Tables \<Rightarrow> string set" where
  "held T = o_cas ` set (t_objects T) \<union> p_cas ` set (t_parts T)"

lemma held_refs: "h \<in> held T \<Longrightarrow> 0 < refs col T h"
  using col_eq_refl by (fastforce simp: held_def refs_def obj_refs_def part_refs_def filter_empty_conv)

lemma plain_held:
  assumes "stmt_tables col now nid T s = Some (T', r)" "plain_stmt s"
  shows "held T' \<subseteq> held T"
  using assms
  by (cases s) (auto simp: held_def del_bucket_def upsert_cas_def update_cas_def idem_put_def Let_def split: option.splits if_splits)

lemma map_first_mem: "x \<in> set (map_first P g xs) \<Longrightarrow> x \<in> set xs \<or> (\<exists>y. x = g y)"
  by (induction xs) (auto split: if_splits)

lemma upsert_object_held:
  assumes "upsert_object col now nid T b k h sz ct etag = Some (T', r)"
  shows "held T' \<subseteq> insert h (held T)"
  using assms
  by (auto simp: upsert_object_def ins_object_def new_object_def held_def split: if_splits option.splits dest!: map_first_mem)

lemma upsert_part_held:
  assumes "upsert_part col now T u n h sz etag = Some (T', r)"
  shows "held T' \<subseteq> insert h (held T)"
  using assms by (auto simp: upsert_part_def held_def split: if_splits dest!: map_first_mem)

lemma swap_parts:
  assumes "counted_table.swap col (part_sel col u n) (part_wr col u n) h sz A T2 T"
  shows "t_objects T2 = t_objects A" "t_parts T2 = t_parts A"
  using assms unfolding parts.swap_def
  by (auto simp: upsert_cas_def update_cas_def split: if_splits option.splits)

lemma filter_hd: "filter P xs = r # rs \<Longrightarrow> r \<in> set xs"
  by (metis filter_is_subset list.set_intros(1) subsetD)

lemma sel_held: "obj_sel col b k A \<noteq> [] \<Longrightarrow> obj_sel col b k A \<in> held A" "part_sel col u n A \<noteq> [] \<Longrightarrow> part_sel col u n A \<in> held A"
  by (auto simp: obj_sel_def part_sel_def held_def dest: filter_hd split: list.splits)

lemma put_spec_held:
  assumes "put_spec col b k h sz ct etag A gc T"
  shows "held T \<subseteq> insert h (held A)" "gc = Some g \<Longrightarrow> g \<in> held A"
proof -
  from assms obtain T2 now nid r where sw: "counted_table.swap col (obj_sel col b k) (obj_wr col b k) h sz A T2 T"
    and gc: "gc = counted_table.gc_spec col (obj_sel col b k) h A T2"
    and up: "upsert_object col now nid T2 b k h sz ct etag = Some (T, r)" unfolding put_spec_def by blast
  have "held T2 = held A" using swap_objects [OF sw] by (simp add: held_def)
  with upsert_object_held [OF up] show "held T \<subseteq> insert h (held A)" by simp
  show "gc = Some g \<Longrightarrow> g \<in> held A" using gc sel_held(1) by (auto simp: objs.gc_spec_def split: if_splits)
qed

lemma part_spec_held:
  assumes "part_spec col u n h sz etag A gc T"
  shows "held T \<subseteq> insert h (held A)" "gc = Some g \<Longrightarrow> g \<in> held A"
proof -
  from assms obtain T2 now r where sw: "counted_table.swap col (part_sel col u n) (part_wr col u n) h sz A T2 T"
    and gc: "gc = counted_table.gc_spec col (part_sel col u n) h A T2"
    and up: "upsert_part col now T2 u n h sz etag = Some (T, r)" unfolding part_spec_def by blast
  have "held T2 = held A" using swap_parts [OF sw] by (simp add: held_def)
  with upsert_part_held [OF up] show "held T \<subseteq> insert h (held A)" by simp
  show "gc = Some g \<Longrightarrow> g \<in> held A" using gc sel_held(2) by (auto simp: parts.gc_spec_def split: if_splits)
qed

lemma del_spec_held:
  assumes "del_spec col b k A gc T"
  shows "held T \<subseteq> held A" "gc = Some g \<Longrightarrow> g \<in> held A"
proof -
  from assms obtain r rs T1 where r: "filter (obj_is col b k) (t_objects A) = r # rs"
    and T1: "T1 = A\<lparr>t_objects := filter (\<lambda>r. \<not> obj_is col b k r) (t_objects A)\<rparr>"
    and c: "if o_cas r = [] then T = T1 \<and> gc = None
      else (\<exists>now q. update_cas col (\<lambda>r. r\<lparr>c_ref := c_ref r - 1, c_updated := now\<rparr>) T1 (o_cas r) = Some (T, q)) \<and>
        gc = (if has_cas col T (o_cas r) \<and> ref_count col T (o_cas r) = 0 then Some (o_cas r) else None)"
    unfolding del_spec_def by blast
  have "held T = held T1" using c by (auto simp: held_def update_cas_def split: if_splits option.splits)
  then show "held T \<subseteq> held A" using T1 by (auto simp: held_def)
  have "r \<in> set (t_objects A)" using arg_cong [OF r, of set] by auto
  then show "gc = Some g \<Longrightarrow> g \<in> held A" using c by (auto simp: held_def split: if_splits)
qed

text \<open>What a read of a blob's row tells of its count.\<close>

lemma find_first: "List.find P xs = (case filter P xs of [] \<Rightarrow> None | x # _ \<Rightarrow> Some x)"
  by (induction xs) auto

lemma get_cas_blob_post:
  assumes ok: "meta_env_ok col env view" and n: "no_tx view (ms_db ms) T"
    and op: "MetaStore_GetCasBlob env ms h = (ms', r)"
  shows "no_tx view (ms_db ms') T \<and> (\<forall>e. r = Inl e \<longrightarrow> st_code e = NoSuchKey \<longrightarrow> ref_count col T h = 0) \<and>
    (\<forall>info. r = Inr info \<longrightarrow> ci_ref_count info = 0 \<longrightarrow> ref_count col T h = 0)"
proof -
  let ?P = "\<lambda>(d, r). no_tx view d T \<and> (\<forall>e. r = Inl e \<longrightarrow> st_code e = NoSuchKey \<longrightarrow> ref_count col T h = 0) \<and>
    (\<forall>info. r = Inr info \<longrightarrow> ci_ref_count info = 0 \<longrightarrow> ref_count col T h = 0)"
  have "?P (ms_db ms', r)"
  proof (rule with_conn_post [where P = ?P, OF ok n _ _ op [unfolded MetaStore_GetCasBlob_def]])
    fix d assume nd: "no_tx view d T"
    show "?P (sql_then env (Sel_cas h) (\<lambda>r d. (d, case sr_rows r of Row_cas row # _ \<Rightarrow> Inr (blob_of_row env row)
        | _ \<Rightarrow> Err NoSuchKey ''CAS blob not found'')) d)"
      by (rule sql_then_post [where P = ?P, OF ok nd])
         (auto simp: data_stmt_def rows_def db_error_def Err_def ref_count_def find_first blob_of_row_def split: list.splits)
  qed (auto simp: no_conn_def Err_def)
  then show ?thesis by simp
qed

section \<open>The invariant\<close>

definition live :: "DataStore \<Rightarrow> FileSys \<Rightarrow> string set" where
  "live ds fs = {h. CasLayout_IsValidCasKey h \<and> blob ds fs h \<noteq> None}"

definition in_order :: "Collation \<Rightarrow> string set \<Rightarrow> Tables \<Rightarrow> bool" where
  "in_order col H T \<longleftrightarrow> rc_safe col T \<and> held T \<subseteq> H"

definition queue_ok :: "GarbageCollector option \<Rightarrow> bool" where
  "queue_ok g \<longleftrightarrow> (case g of None \<Rightarrow> True | Some gc \<Rightarrow> list_all CasLayout_IsValidCasKey (gc_pending_deletes gc))"

definition data_safe :: "Collation \<Rightarrow> ('d \<Rightarrow> DbState) \<Rightarrow> ('d, 'r) Api \<Rightarrow> ('d, 'r) World \<Rightarrow> bool" where
  "data_safe col view api w \<longleftrightarrow>
     holds view (in_order col (live (ap_ds api) (w_fs w))) (w_ms w) \<and>
     cas_ok (ap_store api) (ap_ds api) (w_fs w) \<and> queue_ok (w_gc w)"

lemma holds_mono: "holds view (in_order col H) ms \<Longrightarrow> H \<subseteq> H' \<Longrightarrow> holds view (in_order col H') ms"
  by (auto simp: holds_def in_order_def)

text \<open>An operation of the metadata store that never makes the tables refer to a new blob.\<close>

definition keeps :: "Collation \<Rightarrow> ('d \<Rightarrow> DbState) \<Rightarrow> (('d, 'r) MetaStore \<Rightarrow> ('d, 'r) MetaStore \<times> 'a Result) \<Rightarrow> bool" where
  "keeps col view f \<longleftrightarrow>
     (\<forall>ms ms' r H. f ms = (ms', r) \<longrightarrow> holds view (in_order col H) ms \<longrightarrow> holds view (in_order col H) ms')"

lemma plain_in_order:
  "stmt_tables col now nid T s = Some (T', r) \<Longrightarrow> plain_stmt s \<Longrightarrow> in_order col H T \<Longrightarrow> in_order col H T'"
  using plain_held plain_stmt_safe unfolding in_order_def by blast

lemma fst_answers [simp]:
  "fst (answer w r) = w" "fst (bad_request api m w) = w" "fst (not_found api m w) = w"
  "fst (internal_error api m w) = w" "fst (conflict api m w) = w"
  by (simp_all add: answer_def bad_request_def not_found_def internal_error_def conflict_def)

lemma meta_op_fields: "meta_op f w = (w', r) \<Longrightarrow> w_fs w' = w_fs w \<and> w_gc w' = w_gc w \<and> f (w_ms w) = (w_ms w', r)"
  by (auto simp: meta_op_def split: prod.splits)

locale safe_api =
  fixes col :: Collation and view :: "'d \<Rightarrow> DbState" and api :: "('d, 'r) Api"
  assumes env: "meta_env_ok col (ap_meta api) view" and len: "sha_len (ap_store api)"
begin

lemma plain_keeps:
  assumes "plain_stmt s" "\<And>r d. fst (k r d) = d"
  shows "keeps col view (\<lambda>ms. with_conn (ap_meta api) ms (sql_then (ap_meta api) s k))"
  unfolding keeps_def
  by (intro allI impI) (rule plain_op_holds [OF env _ plain_data [OF assms(1)] _ assms(2)], auto intro: plain_in_order assms(1))

lemma plain_then_keeps:
  assumes "plain_stmt s" "\<And>r d. fst (k r d) = d" "\<And>ms v. ms_db (f ms v) = ms_db ms"
  shows "keeps col view (\<lambda>ms. case with_conn (ap_meta api) ms (sql_then (ap_meta api) s k) of
    (ms, Inl e) \<Rightarrow> (ms, Inl e) | (ms, Inr v) \<Rightarrow> (f ms v, Inr (g v)))"
  unfolding keeps_def
  by (intro allI impI) (rule plain_then_holds [OF env _ plain_data [OF assms(1)] _ assms(2) _ assms(3)], auto intro: plain_in_order assms(1))

lemma ops_keep:
  "keeps col view (\<lambda>ms. MetaStore_CreateBucket (ap_meta api) now ms name owner region acl)"
  "keeps col view (\<lambda>ms. MetaStore_GetBucket (ap_meta api) ms name)"
  "keeps col view (\<lambda>ms. MetaStore_GetBucketById (ap_meta api) ms b)"
  "keeps col view (\<lambda>ms. MetaStore_ListBuckets (ap_meta api) ms owner)"
  "keeps col view (\<lambda>ms. MetaStore_DeleteBucket (ap_meta api) ms name)"
  "keeps col view (\<lambda>ms. MetaStore_IsBucketEmpty (ap_meta api) ms b)"
  "keeps col view (\<lambda>ms. MetaStore_GetObject (ap_meta api) now ms b k)"
  "keeps col view (\<lambda>ms. MetaStore_ListObjects (ap_meta api) ms b pre delim after maxk)"
  "keeps col view (\<lambda>ms. MetaStore_CreateMultipartUpload (ap_meta api) ms u b k ct owner ex)"
  "keeps col view (\<lambda>ms. MetaStore_GetMultipartUpload (ap_meta api) ms u)"
  "keeps col view (\<lambda>ms. MetaStore_ListParts (ap_meta api) ms u marker maxp)"
  "keeps col view (\<lambda>ms. MetaStore_CheckIdempotency (ap_meta api) now ms ik)"
  "keeps col view (\<lambda>ms. MetaStore_RecordIdempotency (ap_meta api) now ms ik rh st body ttl)"
proof -
  show "keeps col view (\<lambda>ms. MetaStore_CreateBucket (ap_meta api) now ms name owner region acl)"
    unfolding keeps_def by (intro allI impI) (erule (1) create_bucket_holds [OF env, rotated 2], erule plain_in_order, simp_all)
  show "keeps col view (\<lambda>ms. MetaStore_GetBucket (ap_meta api) ms name)"
    unfolding keeps_def using get_bucket_holds [OF env] by blast
  show "keeps col view (\<lambda>ms. MetaStore_GetObject (ap_meta api) now ms b k)"
    unfolding keeps_def using get_object_holds [OF env] by blast
  show "keeps col view (\<lambda>ms. MetaStore_ListBuckets (ap_meta api) ms owner)"
    unfolding MetaStore_ListBuckets_def by (rule plain_then_keeps) simp_all
  show "keeps col view (\<lambda>ms. MetaStore_DeleteBucket (ap_meta api) ms name)"
    unfolding MetaStore_DeleteBucket_def by (rule plain_then_keeps) simp_all
qed (unfold plain_op_defs, (rule plain_keeps; simp)+)

lemma meta_op_safe:
  assumes "data_safe col view api w" "keeps col view f" "meta_op f w = (w', r)"
  shows "data_safe col view api w'" "w_fs w' = w_fs w"
  using assms meta_op_fields [OF assms(3)] by (auto simp: data_safe_def keeps_def)

text \<open>A step of a handler: an operation and what follows it.\<close>

lemma bind_safe:
  assumes "data_safe col view api w" "keeps col view f"
    and "\<And>w' e. data_safe col view api w' \<Longrightarrow> w_fs w' = w_fs w \<Longrightarrow> data_safe col view api (fst (A w' e))"
    and "\<And>w' v. data_safe col view api w' \<Longrightarrow> w_fs w' = w_fs w \<Longrightarrow> data_safe col view api (fst (B w' v))"
  shows "data_safe col view api (fst (case meta_op f w of (w', Inl e) \<Rightarrow> A w' e | (w', Inr v) \<Rightarrow> B w' v))"
proof (cases "meta_op f w")
  case (Pair w' r)
  with meta_op_safe [OF assms(1,2) Pair] assms(3,4) show ?thesis by (cases r) simp_all
qed

lemma with_bucket_safe:
  assumes "data_safe col view api w"
    and "\<And>b w'. data_safe col view api w' \<Longrightarrow> w_fs w' = w_fs w \<Longrightarrow> data_safe col view api (fst (k b w'))"
  shows "data_safe col view api (fst (with_bucket api name w k))"
  unfolding with_bucket_def by (rule bind_safe [OF assms(1) ops_keep(2)]) (simp_all add: assms(2))

lemma with_key_safe:
  assumes "data_safe col view api w"
    and "\<And>n ob b w'. data_safe col view api w' \<Longrightarrow> w_fs w' = w_fs w \<Longrightarrow> data_safe col view api (fst (k n ob b w'))"
  shows "data_safe col view api (fst (with_key api request w k))"
  using assms with_bucket_safe by (simp add: with_key_def Let_def)

lemma with_object_safe:
  assumes "data_safe col view api w"
    and "\<And>ob w'. data_safe col view api w' \<Longrightarrow> w_fs w' = w_fs w \<Longrightarrow> data_safe col view api (fst (k ob w'))"
  shows "data_safe col view api (fst (with_object api b key w k))"
  unfolding with_object_def by (rule bind_safe [OF assms(1) ops_keep(7)]) (simp_all add: assms(2))

lemma with_upload_safe:
  assumes "data_safe col view api w"
    and "\<And>u w'. data_safe col view api w' \<Longrightarrow> w_fs w' = w_fs w \<Longrightarrow> data_safe col view api (fst (k u w'))"
  shows "data_safe col view api (fst (with_upload api uid w k))"
  unfolding with_upload_def by (rule bind_safe [OF assms(1) ops_keep(10)]) (simp_all add: assms(2))

end

section \<open>Files\<close>

lemma live_same_except_tmp: "same_except {t} fs fs' \<Longrightarrow> is_tmp t \<Longrightarrow> live ds fs' = live ds fs"
  by (simp add: live_def blob_same_except_tmp)

lemma live_same_files: "fs_files fs' = fs_files fs \<Longrightarrow> live ds fs' = live ds fs"
  by (simp add: live_def blob_def)

lemma cas_ok_same_files: "fs_files fs' = fs_files fs \<Longrightarrow> cas_ok se ds fs' = cas_ok se ds fs"
  by (simp add: cas_ok_def blob_def)

lemma stored_live:
  assumes "stored se ds fs t data fs' (Inr k)" "is_tmp t" "sha_len se"
  shows "live ds fs \<subseteq> live ds fs'" "k \<in> live ds fs'" "k = digest se data"
proof -
  from assms(1) have k: "k = digest se data" and s: "same_except {t, CasLayout_GetCasPath (ds_base_dir ds) k} fs fs'"
    and b: "blob ds fs' k = Some data \<or> blob ds fs' k = blob ds fs k \<and> blob ds fs k \<noteq> None" by (auto simp: stored_def)
  show "k = digest se data" by (rule k)
  have v: "CasLayout_IsValidCasKey k" using assms(3) by (simp add: k)
  with b show "k \<in> live ds fs'" by (auto simp: live_def)
  show "live ds fs \<subseteq> live ds fs'"
  proof
    fix h assume h: "h \<in> live ds fs"
    show "h \<in> live ds fs'"
    proof (cases "h = k")
      case False
      then have "CasLayout_GetCasPath (ds_base_dir ds) h \<notin> {t, CasLayout_GetCasPath (ds_base_dir ds) k}"
        using cas_path_inj [of h k "ds_base_dir ds"] v h is_tmp_not_cas [OF assms(2)] by (auto simp: live_def)
      with s h show ?thesis by (simp add: live_def blob_def same_except_def)
    qed (use \<open>k \<in> live ds fs'\<close> in simp)
  qed
qed

lemma Write_live:
  assumes "DataStore_Write se ds fs u data = (fs', r)" "sha_len se"
  shows "live ds fs \<subseteq> live ds fs'" "r = Inr k \<Longrightarrow> k \<in> live ds fs' \<and> k = digest se data"
proof -
  let ?t = "tmp_file ds ''upload'' u"
  note w = DataStore_Write_stored [OF assms(1)]
  have "live ds fs \<subseteq> live ds fs' \<and> (r = Inr k \<longrightarrow> k \<in> live ds fs' \<and> k = digest se data)"
    using w
  proof (elim disjE conjE exE)
    fix f assume f: "same_except {?t} fs f" and st: "stored se ds f ?t data fs' r"
    show ?thesis
    proof (cases r)
      case (Inl e)
      with st have "same_except {?t} f fs'" by (simp add: stored_def)
      with f Inl show ?thesis using live_same_except_tmp [OF _ is_tmp_file] by blast
    next
      case (Inr k')
      with st stored_live [of se ds f ?t data fs' k'] live_same_except_tmp [OF f is_tmp_file] assms(2) show ?thesis by auto
    qed
  qed (use live_same_except_tmp [OF _ is_tmp_file] in blast)
  then show "live ds fs \<subseteq> live ds fs'" "r = Inr k \<Longrightarrow> k \<in> live ds fs' \<and> k = digest se data" by auto
qed

lemma Delete_live:
  assumes "DataStore_Delete se ds fs k = (fs', st)" "CasLayout_IsValidCasKey k"
  shows "live ds fs - {k} \<subseteq> live ds fs'"
proof
  fix h assume h: "h \<in> live ds fs - {k}"
  let ?p = "CasLayout_GetCasPath (ds_base_dir ds) k"
  have "same_except {?p} fs fs'"
    using assms RemoveFile_files [of "se_strerror se" fs ?p fs' st] by (simp add: DataStore_Delete_def)
  moreover have "CasLayout_GetCasPath (ds_base_dir ds) h \<noteq> ?p" using h assms(2) cas_path_inj by (auto simp: live_def)
  ultimately show "h \<in> live ds fs'" using h by (simp add: live_def blob_def same_except_def)
qed

definition internal_ok :: "('d, 'r) Api \<Rightarrow> HttpRequest \<Rightarrow> ('d, 'r) World \<Rightarrow> bool" where
  "internal_ok api request w \<longleftrightarrow>
     HttpRequest_GetHeader request ''X-Internal-CAS-Key'' \<in> insert '''' (live (ap_ds api) (w_fs w))"

context safe_api
begin

lemma files_safe:
  assumes "data_safe col view api w" "live (ap_ds api) (w_fs w) \<subseteq> live (ap_ds api) fs" "cas_ok (ap_store api) (ap_ds api) fs"
  shows "data_safe col view api (w\<lparr>w_fs := fs\<rparr>)"
  using assms holds_mono by (auto simp: data_safe_def)

lemma store_body_safe:
  assumes safe: "data_safe col view api w" and int: "internal_ok api request w" and op: "store_body api request w = (w', r)"
  shows "data_safe col view api w'" "r = Inr (k, sz, c) \<Longrightarrow> k \<in> live (ap_ds api) (w_fs w')"
proof -
  let ?ik = "HttpRequest_GetHeader request ''X-Internal-CAS-Key''" and ?d = "rq_body request"
  have "data_safe col view api w' \<and> (r = Inr (k, sz, c) \<longrightarrow> k \<in> live (ap_ds api) (w_fs w'))"
  proof (cases "?ik = ''''")
    case False
    with op int safe show ?thesis by (auto simp: store_body_def Let_def internal_ok_def)
  next
    case True
    obtain f ex where e: "DataStore_Exists (ap_ds api) (w_fs w) (Crypto_SHA256 (se_sha (ap_store api)) ?d) = (f, ex)"
      by (cases "DataStore_Exists (ap_ds api) (w_fs w) (Crypto_SHA256 (se_sha (ap_store api)) ?d)")
    obtain g q where wr: "DataStore_Write (ap_store api) (ap_ds api) f (ap_uuid api 1) ?d = (g, q)"
      by (cases "DataStore_Write (ap_store api) (ap_ds api) f (ap_uuid api 1) ?d")
    have f: "fs_files f = fs_files (w_fs w)" using e FileExists_files by (auto simp: DataStore_Exists_def)
    have ok: "cas_ok (ap_store api) (ap_ds api) f" using safe cas_ok_same_files [OF f] by (simp add: data_safe_def)
    have w': "w' = w\<lparr>w_fs := g\<rparr>" "r = Inr (k, sz, c) \<Longrightarrow> q = Inr k"
      using op True e wr by (auto simp: store_body_def Let_def split: sum.splits)
    have "data_safe col view api (w\<lparr>w_fs := g\<rparr>)"
      using Write_live(1) [OF wr len] Write_frame(1) [OF len ok wr] live_same_files [OF f] by (intro files_safe [OF safe]) auto
    with w' Write_live(2) [OF wr len] show ?thesis by auto
  qed
  then show "data_safe col view api w'" "r = Inr (k, sz, c) \<Longrightarrow> k \<in> live (ap_ds api) (w_fs w')" by auto
qed

lemma delete_blob_safe:
  assumes safe: "data_safe col view api w" and k: "CasLayout_IsValidCasKey k"
    and n: "no_tx view (ms_db (w_ms w)) T" and z: "ref_count col T k = 0"
  shows "data_safe col view api (delete_blob api k w)"
proof -
  obtain fs st where d: "DataStore_Delete (ap_store api) (ap_ds api) (w_fs w) k = (fs, st)"
    by (cases "DataStore_Delete (ap_store api) (ap_ds api) (w_fs w) k")
  have T: "in_order col (live (ap_ds api) (w_fs w)) T" using safe n by (auto simp: data_safe_def holds_def no_tx_def)
  have "refs col T k = 0" using T z by (simp add: in_order_def rc_safe_def) (metis le_zero_eq)
  then have "k \<notin> held T" using held_refs [of k T col] by auto
  with T Delete_live [OF d k] have "in_order col (live (ap_ds api) fs) T" by (auto simp: in_order_def)
  with n safe Delete_frame(1) [OF d] d show ?thesis by (auto simp: data_safe_def holds_def delete_blob_def)
qed

lemma cleanup_safe:
  assumes safe: "data_safe col view api w" and k: "CasLayout_IsValidCasKey k"
  shows "data_safe col view api (CleanupUnreferencedCas api k w)"
proof -
  obtain w' r where m: "meta_op (\<lambda>ms. MetaStore_GetCasBlob (ap_meta api) ms k) w = (w', r)"
    by (cases "meta_op (\<lambda>ms. MetaStore_GetCasBlob (ap_meta api) ms k) w")
  obtain T where T: "no_tx view (ms_db (w_ms w)) T" "in_order col (live (ap_ds api) (w_fs w)) T"
    using safe by (auto simp: data_safe_def holds_def)
  note f = meta_op_fields [OF m]
  note p = get_cas_blob_post [OF env T(1), of k "w_ms w'" r]
  have w': "data_safe col view api w'" using safe f p T(2) by (auto simp: data_safe_def holds_def)
  have n: "no_tx view (ms_db (w_ms w')) T" using p f by blast
  show ?thesis
    using m w' p f delete_blob_safe [OF w' k n] by (cases r) (auto simp: CleanupUnreferencedCas_def)
qed

lemma enqueue_safe:
  assumes "data_safe col view api w" "\<And>g. key = Some g \<Longrightarrow> CasLayout_IsValidCasKey g"
  shows "data_safe col view api (enqueue key w)" "w_fs (enqueue key w) = w_fs w"
  using assms by (auto simp: data_safe_def enqueue_def queue_ok_def GarbageCollector_AddPendingDelete_def split: option.splits)

text \<open>The counted operations; \<open>Q\<close> is what their refinement lemmas say of the tables.\<close>

lemma counted_safe:
  assumes safe: "data_safe col view api w" and m: "meta_op f w = (w', r)"
    and post: "\<And>A. no_tx view (ms_db (w_ms w)) A \<Longrightarrow> rc_safe col A \<Longrightarrow> res_post view A (Q A) (ms_db (w_ms w'), r)"
    and Q: "\<And>A gc T. Q A gc T \<Longrightarrow> rc_safe col A \<Longrightarrow>
      rc_safe col T \<and> held T \<subseteq> live (ap_ds api) (w_fs w) \<union> held A \<and> set_option gc \<subseteq> held A"
  shows "data_safe col view api w' \<and> w_fs w' = w_fs w \<and> (\<forall>g. r = Inr (Some g) \<longrightarrow> CasLayout_IsValidCasKey g)"
proof -
  obtain A where A: "no_tx view (ms_db (w_ms w)) A" "in_order col (live (ap_ds api) (w_fs w)) A"
    using safe by (auto simp: data_safe_def holds_def)
  note f = meta_op_fields [OF m]
  have p: "res_post view A (Q A) (ms_db (w_ms w'), r)" using post A by (simp add: in_order_def)
  have "holds view (in_order col (live (ap_ds api) (w_fs w))) (w_ms w')"
    using p A Q by (fastforce simp: res_post_def holds_def in_order_def split: sum.splits)
  moreover have "CasLayout_IsValidCasKey g" if "r = Inr (Some g)" for g
    using p A(2) Q [of A "Some g"] that by (auto simp: res_post_def in_order_def live_def)
  ultimately show ?thesis using safe f by (simp add: data_safe_def)
qed

lemma put_object_safe:
  assumes "data_safe col view api w" "h \<in> live (ap_ds api) (w_fs w)"
    and "meta_op (\<lambda>ms. MetaStore_PutObjectWithRefCount (ap_meta api) now ms b k sz etag ct h) w = (w', r)"
  shows "data_safe col view api w' \<and> w_fs w' = w_fs w \<and> (\<forall>g. r = Inr (Some g) \<longrightarrow> CasLayout_IsValidCasKey g)"
proof (rule counted_safe [OF assms(1,3), where Q = "put_spec col b k h sz ct etag"])
  show "res_post view A (put_spec col b k h sz ct etag A) (ms_db (w_ms w'), r)"
    if "no_tx view (ms_db (w_ms w)) A" "rc_safe col A" for A
    using put_object_post [OF env that(1)] that(2) meta_op_fields [OF assms(3)] by (auto simp: rc_safe_def)
qed (use put_spec_safe put_spec_held assms(2) in \<open>fastforce\<close>)

lemma put_part_safe:
  assumes "data_safe col view api w" "h \<in> live (ap_ds api) (w_fs w)"
    and "meta_op (\<lambda>ms. MetaStore_PutPartWithRefCount (ap_meta api) ms u n h sz etag) w = (w', r)"
  shows "data_safe col view api w' \<and> w_fs w' = w_fs w \<and> (\<forall>g. r = Inr (Some g) \<longrightarrow> CasLayout_IsValidCasKey g)"
proof (rule counted_safe [OF assms(1,3), where Q = "part_spec col u n h sz etag"])
  show "res_post view A (part_spec col u n h sz etag A) (ms_db (w_ms w'), r)"
    if "no_tx view (ms_db (w_ms w)) A" "rc_safe col A" for A
    using put_part_post [OF env that(1)] that(2) meta_op_fields [OF assms(3)] by (auto simp: rc_safe_def)
qed (use part_spec_safe part_spec_held assms(2) in \<open>fastforce\<close>)

lemma delete_object_safe:
  assumes "data_safe col view api w"
    and "meta_op (\<lambda>ms. MetaStore_DeleteObjectWithRefCount (ap_meta api) ms b k) w = (w', r)"
  shows "data_safe col view api w' \<and> w_fs w' = w_fs w \<and> (\<forall>g. r = Inr (Some g) \<longrightarrow> CasLayout_IsValidCasKey g)"
proof (rule counted_safe [OF assms, where Q = "del_spec col b k"])
  show "res_post view A (del_spec col b k A) (ms_db (w_ms w'), r)"
    if "no_tx view (ms_db (w_ms w)) A" "rc_safe col A" for A
    using delete_object_post [OF env that(1)] meta_op_fields [OF assms(2)] by auto
qed (use del_spec_safe del_spec_held in \<open>fastforce\<close>)

end

section \<open>The handlers keep the invariant\<close>

context safe_api
begin

lemma live_valid: "h \<in> live ds fs \<Longrightarrow> CasLayout_IsValidCasKey h"
  by (simp add: live_def)

lemma exists_safe:
  assumes "data_safe col view api w" "DataStore_Exists (ap_ds api) (w_fs w) k = (fs, b)"
  shows "data_safe col view api (w\<lparr>w_fs := fs\<rparr>)"
proof -
  have f: "fs_files fs = fs_files (w_fs w)" using assms(2) FileExists_files by (auto simp: DataStore_Exists_def)
  from assms(1) show ?thesis by (simp add: data_safe_def live_same_files [OF f] cas_ok_same_files [OF f])
qed

lemma put_metadata_safe:
  assumes "data_safe col view api w" "cas_key \<in> live (ap_ds api) (w_fs w)"
  shows "data_safe col view api (fst (put_metadata api request bn ok bid cas_key sz clean rh w))"
proof -
  obtain w1 r where p: "meta_op (\<lambda>ms. MetaStore_PutObjectWithRefCount (ap_meta api) (ap_now api) ms bid ok
      (int64_of sz) (quoted (take 32 cas_key)) (content_type_of request) cas_key) w = (w1, r)"
    by (cases "meta_op (\<lambda>ms. MetaStore_PutObjectWithRefCount (ap_meta api) (ap_now api) ms bid ok
      (int64_of sz) (quoted (take 32 cas_key)) (content_type_of request) cas_key) w")
  note s = put_object_safe [OF assms p]
  show ?thesis
  proof (cases r)
    case (Inl e)
    have "data_safe col view api (CleanupUnreferencedCas api cas_key w1)"
      using s by (intro cleanup_safe live_valid [OF assms(2)]) simp
    with s show ?thesis unfolding put_metadata_def Let_def p Inl by simp
  next
    case (Inr old)
    have e: "data_safe col view api (enqueue old w1)" using s Inr by (intro enqueue_safe) auto
    obtain w2 q where m: "meta_op (\<lambda>ms. MetaStore_RecordIdempotency (ap_meta api) (ap_now api) ms
        (HttpRequest_GetHeader request ''Idempotency-Key'') rh (rs_status_code (put_response api bn ok (take 32 cas_key) sz))
        (rs_body (put_response api bn ok (take 32 cas_key) sz)) 86400) (enqueue old w1) = (w2, q)"
      by (rule that [OF prod.collapse [symmetric]])
    note w2 = meta_op_safe(1) [OF e ops_keep(13) m]
    show ?thesis unfolding put_metadata_def Let_def p Inr by (simp add: m w2 e)
  qed
qed

lemma put_idempotency_safe:
  assumes "data_safe col view api w" "put_idempotency api request sz sha w = (w', r)"
  shows "data_safe col view api w'" "w_fs w' = w_fs w"
proof -
  obtain w1 q where m: "meta_op (\<lambda>ms. MetaStore_CheckIdempotency (ap_meta api) (ap_now api) ms
      (HttpRequest_GetHeader request ''Idempotency-Key'')) w = (w1, q)" by (rule that [OF prod.collapse [symmetric]])
  have "w' = w \<or> w' = w1"
    using assms(2) m by (auto simp: put_idempotency_def Let_def split: if_splits sum.splits option.splits)
  with assms(1) meta_op_safe [OF assms(1) ops_keep(12) m] show "data_safe col view api w'" "w_fs w' = w_fs w" by auto
qed

lemma PutObject_safe:
  assumes "data_safe col view api w" "internal_ok api request w"
  shows "data_safe col view api (fst (ObjectHandlers_PutObject api request w))"
  unfolding ObjectHandlers_PutObject_def
proof (rule with_key_safe [OF assms(1)])
  fix bn ok b w1 assume w1: "data_safe col view api w1" "w_fs w1 = w_fs w"
  have int: "internal_ok api request w1" using assms(2) w1(2) by (simp add: internal_ok_def)
  obtain w2 r where sb: "store_body api request w1 = (w2, r)" by (cases "store_body api request w1")
  note s = store_body_safe [OF w1(1) int sb]
  show "data_safe col view api (fst (if rq_body request = '''' \<and> HttpRequest_GetHeader request ''X-Internal-CAS-Key'' = ''''
      then bad_request api ''Request body is empty'' w1
      else let expected_sha256 = HttpRequest_GetHeader request ''X-Content-SHA256'' in
         (case store_body api request w1 of
            (w, Inl _) \<Rightarrow> internal_error api ''Failed to write object data'' w
          | (w, Inr (cas_key, data_size, may_need_cleanup)) \<Rightarrow>
              if expected_sha256 \<noteq> '''' \<and> expected_sha256 \<noteq> cas_key
              then bad_request api ''Checksum mismatch''
                     (if may_need_cleanup then CleanupUnreferencedCas api cas_key w else w)
              else case put_idempotency api request data_size expected_sha256 w of
                     (w, Inl response) \<Rightarrow> answer w response
                   | (w, Inr request_hash) \<Rightarrow>
                       put_metadata api request bn ok (bi_id b) cas_key data_size
                         may_need_cleanup request_hash w)))"
  proof (cases r)
    case (Inl u)
    with w1 s sb show ?thesis by (simp add: Let_def)
  next
    case (Inr x)
    obtain k sz c where x: "x = (k, sz, c)" by (cases x)
    have k: "k \<in> live (ap_ds api) (w_fs w2)" using s(2) Inr x by simp
    obtain w3 q where i: "put_idempotency api request sz (HttpRequest_GetHeader request ''X-Content-SHA256'') w2 = (w3, q)"
      by (rule that [OF prod.collapse [symmetric]])
    note i' = put_idempotency_safe [OF s(1) i]
    have "data_safe col view api (fst (put_metadata api request bn ok (bi_id b) k sz c h w3))" for h
      using put_metadata_safe i' k by simp
    with w1 s sb Inr x i i' cleanup_safe [OF s(1) live_valid [OF k]] show ?thesis
      by (cases q) (simp_all add: Let_def)
  qed
qed

lemma UploadPart_safe:
  assumes "data_safe col view api w" "internal_ok api request w"
  shows "data_safe col view api (fst (MultipartHandlers_UploadPart api request w))"
proof -
  have data: "data_safe col view api (fst (upload_part_data api request uid n w1))"
    if w1: "data_safe col view api w1" "w_fs w1 = w_fs w" for w1 uid n
  proof -
    have int: "internal_ok api request w1" using assms(2) w1(2) by (simp add: internal_ok_def)
    obtain w2 r where sb: "store_body api request w1 = (w2, r)" by (cases "store_body api request w1")
    note s = store_body_safe [OF w1(1) int sb]
    show ?thesis
    proof (cases r)
      case (Inl u)
      with w1 s sb show ?thesis by (simp add: upload_part_data_def)
    next
      case (Inr x)
      obtain k sz c where x: "x = (k, sz, c)" by (cases x)
      have k: "k \<in> live (ap_ds api) (w_fs w2)" using s(2) Inr x by simp
      obtain w3 q where p: "meta_op (\<lambda>ms. MetaStore_PutPartWithRefCount (ap_meta api) ms uid n k (int64_of sz)
          (quoted (take 32 k))) w2 = (w3, q)" by (rule that [OF prod.collapse [symmetric]])
      note p' = put_part_safe [OF s(1) k p]
      have "data_safe col view api (enqueue old w3)" if "q = Inr old" for old using p' that by (intro enqueue_safe) auto
      with w1 sb Inr x p p' cleanup_safe [OF _ live_valid [OF k]] show ?thesis
        by (cases q) (simp_all add: upload_part_data_def Let_def)
    qed
  qed
  show ?thesis
    using assms(1)
    by (auto simp: MultipartHandlers_UploadPart_def Let_def split: sum.split
        intro!: with_upload_safe bind_safe [OF _ ops_keep(3)] data)
qed

lemma reading_handlers_safe:
  assumes "data_safe col view api w"
  shows "data_safe col view api (fst (ObjectHandlers_HeadObject api request w))"
    "data_safe col view api (fst (ObjectHandlers_ListObjects api request w))"
    "data_safe col view api (fst (MultipartHandlers_ListParts api request w))"
    "data_safe col view api (fst (MultipartHandlers_InitUpload api request w))"
    "data_safe col view api (fst (BucketHandlers_CreateBucket api request w))"
    "data_safe col view api (fst (BucketHandlers_GetBucket api request w))"
    "data_safe col view api (fst (BucketHandlers_DeleteBucket api request w))"
    "data_safe col view api (fst (BucketHandlers_ListBuckets api request w))"
  using assms
  by (auto simp: ObjectHandlers_HeadObject_def ObjectHandlers_ListObjects_def MultipartHandlers_ListParts_def
      MultipartHandlers_InitUpload_def BucketHandlers_CreateBucket_def BucketHandlers_GetBucket_def
      BucketHandlers_DeleteBucket_def BucketHandlers_ListBuckets_def Let_def split: bool.split
      intro!: with_key_safe with_bucket_safe with_object_safe with_upload_safe bind_safe ops_keep)

lemma GetObject_safe:
  assumes "data_safe col view api w"
  shows "data_safe col view api (fst (ObjectHandlers_GetObject api request w))"
  using assms exists_safe
  by (auto simp: ObjectHandlers_GetObject_def Let_def split: sum.split option.split prod.split
      intro!: with_key_safe with_object_safe)

lemma DeleteObject_safe:
  assumes "data_safe col view api w"
  shows "data_safe col view api (fst (ObjectHandlers_DeleteObject api request w))"
  unfolding ObjectHandlers_DeleteObject_def
proof (intro with_key_safe with_object_safe assms)
  fix n ob b w1 x w2 assume w2: "data_safe col view api w2"
  obtain w3 r where m: "meta_op (\<lambda>ms. MetaStore_DeleteObjectWithRefCount (ap_meta api) ms (bi_id b) ob) w2 = (w3, r)"
    by (rule that [OF prod.collapse [symmetric]])
  note s = delete_object_safe [OF w2 m]
  show "data_safe col view api (fst (case meta_op (\<lambda>ms. MetaStore_DeleteObjectWithRefCount (ap_meta api) ms (bi_id b) ob) w2 of
      (w, Inl _) \<Rightarrow> internal_error api ''Failed to delete object'' w
    | (w, Inr old) \<Rightarrow> answer (enqueue old w) HttpResponse_NoContent))"
    using s m enqueue_safe by (cases r) simp_all
qed

end

section \<open>Runs of the server\<close>

definition uploads :: "('d, 'r) Api \<Rightarrow> (HttpRequest \<Rightarrow> ('d, 'r) World \<Rightarrow> ('d, 'r) Answer) list" where
  "uploads api = [ObjectHandlers_PutObject api, MultipartHandlers_UploadPart api]"

definition other_handlers :: "('d, 'r) Api \<Rightarrow> (HttpRequest \<Rightarrow> ('d, 'r) World \<Rightarrow> ('d, 'r) Answer) list" where
  "other_handlers api =
     [ObjectHandlers_GetObject api, ObjectHandlers_HeadObject api, ObjectHandlers_DeleteObject api, ObjectHandlers_ListObjects api,
      MultipartHandlers_InitUpload api, MultipartHandlers_ListParts api, BucketHandlers_CreateBucket api,
      BucketHandlers_GetBucket api, BucketHandlers_DeleteBucket api, BucketHandlers_ListBuckets api,
      HealthHandlers_HealthCheck api, HealthHandlers_ReadyCheck api]"

text \<open>One request, at any time and with any identifiers, or one batch of the collector. An upload without the
  internal header stores its body; the header may only name a blob that is there, as the connection layer
  sets it.\<close>

inductive served :: "('d, 'r) Api \<Rightarrow> ('d, 'r) World \<Rightarrow> ('d, 'r) World \<Rightarrow> bool" for api where
  Upload: "h \<in> set (uploads (api\<lparr>ap_now := now, ap_uuid := uuid\<rparr>)) \<Longrightarrow> internal_ok api request w \<Longrightarrow>
    h request w = (w', out) \<Longrightarrow> served api w w'"
| Other: "h \<in> set (other_handlers (api\<lparr>ap_now := now, ap_uuid := uuid\<rparr>)) \<Longrightarrow> h request w = (w', out) \<Longrightarrow> served api w w'"
| Collect: "w_gc w = Some gc \<Longrightarrow> (\<And>i. UUID_IsValid (uuids i)) \<Longrightarrow>
    GarbageCollector_ProcessBatch (ap_meta api) (ap_store api) (ap_ds api) (Some (gc_delete_callback (ap_meta api))) uuids gc
      (w_ms w) (w_fs w) = (gc', ms', fs', os) \<Longrightarrow> served api w (w\<lparr>w_ms := ms', w_fs := fs', w_gc := Some gc'\<rparr>)"

lemma data_safe_at [simp]:
  "data_safe col view (api\<lparr>ap_now := now, ap_uuid := uuid\<rparr>) w = data_safe col view api w"
  "internal_ok (api\<lparr>ap_now := now, ap_uuid := uuid\<rparr>) request w = internal_ok api request w"
  by (simp_all add: data_safe_def internal_ok_def)

context safe_api
begin

lemma collect_safe:
  assumes safe: "data_safe col view api w" and gc: "w_gc w = Some gc" and u: "\<And>i. UUID_IsValid (uuids i)"
    and op: "GarbageCollector_ProcessBatch (ap_meta api) (ap_store api) (ap_ds api) (Some (gc_delete_callback (ap_meta api))) uuids gc
      (w_ms w) (w_fs w) = (gc', ms', fs', os)"
  shows "data_safe col view api (w\<lparr>w_ms := ms', w_fs := fs', w_gc := Some gc'\<rparr>)"
proof -
  let ?b = "take (nat (gc_batch_size gc)) (gc_pending_deletes gc)"
  have gb: "gc_batch (ap_meta api) (ap_store api) (ap_ds api) (Some (gc_delete_callback (ap_meta api))) uuids 0 ?b (w_ms w) (w_fs w) = (ms', fs', os)"
    and d: "gc_pending_deletes gc' = drop (nat (gc_batch_size gc)) (gc_pending_deletes gc)"
    using op by (auto simp: GarbageCollector_ProcessBatch_def take_batch_eq Let_def split: if_splits)
  have q: "list_all CasLayout_IsValidCasKey (gc_pending_deletes gc)" using safe gc by (simp add: data_safe_def queue_ok_def)
  then have "list_all CasLayout_IsValidCasKey ?b" by (auto simp: list_all_iff dest: in_set_takeD)
  moreover obtain A where A: "no_tx view (ms_db (w_ms w)) A" "in_order col (live (ap_ds api) (w_fs w)) A"
    using safe by (auto simp: data_safe_def holds_def)
  ultimately have k: "gc_keeps col view (ap_ds api) A (w_fs w) ms' fs'" using gc_batch_keeps [OF env u A(1) _ gb] by blast
  then obtain T where T: "no_tx view (ms_db ms') T" "rc_safe col T" "held T = held A"
    using A(2) by (auto simp: gc_keeps_def in_order_def held_def)
  have "held A \<subseteq> live (ap_ds api) fs'"
    using A(2) k held_refs [of _ A col] by (fastforce simp: gc_keeps_def in_order_def live_def)
  moreover have "cas_ok (ap_store api) (ap_ds api) fs'"
    using safe k unfolding data_safe_def cas_ok_def gc_keeps_def by (metis insertE option.distinct(1) singletonD)
  moreover have "queue_ok (Some gc')" using q d by (auto simp: queue_ok_def list_all_iff dest: in_set_dropD)
  ultimately show ?thesis using T by (auto simp: data_safe_def holds_def in_order_def)
qed

end

lemma served_safe:
  assumes "safe_api col view api" "served api w w'" "data_safe col view api w"
  shows "data_safe col view api w'"
  using assms(2)
proof cases
  case (Upload h uuid now request out)
  let ?api = "api\<lparr>ap_now := now, ap_uuid := uuid\<rparr>"
  have s: "safe_api col view ?api" using assms(1) by (simp add: safe_api_def)
  note p = safe_api.PutObject_safe [OF s, of w request] safe_api.UploadPart_safe [OF s, of w request]
  from Upload p assms(3) have "data_safe col view ?api (fst (h request w))" by (auto simp: uploads_def)
  with Upload show ?thesis by simp
next
  case (Other h uuid now request out)
  let ?api = "api\<lparr>ap_now := now, ap_uuid := uuid\<rparr>"
  have s: "safe_api col view ?api" using assms(1) by (simp add: safe_api_def)
  note p = safe_api.reading_handlers_safe [OF s, of w request] safe_api.GetObject_safe [OF s, of w request]
    safe_api.DeleteObject_safe [OF s, of w request]
  from Other p assms(3) have "data_safe col view ?api (fst (h request w))"
    by (auto simp: other_handlers_def HealthHandlers_HealthCheck_def HealthHandlers_ReadyCheck_def answer_def Let_def)
  with Other show ?thesis by simp
next
  case (Collect gc uuids gc' ms' fs' os)
  from safe_api.collect_safe [OF assms(1,3) Collect(2,3,4)] Collect(1) show ?thesis by simp
qed

interpretation served_sys: step_invariant "data_safe col view api" "\<lambda>w w'. safe_api col view api \<and> served api w w'"
    "data_safe col view api" for col view and api :: "('d, 'r) Api"
  by unfold_locales (auto intro: served_safe)


section \<open>Theorems\<close>

text \<open>C1: No data is lost: from a state in which every object and part has its blob on disk, after any sequence of
  requests (uploads, part uploads, downloads, deletions, listings and bucket operations) and collector batches,
  with failing database statements and system calls, every object and every part still refers to a blob on
  disk whose content has the recorded SHA-256, no transaction is open and no count is below the number of
  references. The digest has 32 bytes; any statement but \<open>START TRANSACTION\<close> may fail
  (\<open>meta_env_ok\<close>: \<open>START TRANSACTION\<close> does not fail, a \<open>COMMIT\<close> that reports an error has no effect, no connection is
  re-established inside a transaction). Completing and aborting a multipart upload are not among the requests: they
  release the counts of the parts before the rows of the parts go. An upload that names a stored blob in the internal
  header names one that is there with its content (\<open>internal_ok\<close>): neither a client that sends the header itself nor
  a streamed body whose last write failed (\<open>failed_write_committed\<close>) is among the requests.\<close>
theorem data_never_lost:
  assumes env: "meta_env_ok col (ap_meta api) view" and sha: "sha_len (ap_store api)"
    and start: "data_safe col view api w" and run: "(served api)\<^sup>*\<^sup>* w w'"
  shows "\<exists>T. no_tx view (ms_db (w_ms w')) T \<and> (\<forall>k. refs col T k \<le> ref_count col T k) \<and>
    (\<forall>h \<in> o_cas ` set (t_objects T) \<union> p_cas ` set (t_parts T).
       \<exists>c. blob (ap_ds api) (w_fs w') h = Some c \<and> Crypto_SHA256 (se_sha (ap_store api)) c = h)"
proof -
  have s: "safe_api col view api" using env sha by (simp add: safe_api_def)
  have "(\<lambda>w w'. safe_api col view api \<and> served api w w')\<^sup>*\<^sup>* w w'" using run s by simp
  from served_sys.run_I [OF this start] obtain T where T: "no_tx view (ms_db (w_ms w')) T" "rc_safe col T"
    "held T \<subseteq> live (ap_ds api) (w_fs w')" "cas_ok (ap_store api) (ap_ds api) (w_fs w')"
    by (auto simp: data_safe_def holds_def in_order_def)
  then have "\<exists>c. blob (ap_ds api) (w_fs w') h = Some c \<and> Crypto_SHA256 (se_sha (ap_store api)) c = h" if "h \<in> held T" for h
    using that by (auto simp: live_def cas_ok_def digest_def)
  with T(1,2) show ?thesis by (auto simp: rc_safe_def held_def)
qed

text \<open>An upload of two bytes into an empty bucket.\<close>

definition hi_api :: "(Mem, unit) Api" where
  "hi_api = \<lparr>ap_meta = mem_env bin_col, ap_store = toy_env, ap_ds = toy_store, ap_now = 5, ap_uuid = (\<lambda>_. ''u'')\<rparr>"

definition hi_world :: "(Mem, unit) World" where
  "hi_world = \<lparr>w_ms = mem_store one_bucket [], w_fs = empty_fs, w_gc = Some (GarbageCollector_new 300 100)\<rparr>"

definition hi_request :: HttpRequest where
  "hi_request = HttpRequest_new\<lparr>rq_method := PUT, rq_path := ''/buckets/b/objects/k'', rq_body := ''hi'',
     rq_path_params := [''bucket'' \<mapsto> ''b'', ''object'' \<mapsto> ''k'']\<rparr>"

definition hi_put :: "(Mem, unit) Answer" where
  "hi_put = ObjectHandlers_PutObject hi_api hi_request hi_world"

lemma hi_api_simps [simp]:
  "ap_meta hi_api = mem_env bin_col" "ap_store hi_api = toy_env" "ap_ds hi_api = toy_store"
  "ap_now hi_api = 5" "ap_uuid hi_api = (\<lambda>_. ''u'')"
  by (simp_all add: hi_api_def)

interpretation hi: safe_api bin_col mem_db hi_api
  by unfold_locales (simp_all add: mem_env_ok)

lemma hi_world_safe: "data_safe bin_col mem_db hi_api hi_world"
proof -
  have "rc_safe bin_col one_bucket" using no_tables_safe(2) .
  then show ?thesis
    by (auto simp: data_safe_def hi_world_def holds_def in_order_def held_def queue_ok_def GarbageCollector_new_def cas_ok_def
        empty_fs_def blob_def one_bucket_def no_tables_def intro!: exI [of _ one_bucket] mem_store_no_tx)
qed

theorem data_never_lost_witness:
  "\<exists>T. no_tx mem_db (ms_db (w_ms (fst hi_put))) T \<and> (\<forall>h \<in> o_cas ` set (t_objects T).
     \<exists>c. blob toy_store (w_fs (fst hi_put)) h = Some c \<and> Crypto_SHA256 (se_sha toy_env) c = h)"
proof -
  have "served hi_api hi_world (fst hi_put)"
  proof (rule served.Upload)
    show "ObjectHandlers_PutObject hi_api \<in> set (uploads (hi_api\<lparr>ap_now := 5, ap_uuid := \<lambda>_. ''u''\<rparr>))"
      by (simp add: uploads_def hi_api_def)
    show "internal_ok hi_api hi_request hi_world" by (simp add: internal_ok_def hi_request_def HttpRequest_GetHeader_def HttpRequest_new_def)
    show "ObjectHandlers_PutObject hi_api hi_request hi_world = (fst hi_put, snd hi_put)" by (simp add: hi_put_def)
  qed
  then have "(served hi_api)\<^sup>*\<^sup>* hi_world (fst hi_put)" by blast
  from data_never_lost [OF _ _ hi_world_safe this] show ?thesis by (auto simp: mem_env_ok)
qed

end
