(* ===== verification/Handler_Theorems.thy ===== *)
theory Handler_Theorems
  imports Data_Safety
begin

text \<open>
  What a client sees of the object and multipart handlers: an uploaded body is what a download serves, and a
  completed multipart upload is the concatenation of its parts.
\<close>

section \<open>Upload, then download\<close>












lemma hi_request_fields [simp]:
  "HttpRequest_GetPathParam hi_request ''bucket'' = ''b''" "HttpRequest_GetPathParam hi_request ''object'' = ''k''"
  "HttpRequest_GetHeader hi_request h = ''''" "HttpRequest_GetHeader (hi_request\<lparr>rq_method := GET\<rparr>) h = ''''"
  "rq_body hi_request = ''hi''"
  by (simp_all add: hi_request_def HttpRequest_GetPathParam_def HttpRequest_GetHeader_def HttpRequest_new_def)



section \<open>Completing a multipart upload\<close>

definition part_listing :: "Collation \<Rightarrow> Tables \<Rightarrow> string \<Rightarrow> PartRow list" where
  "part_listing col T u = sort_key p_number (filter (\<lambda>r. col_eq col (p_upload r) u \<and> 0 < p_number r) (t_parts T))"

lemma part_rows_map [simp]: "part_rows (map Row_part xs) = xs"
  by (induction xs) (auto simp: part_rows_def List.map_filter_def)

lemma list_parts_post:
  assumes ok: "meta_env_ok col env view" and n: "no_tx view (ms_db ms) A"
    and op: "MetaStore_ListParts env ms u 0 10000 = (ms', Inr res)" and few: "length (part_listing col A u) \<le> 10000"
  shows "no_tx view (ms_db ms') A \<and> lp_parts res = map (part_of_row env) (part_listing col A u)"
proof -
  let ?P = "\<lambda>(d, r :: ListPartsResult Result). no_tx view d A \<and> (\<forall>res. r = Inr res \<longrightarrow> lp_parts res = map (part_of_row env) (part_listing col A u))"
  have i: "int32 (10000 + 1) = 10001" by (simp add: int32_def)
  have "?P (ms_db ms', Inr res)"
  proof (rule with_conn_post [where P = ?P, OF ok n _ _ op [unfolded MetaStore_ListParts_def i]])
    fix d assume nd: "no_tx view d A"
    show "?P (sql_then env (Sel_parts u 0 10001) (\<lambda>r d. (d, Inr (list_parts_page env (nat 10000) (part_rows (sr_rows r))))) d)"
      by (rule sql_then_post [where P = ?P, OF ok nd])
         (use few in \<open>auto simp: data_stmt_def limited_def rows_def part_listing_def [symmetric] take_map list_parts_page_def Let_def db_error_def Err_def
            split: if_splits\<close>)
  qed (auto simp: no_conn_def Err_def)
  then show ?thesis by simp
qed

lemma get_upload_post:
  assumes ok: "meta_env_ok col env view" and n: "no_tx view (ms_db ms) A"
    and op: "MetaStore_GetMultipartUpload env ms u = (ms', Inr upload)"
    and up: "filter (\<lambda>r. col_eq col (u_id r) u) (t_uploads A) = row # rest"
  shows "no_tx view (ms_db ms') A \<and> upload = upload_of_row env row"
proof -
  let ?P = "\<lambda>(d, r :: MultipartUploadInfo Result). no_tx view d A \<and> (\<forall>up. r = Inr up \<longrightarrow> up = upload_of_row env row)"
  have "?P (ms_db ms', Inr upload)"
  proof (rule with_conn_post [where P = ?P, OF ok n _ _ op [unfolded MetaStore_GetMultipartUpload_def]])
    fix d assume nd: "no_tx view d A"
    show "?P (sql_then env (Sel_upload u) (\<lambda>r d. (d, case sr_rows r of Row_upload row # _ \<Rightarrow> Inr (upload_of_row env row)
        | _ \<Rightarrow> Err NoSuchUpload ''Upload not found'')) d)"
      by (rule sql_then_post [where P = ?P, OF ok nd]) (use up in \<open>auto simp: data_stmt_def rows_def db_error_def Err_def\<close>)
  qed (auto simp: no_conn_def Err_def)
  then show ?thesis by simp
qed

lemma decrement_holds:
  assumes ok: "meta_env_ok col env view" and inv: "holds view J ms"
    and J: "\<And>now nid T T' r. stmt_tables col now nid T (Dec_cas h) = Some (T', r) \<Longrightarrow> J T \<Longrightarrow> J T'"
    and op: "MetaStore_DecrementRefCountAndCheckZero env ms h = (ms', q)"
  shows "holds view J ms'"
proof -
  from inv obtain A where n: "no_tx view (ms_db ms) A" and safe: "J A" by (auto simp: holds_def)
  let ?P = "\<lambda>x :: 'a \<times> bool Result. \<exists>T. no_tx view (fst x) T \<and> J T"
  have "?P (ms_db ms', q)"
  proof (rule with_conn_post [where P = ?P, OF ok n _ _ op [unfolded MetaStore_DecrementRefCountAndCheckZero_def]])
    fix d assume nd: "no_tx view d A"
    let ?k = "\<lambda>r d. (d, case sr_rows r of Row_int n # _ \<Rightarrow> Inr (n = 0) | _ \<Rightarrow> Err NoSuchKey ''CAS blob not found'')"
    show "?P (sql_then env (Dec_cas h) (\<lambda>_. sql_then env (Sel_ref h) ?k) d)"
    proof (rule sql_then_post [where P = ?P, OF ok nd])
      fix now nid T r d' assume T: "stmt_tables col now nid A (Dec_cas h) = Some (T, r)" "no_tx view d' T"
      have "J T" using J [OF T(1) safe] .
      then show "?P (sql_then env (Sel_ref h) ?k d')"
        by (intro sql_then_post [where P = ?P, OF ok T(2)]) (auto simp: data_stmt_def)
    qed (use safe in \<open>auto simp: data_stmt_def\<close>)
  qed (use safe in auto)
  then show ?thesis by (simp add: holds_def)
qed

lemma release_parts_objects:
  assumes ok: "meta_env_ok col (ap_meta api) view"
  shows "holds view (\<lambda>T. t_objects T = X) (w_ms w) \<Longrightarrow>
    holds view (\<lambda>T. t_objects T = X) (w_ms (release_parts api ks w)) \<and> w_fs (release_parts api ks w) = w_fs w"
proof (induction ks arbitrary: w)
  case (Cons k ks)
  obtain w1 q where m: "meta_op (\<lambda>ms. MetaStore_DecrementRefCountAndCheckZero (ap_meta api) ms k) w = (w1, q)"
    by (rule that [OF prod.collapse [symmetric]])
  note f = meta_op_fields [OF m]
  have h: "holds view (\<lambda>T. t_objects T = X) (w_ms w1)"
    by (rule decrement_holds [OF ok Cons.prems _ conjunct2 [OF conjunct2 [OF f]]]) (auto simp: update_cas_def split: option.splits if_splits)
  have e: "w_ms (enqueue x w1) = w_ms w1" "w_fs (enqueue x w1) = w_fs w1" for x by (auto simp: enqueue_def split: option.splits)
  have "release_parts api (k # ks) w = release_parts api ks (if q = Inr True then enqueue (Some k) w1 else w1)"
    using m by (auto split: sum.splits bool.splits)
  then show ?case using Cons.IH [of "if q = Inr True then enqueue (Some k) w1 else w1"] h f e by simp
qed simp

lemma match_parts_keys:
  "match_parts cs ps t = Inr (ks, t') \<Longrightarrow> length cs = length ps \<Longrightarrow> ks = map mp_sha256_hash ps"
  by (induction cs ps t arbitrary: ks t' rule: match_parts.induct) (auto split: if_splits sum.splits)

text \<open>What a completion answered with 200 has done.\<close>

lemma complete_merge_200:
  assumes op: "complete_merge api bn ob uid upload ks total_size w = (w', Inr resp)" and ok: "rs_status_code resp = 200"
  obtains fs key ms old where "DataStore_Merge (ap_store api) (ap_ds api) (w_fs w) (ap_uuid api 3) ks = (fs, Inr key)"
    "MetaStore_PutObjectWithRefCount (ap_meta api) (ap_now api) (w_ms w) (mu_bucket_id upload) (mu_key upload)
       (int64_of total_size) (quoted (take 32 key)) (mu_content_type upload) key = (ms, Inr old)"
    "w' = fst (meta_op (\<lambda>ms. MetaStore_DeleteMultipartUpload (ap_meta api) ms uid)
       (release_parts api ks (enqueue old (w\<lparr>w_fs := fs, w_ms := ms\<rparr>))))"
proof -
  obtain fs q where m: "DataStore_Merge (ap_store api) (ap_ds api) (w_fs w) (ap_uuid api 3) ks = (fs, q)"
    by (rule that [OF prod.collapse [symmetric]])
  obtain key where q: "q = Inr key" using op ok m by (cases q) (auto simp: complete_merge_def internal_error_def answer_def)
  obtain ms p where po: "MetaStore_PutObjectWithRefCount (ap_meta api) (ap_now api) (w_ms w) (mu_bucket_id upload) (mu_key upload)
       (int64_of total_size) (quoted (take 32 key)) (mu_content_type upload) key = (ms, p)"
    by (rule that [OF prod.collapse [symmetric]])
  obtain old where p: "p = Inr old" using op ok m q po
    by (cases p) (auto simp: complete_merge_def internal_error_def answer_def meta_op_def Let_def)
  have "w' = fst (meta_op (\<lambda>ms. MetaStore_DeleteMultipartUpload (ap_meta api) ms uid)
       (release_parts api ks (enqueue old (w\<lparr>w_fs := fs, w_ms := ms\<rparr>))))"
    using op po unfolding complete_merge_def m q p by (simp add: meta_op_def [of "\<lambda>ms. MetaStore_PutObjectWithRefCount _ _ ms _ _ _ _ _ _"] answer_def Let_def p)
  with m q po p show thesis using that by blast
qed

lemma complete_200:
  assumes op: "MultipartHandlers_CompleteUpload api r w = (w', Inr resp)" and ok: "rs_status_code resp = 200"
    and uid: "uid = HttpRequest_GetPathParam r ''upload_id''"
  obtains ms1 upload ms2 res ks total_size where
    "MetaStore_GetMultipartUpload (ap_meta api) (w_ms w) uid = (ms1, Inr upload)"
    "MetaStore_ListParts (ap_meta api) ms1 uid 0 10000 = (ms2, Inr res)" "ks = map mp_sha256_hash (lp_parts res)"
    "complete_merge api (HttpRequest_GetPathParam r ''bucket'') (HttpRequest_GetPathParam r ''object'') uid upload ks total_size
       (w\<lparr>w_ms := ms2\<rparr>) = (w', Inr resp)"
proof -
  let ?bn = "HttpRequest_GetPathParam r ''bucket''" and ?ob = "HttpRequest_GetPathParam r ''object''"
  note answers = bad_request_def not_found_def internal_error_def answer_def
  obtain ms1 q where g: "MetaStore_GetMultipartUpload (ap_meta api) (w_ms w) uid = (ms1, q)" by (rule that [OF prod.collapse [symmetric]])
  obtain upload where q: "q = Inr upload" using op ok g uid
    by (cases q) (auto simp: MultipartHandlers_CompleteUpload_def with_upload_def meta_op_def answers Let_def split: if_splits)
  obtain cps where c: "complete_parts api ?bn ?ob uid upload cps (w\<lparr>w_ms := ms1\<rparr>) = (w', Inr resp)"
    using op ok g q uid
    by (auto simp: MultipartHandlers_CompleteUpload_def with_upload_def meta_op_def answers Let_def
        split: if_splits option.splits Json.splits sum.splits)
  obtain ms2 l where li: "MetaStore_ListParts (ap_meta api) ms1 uid 0 10000 = (ms2, l)" by (rule that [OF prod.collapse [symmetric]])
  obtain res where l: "l = Inr res" using c ok li by (cases l) (auto simp: complete_parts_def meta_op_def answers)
  obtain ks t where m: "match_parts (sort_key fst cps) (lp_parts res) 0 = Inr (ks, t)" "length cps = length (lp_parts res)"
    "complete_merge api ?bn ?ob uid upload ks t (w\<lparr>w_ms := ms2\<rparr>) = (w', Inr resp)"
    using c ok li l by (auto simp: complete_parts_def meta_op_def answers Let_def split: if_splits sum.splits)
  have "ks = map mp_sha256_hash (lp_parts res)" using match_parts_keys [OF m(1)] m(2) by simp
  with g q li l m(3) show thesis using that by blast
qed

text \<open>C31: A completed multipart upload is the concatenation of its parts: when a completion answers 200, every part
  that the server holds for the upload was on disk, the upload's key now names one object whose digest is that of
  the parts' contents joined in the order of the part numbers, and the blob under that digest holds exactly those
  bytes. The upload has at most 10000 parts, no other key has the same indexed prefix, and no other content is on
  disk under the digest of the joined parts (SHA-256 has not collided); the database is one of \<open>meta_env_ok\<close>.\<close>
theorem complete_upload_concatenates:
  assumes ok: "meta_env_ok col (ap_meta api) view" and n: "no_tx view (ms_db (w_ms w)) A" and u: "uniq_ok col A"
    and uid: "uid = HttpRequest_GetPathParam r ''upload_id''"
    and up: "filter (\<lambda>r. col_eq col (u_id r) uid) (t_uploads A) = row # rest"
    and al: "no_alias col (u_bucket row) (u_key row) A" and few: "length (part_listing col A uid) \<le> 10000"
    and free: "\<And>cs. map (\<lambda>p. blob (ap_ds api) (w_fs w) (p_cas p)) (part_listing col A uid) = map Some cs \<Longrightarrow>
      blob (ap_ds api) (w_fs w) (Crypto_SHA256 (se_sha (ap_store api)) (concat cs)) \<in> {None, Some (concat cs)}"
    and op: "MultipartHandlers_CompleteUpload api r w = (w', Inr resp)" "rs_status_code resp = 200"
  shows "\<exists>cs T ob. map (\<lambda>p. blob (ap_ds api) (w_fs w) (p_cas p)) (part_listing col A uid) = map Some cs \<and>
    no_tx view (ms_db (w_ms w')) T \<and> filter (obj_is col (u_bucket row) (u_key row)) (t_objects T) = [ob] \<and>
    o_cas ob = Crypto_SHA256 (se_sha (ap_store api)) (concat cs) \<and>
    blob (ap_ds api) (w_fs w') (o_cas ob) = Some (concat cs)"
proof -
  obtain ms1 upload ms2 res ks tot where
    g: "MetaStore_GetMultipartUpload (ap_meta api) (w_ms w) uid = (ms1, Inr upload)" and
    li: "MetaStore_ListParts (ap_meta api) ms1 uid 0 10000 = (ms2, Inr res)" and ks: "ks = map mp_sha256_hash (lp_parts res)" and
    cm: "complete_merge api (HttpRequest_GetPathParam r ''bucket'') (HttpRequest_GetPathParam r ''object'') uid upload ks tot
       (w\<lparr>w_ms := ms2\<rparr>) = (w', Inr resp)"
    by (rule complete_200 [OF op uid]) (rule that)
  note g' = get_upload_post [OF ok n g up]
  note l' = list_parts_post [OF ok conjunct1 [OF g'] li few]
  have keys: "ks = map p_cas (part_listing col A uid)" using ks l' by (simp add: part_of_row_def)
  obtain fs key ms old where m: "DataStore_Merge (ap_store api) (ap_ds api) (w_fs w) (ap_uuid api 3) ks = (fs, Inr key)" and
    po: "MetaStore_PutObjectWithRefCount (ap_meta api) (ap_now api) ms2 (u_bucket row) (u_key row)
       (int64_of tot) (quoted (take 32 key)) (u_ct row) key = (ms, Inr old)" and
    w': "w' = fst (meta_op (\<lambda>ms. MetaStore_DeleteMultipartUpload (ap_meta api) ms uid)
       (release_parts api ks (enqueue old (w\<lparr>w_fs := fs, w_ms := ms\<rparr>))))"
    using g' by (auto simp: upload_of_row_def intro: complete_merge_200 [OF cm op(2)])
  from Merge_blob [OF m] obtain cs where cs: "map (blob (ap_ds api) (w_fs w)) ks = map Some cs" and
    key: "key = Crypto_SHA256 (se_sha (ap_store api)) (concat cs)" and
    b: "blob (ap_ds api) fs key = Some (concat cs) \<or> blob (ap_ds api) fs key = blob (ap_ds api) (w_fs w) key \<and> blob (ap_ds api) (w_fs w) key \<noteq> None"
    by blast
  have onfile: "blob (ap_ds api) fs key = Some (concat cs)" using b free [of cs] cs key keys by (auto simp: o_def)
  from put_object_post [OF ok conjunct1 [OF l'] u po] obtain T where T: "no_tx view (ms_db ms) T" and
    s: "put_spec col (u_bucket row) (u_key row) key (int64_of tot) (u_ct row) (quoted (take 32 key)) A old T"
    by (auto simp: res_post_def)
  from put_spec_rows(1) [OF s u al] obtain ob where ob: "filter (obj_is col (u_bucket row) (u_key row)) (t_objects T) = [ob]" "o_cas ob = key"
    by blast
  let ?w = "enqueue old (w\<lparr>w_fs := fs, w_ms := ms\<rparr>)"
  have e: "w_ms ?w = ms" "w_fs ?w = fs" by (auto simp: enqueue_def split: option.splits)
  have "holds view (\<lambda>T'. t_objects T' = t_objects T) (w_ms ?w)" using T e by (auto simp: holds_def)
  note r = release_parts_objects [OF ok this, of ks]
  obtain w2 q where d: "meta_op (\<lambda>ms. MetaStore_DeleteMultipartUpload (ap_meta api) ms uid) (release_parts api ks ?w) = (w2, q)"
    by (rule that [OF prod.collapse [symmetric]])
  note f = meta_op_fields [OF d]
  have "holds view (\<lambda>T'. t_objects T' = t_objects T) (w_ms w2)"
    by (rule plain_op_holds [OF ok conjunct1 [OF r] _ _ _ conjunct2 [OF conjunct2 [OF f], unfolded MetaStore_DeleteMultipartUpload_def]])
       (auto simp: data_stmt_def)
  moreover have "w' = w2" "w_fs w2 = fs" using w' d f r e by simp_all
  ultimately show ?thesis using cs key onfile ob keys by (auto simp: holds_def o_def)
qed

text \<open>An upload with two parts.\<close>

definition two_parts :: Tables where
  "two_parts = one_bucket\<lparr>t_cas := [\<lparr>c_key = hi_key, c_size = 2, c_ref = 2, c_created = 0, c_updated = 0\<rparr>],
     t_uploads := [\<lparr>u_id = ''u'', u_bucket = 7, u_key = ''k'', u_ct = ''t'', u_created = 0, u_expires = 9\<rparr>],
     t_parts := [\<lparr>p_upload = ''u'', p_number = 2, p_cas = hi_key, p_size = 2, p_etag = ''e'', p_created = 0\<rparr>,
                 \<lparr>p_upload = ''u'', p_number = 1, p_cas = hi_key, p_size = 2, p_etag = ''e'', p_created = 0\<rparr>]\<rparr>"

definition parts_api :: "(Mem, unit) Api" where
  "parts_api = hi_api\<lparr>ap_meta := (mem_env bin_col)\<lparr>me_parse := \<lambda>_. Some (JObj [(''parts'', JArr
     [JObj [(''part_number'', JInt 1), (''etag'', JStr ''e'')], JObj [(''part_number'', JInt 2), (''etag'', JStr ''e'')]])])\<rparr>\<rparr>"

definition parts_world :: "(Mem, unit) World" where
  "parts_world = \<lparr>w_ms = mem_store two_parts [], w_fs = hi_fs, w_gc = None\<rparr>"

definition complete_request :: HttpRequest where
  "complete_request = HttpRequest_new\<lparr>rq_method := POST,
     rq_path_params := [''bucket'' \<mapsto> ''b'', ''object'' \<mapsto> ''k'', ''upload_id'' \<mapsto> ''u'']\<rparr>"

definition completed :: "(Mem, unit) Answer" where
  "completed = MultipartHandlers_CompleteUpload parts_api complete_request parts_world"

definition parts_db :: "int \<Rightarrow> Mem" where
  "parts_db n = \<lparr>mem_db = \<lparr>db_tables = two_parts, db_tx = None\<rparr>, mem_next = n, mem_now = 0, mem_faults = []\<rparr>"

definition parts_row :: UploadRow where
  "parts_row = \<lparr>u_id = ''u'', u_bucket = 7, u_key = ''k'', u_ct = ''t'', u_created = 0, u_expires = 9\<rparr>"

text \<open>Evaluation of the in-memory database by rewriting.\<close>

lemmas mem_eval = with_conn_def sql_then_def mem_env_def mem_sql_def mem_run_def stmt_effect_def mem_store_def rows_def db_write_def
  db_current_def one_bucket_def no_tables_def limited_def int32_def
lemmas put_eval = MetaStore_PutObjectWithRefCount_def put_object_fast_def put_object_slow_def tx_then_def tx_commit_def kMaxRetries_def
  first_string_def first_ref_zero_def swap_refs_def Transaction_new_def Transaction_Commit_def Transaction_Rollback_def
  ins_object_def upsert_object_def upsert_cas_def update_cas_def new_object_def has_bucket_def has_cas_def cas_is_def obj_clash_def obj_is_def affected_def inserted_def

lemma parts_get: "ms_db ms = parts_db n \<Longrightarrow> MetaStore_GetMultipartUpload (ap_meta parts_api) ms ''u'' =
    (ms\<lparr>ms_db := parts_db (n + 1)\<rparr>, Inr (upload_of_row (ap_meta parts_api) parts_row))"
  by (simp add: MetaStore_GetMultipartUpload_def parts_api_def parts_db_def parts_row_def mem_eval two_parts_def)

lemma parts_list: "ms_db ms = parts_db n \<Longrightarrow> MetaStore_ListParts (ap_meta parts_api) ms ''u'' 0 10000 =
    (ms\<lparr>ms_db := parts_db (n + 1)\<rparr>, Inr (list_parts_page (ap_meta parts_api) 10000
      [\<lparr>p_upload = ''u'', p_number = 1, p_cas = hi_key, p_size = 2, p_etag = ''e'', p_created = 0\<rparr>,
       \<lparr>p_upload = ''u'', p_number = 2, p_cas = hi_key, p_size = 2, p_etag = ''e'', p_created = 0\<rparr>]))"
  by (simp add: MetaStore_ListParts_def parts_api_def parts_db_def mem_eval two_parts_def part_rows_def List.map_filter_def)

lemma parts_put: "ms_db ms = parts_db n \<Longrightarrow> 0 \<le> sz \<Longrightarrow> \<not> col_eq bin_col hi_key h \<Longrightarrow>
    snd (MetaStore_PutObjectWithRefCount (ap_meta parts_api) 5 ms 7 ''k'' sz etag ct h) = Inr None"
  by (simp add: put_eval parts_api_def parts_db_def mem_eval two_parts_def Let_def numeral_3_eq_3)

lemma parts_merge: "\<exists>fs. DataStore_Merge toy_env toy_store hi_fs ''u'' [hi_key, hi_key] = (fs, Inr (Crypto_SHA256 (se_sha toy_env) ''hihi''))"
proof -
  have b: "blob toy_store hi_fs hi_key = Some ''hi''" by (simp add: blob_def hi_fs_def empty_fs_def toy_store_def)
  have "tmp_file toy_store ''merge'' ''u'' \<noteq> CasLayout_GetCasPath ''data'' hi_key"
    by (rule is_tmp_not_cas) simp
  then show ?thesis
    using Merge_no_fault [of hi_fs toy_store "''u''" "[hi_key, hi_key]" "[''hi'', ''hi'']" toy_env] b
    by (auto simp: hi_fs_def empty_fs_def)
qed

lemma two_digests: "Crypto_SHA256 (se_sha toy_env) ''hihi'' \<noteq> hi_key"
  by code_simp

lemma completed_ok: "\<exists>w r. completed = (w, Inr r) \<and> rs_status_code r = 200"
proof -
  let ?env = "ap_meta parts_api" and ?h = "Crypto_SHA256 (se_sha toy_env) ''hihi''"
  let ?ms = "(mem_store two_parts [])\<lparr>ms_db := parts_db 3\<rparr>"
  obtain fs where m: "DataStore_Merge toy_env toy_store hi_fs ''u'' [hi_key, hi_key] = (fs, Inr ?h)" using parts_merge by blast
  have "\<not> col_eq bin_col hi_key ?h" using two_digests by (auto simp: col_eq_def bin_col_def inj_map_eq_map [OF inj_of_char])
  then obtain ms where po: "MetaStore_PutObjectWithRefCount ?env 5 ?ms 7 ''k'' (int64_of 4) (quoted (take 32 ?h)) ''t'' ?h = (ms, Inr None)"
    using parts_put [of ?ms 3 "int64_of 4" ?h] by (simp add: int64_of_def prod_eq_iff)
  have db: "ms_db (mem_store two_parts []) = parts_db 1" by (simp add: mem_store_def parts_db_def)
  have json: "me_parse ?env x = Some (JObj [(''parts'', JArr [JObj [(''part_number'', JInt 1), (''etag'', JStr ''e'')],
      JObj [(''part_number'', JInt 2), (''etag'', JStr ''e'')]])])" for x by (simp add: parts_api_def)
  have env: "ap_store parts_api = toy_env" "ap_ds parts_api = toy_store" "ap_uuid parts_api = (\<lambda>_. ''u'')" "ap_now parts_api = 5"
    by (simp_all add: parts_api_def)
  note parts = parts_get [OF db] parts_list [of "(mem_store two_parts [])\<lparr>ms_db := parts_db 2\<rparr>" 2]
  show ?thesis
    using m po parts
    by (simp add: completed_def parts_world_def MultipartHandlers_CompleteUpload_def complete_request_def HttpRequest_GetPathParam_def
        with_upload_def meta_op_def json json_contains_def json_value_int_def json_value_string_def json_get_int_def json_get_string_def
        int32_def NormalizeEtagValue_def complete_parts_def list_parts_page_def part_of_row_def size_add_def size_of_def
        complete_merge_def env upload_of_row_def parts_row_def answer_def HttpResponse_code_def Let_def)
qed

theorem complete_upload_concatenates_witness:
  "\<exists>T ob. no_tx mem_db (ms_db (w_ms (fst completed))) T \<and> filter (obj_is bin_col 7 ''k'') (t_objects T) = [ob] \<and>
     blob toy_store (w_fs (fst completed)) (o_cas ob) = Some ''hihi''"
proof -
  obtain w' resp where c: "completed = (w', Inr resp)" and ok: "rs_status_code resp = 200" using completed_ok by blast
  have run: "MultipartHandlers_CompleteUpload parts_api complete_request parts_world = (fst completed, Inr resp)"
    using c by (simp add: completed_def)
  have env: "meta_env_ok bin_col (ap_meta parts_api) mem_db"
    using mem_env_ok [of bin_col] by (simp add: parts_api_def meta_env_ok_def)
  have n: "no_tx mem_db (ms_db (w_ms parts_world)) two_parts" by (simp add: parts_world_def mem_store_no_tx)
  have u: "uniq_ok bin_col two_parts"
    by (simp add: uniq_ok_def two_parts_def one_bucket_def no_tables_def)
  have uid: "''u'' = HttpRequest_GetPathParam complete_request ''upload_id''"
    by (simp add: complete_request_def HttpRequest_GetPathParam_def)
  have up: "filter (\<lambda>r. col_eq bin_col (u_id r) ''u'') (t_uploads two_parts) =
      [\<lparr>u_id = ''u'', u_bucket = 7, u_key = ''k'', u_ct = ''t'', u_created = 0, u_expires = 9\<rparr>]"
    by (simp add: two_parts_def)
  have list: "map p_cas (part_listing bin_col two_parts ''u'') = [hi_key, hi_key]"
    by (simp add: part_listing_def two_parts_def)
  have st: "ap_ds parts_api = toy_store" "ap_store parts_api = toy_env" "w_fs parts_world = hi_fs"
    by (simp_all add: parts_api_def parts_world_def)
  have b: "blob toy_store hi_fs hi_key = Some ''hi''" by (simp add: blob_def hi_fs_def empty_fs_def toy_store_def)
  have nb: "blob toy_store hi_fs (Crypto_SHA256 (se_sha toy_env) ''hihi'') = None"
    using cas_path_inj [of "Crypto_SHA256 (se_sha toy_env) ''hihi''" hi_key "''data''"] hi_valid two_digests digest_valid [OF toy_sha_len, of "''hihi''", unfolded digest_def]
    by (auto simp: blob_def hi_fs_def empty_fs_def toy_store_def)
  have al: "no_alias bin_col 7 ''k'' two_parts"
    by (simp add: no_alias_def two_parts_def one_bucket_def no_tables_def)
  have len: "length (part_listing bin_col two_parts ''u'') \<le> 10000" using arg_cong [OF list, of length] by simp
  have blobs: "map (blob toy_store hi_fs \<circ> p_cas) (part_listing bin_col two_parts ''u'') = map Some [''hi'', ''hi'']"
    using arg_cong [OF list, of "map (blob toy_store hi_fs)"] b by simp
  have cs: "cs = [''hi'', ''hi'']" if "map (blob toy_store hi_fs \<circ> p_cas) (part_listing bin_col two_parts ''u'') = map Some cs" for cs
    using that blobs by (metis inj_map_eq_map inj_Some)
  show ?thesis
    using complete_upload_concatenates [OF env n u uid up, simplified st, OF _ len _ run [unfolded st] ok] al cs nb
    by (fastforce simp: o_def)
qed

end
