(* ===== verification/Timer_Wheel.thy ===== *)
theory Timer_Wheel
  imports Prelude
begin

text \<open>
  The timer wheel of \<^verbatim>\<open>src/src/net/epoll/timer_wheel.cpp\<close>. Entries are shared between the slots (which
  own them) and the index by identifier (which only observes them), so they live in a store and the slots
  and the index hold pointers. A weak pointer can be locked exactly while a slot still holds the entry.
  Callbacks are values; a tick returns those it calls, in order. The one callback that the program
  registers queues a functor and never touches the wheel, so running them after the tick is the same.
  Identifiers are counted without wrap-around: 2 to the 64 timers are never created.

  The wheel is proved to implement a plain list of timers with the seconds they have left, for delays
  that are not longer than the wheel.
\<close>

section \<open>The wheel\<close>

type_synonym ptr = nat

record 'c TimerEntry =
  te_id :: nat
  te_callback :: "'c option"
  te_repeat :: bool
  te_interval :: int
  te_cancelled :: bool

record 'c TimerWheel =
  tw_wheel_size :: size_t
  tw_current_slot :: size_t
  tw_wheel :: "ptr list list"
  tw_timer_map :: "nat \<rightharpoonup> ptr"
  tw_next_timer_id :: nat
  tw_store :: "'c TimerEntry list"

definition TimerWheel_new :: "size_t \<Rightarrow> 'c TimerWheel" where
  "TimerWheel_new wheel_size =
     \<lparr>tw_wheel_size = wheel_size, tw_current_slot = 0, tw_wheel = replicate wheel_size [],
      tw_timer_map = Map.empty, tw_next_timer_id = 1, tw_store = []\<rparr>"

text \<open>The slot that is due in some seconds, and pushing a pointer to it.\<close>

definition slot_after :: "'c TimerWheel \<Rightarrow> int \<Rightarrow> nat" where
  "slot_after w seconds = size_add (tw_current_slot w) (nat seconds) mod tw_wheel_size w"

definition push_slot :: "'c TimerWheel \<Rightarrow> int \<Rightarrow> ptr \<Rightarrow> 'c TimerWheel" where
  "push_slot w seconds p =
     (let target_slot = slot_after w seconds
      in w\<lparr>tw_wheel := (tw_wheel w)[target_slot := tw_wheel w ! target_slot @ [p]]\<rparr>)"

text \<open>A fresh entry, put into its slot and into the index.\<close>

definition add_entry :: "'c TimerWheel \<Rightarrow> 'c TimerEntry \<Rightarrow> 'c TimerWheel" where
  "add_entry w entry =
     (let p = length (tw_store w); w = push_slot (w\<lparr>tw_store := tw_store w @ [entry]\<rparr>) (te_interval entry) p
      in w\<lparr>tw_timer_map := (tw_timer_map w)(te_id entry \<mapsto> p)\<rparr>)"

definition TimerWheel_AddTimer :: "'c TimerWheel \<Rightarrow> int \<Rightarrow> 'c \<Rightarrow> bool \<Rightarrow> 'c TimerWheel \<times> nat" where
  "TimerWheel_AddTimer w delay_seconds callback repeat =
     (let delay_seconds = (if delay_seconds \<le> 0 then 1 else delay_seconds);
          i = tw_next_timer_id w;
          entry = \<lparr>te_id = i, te_callback = Some callback, te_repeat = repeat, te_interval = delay_seconds,
                   te_cancelled = False\<rparr>
      in (add_entry (w\<lparr>tw_next_timer_id := i + 1\<rparr>) entry, i))"

definition locked :: "'c TimerWheel \<Rightarrow> ptr \<Rightarrow> bool" where
  "locked w p = (\<exists>bucket \<in> set (tw_wheel w). p \<in> set bucket)"

definition cancel_entry :: "'c TimerWheel \<Rightarrow> ptr \<Rightarrow> 'c TimerWheel" where
  "cancel_entry w p = w\<lparr>tw_store := (tw_store w)[p := (tw_store w ! p)\<lparr>te_cancelled := True\<rparr>]\<rparr>"

definition TimerWheel_CancelTimer :: "'c TimerWheel \<Rightarrow> nat \<Rightarrow> 'c TimerWheel" where
  "TimerWheel_CancelTimer w i =
     (case tw_timer_map w i of
        None \<Rightarrow> w
      | Some p \<Rightarrow> (let w = (if locked w p then cancel_entry w p else w)
                  in w\<lparr>tw_timer_map := (tw_timer_map w)(i := None)\<rparr>))"

definition TimerWheel_RefreshTimer :: "'c TimerWheel \<Rightarrow> nat \<Rightarrow> int \<Rightarrow> 'c TimerWheel" where
  "TimerWheel_RefreshTimer w i delay_seconds =
     (case tw_timer_map w i of
        None \<Rightarrow> w
      | Some p \<Rightarrow>
          (let entry = tw_store w ! p
           in if \<not> locked w p \<or> te_cancelled entry then w
              else let new_entry = \<lparr>te_id = te_id entry, te_callback = te_callback entry, te_repeat = te_repeat entry,
                          te_interval = (if delay_seconds > 0 then delay_seconds else te_interval entry),
                          te_cancelled = False\<rparr>;
                       w = cancel_entry (w\<lparr>tw_store := (tw_store w)[p := entry\<lparr>te_callback := None\<rparr>]\<rparr>) p
                   in add_entry w new_entry))"

text \<open>The entries of the slot that is due: the callbacks called, the entries to add again, and the index
  without the others.\<close>

fun tick_entries :: "'c TimerWheel \<Rightarrow> ptr list \<Rightarrow> 'c TimerWheel \<times> 'c list \<times> ptr list" where
  "tick_entries w [] = (w, [], [])"
| "tick_entries w (p # ps) =
     (let entry = tw_store w ! p
      in if te_cancelled entry then tick_entries w ps
         else let called = (case te_callback entry of None \<Rightarrow> [] | Some c \<Rightarrow> [c])
              in if te_repeat entry
                 then (case tick_entries w ps of (w', cs, rs) \<Rightarrow> (w', called @ cs, p # rs))
                 else (case tick_entries (w\<lparr>tw_timer_map := (tw_timer_map w)(te_id entry := None)\<rparr>) ps of
                         (w', cs, rs) \<Rightarrow> (w', called @ cs, rs)))"

definition TimerWheel_Tick :: "'c TimerWheel \<Rightarrow> 'c TimerWheel \<times> 'c list" where
  "TimerWheel_Tick w =
     (let w = w\<lparr>tw_current_slot := size_add (tw_current_slot w) 1 mod tw_wheel_size w\<rparr>;
          (w, called, repeat_entries) = tick_entries w (tw_wheel w ! tw_current_slot w);
          w = w\<lparr>tw_wheel := (tw_wheel w)[tw_current_slot w := []]\<rparr>
      in (foldl (\<lambda>w p. push_slot w (te_interval (tw_store w ! p)) p) w repeat_entries, called))"

section \<open>What the wheel stands for\<close>

text \<open>A list of timers in the order in which they were set, each with the seconds it has left.\<close>

record 'c Timer =
  tm_id :: nat
  tm_left :: nat
  tm_callback :: 'c
  tm_repeat :: bool
  tm_interval :: nat

definition spec_add :: "'c Timer list \<Rightarrow> nat \<Rightarrow> nat \<Rightarrow> 'c \<Rightarrow> bool \<Rightarrow> 'c Timer list" where
  "spec_add ts i d c rep = ts @ [\<lparr>tm_id = i, tm_left = d, tm_callback = c, tm_repeat = rep, tm_interval = d\<rparr>]"

definition spec_cancel :: "'c Timer list \<Rightarrow> nat \<Rightarrow> 'c Timer list" where
  "spec_cancel ts i = filter (\<lambda>t. tm_id t \<noteq> i) ts"

definition spec_refresh :: "'c Timer list \<Rightarrow> nat \<Rightarrow> int \<Rightarrow> 'c Timer list" where
  "spec_refresh ts i d =
     (case find (\<lambda>t. tm_id t = i) ts of
        None \<Rightarrow> ts
      | Some t \<Rightarrow> let d = (if d > 0 then nat d else tm_interval t)
                  in filter (\<lambda>t. tm_id t \<noteq> i) ts @ [t\<lparr>tm_left := d, tm_interval := d\<rparr>])"

definition spec_tick :: "'c Timer list \<Rightarrow> 'c Timer list \<times> 'c list" where
  "spec_tick ts =
     (let due = filter (\<lambda>t. tm_left t = 1) ts
      in (map (\<lambda>t. t\<lparr>tm_left := tm_left t - 1\<rparr>) (filter (\<lambda>t. tm_left t \<noteq> 1) ts)
            @ map (\<lambda>t. t\<lparr>tm_left := tm_interval t\<rparr>) (filter tm_repeat due),
          map tm_callback due))"

text \<open>The operations as data, and what they report: the identifier of a new timer or the callbacks of a
  tick.\<close>

datatype 'c timer_op = Add int 'c bool | Cancel nat | Refresh nat int | Tick

datatype 'c timer_out = Added nat | Called "'c list" | Quiet

fun wheel_op :: "'c timer_op \<Rightarrow> 'c TimerWheel \<Rightarrow> 'c TimerWheel \<times> 'c timer_out" where
  "wheel_op (Add d c rep) w = (case TimerWheel_AddTimer w d c rep of (w', i) \<Rightarrow> (w', Added i))"
| "wheel_op (Cancel i) w = (TimerWheel_CancelTimer w i, Quiet)"
| "wheel_op (Refresh i d) w = (TimerWheel_RefreshTimer w i d, Quiet)"
| "wheel_op Tick w = (case TimerWheel_Tick w of (w', cs) \<Rightarrow> (w', Called cs))"

text \<open>The state of the specification is the next identifier with the list.\<close>

fun spec_op :: "'c timer_op \<Rightarrow> nat \<times> 'c Timer list \<Rightarrow> (nat \<times> 'c Timer list) \<times> 'c timer_out" where
  "spec_op (Add d c rep) (n, ts) = ((n + 1, spec_add ts n (if d \<le> 0 then 1 else nat d) c rep), Added n)"
| "spec_op (Cancel i) (n, ts) = ((n, spec_cancel ts i), Quiet)"
| "spec_op (Refresh i d) (n, ts) = ((n, spec_refresh ts i d), Quiet)"
| "spec_op Tick (n, ts) = (case spec_tick ts of (ts', cs) \<Rightarrow> ((n, ts'), Called cs))"

fun op_fits :: "nat \<Rightarrow> 'c timer_op \<Rightarrow> bool" where
  "op_fits sz (Add d c rep) = (d \<le> int sz)"
| "op_fits sz (Refresh i d) = (d \<le> int sz)"
| "op_fits sz _ = True"

section \<open>Machines that report the same\<close>

text \<open>The reports of a run of operations, and a relation under which two machines report the same.\<close>

primrec reports :: "('o \<Rightarrow> 's \<Rightarrow> 's \<times> 'r) \<Rightarrow> 'o list \<Rightarrow> 's \<Rightarrow> 'r list" where
  "reports step [] s = []"
| "reports step (p # ps) s = (case step p s of (s', r) \<Rightarrow> r # reports step ps s')"

locale machine_refinement =
  fixes step :: "'o \<Rightarrow> 's \<Rightarrow> 's \<times> 'r"
    and spec :: "'o \<Rightarrow> 'a \<Rightarrow> 'a \<times> 'r"
    and rel :: "'s \<Rightarrow> 'a \<Rightarrow> bool"
    and fits :: "'s \<Rightarrow> 'o \<Rightarrow> bool"
  assumes sim: "rel s a \<Longrightarrow> fits s p \<Longrightarrow> step p s = (s', r) \<Longrightarrow> \<exists>a'. spec p a = (a', r) \<and> rel s' a'"
    and fits_step: "step p s = (s', r) \<Longrightarrow> fits s' q = fits s q"
begin

lemma reports_eq: "rel s a \<Longrightarrow> \<forall>p \<in> set ps. fits s p \<Longrightarrow> reports step ps s = reports spec ps a"
proof (induction ps arbitrary: s a)
  case (Cons p ps)
  obtain s' r where st: "step p s = (s', r)" by (rule that [OF prod.collapse [symmetric]])
  from sim [OF Cons.prems(1) _ st] Cons.prems(2) obtain a' where "spec p a = (a', r)" "rel s' a'" by auto
  with st Cons.IH [of s' a'] Cons.prems(2) fits_step [OF st] show ?case by simp
qed simp

end

section \<open>The relation between the wheel and the list\<close>

definition one_slot :: "'c TimerWheel \<Rightarrow> bool" where
  "one_slot w \<longleftrightarrow> (\<forall>s < length (tw_wheel w). \<forall>s' < length (tw_wheel w). \<forall>p.
     p \<in> set (tw_wheel w ! s) \<and> p \<in> set (tw_wheel w ! s') \<longrightarrow> s = s')"

definition wheel_wf :: "'c TimerWheel \<Rightarrow> bool" where
  "wheel_wf w \<longleftrightarrow>
     0 < tw_wheel_size w \<and> tw_wheel_size w < 2 ^ 32 \<and> tw_current_slot w < tw_wheel_size w \<and>
     length (tw_wheel w) = tw_wheel_size w \<and> one_slot w \<and>
     (\<forall>p. locked w p \<longrightarrow> p < length (tw_store w)) \<and>
     (\<forall>p. locked w p \<and> \<not> te_cancelled (tw_store w ! p) \<longrightarrow>
        te_callback (tw_store w ! p) \<noteq> None \<and> 1 \<le> te_interval (tw_store w ! p) \<and>
        te_interval (tw_store w ! p) \<le> int (tw_wheel_size w) \<and> te_id (tw_store w ! p) < tw_next_timer_id w) \<and>
     (\<forall>i p. tw_timer_map w i = Some p \<longleftrightarrow> locked w p \<and> \<not> te_cancelled (tw_store w ! p) \<and> te_id (tw_store w ! p) = i)"

definition timer_of :: "'c TimerEntry \<Rightarrow> nat \<Rightarrow> 'c Timer" where
  "timer_of e r = \<lparr>tm_id = te_id e, tm_left = r, tm_callback = the (te_callback e), tm_repeat = te_repeat e,
                   tm_interval = nat (te_interval e)\<rparr>"

definition due_in :: "'c TimerWheel \<Rightarrow> nat \<Rightarrow> 'c Timer list" where
  "due_in w r = map (\<lambda>p. timer_of (tw_store w ! p) r)
     (filter (\<lambda>p. \<not> te_cancelled (tw_store w ! p)) (tw_wheel w ! slot_after w (int r)))"

definition wheel_rel :: "'c TimerWheel \<Rightarrow> nat \<times> 'c Timer list \<Rightarrow> bool" where
  "wheel_rel w a \<longleftrightarrow>
     wheel_wf w \<and> fst a = tw_next_timer_id w \<and>
     (\<forall>t \<in> set (snd a). 1 \<le> tm_left t \<and> tm_left t \<le> tw_wheel_size w) \<and>
     (\<forall>r \<in> {1..tw_wheel_size w}. due_in w r = filter (\<lambda>t. tm_left t = r) (snd a))"

text \<open>Slots, seconds and pointers.\<close>

lemma slot_after_eq:
  assumes "wheel_wf w" "1 \<le> r" "r \<le> tw_wheel_size w"
  shows "slot_after w (int r) =
    (if tw_current_slot w + r < tw_wheel_size w then tw_current_slot w + r else tw_current_slot w + r - tw_wheel_size w)"
proof -
  have b: "tw_current_slot w < tw_wheel_size w" "tw_current_slot w + r < size_bound" using assms by (auto simp: wheel_wf_def)
  have "(tw_current_slot w + r) mod tw_wheel_size w = (tw_current_slot w + r - tw_wheel_size w) mod tw_wheel_size w"
    if "tw_wheel_size w \<le> tw_current_slot w + r" using that by (simp add: le_mod_geq)
  with b assms show ?thesis by (auto simp: slot_after_def size_add_exact [OF b(2)])
qed

lemma slot_after_less: "wheel_wf w \<Longrightarrow> slot_after w d < length (tw_wheel w)"
  by (simp add: slot_after_def wheel_wf_def)

lemma slot_after_inj:
  assumes "wheel_wf w" "r \<in> {1..tw_wheel_size w}" "r' \<in> {1..tw_wheel_size w}"
  shows "slot_after w (int r) = slot_after w (int r') \<longleftrightarrow> r = r'"
  using assms slot_after_eq [of w r] slot_after_eq [of w r'] by (auto simp: wheel_wf_def split: if_splits)

lemma slot_after_surj:
  assumes "wheel_wf w" "s < tw_wheel_size w"
  shows "\<exists>r \<in> {1..tw_wheel_size w}. slot_after w (int r) = s"
proof (cases "tw_current_slot w < s")
  case True
  with assms slot_after_eq [of w "s - tw_current_slot w"] show ?thesis by (auto intro!: bexI [of _ "s - tw_current_slot w"])
next
  case False
  with assms slot_after_eq [of w "s + tw_wheel_size w - tw_current_slot w"] show ?thesis
    by (auto simp: wheel_wf_def intro!: bexI [of _ "s + tw_wheel_size w - tw_current_slot w"])
qed

lemma locked_nth: "locked w p \<longleftrightarrow> (\<exists>s < length (tw_wheel w). p \<in> set (tw_wheel w ! s))"
  unfolding locked_def by (metis in_set_conv_nth)

lemma locked_slot:
  assumes "wheel_wf w"
  shows "locked w p \<longleftrightarrow> (\<exists>r \<in> {1..tw_wheel_size w}. p \<in> set (tw_wheel w ! slot_after w (int r)))"
proof -
  have "length (tw_wheel w) = tw_wheel_size w" using assms by (simp add: wheel_wf_def)
  then have "locked w p \<longleftrightarrow> (\<exists>s < tw_wheel_size w. p \<in> set (tw_wheel w ! s))"
    by (simp add: locked_nth)
  with slot_after_surj [OF assms] slot_after_less [OF assms] \<open>length (tw_wheel w) = tw_wheel_size w\<close> show ?thesis
    by metis
qed

lemma wheel_wf_entry:
  assumes "wheel_wf w"
  shows "locked w p \<Longrightarrow> p < length (tw_store w)"
    and "locked w p \<Longrightarrow> \<not> te_cancelled (tw_store w ! p) \<Longrightarrow>
      te_callback (tw_store w ! p) \<noteq> None \<and> 1 \<le> te_interval (tw_store w ! p) \<and>
      te_interval (tw_store w ! p) \<le> int (tw_wheel_size w) \<and> te_id (tw_store w ! p) < tw_next_timer_id w"
    and "tw_timer_map w i = Some p \<longleftrightarrow> locked w p \<and> \<not> te_cancelled (tw_store w ! p) \<and> te_id (tw_store w ! p) = i"
  using assms by (simp_all add: wheel_wf_def)

lemma one_slotD:
  "wheel_wf w \<Longrightarrow> p \<in> set (tw_wheel w ! s) \<Longrightarrow> p \<in> set (tw_wheel w ! s') \<Longrightarrow>
    s < length (tw_wheel w) \<Longrightarrow> s' < length (tw_wheel w) \<Longrightarrow> s = s'"
  unfolding wheel_wf_def one_slot_def by blast

text \<open>Every timer of the list is an entry of the index, and the other way round.\<close>

lemma rel_timer:
  assumes r: "wheel_rel w (n, ts)" and t: "t \<in> set ts"
  shows "\<exists>p. tw_timer_map w (tm_id t) = Some p \<and> t = timer_of (tw_store w ! p) (tm_left t)"
proof -
  have wf: "wheel_wf w" and l: "tm_left t \<in> {1..tw_wheel_size w}" using r t by (auto simp: wheel_rel_def)
  then have "due_in w (tm_left t) = filter (\<lambda>u. tm_left u = tm_left t) ts" using r by (auto simp: wheel_rel_def)
  then have "t \<in> set (due_in w (tm_left t))" using t by simp
  then obtain p where "p \<in> set (tw_wheel w ! slot_after w (int (tm_left t)))" "\<not> te_cancelled (tw_store w ! p)"
    "t = timer_of (tw_store w ! p) (tm_left t)" by (auto simp: due_in_def)
  moreover from this l have "locked w p" using locked_slot [OF wf] by blast
  ultimately show ?thesis using wheel_wf_entry(3) [OF wf] by (metis Timer.select_convs(1) timer_of_def)
qed

lemma rel_entry:
  assumes r: "wheel_rel w (n, ts)" and p: "tw_timer_map w i = Some p"
  shows "\<exists>t \<in> set ts. tm_id t = i"
proof -
  have wf: "wheel_wf w" using r by (simp add: wheel_rel_def)
  from p wheel_wf_entry(3) [OF wf] locked_slot [OF wf] obtain l where l: "l \<in> {1..tw_wheel_size w}"
    "p \<in> set (tw_wheel w ! slot_after w (int l))" "\<not> te_cancelled (tw_store w ! p)" "te_id (tw_store w ! p) = i" by blast
  then have "timer_of (tw_store w ! p) l \<in> set (due_in w l)" by (auto simp: due_in_def)
  moreover have "set (due_in w l) \<subseteq> set ts" using r l(1) by (auto simp: wheel_rel_def)
  ultimately show ?thesis using l(4) by (auto simp: timer_of_def intro!: bexI [of _ "timer_of (tw_store w ! p) l"])
qed

text \<open>Dropping an entry.\<close>

lemma drop_rel:
  assumes r: "wheel_rel w (n, ts)" and p: "tw_timer_map w i = Some p" and e: "te_cancelled e"
  shows "wheel_rel (w\<lparr>tw_store := (tw_store w)[p := e], tw_timer_map := (tw_timer_map w)(i := None)\<rparr>) (n, spec_cancel ts i)"
    (is "wheel_rel ?w _")
proof -
  have wf: "wheel_wf w" using r by (simp add: wheel_rel_def)
  note m = wheel_wf_entry(3) [OF wf]
  have lk [simp]: "locked ?w q = locked w q" for q by (simp add: locked_def)
  have sl [simp]: "slot_after ?w d = slot_after w d" for d by (simp add: slot_after_def)
  have lp: "p < length (tw_store w)" using p m wheel_wf_entry(1) [OF wf] by blast
  have live: "(\<not> te_cancelled (tw_store ?w ! q)) = (\<not> te_cancelled (tw_store w ! q) \<and> te_id (tw_store w ! q) \<noteq> i)"
    if "locked w q" for q
    using that p m [of i q] e lp by (cases "q = p") auto
  have st: "tw_store ?w ! q = tw_store w ! q" if "locked w q" "\<not> te_cancelled (tw_store ?w ! q)" for q
    using that live e lp by (cases "q = p") auto
  have wf': "wheel_wf ?w" unfolding wheel_wf_def
  proof (intro conjI allI)
    fix j q show "(tw_timer_map ?w j = Some q) = (locked ?w q \<and> \<not> te_cancelled (tw_store ?w ! q) \<and> te_id (tw_store ?w ! q) = j)"
      using m [of j q] live [of q] st [of q] by auto
  qed (use wf live st in \<open>auto simp: wheel_wf_def one_slot_def\<close>)
  have "due_in ?w k = filter (\<lambda>t. tm_id t \<noteq> i) (due_in w k)" if k: "k \<in> {1..tw_wheel_size w}" for k
  proof -
    let ?b = "tw_wheel w ! slot_after w (int k)"
    have b: "locked w q" if "q \<in> set ?b" for q using that k locked_slot [OF wf] by blast
    have "filter (\<lambda>q. \<not> te_cancelled (tw_store ?w ! q)) ?b
        = filter (\<lambda>q. \<not> te_cancelled (tw_store w ! q) \<and> te_id (tw_store w ! q) \<noteq> i) ?b"
      using live b by (intro filter_cong) auto
    moreover have "timer_of (tw_store ?w ! q) k = timer_of (tw_store w ! q) k"
      if "q \<in> set ?b" "\<not> te_cancelled (tw_store w ! q) \<and> te_id (tw_store w ! q) \<noteq> i" for q
      using st [OF b [OF that(1)]] live [OF b [OF that(1)]] that(2) by metis
    ultimately show ?thesis by (simp add: due_in_def filter_map o_def timer_of_def conj_commute)
  qed
  with wf' r show ?thesis by (simp add: wheel_rel_def spec_cancel_def conj_commute)
qed

text \<open>Adding one.\<close>

lemma push_slot_fields [simp]:
  "tw_wheel_size (push_slot w d p) = tw_wheel_size w" "tw_current_slot (push_slot w d p) = tw_current_slot w"
  "tw_timer_map (push_slot w d p) = tw_timer_map w" "tw_next_timer_id (push_slot w d p) = tw_next_timer_id w"
  "tw_store (push_slot w d p) = tw_store w" "length (tw_wheel (push_slot w d p)) = length (tw_wheel w)"
  "slot_after (push_slot w d p) d' = slot_after w d'"
  by (simp_all add: push_slot_def Let_def slot_after_def)

lemma push_slot_nth:
  "slot_after w d < length (tw_wheel w) \<Longrightarrow>
    tw_wheel (push_slot w d p) ! s = tw_wheel w ! s @ (if s = slot_after w d then [p] else [])"
  by (simp add: push_slot_def Let_def)

lemma locked_push:
  "slot_after w d < length (tw_wheel w) \<Longrightarrow> locked (push_slot w d p) q = (locked w q \<or> q = p)"
  by (auto simp: locked_nth push_slot_nth split: if_splits)

lemma add_rel:
  assumes r: "wheel_rel w (n, ts)" and i: "tw_timer_map w (te_id e) = None" "te_id e < n"
    and e: "te_callback e \<noteq> None" "\<not> te_cancelled e" "te_interval e = int d" "1 \<le> d" "d \<le> tw_wheel_size w"
  shows "wheel_rel (add_entry w e) (n, ts @ [timer_of e d])" (is "wheel_rel ?w _")
proof -
  let ?p = "length (tw_store w)"
  let ?v = "w\<lparr>tw_store := tw_store w @ [e]\<rparr>"
  have wf: "wheel_wf w" and n: "n = tw_next_timer_id w" using r by (simp_all add: wheel_rel_def)
  have f [simp]: "tw_store ?w = tw_store w @ [e]" "tw_timer_map ?w = (tw_timer_map w)(te_id e \<mapsto> ?p)"
    "tw_wheel_size ?w = tw_wheel_size w" "tw_current_slot ?w = tw_current_slot w" "tw_next_timer_id ?w = tw_next_timer_id w"
    "tw_wheel ?w = tw_wheel (push_slot ?v (int d) ?p)"
    by (simp_all add: add_entry_def Let_def e)
  have sl [simp]: "slot_after ?w k = slot_after w k" "slot_after ?v k = slot_after w k" for k by (simp_all add: slot_after_def)
  have less: "slot_after ?v (int d) < length (tw_wheel ?v)" using slot_after_less [OF wf] by simp
  have lk: "locked ?w q = (locked w q \<or> q = ?p)" for q
    using locked_push [OF less, of ?p q] by (simp add: locked_def)
  have st: "tw_store ?w ! q = tw_store w ! q" if "locked w q" for q
    using wheel_wf_entry(1) [OF wf that] by (simp add: nth_append)
  have new: "?p \<notin> set (tw_wheel w ! s)" if "s < length (tw_wheel w)" for s
    using that wheel_wf_entry(1) [OF wf, of ?p] by (auto simp: locked_nth)
  have one: "one_slot ?w" unfolding one_slot_def
    using new push_slot_nth [OF less, of ?p] by (auto split: if_splits intro: one_slotD [OF wf])
  have wf': "wheel_wf ?w" unfolding wheel_wf_def
  proof (intro conjI allI)
    fix j q show "(tw_timer_map ?w j = Some q) = (locked ?w q \<and> \<not> te_cancelled (tw_store ?w ! q) \<and> te_id (tw_store ?w ! q) = j)"
      using wheel_wf_entry(3) [OF wf, of j q] wheel_wf_entry(1) [OF wf, of q] st [of q] i(1) e(2) lk [of q] by (cases "q = ?p") auto
  qed (use wf lk st e i(2) n one in \<open>auto simp: wheel_wf_def\<close>)
  have "due_in ?w k = due_in w k @ (if k = d then [timer_of e d] else [])" if k: "k \<in> {1..tw_wheel_size w}" for k
  proof -
    let ?b = "tw_wheel w ! slot_after w (int k)"
    have b: "tw_store ?w ! q = tw_store w ! q" if "q \<in> set ?b" for q using that k locked_slot [OF wf] st by blast
    have "slot_after w (int k) = slot_after w (int d) \<longleftrightarrow> k = d" using slot_after_inj [OF wf k, of d] e by simp
    then have "tw_wheel ?w ! slot_after ?w (int k) = ?b @ (if k = d then [?p] else [])"
      using push_slot_nth [OF less, of ?p] by simp
    moreover have "map (\<lambda>q. timer_of (tw_store ?w ! q) k) (filter (\<lambda>q. \<not> te_cancelled (tw_store ?w ! q)) ?b) = due_in w k"
      using b by (auto simp: due_in_def cong: filter_cong intro!: map_cong)
    ultimately show ?thesis by (simp add: due_in_def [of ?w] e(2))
  qed
  with wf' r e(4,5) show ?thesis by (auto simp: wheel_rel_def timer_of_def)
qed

text \<open>A tick.\<close>

lemma tick_entries_eq:
  assumes "\<And>p. p \<in> set ps \<Longrightarrow> \<not> te_cancelled (tw_store w ! p) \<Longrightarrow> te_callback (tw_store w ! p) \<noteq> None"
  shows "tick_entries w ps =
    (let live = filter (\<lambda>p. \<not> te_cancelled (tw_store w ! p)) ps
     in (w\<lparr>tw_timer_map := \<lambda>i. if \<exists>p \<in> set live. \<not> te_repeat (tw_store w ! p) \<and> te_id (tw_store w ! p) = i then None else tw_timer_map w i\<rparr>,
         map (\<lambda>p. the (te_callback (tw_store w ! p))) live,
         filter (\<lambda>p. te_repeat (tw_store w ! p)) live))"
  using assms
proof (induction ps arbitrary: w)
  case (Cons p ps)
  show ?case
  proof (cases "te_cancelled (tw_store w ! p)")
    case True
    with Cons.IH [of w] Cons.prems show ?thesis by (simp add: Let_def)
  next
    case False
    then obtain c where c: "te_callback (tw_store w ! p) = Some c" using Cons.prems [of p] by auto
    let ?v = "w\<lparr>tw_timer_map := (tw_timer_map w)(te_id (tw_store w ! p) := None)\<rparr>"
    show ?thesis
      using False c Cons.IH [of w] Cons.IH [of ?v] Cons.prems
      by (cases "te_repeat (tw_store w ! p)") (auto simp: Let_def fun_eq_iff intro!: TimerWheel.equality)
  qed
qed (simp add: Let_def)

definition push_again :: "'c TimerWheel \<Rightarrow> ptr list \<Rightarrow> 'c TimerWheel" where
  "push_again = foldl (\<lambda>w p. push_slot w (te_interval (tw_store w ! p)) p)"

lemma push_again_fields [simp]:
  "tw_wheel_size (push_again w ps) = tw_wheel_size w" "tw_current_slot (push_again w ps) = tw_current_slot w"
  "tw_timer_map (push_again w ps) = tw_timer_map w" "tw_next_timer_id (push_again w ps) = tw_next_timer_id w"
  "tw_store (push_again w ps) = tw_store w" "length (tw_wheel (push_again w ps)) = length (tw_wheel w)"
  "slot_after (push_again w ps) d = slot_after w d"
  by (induction ps arbitrary: w) (simp_all add: push_again_def)

lemma push_again_nth:
  assumes "\<And>d. slot_after w d < length (tw_wheel w)"
  shows "tw_wheel (push_again w ps) ! s = tw_wheel w ! s @ filter (\<lambda>p. slot_after w (te_interval (tw_store w ! p)) = s) ps"
  using assms
proof (induction ps arbitrary: w)
  case (Cons p ps)
  let ?v = "push_slot w (te_interval (tw_store w ! p)) p"
  have "push_again w (p # ps) = push_again ?v ps" by (simp add: push_again_def)
  with Cons.IH [of ?v] Cons.prems show ?case by (auto simp: push_slot_nth)
qed (simp add: push_again_def)

lemma Tick_eq:
  assumes wf: "wheel_wf w" and due: "live = filter (\<lambda>p. \<not> te_cancelled (tw_store w ! p)) (tw_wheel w ! slot_after w 1)"
  shows "TimerWheel_Tick w =
    (push_again (w\<lparr>tw_current_slot := slot_after w 1, 
       tw_timer_map := \<lambda>i. if \<exists>p \<in> set live. \<not> te_repeat (tw_store w ! p) \<and> te_id (tw_store w ! p) = i then None else tw_timer_map w i,
       tw_wheel := (tw_wheel w)[slot_after w 1 := []]\<rparr>)
       (filter (\<lambda>p. te_repeat (tw_store w ! p)) live),
     map (\<lambda>p. the (te_callback (tw_store w ! p))) live)"
proof -
  let ?v = "w\<lparr>tw_current_slot := slot_after w 1\<rparr>"
  have c: "size_add (tw_current_slot w) (Suc 0) mod tw_wheel_size w = slot_after w 1" by (simp add: slot_after_def)
  have "te_callback (tw_store w ! p) \<noteq> None" if "p \<in> set (tw_wheel w ! slot_after w 1)" "\<not> te_cancelled (tw_store w ! p)" for p
    using that wheel_wf_entry(2) [OF wf, of p] slot_after_less [OF wf, of 1] by (auto simp: locked_nth)
  then show ?thesis
    using tick_entries_eq [of "tw_wheel w ! slot_after w 1" ?v] by (simp add: TimerWheel_Tick_def c Let_def due push_again_def cong: if_cong)
qed

lemma tick_slots:
  assumes wf: "wheel_wf w" and cur: "tw_current_slot w' = slot_after w 1" "tw_wheel_size w' = tw_wheel_size w"
    and r: "1 \<le> r" "r \<le> tw_wheel_size w"
  shows "slot_after w' (int r) = slot_after w (if r = tw_wheel_size w then 1 else int (r + 1))"
proof -
  let ?W = "tw_wheel_size w" and ?c = "tw_current_slot w"
  have b: "?c < ?W" "?W < 2 ^ 32" using wf by (simp_all add: wheel_wf_def)
  have c: "slot_after w 1 = (if ?c + 1 < ?W then ?c + 1 else 0)" using slot_after_eq [OF wf, of 1] b by simp
  have "slot_after w' (int r) = (slot_after w 1 + r) mod ?W"
    using b r by (simp add: slot_after_def [of w'] cur c)
  also have "\<dots> = (?c + 1 + r) mod ?W"
  proof (cases "?c + 1 < ?W")
    case False
    with b have "?c + 1 + r = r + ?W" by simp
    with False show ?thesis unfolding c by simp
  qed (simp add: c)
  finally have *: "slot_after w' (int r) = (?c + 1 + r) mod ?W" .
  show ?thesis
  proof (cases "r = ?W")
    case True
    have "(?c + 1 + ?W) mod ?W = (?c + 1) mod ?W" by (rule mod_add_self2)
    with True * b show ?thesis by (simp add: slot_after_def)
  next
    case False
    with * b r show ?thesis by (simp add: slot_after_def nat_add_distrib add.commute add.left_commute)
  qed
qed

text \<open>The state after a tick: the slot due now is empty, the live entries that repeat are in their next slots and
  the others are out of the index.\<close>

definition due_now :: "'c TimerWheel \<Rightarrow> ptr list" where
  "due_now w = filter (\<lambda>p. \<not> te_cancelled (tw_store w ! p)) (tw_wheel w ! slot_after w 1)"

definition ticked :: "'c TimerWheel \<Rightarrow> 'c TimerWheel \<Rightarrow> bool" where
  "ticked w w' \<longleftrightarrow>
     tw_store w' = tw_store w \<and> tw_wheel_size w' = tw_wheel_size w \<and> tw_next_timer_id w' = tw_next_timer_id w \<and>
     tw_current_slot w' = slot_after w 1 \<and> length (tw_wheel w') = length (tw_wheel w) \<and>
     (\<forall>i. tw_timer_map w' i = (if \<exists>p \<in> set (due_now w). \<not> te_repeat (tw_store w ! p) \<and> te_id (tw_store w ! p) = i
                              then None else tw_timer_map w i)) \<and>
     (\<forall>s < tw_wheel_size w. tw_wheel w' ! s = (if s = slot_after w 1 then [] else tw_wheel w ! s) @
        filter (\<lambda>p. te_repeat (tw_store w ! p) \<and> slot_after w' (te_interval (tw_store w ! p)) = s) (due_now w))"

lemma Tick_ticked:
  assumes wf: "wheel_wf w" and t: "TimerWheel_Tick w = (w', cs)"
  shows "ticked w w'" "cs = map tm_callback (due_in w 1)"
proof -
  define v where "v = w\<lparr>tw_current_slot := slot_after w 1,
       tw_timer_map := \<lambda>i. if \<exists>p \<in> set (due_now w). \<not> te_repeat (tw_store w ! p) \<and> te_id (tw_store w ! p) = i then None else tw_timer_map w i,
       tw_wheel := (tw_wheel w)[slot_after w 1 := []]\<rparr>"
  let ?rs = "filter (\<lambda>p. te_repeat (tw_store w ! p)) (due_now w)"
  have w': "w' = push_again v ?rs" and cs: "cs = map (\<lambda>p. the (te_callback (tw_store w ! p))) (due_now w)"
    using t unfolding Tick_eq [OF wf due_now_def] v_def by simp_all
  have len: "length (tw_wheel w) = tw_wheel_size w" "0 < tw_wheel_size w" using wf by (simp_all add: wheel_wf_def)
  have sv: "slot_after v d = slot_after w' d" "slot_after w' d < tw_wheel_size w" for d
    using len by (simp_all add: w' slot_after_def v_def)
  show "ticked w w'"
    using push_again_nth [of v ?rs] sv len by (auto simp: ticked_def w' v_def conj_commute)
  show "cs = map tm_callback (due_in w 1)" by (simp add: cs due_in_def due_now_def timer_of_def)
qed

lemma ticked_wf:
  assumes wf: "wheel_wf w" and t: "ticked w w'"
  shows "wheel_wf w'" "locked w' p \<Longrightarrow> locked w p"
proof -
  let ?S = "tw_store w" and ?W = "tw_wheel_size w" and ?s1 = "slot_after w 1"
  have f [simp]: "tw_store w' = ?S" "tw_wheel_size w' = ?W" "tw_current_slot w' = ?s1"
    "length (tw_wheel w') = length (tw_wheel w)" "tw_next_timer_id w' = tw_next_timer_id w" using t by (simp_all add: ticked_def)
  have b: "tw_wheel w' ! s = (if s = ?s1 then [] else tw_wheel w ! s) @
        filter (\<lambda>p. te_repeat (?S ! p) \<and> slot_after w' (te_interval (?S ! p)) = s) (due_now w)" if "s < ?W" for s
    using t that by (simp add: ticked_def)
  have len: "length (tw_wheel w) = ?W" "0 < ?W" using wf by (simp_all add: wheel_wf_def)
  have s1: "?s1 < ?W" and s': "slot_after w' d < ?W" for d using len by (simp_all add: slot_after_def)
  have now: "q \<in> set (due_now w) \<Longrightarrow> q \<in> set (tw_wheel w ! ?s1) \<and> \<not> te_cancelled (?S ! q)" for q by (simp add: due_now_def)
  have lk: "locked w' q \<longleftrightarrow> (\<exists>s < ?W. s \<noteq> ?s1 \<and> q \<in> set (tw_wheel w ! s)) \<or> q \<in> set (due_now w) \<and> te_repeat (?S ! q)" for q
  proof -
    have "locked w' q" if "q \<in> set (due_now w)" "te_repeat (?S ! q)"
      unfolding locked_nth using that s' by (intro exI [of _ "slot_after w' (te_interval (?S ! q))"]) (simp add: b len)
    then show ?thesis by (auto simp: locked_nth b len split: if_splits)
  qed
  show lw: "locked w' p \<Longrightarrow> locked w p" for p using lk [of p] now [of p] s1 len by (auto simp: locked_nth)
  have one: "s = s'" if "q \<in> set (tw_wheel w' ! s)" "q \<in> set (tw_wheel w' ! s')" "s < ?W" "s' < ?W" for q s s'
    using that b [of s] b [of s'] one_slotD [OF wf, of q] now [of q] s1 len by (auto split: if_splits)
  have map: "(tw_timer_map w' i = Some q) = (locked w' q \<and> \<not> te_cancelled (?S ! q) \<and> te_id (?S ! q) = i)" for i q
  proof -
    note m = wheel_wf_entry(3) [OF wf]
    have gone: "tw_timer_map w' i = Some q \<longleftrightarrow> tw_timer_map w i = Some q \<and> \<not> (q \<in> set (due_now w) \<and> \<not> te_repeat (?S ! q))"
    proof -
      have reg: "tw_timer_map w (te_id (?S ! p)) = Some p" if "p \<in> set (due_now w)" for p
        using now [OF that] s1 len m by (auto simp: locked_nth)
      have "(\<exists>p \<in> set (due_now w). \<not> te_repeat (?S ! p) \<and> te_id (?S ! p) = i) \<longleftrightarrow> q \<in> set (due_now w) \<and> \<not> te_repeat (?S ! q)"
        if "tw_timer_map w i = Some q" using that reg m [of i q] by (metis option.inject)
      moreover have "tw_timer_map w' i = (if \<exists>p \<in> set (due_now w). \<not> te_repeat (?S ! p) \<and> te_id (?S ! p) = i
          then None else tw_timer_map w i)" using t by (simp add: ticked_def)
      ultimately show ?thesis by (cases "tw_timer_map w i = Some q") simp_all
    qed
    have "locked w' q \<longleftrightarrow> locked w q \<and> \<not> (q \<in> set (due_now w) \<and> \<not> te_repeat (?S ! q))" if "\<not> te_cancelled (?S ! q)"
      using lk [of q] that one_slotD [OF wf, of q _ ?s1] s1 len by (auto simp: locked_nth due_now_def)
    with gone m show ?thesis by blast
  qed
  show "wheel_wf w'"
    unfolding wheel_wf_def one_slot_def using wf lw one map s1 len by (auto simp: wheel_wf_def)
qed

lemma ticked_due:
  assumes wf: "wheel_wf w" and t: "ticked w w'" and r: "1 \<le> r" "r \<le> tw_wheel_size w"
  shows "due_in w' r = (if r = tw_wheel_size w then [] else map (\<lambda>u. u\<lparr>tm_left := r\<rparr>) (due_in w (r + 1))) @
    map (\<lambda>u. u\<lparr>tm_left := r\<rparr>) (filter (\<lambda>u. tm_repeat u \<and> tm_interval u = r) (due_in w 1))"
proof -
  let ?S = "tw_store w" and ?W = "tw_wheel_size w"
  note wf' = ticked_wf(1) [OF wf t]
  have f: "tw_store w' = ?S" "tw_wheel_size w' = ?W" "tw_current_slot w' = slot_after w 1" using t by (simp_all add: ticked_def)
  note sl = tick_slots [OF wf f(3,2) r]
  have s1: "slot_after w (int (r + 1)) \<noteq> slot_after w 1" if "r \<noteq> ?W" using slot_after_inj [OF wf, of "r + 1" 1] that r by simp
  have int: "slot_after w' (te_interval (?S ! p)) = slot_after w' (int r) \<longleftrightarrow> nat (te_interval (?S ! p)) = r" if "p \<in> set (due_now w)" for p
  proof -
    have "locked w p" "\<not> te_cancelled (?S ! p)" using that slot_after_less [OF wf, of 1] by (auto simp: due_now_def locked_nth)
    then have "te_interval (?S ! p) = int (nat (te_interval (?S ! p)))" "nat (te_interval (?S ! p)) \<in> {1..?W}"
      using wheel_wf_entry(2) [OF wf, of p] by auto
    then show ?thesis using slot_after_inj [OF wf', of "nat (te_interval (?S ! p))" r] r f(2) by auto
  qed
  have s: "slot_after w' (int r) < ?W" using wf' f(2) by (simp add: slot_after_def wheel_wf_def)
  have "tw_wheel w' ! slot_after w' (int r) = (if slot_after w' (int r) = slot_after w 1 then [] else tw_wheel w ! slot_after w' (int r)) @
      filter (\<lambda>p. te_repeat (?S ! p) \<and> slot_after w' (te_interval (?S ! p)) = slot_after w' (int r)) (due_now w)"
    using t s by (simp add: ticked_def)
  also have "filter (\<lambda>p. te_repeat (?S ! p) \<and> slot_after w' (te_interval (?S ! p)) = slot_after w' (int r)) (due_now w)
      = filter (\<lambda>p. te_repeat (?S ! p) \<and> nat (te_interval (?S ! p)) = r) (due_now w)"
    using int by (intro filter_cong) auto
  also have "(if slot_after w' (int r) = slot_after w 1 then [] else tw_wheel w ! slot_after w' (int r))
      = (if r = ?W then [] else tw_wheel w ! slot_after w (int (r + 1)))"
    using sl s1 by simp
  finally show ?thesis
    by (simp add: due_in_def f(1) due_now_def filter_map o_def timer_of_def conj_commute conj_left_commute)
qed

lemma tick_rel:
  assumes r: "wheel_rel w (n, ts)" and t: "TimerWheel_Tick w = (w', cs)"
  shows "\<exists>ts'. spec_tick ts = (ts', cs) \<and> wheel_rel w' (n, ts')"
proof -
  let ?W = "tw_wheel_size w"
  have wf: "wheel_wf w" and n: "n = tw_next_timer_id w"
    and left: "\<And>u. u \<in> set ts \<Longrightarrow> 1 \<le> tm_left u \<and> tm_left u \<le> ?W"
    and due: "\<And>k. 1 \<le> k \<Longrightarrow> k \<le> ?W \<Longrightarrow> due_in w k = filter (\<lambda>u. tm_left u = k) ts"
    using r by (simp_all add: wheel_rel_def)
  note tk = Tick_ticked [OF wf t]
  have f: "tw_wheel_size w' = ?W" "tw_next_timer_id w' = n" "0 < ?W" using tk(1) wf n by (simp_all add: ticked_def wheel_wf_def)
  have cs: "cs = map tm_callback (filter (\<lambda>u. tm_left u = 1) ts)" using tk(2) due [of 1] f(3) by simp
  have ival: "1 \<le> tm_interval u \<and> tm_interval u \<le> ?W" if "u \<in> set ts" for u
  proof -
    from rel_timer [OF r that] obtain p where p: "tw_timer_map w (tm_id u) = Some p" "u = timer_of (tw_store w ! p) (tm_left u)" by blast
    then have "tm_interval u = nat (te_interval (tw_store w ! p))" by (metis Timer.select_convs(5) timer_of_def)
    then show ?thesis using p(1) wheel_wf_entry(2,3) [OF wf] by fastforce
  qed
  have due': "due_in w' k = filter (\<lambda>u. tm_left u = k) (fst (spec_tick ts))" if k: "1 \<le> k" "k \<le> ?W" for k
  proof -
    have a: "filter (\<lambda>u. tm_left u = k) (map (\<lambda>u. u\<lparr>tm_left := tm_left u - Suc 0\<rparr>) (filter (\<lambda>u. tm_left u \<noteq> Suc 0) ts))
        = map (\<lambda>u. u\<lparr>tm_left := k\<rparr>) (filter (\<lambda>u. tm_left u = k + 1) ts)"
      using k(1) by (auto simp: filter_map o_def intro!: map_cong filter_cong)
    have b: "filter (\<lambda>u. tm_left u = k) (map (\<lambda>u. u\<lparr>tm_left := tm_interval u\<rparr>) us) = map (\<lambda>u. u\<lparr>tm_left := k\<rparr>) (filter (\<lambda>u. tm_interval u = k) us)"
      for us :: "'a Timer list" by (auto simp: filter_map o_def intro!: map_cong)
    have "filter (\<lambda>u. tm_left u = ?W + 1) ts = []" using left by (fastforce simp: filter_empty_conv)
    with ticked_due [OF wf tk(1) k] due [of "k + 1"] due [of 1] f(3) k show ?thesis
      by (auto simp: spec_tick_def Let_def a b conj_ac)
  qed
  have "1 \<le> tm_left u \<and> tm_left u \<le> ?W" if "u \<in> set (fst (spec_tick ts))" for u
    using that left ival by (fastforce simp: spec_tick_def Let_def)
  with ticked_wf(1) [OF wf tk(1)] due' f have "wheel_rel w' (n, fst (spec_tick ts))" by (simp add: wheel_rel_def)
  moreover have "snd (spec_tick ts) = cs" by (simp add: spec_tick_def Let_def cs)
  ultimately show ?thesis by (intro exI [of _ "fst (spec_tick ts)"]) (simp add: prod_eq_iff)
qed

text \<open>The other operations, from dropping and adding.\<close>

lemma add_timer_rel:
  assumes r: "wheel_rel w (n, ts)" and d: "d \<le> int (tw_wheel_size w)" and a: "TimerWheel_AddTimer w d c rep = (w', i)"
  shows "i = n \<and> wheel_rel w' (n + 1, spec_add ts n (if d \<le> 0 then 1 else nat d) c rep)"
proof -
  have wf: "wheel_wf w" and n: "n = tw_next_timer_id w" using r by (simp_all add: wheel_rel_def)
  let ?d = "if d \<le> 0 then 1 else nat d"
  let ?e = "\<lparr>te_id = n, te_callback = Some c, te_repeat = rep, te_interval = int ?d, te_cancelled = False\<rparr>"
  have w': "w' = add_entry (w\<lparr>tw_next_timer_id := n + 1\<rparr>) ?e" "i = n" using a n by (auto simp: TimerWheel_AddTimer_def Let_def)
  have "wheel_rel (w\<lparr>tw_next_timer_id := n + 1\<rparr>) (n + 1, ts)"
    using r by (auto simp: wheel_rel_def wheel_wf_def one_slot_def locked_def slot_after_def due_in_def less_Suc_eq)
  moreover have "tw_timer_map w n = None"
  proof (rule ccontr)
    assume "tw_timer_map w n \<noteq> None"
    then show False using wheel_wf_entry(2,3) [OF wf] n by fastforce
  qed
  ultimately have "wheel_rel w' (n + 1, ts @ [timer_of ?e ?d])"
    unfolding w' using d wf by (intro add_rel) (auto simp: wheel_wf_def)
  moreover have "spec_add ts n ?d c rep = ts @ [timer_of ?e ?d]" by (simp add: spec_add_def timer_of_def)
  ultimately show ?thesis using w' by simp
qed

lemma cancel_rel:
  assumes r: "wheel_rel w (n, ts)"
  shows "wheel_rel (TimerWheel_CancelTimer w i) (n, spec_cancel ts i)"
proof (cases "tw_timer_map w i")
  case None
  then have "\<forall>u \<in> set ts. tm_id u \<noteq> i" using rel_timer [OF r] by fastforce
  then have "spec_cancel ts i = ts" by (simp add: spec_cancel_def filter_id_conv)
  with None r show ?thesis by (simp add: TimerWheel_CancelTimer_def)
next
  case (Some p)
  then have "locked w p" using r wheel_wf_entry(3) [of w i p] by (simp add: wheel_rel_def)
  with Some drop_rel [OF r Some, of "(tw_store w ! p)\<lparr>te_cancelled := True\<rparr>"] show ?thesis
    by (simp add: TimerWheel_CancelTimer_def cancel_entry_def)
qed

lemma refresh_rel:
  assumes r: "wheel_rel w (n, ts)" and d: "d \<le> int (tw_wheel_size w)"
  shows "wheel_rel (TimerWheel_RefreshTimer w i d) (n, spec_refresh ts i d)"
proof (cases "tw_timer_map w i")
  case None
  then have "find (\<lambda>u. tm_id u = i) ts = None" using rel_timer [OF r] by (fastforce simp: find_None_iff)
  with None r show ?thesis by (simp add: TimerWheel_RefreshTimer_def spec_refresh_def)
next
  case (Some p)
  let ?e = "tw_store w ! p"
  have wf: "wheel_wf w" and n: "n = tw_next_timer_id w" using r by (simp_all add: wheel_rel_def)
  have p: "locked w p" "\<not> te_cancelled ?e" "te_id ?e = i" "p < length (tw_store w)"
    using Some wheel_wf_entry(1,3) [OF wf] by auto
  note e = wheel_wf_entry(2) [OF wf p(1,2)]
  obtain u where u: "find (\<lambda>u. tm_id u = i) ts = Some u" using rel_entry [OF r Some] by (fastforce simp: find_None_iff)
  then have u': "u = timer_of ?e (tm_left u)" using rel_timer [OF r, of u] Some by (auto simp: find_Some_iff)
  define k where "k = (if d > 0 then nat d else nat (te_interval ?e))"
  have k: "1 \<le> k" "k \<le> tw_wheel_size w" "int k = (if d > 0 then d else te_interval ?e)" using d e by (auto simp: k_def)
  let ?new = "?e\<lparr>te_interval := int k\<rparr>"
  let ?w = "w\<lparr>tw_store := (tw_store w)[p := ?e\<lparr>te_callback := None, te_cancelled := True\<rparr>], tw_timer_map := (tw_timer_map w)(i := None)\<rparr>"
  have "wheel_rel ?w (n, spec_cancel ts i)" by (rule drop_rel [OF r Some]) simp
  then have "wheel_rel (add_entry ?w ?new) (n, spec_cancel ts i @ [timer_of ?new k])"
    using e p n k by (intro add_rel) auto
  moreover have "TimerWheel_RefreshTimer w i d = add_entry ?w ?new"
  proof -
    have "?new = \<lparr>te_id = te_id ?e, te_callback = te_callback ?e, te_repeat = te_repeat ?e,
        te_interval = (if d > 0 then d else te_interval ?e), te_cancelled = False\<rparr>"
      using p(2) k(3) by (intro TimerEntry.equality) simp_all
    then show ?thesis
      using Some p by (simp add: TimerWheel_RefreshTimer_def cancel_entry_def add_entry_def push_slot_def slot_after_def Let_def)
  qed
  moreover have "spec_refresh ts i d = spec_cancel ts i @ [timer_of ?new k]"
  proof -
    have "tm_interval u = nat (te_interval ?e)" by (subst u') (simp add: timer_of_def)
    then have "timer_of ?new k = u\<lparr>tm_left := if d > 0 then nat d else tm_interval u, tm_interval := if d > 0 then nat d else tm_interval u\<rparr>"
      unfolding k_def by (subst (3) u') (simp add: timer_of_def)
    then show ?thesis using u by (simp add: spec_refresh_def spec_cancel_def Let_def)
  qed
  ultimately show ?thesis by simp
qed

lemma wheel_op_size: "wheel_op p w = (w', out) \<Longrightarrow> tw_wheel_size w' = tw_wheel_size w"
proof (cases p)
  case Tick
  have "tw_wheel_size (fst (tick_entries v ps)) = tw_wheel_size v" for v :: "'a TimerWheel" and ps
    by (induction v ps rule: tick_entries.induct) (auto simp: Let_def split: prod.splits)
  then show "wheel_op p w = (w', out) \<Longrightarrow> tw_wheel_size w' = tw_wheel_size w"
    unfolding Tick by (auto simp: TimerWheel_Tick_def push_again_def [symmetric] Let_def split: prod.splits)
      (metis TimerWheel.select_convs(1) TimerWheel.update_convs(2) TimerWheel.surjective fst_conv)
qed (auto simp: TimerWheel_AddTimer_def TimerWheel_CancelTimer_def TimerWheel_RefreshTimer_def add_entry_def cancel_entry_def
      Let_def split: option.splits if_splits)

interpretation wheel: machine_refinement wheel_op spec_op wheel_rel "\<lambda>w. op_fits (tw_wheel_size w)"
proof
  fix w a p w' out assume r: "wheel_rel w a" and p: "op_fits (tw_wheel_size w) p" "wheel_op p w = (w', out)"
  obtain n ts where a: "a = (n, ts)" by (rule that [OF prod.collapse [symmetric]])
  note r = r [unfolded a]
  show "\<exists>a'. spec_op p a = (a', out) \<and> wheel_rel w' a'"
  proof (cases p)
    case (Add d c rep)
    obtain v i where v: "TimerWheel_AddTimer w d c rep = (v, i)" by (rule that [OF prod.collapse [symmetric]])
    with add_timer_rel [OF r _ v] p Add a show ?thesis by simp
  next
    case (Cancel i)
    with cancel_rel [OF r, of i] p a show ?thesis by simp
  next
    case (Refresh i d)
    with refresh_rel [OF r, of d i] p a show ?thesis by auto
  next
    case Tick
    obtain v cs where v: "TimerWheel_Tick w = (v, cs)" by (rule that [OF prod.collapse [symmetric]])
    with tick_rel [OF r v] p Tick a show ?thesis by auto
  qed
qed (simp add: wheel_op_size)

lemma new_rel:
  assumes "0 < k" "k < 2 ^ 32"
  shows "wheel_rel (TimerWheel_new k) (1, [])"
  using assms by (simp add: wheel_rel_def wheel_wf_def one_slot_def locked_def due_in_def slot_after_def TimerWheel_new_def)

section \<open>Theorems\<close>

text \<open>C32: A wheel of at least one slot reports, in every run of operations with delays of at most its size, what the
  list of timers reports: the same identifiers, and in each second the callbacks of exactly the timers that are then
  due, in the order in which they were set, with repeating timers set again and cancelled and refreshed ones left out.\<close>
theorem wheel_refines_timers:
  assumes "0 < k" "k < 2 ^ 32" "\<forall>p \<in> set ps. op_fits k p"
  shows "reports wheel_op ps (TimerWheel_new k) = reports spec_op ps (1, [])"
  using wheel.reports_eq [OF new_rel [OF assms(1,2)]] assms(3) by (simp add: TimerWheel_new_def)

text \<open>A timer of two seconds that is refreshed after one, and one that repeats.\<close>

theorem wheel_refines_timers_witness:
  "reports wheel_op [Add 2 (CHR ''a'') False, Add 1 (CHR ''b'') True, Tick, Refresh 1 2, Tick, Cancel 2, Tick] (TimerWheel_new 3)
    = [Added 1, Added 2, Called ''b'', Quiet, Called ''b'', Quiet, Called ''a'']"
proof -
  have "reports spec_op [Add 2 (CHR ''a'') False, Add 1 (CHR ''b'') True, Tick, Refresh 1 2, Tick, Cancel 2, Tick] (1, [])
      = [Added 1, Added 2, Called ''b'', Quiet, Called ''b'', Quiet, Called ''a'']"
    by code_simp
  then show ?thesis by (subst wheel_refines_timers) simp_all
qed

end
