(* ===== verification/Event_Loop.thy ===== *)
theory Event_Loop
  imports Timer_Wheel File_System "HOL-Library.Word" "HOL-Library.Sublist"
begin

text \<open>
  The event loop: \<^verbatim>\<open>src/src/net/epoll/event_loop.cpp\<close>, \<^verbatim>\<open>channel.cpp\<close>, \<^verbatim>\<open>notifier.cpp\<close> and \<^verbatim>\<open>acceptor.cpp\<close>.
  Functors are values of a type parameter; the code that runs one is an argument. The kernel's side is the
  interest list of epoll and the counter of the eventfd; what \<^verbatim>\<open>epoll_wait\<close> returns is an argument. Operations
  on channels are called in the thread of the loop (the code aborts the process otherwise).

  The interleavings of the loop with other threads that post functors are a step relation over these
  operations. Every functor is run once, in the order of posting, and a posted functor never waits for the
  time-out of \<^verbatim>\<open>epoll_wait\<close>.
\<close>

unbundle bit_operations_syntax

section \<open>Channels\<close>

definition EPOLLIN :: "32 word" where "EPOLLIN = 0x001"
definition EPOLLPRI :: "32 word" where "EPOLLPRI = 0x002"
definition EPOLLOUT :: "32 word" where "EPOLLOUT = 0x004"
definition EPOLLERR :: "32 word" where "EPOLLERR = 0x008"
definition EPOLLHUP :: "32 word" where "EPOLLHUP = 0x010"
definition EPOLLRDHUP :: "32 word" where "EPOLLRDHUP = 0x2000"

lemmas epoll_bits = EPOLLIN_def EPOLLPRI_def EPOLLOUT_def EPOLLERR_def EPOLLHUP_def EPOLLRDHUP_def

record Channel =
  ch_ptr :: nat
  ch_fd :: nat
  ch_events :: "32 word"
  ch_revents :: "32 word"
  ch_index :: int
  ch_tied :: bool
  ch_event_handling :: bool
  ch_added_to_loop :: bool

definition Channel_new :: "nat \<Rightarrow> nat \<Rightarrow> Channel" where
  "Channel_new p fd =
     \<lparr>ch_ptr = p, ch_fd = fd, ch_events = 0, ch_revents = 0, ch_index = -1, ch_tied = False,
      ch_event_handling = False, ch_added_to_loop = False\<rparr>"

definition kNoneEvent :: "32 word" where "kNoneEvent = 0"
definition kReadEvent :: "32 word" where "kReadEvent = EPOLLIN OR EPOLLPRI"
definition kWriteEvent :: "32 word" where "kWriteEvent = EPOLLOUT"

definition Channel_IsNoneEvent :: "Channel \<Rightarrow> bool" where
  "Channel_IsNoneEvent c = (ch_events c = kNoneEvent)"

definition Channel_IsWriting :: "Channel \<Rightarrow> bool" where
  "Channel_IsWriting c = (ch_events c AND kWriteEvent \<noteq> 0)"

definition Channel_IsReading :: "Channel \<Rightarrow> bool" where
  "Channel_IsReading c = (ch_events c AND kReadEvent \<noteq> 0)"

definition Channel_Tie :: "Channel \<Rightarrow> Channel" where
  "Channel_Tie c = c\<lparr>ch_tied := True\<rparr>"

text \<open>The callbacks of a channel act on a state that contains the channel itself; \<open>alive\<close> says whether the object
  it is tied to still exists. An absent callback is the identity.\<close>

definition call_if :: "bool \<Rightarrow> ('s \<Rightarrow> 's) \<Rightarrow> 's \<Rightarrow> 's" where
  "call_if b f s = (if b then f s else s)"

definition Channel_HandleEventWithGuard ::
    "32 word \<Rightarrow> ('s \<Rightarrow> 's) \<Rightarrow> ('s \<Rightarrow> 's) \<Rightarrow> ('s \<Rightarrow> 's) \<Rightarrow> ('s \<Rightarrow> 's) \<Rightarrow> 's \<Rightarrow> 's" where
  "Channel_HandleEventWithGuard revents close_callback error_callback read_callback write_callback s =
     (let s = call_if (revents AND EPOLLHUP \<noteq> 0 \<and> revents AND EPOLLIN = 0) close_callback s;
          s = call_if (revents AND EPOLLERR \<noteq> 0) error_callback s;
          s = call_if (revents AND (EPOLLIN OR EPOLLPRI OR EPOLLRDHUP) \<noteq> 0) read_callback s;
          s = call_if (revents AND EPOLLOUT \<noteq> 0) write_callback s
      in s)"

definition Channel_HandleEvent ::
    "bool \<Rightarrow> Channel \<Rightarrow> ('s \<Rightarrow> 's) \<Rightarrow> ('s \<Rightarrow> 's) \<Rightarrow> ('s \<Rightarrow> 's) \<Rightarrow> ('s \<Rightarrow> 's) \<Rightarrow> 's \<Rightarrow> 's" where
  "Channel_HandleEvent alive c close_callback error_callback read_callback write_callback s =
     (if ch_tied c \<and> \<not> alive then s
      else Channel_HandleEventWithGuard (ch_revents c) close_callback error_callback read_callback write_callback s)"

section \<open>The loop\<close>

record 'f EventLoop =
  el_looping :: bool
  el_quit :: bool
  el_calling_pending_functors :: bool
  el_thread_id :: nat
  el_eventfd :: nat
  el_timer_wheel :: "'f TimerWheel"
  el_epoll :: "nat \<rightharpoonup> 32 word \<times> nat"
  el_ctl_fails :: "bool list"
  el_events_size :: size_t
  el_channels :: "nat \<rightharpoonup> nat"
  el_pending_functors :: "'f list"

text \<open>\<^verbatim>\<open>epoll_ctl\<close>: adding fails for a descriptor in the list, changing and deleting for one that is not; any call may
  fail for want of memory, as \<open>el_ctl_fails\<close> says.\<close>

datatype ctl = CTL_ADD | CTL_MOD | CTL_DEL

definition epoll_ctl :: "'f EventLoop \<Rightarrow> ctl \<Rightarrow> nat \<Rightarrow> 32 word \<times> nat \<Rightarrow> 'f EventLoop \<times> bool" where
  "epoll_ctl l op fd event =
     (let fails = (case el_ctl_fails l of [] \<Rightarrow> False | b # _ \<Rightarrow> b); l = l\<lparr>el_ctl_fails := tl (el_ctl_fails l)\<rparr>
      in if fails \<or> (op = CTL_ADD \<longleftrightarrow> el_epoll l fd \<noteq> None) then (l, False)
         else (l\<lparr>el_epoll := (el_epoll l)(fd := if op = CTL_DEL then None else Some event)\<rparr>, True))"

definition EventLoop_UpdateChannel :: "'f EventLoop \<Rightarrow> Channel \<Rightarrow> 'f EventLoop \<times> Channel" where
  "EventLoop_UpdateChannel l channel =
     (let event = (ch_events channel, ch_ptr channel); fd = ch_fd channel
      in if ch_index channel < 0
         then (case epoll_ctl l CTL_ADD fd event of (l, ok) \<Rightarrow>
                 if \<not> ok then (l, channel)
                 else (l\<lparr>el_channels := (el_channels l)(fd \<mapsto> ch_ptr channel)\<rparr>, channel\<lparr>ch_index := 1\<rparr>))
         else if Channel_IsNoneEvent channel
              then (fst (epoll_ctl l CTL_DEL fd event), channel\<lparr>ch_index := -1\<rparr>)
              else (fst (epoll_ctl l CTL_MOD fd event), channel))"

definition EventLoop_RemoveChannel :: "'f EventLoop \<Rightarrow> Channel \<Rightarrow> 'f EventLoop \<times> Channel" where
  "EventLoop_RemoveChannel l channel =
     (let fd = ch_fd channel; l = l\<lparr>el_channels := (el_channels l)(fd := None)\<rparr>;
          l = (if ch_index channel \<ge> 0 then fst (epoll_ctl l CTL_DEL fd (0, 0)) else l)
      in (l, channel\<lparr>ch_index := -1\<rparr>))"

definition EventLoop_HasChannel :: "'f EventLoop \<Rightarrow> Channel \<Rightarrow> bool" where
  "EventLoop_HasChannel l channel = (el_channels l (ch_fd channel) = Some (ch_ptr channel))"

definition Channel_Update :: "'f EventLoop \<Rightarrow> Channel \<Rightarrow> 'f EventLoop \<times> Channel" where
  "Channel_Update l c = EventLoop_UpdateChannel l (c\<lparr>ch_added_to_loop := True\<rparr>)"

definition Channel_Remove :: "'f EventLoop \<Rightarrow> Channel \<Rightarrow> 'f EventLoop \<times> Channel" where
  "Channel_Remove l c = EventLoop_RemoveChannel l (c\<lparr>ch_added_to_loop := False\<rparr>)"

definition Channel_EnableReading :: "'f EventLoop \<Rightarrow> Channel \<Rightarrow> 'f EventLoop \<times> Channel" where
  "Channel_EnableReading l c = Channel_Update l (c\<lparr>ch_events := ch_events c OR kReadEvent\<rparr>)"

definition Channel_DisableReading :: "'f EventLoop \<Rightarrow> Channel \<Rightarrow> 'f EventLoop \<times> Channel" where
  "Channel_DisableReading l c = Channel_Update l (c\<lparr>ch_events := ch_events c AND NOT kReadEvent\<rparr>)"

definition Channel_EnableWriting :: "'f EventLoop \<Rightarrow> Channel \<Rightarrow> 'f EventLoop \<times> Channel" where
  "Channel_EnableWriting l c = Channel_Update l (c\<lparr>ch_events := ch_events c OR kWriteEvent\<rparr>)"

definition Channel_DisableWriting :: "'f EventLoop \<Rightarrow> Channel \<Rightarrow> 'f EventLoop \<times> Channel" where
  "Channel_DisableWriting l c = Channel_Update l (c\<lparr>ch_events := ch_events c AND NOT kWriteEvent\<rparr>)"

definition Channel_DisableAll :: "'f EventLoop \<Rightarrow> Channel \<Rightarrow> 'f EventLoop \<times> Channel" where
  "Channel_DisableAll l c = Channel_Update l (c\<lparr>ch_events := kNoneEvent\<rparr>)"

text \<open>The notifier: an eventfd whose counter a write increases, unless it is at its maximum, and a read clears.\<close>

definition Notifier_Notify :: "'f EventLoop \<Rightarrow> 'f EventLoop" where
  "Notifier_Notify l = (if el_eventfd l + 1 < 2 ^ 64 - 1 then l\<lparr>el_eventfd := el_eventfd l + 1\<rparr> else l)"

definition Notifier_HandleRead :: "'f EventLoop \<Rightarrow> 'f EventLoop" where
  "Notifier_HandleRead l = l\<lparr>el_eventfd := 0\<rparr>"

definition Notifier_new :: "'f EventLoop \<Rightarrow> nat \<Rightarrow> nat \<Rightarrow> 'f EventLoop \<times> Channel" where
  "Notifier_new l p event_fd = Channel_EnableReading (l\<lparr>el_eventfd := 0\<rparr>) (Channel_new p event_fd)"

text \<open>The constructor. The new descriptors are arguments, absent when the call fails.\<close>

definition kInitEventListSize :: nat where "kInitEventListSize = 16"

definition EventLoop_new ::
    "bool \<Rightarrow> nat \<Rightarrow> nat option \<Rightarrow> nat option \<Rightarrow> nat option \<Rightarrow> string + 'f EventLoop \<times> Channel \<times> Channel" where
  "EventLoop_new loop_in_this_thread thread_id epoll_fd event_fd timer_fd =
     (let l = \<lparr>el_looping = False, el_quit = False, el_calling_pending_functors = False, el_thread_id = thread_id,
               el_eventfd = 0, el_timer_wheel = TimerWheel_new 3600, el_epoll = Map.empty, el_ctl_fails = [],
               el_events_size = kInitEventListSize, el_channels = Map.empty, el_pending_functors = []\<rparr>
      in if loop_in_this_thread then Inl ''Another EventLoop exists in this thread''
         else case epoll_fd of None \<Rightarrow> Inl ''Failed to create epoll fd'' | Some _ \<Rightarrow>
           case event_fd of None \<Rightarrow> Inl ''Failed to create eventfd'' | Some efd \<Rightarrow>
             let (l, notifier) = Notifier_new l 0 efd
             in case timer_fd of None \<Rightarrow> Inl ''Failed to create timerfd'' | Some tfd \<Rightarrow>
                  let (l, timer_channel) = Channel_EnableReading l (Channel_new 1 tfd)
                  in Inr (l, notifier, timer_channel))"

definition EventLoop_IsInLoopThread :: "'f EventLoop \<Rightarrow> nat \<Rightarrow> bool" where
  "EventLoop_IsInLoopThread l this_thread = (el_thread_id l = this_thread)"

definition EventLoop_Wakeup :: "'f EventLoop \<Rightarrow> 'f EventLoop" where
  "EventLoop_Wakeup l = Notifier_Notify l"

definition EventLoop_Quit :: "'f EventLoop \<Rightarrow> nat \<Rightarrow> 'f EventLoop" where
  "EventLoop_Quit l this_thread =
     (let l = l\<lparr>el_quit := True\<rparr> in if \<not> EventLoop_IsInLoopThread l this_thread then EventLoop_Wakeup l else l)"

definition push_functor :: "'f EventLoop \<Rightarrow> 'f \<Rightarrow> 'f EventLoop" where
  "push_functor l cb = l\<lparr>el_pending_functors := el_pending_functors l @ [cb]\<rparr>"

definition EventLoop_QueueInLoop :: "'f EventLoop \<Rightarrow> nat \<Rightarrow> 'f \<Rightarrow> 'f EventLoop" where
  "EventLoop_QueueInLoop l this_thread cb =
     (let l = push_functor l cb
      in if \<not> EventLoop_IsInLoopThread l this_thread \<or> el_calling_pending_functors l then EventLoop_Wakeup l else l)"

definition EventLoop_RunInLoop ::
    "('f \<Rightarrow> 'f EventLoop \<times> 's \<Rightarrow> 'f EventLoop \<times> 's) \<Rightarrow> nat \<Rightarrow> 'f \<Rightarrow> 'f EventLoop \<times> 's \<Rightarrow> 'f EventLoop \<times> 's" where
  "EventLoop_RunInLoop run this_thread cb ls =
     (if EventLoop_IsInLoopThread (fst ls) this_thread then run cb ls
      else (EventLoop_QueueInLoop (fst ls) this_thread cb, snd ls))"

definition EventLoop_RunAfter :: "'f EventLoop \<Rightarrow> int \<Rightarrow> 'f \<Rightarrow> bool \<Rightarrow> 'f EventLoop \<times> nat" where
  "EventLoop_RunAfter l delay_seconds cb repeat =
     (case TimerWheel_AddTimer (el_timer_wheel l) delay_seconds cb repeat of (w, i) \<Rightarrow> (l\<lparr>el_timer_wheel := w\<rparr>, i))"

definition EventLoop_CancelTimer :: "'f EventLoop \<Rightarrow> nat \<Rightarrow> 'f EventLoop" where
  "EventLoop_CancelTimer l i = l\<lparr>el_timer_wheel := TimerWheel_CancelTimer (el_timer_wheel l) i\<rparr>"

definition EventLoop_RefreshTimer :: "'f EventLoop \<Rightarrow> nat \<Rightarrow> int \<Rightarrow> 'f EventLoop" where
  "EventLoop_RefreshTimer l i delay_seconds =
     l\<lparr>el_timer_wheel := TimerWheel_RefreshTimer (el_timer_wheel l) i delay_seconds\<rparr>"

text \<open>One tick, whatever number of expirations the timerfd reports.\<close>

definition EventLoop_HandleTimerTick ::
    "('f \<Rightarrow> 'f EventLoop \<times> 's \<Rightarrow> 'f EventLoop \<times> 's) \<Rightarrow> 'f EventLoop \<times> 's \<Rightarrow> 'f EventLoop \<times> 's" where
  "EventLoop_HandleTimerTick run ls =
     (case TimerWheel_Tick (el_timer_wheel (fst ls)) of (w, called) \<Rightarrow>
        foldl (\<lambda>ls f. run f ls) ((fst ls)\<lparr>el_timer_wheel := w\<rparr>, snd ls) called)"

text \<open>Taking the queue and running it.\<close>

definition take_functors :: "'f EventLoop \<Rightarrow> 'f EventLoop \<times> 'f list" where
  "take_functors l =
     (l\<lparr>el_calling_pending_functors := True, el_pending_functors := []\<rparr>, el_pending_functors l)"

definition end_functors :: "'f EventLoop \<Rightarrow> 'f EventLoop" where
  "end_functors l = l\<lparr>el_calling_pending_functors := False\<rparr>"

definition EventLoop_DoPendingFunctors ::
    "('f \<Rightarrow> 'f EventLoop \<times> 's \<Rightarrow> 'f EventLoop \<times> 's) \<Rightarrow> 'f EventLoop \<times> 's \<Rightarrow> 'f EventLoop \<times> 's" where
  "EventLoop_DoPendingFunctors run ls =
     (case take_functors (fst ls) of (l, functors) \<Rightarrow>
        case foldl (\<lambda>ls f. run f ls) (l, snd ls) functors of (l, s) \<Rightarrow> (end_functors l, s))"

text \<open>The body of the loop: \<open>events\<close> is what \<^verbatim>\<open>epoll_wait\<close> returned (the channels with their events, nothing on a
  time-out or an error), \<open>handle\<close> sets the events of a channel and handles them.\<close>

definition loop_turn ::
    "(nat \<Rightarrow> 32 word \<Rightarrow> 'f EventLoop \<times> 's \<Rightarrow> 'f EventLoop \<times> 's) \<Rightarrow> ('f \<Rightarrow> 'f EventLoop \<times> 's \<Rightarrow> 'f EventLoop \<times> 's) \<Rightarrow>
     (nat \<times> 32 word) list \<Rightarrow> 'f EventLoop \<times> 's \<Rightarrow> 'f EventLoop \<times> 's" where
  "loop_turn handle run events ls =
     (let (l, s) = foldl (\<lambda>ls (p, revents). handle p revents ls) ls events;
          l = (if events \<noteq> [] \<and> length events = el_events_size l then l\<lparr>el_events_size := el_events_size l * 2\<rparr> else l)
      in EventLoop_DoPendingFunctors run (l, s))"

primrec loop_turns ::
    "(nat \<Rightarrow> 32 word \<Rightarrow> 'f EventLoop \<times> 's \<Rightarrow> 'f EventLoop \<times> 's) \<Rightarrow> ('f \<Rightarrow> 'f EventLoop \<times> 's \<Rightarrow> 'f EventLoop \<times> 's) \<Rightarrow>
     (nat \<times> 32 word) list list \<Rightarrow> 'f EventLoop \<times> 's \<Rightarrow> 'f EventLoop \<times> 's" where
  "loop_turns handle run [] ls = ls"
| "loop_turns handle run (w # ws) ls =
     (if el_quit (fst ls) then ls else loop_turns handle run ws (loop_turn handle run w ls))"

text \<open>The loop, for the results of its waits.\<close>

definition EventLoop_Loop ::
    "(nat \<Rightarrow> 32 word \<Rightarrow> 'f EventLoop \<times> 's \<Rightarrow> 'f EventLoop \<times> 's) \<Rightarrow> ('f \<Rightarrow> 'f EventLoop \<times> 's \<Rightarrow> 'f EventLoop \<times> 's) \<Rightarrow>
     (nat \<times> 32 word) list list \<Rightarrow> 'f EventLoop \<times> 's \<Rightarrow> 'f EventLoop \<times> 's" where
  "EventLoop_Loop handle run waits ls =
     (let (l, s) = loop_turns handle run waits ((fst ls)\<lparr>el_looping := True, el_quit := False\<rparr>, snd ls)
      in (l\<lparr>el_looping := False\<rparr>, s))"

section \<open>The acceptor\<close>

text \<open>The results of \<^verbatim>\<open>accept4\<close>, in order; with none left the next call finds no connection. When the descriptors
  are used up, the spare one is given up to accept and close one connection.\<close>

datatype accept_result = Accepted nat string | Accept_error nat

definition EAGAIN :: nat where "EAGAIN = 11"
definition EMFILE :: nat where "EMFILE = 24"

fun Acceptor_HandleRead :: "(nat \<Rightarrow> string \<Rightarrow> 's \<Rightarrow> 's) \<Rightarrow> accept_result list \<Rightarrow> 's \<Rightarrow> 's" where
  "Acceptor_HandleRead new_connection_callback [] s = s"
| "Acceptor_HandleRead new_connection_callback (Accepted connfd peer_addr # rs) s =
     Acceptor_HandleRead new_connection_callback rs (new_connection_callback connfd peer_addr s)"
| "Acceptor_HandleRead new_connection_callback (Accept_error e # rs) s =
     (if e = EAGAIN then s
      else if e = EMFILE then Acceptor_HandleRead new_connection_callback (tl rs) s
      else if e \<noteq> EINTR then s
      else Acceptor_HandleRead new_connection_callback rs s)"

section \<open>The loop among other threads\<close>

text \<open>Where the thread of the loop is: in \<^verbatim>\<open>epoll_wait\<close>, handling events, or running functors, some of which are
  left. Another thread posts a functor in two steps, the push under the mutex and the wake-up; \<open>notifying\<close>
  counts those between the two. \<open>posted\<close> and \<open>done\<close> record what was pushed and what was run.\<close>

datatype 'f place = Waiting | Handling | Running "'f list"

record 'f Threads =
  th_loop :: "'f EventLoop"
  th_place :: "'f place"
  th_notifying :: nat
  th_posted :: "'f list"
  th_done :: "'f list"

definition queue_all :: "'f EventLoop \<Rightarrow> 'f list \<Rightarrow> 'f EventLoop" where
  "queue_all l fs = foldl (\<lambda>l f. EventLoop_QueueInLoop l (el_thread_id l) f) l fs"

inductive threads_step :: "'f Threads \<Rightarrow> 'f Threads \<Rightarrow> bool" where
  Post: "threads_step s (s\<lparr>th_loop := push_functor (th_loop s) f, th_notifying := th_notifying s + 1,
                           th_posted := th_posted s @ [f]\<rparr>)"
| Notify: "th_notifying s > 0 \<Longrightarrow>
    threads_step s (s\<lparr>th_loop := EventLoop_Wakeup (th_loop s), th_notifying := th_notifying s - 1\<rparr>)"
| Wait_Returns: "th_place s = Waiting \<Longrightarrow> threads_step s (s\<lparr>th_place := Handling\<rparr>)"
| Read_Notifier: "th_place s = Handling \<Longrightarrow> threads_step s (s\<lparr>th_loop := Notifier_HandleRead (th_loop s)\<rparr>)"
| Handler_Queues: "th_place s = Handling \<Longrightarrow>
    threads_step s (s\<lparr>th_loop := queue_all (th_loop s) fs, th_posted := th_posted s @ fs\<rparr>)"
| Take: "th_place s = Handling \<Longrightarrow> take_functors (th_loop s) = (l, fs) \<Longrightarrow>
    threads_step s (s\<lparr>th_loop := l, th_place := Running fs\<rparr>)"
| Run: "th_place s = Running (f # fs) \<Longrightarrow>
    threads_step s (s\<lparr>th_loop := queue_all (th_loop s) gs, th_place := Running fs, th_posted := th_posted s @ gs,
                      th_done := th_done s @ [f]\<rparr>)"
| End: "th_place s = Running [] \<Longrightarrow>
    threads_step s (s\<lparr>th_loop := end_functors (th_loop s), th_place := Waiting\<rparr>)"

definition threads_start :: "'f Threads \<Rightarrow> bool" where
  "threads_start s \<longleftrightarrow>
     th_place s = Waiting \<and> el_pending_functors (th_loop s) = [] \<and> \<not> el_calling_pending_functors (th_loop s) \<and>
     th_notifying s = 0 \<and> th_posted s = [] \<and> th_done s = []"

text \<open>The functors taken but not yet run.\<close>

fun in_hand :: "'f place \<Rightarrow> 'f list" where
  "in_hand (Running fs) = fs"
| "in_hand _ = []"

definition woken :: "'f Threads \<Rightarrow> bool" where
  "woken s \<longleftrightarrow> el_eventfd (th_loop s) > 0 \<or> th_notifying s > 0"

definition threads_inv :: "'f Threads \<Rightarrow> bool" where
  "threads_inv s \<longleftrightarrow>
     th_posted s = th_done s @ in_hand (th_place s) @ el_pending_functors (th_loop s) \<and>
     (el_calling_pending_functors (th_loop s) \<longleftrightarrow> th_place s \<notin> {Waiting, Handling}) \<and>
     (th_place s = Handling \<or> el_pending_functors (th_loop s) = [] \<or> woken s)"

lemma Wakeup_fields [simp]:
  "el_pending_functors (EventLoop_Wakeup l) = el_pending_functors l"
  "el_calling_pending_functors (EventLoop_Wakeup l) = el_calling_pending_functors l"
  "el_thread_id (EventLoop_Wakeup l) = el_thread_id l" "el_eventfd (EventLoop_Wakeup l) > 0"
  by (simp_all add: EventLoop_Wakeup_def Notifier_Notify_def)

lemma queue_all_fields:
  "el_pending_functors (queue_all l fs) = el_pending_functors l @ fs"
  "el_calling_pending_functors (queue_all l fs) = el_calling_pending_functors l"
  "el_calling_pending_functors l \<Longrightarrow> el_eventfd (queue_all l fs) = 0 \<longleftrightarrow> fs = [] \<and> el_eventfd l = 0"
  by (induction fs rule: rev_induct) (simp_all add: queue_all_def EventLoop_QueueInLoop_def EventLoop_IsInLoopThread_def push_functor_def Let_def)

lemma threads_step_inv: "threads_step s t \<Longrightarrow> threads_inv s \<Longrightarrow> threads_inv t"
  by (induction rule: threads_step.induct)
     (auto simp: threads_inv_def woken_def push_functor_def queue_all_fields take_functors_def end_functors_def Notifier_HandleRead_def)

interpretation threads: step_invariant threads_start threads_step threads_inv
  by unfold_locales (simp add: threads_start_def threads_inv_def, rule threads_step_inv)

section \<open>Theorems\<close>

text \<open>C33: However the loop and the threads that post functors to it interleave: the functors run are a prefix of those
  posted, in order, each once; and when the loop is about to wait while some posted functor has not run, its
  eventfd is readable or the thread that posted it has still to write it, so that the wait is not left to its
  time-out.\<close>
theorem functors_run_in_order:
  assumes "threads_start s" "threads_step\<^sup>*\<^sup>* s t"
  shows "prefix (th_done t) (th_posted t) \<and>
    (th_place t = Waiting \<and> th_done t \<noteq> th_posted t \<longrightarrow> el_eventfd (th_loop t) > 0 \<or> th_notifying t > 0)"
  using threads.reach_I [OF assms] by (auto simp: threads_inv_def woken_def)

text \<open>A loop to which another thread posts one functor while it waits.\<close>

definition idle_threads :: "string Threads" where
  "idle_threads = \<lparr>th_loop = fst (projr (EventLoop_new False 1 (Some 3) (Some 4) (Some 5))), th_place = Waiting, th_notifying = 0,
     th_posted = [], th_done = []\<rparr>"

definition posted_threads :: "string Threads" where
  "posted_threads = idle_threads\<lparr>th_loop := push_functor (th_loop idle_threads) ''f'', th_notifying := 1, th_posted := [''f'']\<rparr>"

theorem functors_run_in_order_witness:
  "th_place posted_threads = Waiting \<and> th_done posted_threads \<noteq> th_posted posted_threads \<and>
    (el_eventfd (th_loop posted_threads) > 0 \<or> th_notifying posted_threads > 0)"
proof -
  have start: "threads_start idle_threads"
    by (simp add: threads_start_def idle_threads_def EventLoop_new_def Notifier_new_def Channel_EnableReading_def Channel_Update_def
        EventLoop_UpdateChannel_def Channel_new_def epoll_ctl_def Let_def kReadEvent_def epoll_bits)
  have post: "threads_step idle_threads posted_threads"
    using threads_step.Post [of idle_threads "''f''"] by (simp add: posted_threads_def idle_threads_def)
  have "th_place posted_threads = Waiting \<and> th_done posted_threads \<noteq> th_posted posted_threads \<longrightarrow>
      el_eventfd (th_loop posted_threads) > 0 \<or> th_notifying posted_threads > 0"
    using functors_run_in_order [OF start r_into_rtranclp, OF post] by (rule conjunct2)
  then show ?thesis by (simp add: posted_threads_def idle_threads_def)
qed

end
