(* ===== verification/Http_Parser.thy ===== *)
theory Http_Parser
  imports Http_Request Byte_Buffer
begin

text \<open>
  \<^verbatim>\<open>net/http/http_parser.{h,cpp}\<close>: the incremental HTTP/1.x request parser. \<open>parse_step\<close> is one
  turn of the \<open>while (true)\<close> loop of \<open>HttpParser::Parse\<close> (\<open>None\<close> for \<open>break\<close>, \<open>Some\<close> for
  \<open>return\<close>); the loop itself is a partial function whose \<open>None\<close> is "does not return", shown never
  to happen on a well-formed buffer. \<open>parse_text\<close> is the reference parser on strings.
\<close>

datatype ParseState = REQUEST_LINE | HEADERS | BODY | DONE | PS_ERROR

datatype ParseResult = NEED_MORE_DATA | HEADERS_COMPLETE | BODY_DATA | MESSAGE_COMPLETE | PR_ERROR

record HttpParser =
  ps_state :: ParseState
  ps_request :: HttpRequest
  ps_error_message :: string
  ps_content_length :: size_t
  ps_remaining_body_length :: size_t
  ps_chunked :: bool
  ps_current_chunk_size :: size_t
  ps_reading_chunk_size :: bool

definition kMaxHeaderSize :: size_t where "kMaxHeaderSize = 8 * 1024"
definition kMaxRequestLineSize :: size_t where "kMaxRequestLineSize = 4 * 1024"

definition HttpParser_new :: HttpParser where
  "HttpParser_new =
     \<lparr>ps_state = REQUEST_LINE, ps_request = HttpRequest_new, ps_error_message = '''',
      ps_content_length = 0, ps_remaining_body_length = 0, ps_chunked = False,
      ps_current_chunk_size = 0, ps_reading_chunk_size = True\<rparr>"

definition HttpParser_Reset :: "HttpParser \<Rightarrow> HttpParser" where
  "HttpParser_Reset p =
     p\<lparr>ps_state := REQUEST_LINE, ps_request := HttpRequest_Reset (ps_request p),
       ps_error_message := '''', ps_content_length := 0, ps_remaining_body_length := 0,
       ps_chunked := False, ps_current_chunk_size := 0, ps_reading_chunk_size := True\<rparr>"

definition HttpParser_HasBody :: "HttpParser \<Rightarrow> bool" where
  "HttpParser_HasBody p = (ps_content_length p > 0 \<or> ps_chunked p)"

definition HttpParser_ConsumeBody :: "HttpParser \<Rightarrow> size_t \<Rightarrow> HttpParser \<times> bool" where
  "HttpParser_ConsumeBody p len =
     (if len \<ge> ps_remaining_body_length p
      then (p\<lparr>ps_remaining_body_length := 0, ps_state := DONE\<rparr>, True)
      else (p\<lparr>ps_remaining_body_length := ps_remaining_body_length p - len\<rparr>, False))"

definition with_error :: "HttpParser \<Rightarrow> string \<Rightarrow> HttpParser" where
  "with_error p msg = p\<lparr>ps_error_message := msg\<rparr>"

definition set_uri :: "HttpRequest \<Rightarrow> string \<Rightarrow> HttpRequest" where
  "set_uri r uri =
     (case find_char (CHR ''?'') uri of
        Some query_pos \<Rightarrow> r\<lparr>rq_path := take query_pos uri, rq_query := drop (query_pos + 1) uri\<rparr>
      | None \<Rightarrow> r\<lparr>rq_path := uri\<rparr>)"

definition HttpParser_ParseRequestLine :: "HttpParser \<Rightarrow> string \<Rightarrow> HttpParser \<times> bool" where
  "HttpParser_ParseRequestLine p line =
     (case find_char (CHR '' '') line of
        None \<Rightarrow> (with_error p ''Invalid request line: missing method'', False)
      | Some space1 \<Rightarrow>
          let p = p\<lparr>ps_request := (ps_request p)\<lparr>rq_method := StringToMethod (take space1 line)\<rparr>\<rparr> in
          if rq_method (ps_request p) = UNKNOWN
          then (with_error p ''Unknown HTTP method'', False)
          else case find_char_from (CHR '' '') line (space1 + 1) of
                 None \<Rightarrow> (with_error p ''Invalid request line: missing path'', False)
               | Some space2 \<Rightarrow>
                   let uri = take (space2 - space1 - 1) (drop (space1 + 1) line);
                       p = p\<lparr>ps_request := set_uri (ps_request p) uri\<rparr>;
                       version = drop (space2 + 1) line
                   in if version \<noteq> ''HTTP/1.0'' \<and> version \<noteq> ''HTTP/1.1''
                      then (with_error p ''Unsupported HTTP version'', False)
                      else (p\<lparr>ps_request := (ps_request p)\<lparr>rq_version := version\<rparr>\<rparr>, True))"

text \<open>The two trimming loops on the header value.\<close>

definition is_ws :: "char \<Rightarrow> bool" where
  "is_ws c = (c = CHR '' '' \<or> c = TAB)"

definition trim :: "string \<Rightarrow> string" where
  "trim v = rev (dropWhile is_ws (rev (dropWhile is_ws v)))"

definition HttpParser_ParseHeader :: "HttpParser \<Rightarrow> string \<Rightarrow> HttpParser \<times> bool" where
  "HttpParser_ParseHeader p line =
     (case find_char (CHR '':'') line of
        None \<Rightarrow> (with_error p ''Invalid header: missing colon'', False)
      | Some colon \<Rightarrow>
          let key = take colon line; value = trim (drop (colon + 1) line)
          in (p\<lparr>ps_request := HttpRequest_AddHeader (ps_request p) key value\<rparr>, True))"

definition HttpParser_FinishHeaders :: "HttpParser \<Rightarrow> HttpParser \<times> bool" where
  "HttpParser_FinishHeaders p =
     (let p = p\<lparr>ps_content_length := 0, ps_remaining_body_length := 0, ps_chunked := False\<rparr>;
          content_length_header = HttpRequest_GetHeader (ps_request p) ''content-length'';
          lengths = (if content_length_header = '''' then Some p
            else case from_chars_size content_length_header of
                   None \<Rightarrow> None
                 | Some (parsed_length, ptr) \<Rightarrow>
                     if ptr \<noteq> length content_length_header then None
                     else Some (p\<lparr>ps_content_length := parsed_length,
                                  ps_remaining_body_length := parsed_length\<rparr>))
      in case lengths of
           None \<Rightarrow> (with_error p ''Invalid Content-Length'', False)
         | Some p \<Rightarrow>
             let transfer_encoding = lower (HttpRequest_GetHeader (ps_request p) ''transfer-encoding'')
             in if transfer_encoding \<noteq> '''' \<and> find_str ''chunked'' transfer_encoding \<noteq> None
                then (if ps_content_length p > 0
                      then (with_error p ''Conflicting Content-Length and Transfer-Encoding'', False)
                      else (p\<lparr>ps_chunked := True\<rparr>, True))
                else (p, True))"

section \<open>The loop over the buffer\<close>

definition parse_step ::
    "HttpParser \<Rightarrow> ByteBuffer \<Rightarrow> HttpParser \<times> ByteBuffer \<times> ParseResult option" where
  "parse_step p b =
     (case ps_state p of
        REQUEST_LINE \<Rightarrow>
          (case ByteBuffer_FindCRLF b of
             None \<Rightarrow>
               if ByteBuffer_ReadableBytes b > kMaxRequestLineSize
               then ((with_error p ''Request line too long'')\<lparr>ps_state := PS_ERROR\<rparr>, b, Some PR_ERROR)
               else (p, b, Some NEED_MORE_DATA)
           | Some crlf \<Rightarrow>
               let line = take (crlf - bb_reader_index b) (drop (bb_reader_index b) (bb_buffer b));
                   (p, ok) = HttpParser_ParseRequestLine p line
               in if \<not> ok then (p\<lparr>ps_state := PS_ERROR\<rparr>, b, Some PR_ERROR)
                  else (p\<lparr>ps_state := HEADERS\<rparr>, ByteBuffer_RetrieveUntil b (crlf + 2), None))
      | HEADERS \<Rightarrow>
          (case ByteBuffer_FindCRLF b of
             None \<Rightarrow>
               if ByteBuffer_ReadableBytes b > kMaxHeaderSize
               then ((with_error p ''Headers too large'')\<lparr>ps_state := PS_ERROR\<rparr>, b, Some PR_ERROR)
               else (p, b, Some NEED_MORE_DATA)
           | Some crlf \<Rightarrow>
               let line = take (crlf - bb_reader_index b) (drop (bb_reader_index b) (bb_buffer b)) in
               if line = []
               then let b = ByteBuffer_RetrieveUntil b (crlf + 2);
                        (p, ok) = HttpParser_FinishHeaders p
                    in if \<not> ok then (p\<lparr>ps_state := PS_ERROR\<rparr>, b, Some PR_ERROR)
                       else if HttpParser_HasBody p
                       then (p\<lparr>ps_state := BODY\<rparr>, b, Some HEADERS_COMPLETE)
                       else (p\<lparr>ps_state := DONE\<rparr>, b, Some MESSAGE_COMPLETE)
               else let (p, ok) = HttpParser_ParseHeader p line
                    in if \<not> ok then (p\<lparr>ps_state := PS_ERROR\<rparr>, b, Some PR_ERROR)
                       else (p, ByteBuffer_RetrieveUntil b (crlf + 2), None))
      | BODY \<Rightarrow>
          if ps_chunked p
          then ((with_error p ''Chunked encoding not supported yet'')\<lparr>ps_state := PS_ERROR\<rparr>, b,
                Some PR_ERROR)
          else let readable = ByteBuffer_ReadableBytes b in
            if readable = 0 then (p, b, Some NEED_MORE_DATA)
            else let to_read = min readable (ps_remaining_body_length p);
                     p = p\<lparr>ps_remaining_body_length := ps_remaining_body_length p - to_read\<rparr>
                 in if ps_remaining_body_length p = 0
                    then (p\<lparr>ps_state := DONE\<rparr>, b, Some MESSAGE_COMPLETE)
                    else (p, b, Some BODY_DATA)
      | DONE \<Rightarrow> (p, b, Some MESSAGE_COMPLETE)
      | PS_ERROR \<Rightarrow> (p, b, Some PR_ERROR))"

partial_function (option) HttpParser_Parse ::
    "HttpParser \<Rightarrow> ByteBuffer \<Rightarrow> (HttpParser \<times> ByteBuffer \<times> ParseResult) option" where
  "HttpParser_Parse p b =
     (case parse_step p b of
        (p', b', Some r) \<Rightarrow> Some (p', b', r)
      | (p', b', None) \<Rightarrow> HttpParser_Parse p' b')"

text \<open>The evaluation rule of the loop: the recursive call stands under a conditional.\<close>

lemma HttpParser_Parse_code [code]:
  "HttpParser_Parse p b =
     (let s = parse_step p b; r = snd (snd s) in
      if r = None then HttpParser_Parse (fst s) (fst (snd s)) else Some (fst s, fst (snd s), the r))"
  by (subst HttpParser_Parse.simps) (auto simp: Let_def split: prod.splits option.splits)

section \<open>The reference parser on strings\<close>

text \<open>Split off the first line: the bytes before the first CRLF and the bytes after it.\<close>

definition split_line :: "string \<Rightarrow> (string \<times> string) option" where
  "split_line s = map_option (\<lambda>i. (take i s, drop (i + 2) s)) (find_str CRLF s)"

definition text_step :: "HttpParser \<Rightarrow> string \<Rightarrow> HttpParser \<times> string \<times> ParseResult option" where
  "text_step p s =
     (case ps_state p of
        REQUEST_LINE \<Rightarrow>
          (case split_line s of
             None \<Rightarrow>
               if length s > kMaxRequestLineSize
               then ((with_error p ''Request line too long'')\<lparr>ps_state := PS_ERROR\<rparr>, s, Some PR_ERROR)
               else (p, s, Some NEED_MORE_DATA)
           | Some (line, rest) \<Rightarrow>
               let (p, ok) = HttpParser_ParseRequestLine p line
               in if \<not> ok then (p\<lparr>ps_state := PS_ERROR\<rparr>, s, Some PR_ERROR)
                  else (p\<lparr>ps_state := HEADERS\<rparr>, rest, None))
      | HEADERS \<Rightarrow>
          (case split_line s of
             None \<Rightarrow>
               if length s > kMaxHeaderSize
               then ((with_error p ''Headers too large'')\<lparr>ps_state := PS_ERROR\<rparr>, s, Some PR_ERROR)
               else (p, s, Some NEED_MORE_DATA)
           | Some (line, rest) \<Rightarrow>
               if line = []
               then let (p, ok) = HttpParser_FinishHeaders p
                    in if \<not> ok then (p\<lparr>ps_state := PS_ERROR\<rparr>, rest, Some PR_ERROR)
                       else if HttpParser_HasBody p
                       then (p\<lparr>ps_state := BODY\<rparr>, rest, Some HEADERS_COMPLETE)
                       else (p\<lparr>ps_state := DONE\<rparr>, rest, Some MESSAGE_COMPLETE)
               else let (p, ok) = HttpParser_ParseHeader p line
                    in if \<not> ok then (p\<lparr>ps_state := PS_ERROR\<rparr>, s, Some PR_ERROR)
                       else (p, rest, None))
      | BODY \<Rightarrow>
          if ps_chunked p
          then ((with_error p ''Chunked encoding not supported yet'')\<lparr>ps_state := PS_ERROR\<rparr>, s,
                Some PR_ERROR)
          else if s = [] then (p, s, Some NEED_MORE_DATA)
            else let to_read = min (length s) (ps_remaining_body_length p);
                     p = p\<lparr>ps_remaining_body_length := ps_remaining_body_length p - to_read\<rparr>
                 in if ps_remaining_body_length p = 0
                    then (p\<lparr>ps_state := DONE\<rparr>, s, Some MESSAGE_COMPLETE)
                    else (p, s, Some BODY_DATA)
      | DONE \<Rightarrow> (p, s, Some MESSAGE_COMPLETE)
      | PS_ERROR \<Rightarrow> (p, s, Some PR_ERROR))"

lemma split_line_shrinks: "split_line s = Some (l, r) \<Longrightarrow> length r < length s"
  by (auto simp: split_line_def dest: find_str_split(1))

lemma text_step_shrinks: "text_step p s = (p', s', None) \<Longrightarrow> length s' < length s"
  by (auto simp: text_step_def Let_def split: ParseState.splits option.splits if_splits prod.splits
      dest: split_line_shrinks)

function parse_text :: "HttpParser \<Rightarrow> string \<Rightarrow> HttpParser \<times> string \<times> ParseResult" where
  "parse_text p s =
     (case text_step p s of
        (p', s', Some r) \<Rightarrow> (p', s', r)
      | (p', s', None) \<Rightarrow> parse_text p' s')"
  by pat_completeness auto
termination
  by (relation "measure (\<lambda>(p, s). length s)") (auto dest: text_step_shrinks [OF sym])

declare parse_text.simps [simp del]

section \<open>The loop over the buffer implements the reference parser\<close>

lemma view_take:
  assumes "bb_inv b" "i \<le> length (bb_view b)"
  shows "take i (drop (bb_reader_index b) (bb_buffer b)) = take i (bb_view b)"
  using assms by (simp add: bb_view_length) (simp add: bb_defs drop_take)

lemma RetrieveUntil_line:
  assumes "bb_inv b" "i + 2 \<le> length (bb_view b)"
  shows "ByteBuffer_RetrieveUntil b (bb_reader_index b + i + 2) = ByteBuffer_Retrieve b (i + 2)"
proof -
  have "bb_reader_index b + i + 2 < size_bound"
    using bb_view_bound [OF assms(1)] assms unfolding bb_inv_def by linarith
  then show ?thesis by (simp add: ByteBuffer_RetrieveUntil_def)
qed

lemma parse_step_text:
  assumes inv: "bb_inv b" and s: "parse_step p b = (p', b', r)"
  shows "text_step p (bb_view b) = (p', bb_view b', r)" "bb_inv b'"
proof -
  have "text_step p (bb_view b) = (p', bb_view b', r) \<and> bb_inv b'"
  proof (cases "find_str CRLF (bb_view b)")
    case None
    with inv s show ?thesis
      by (auto simp: parse_step_def text_step_def split_line_def FindCRLF_view readable_view Let_def
          split: ParseState.splits if_splits)
  next
    case (Some i)
    note le = find_str_split(1) [OF Some]
    have "i + 2 \<le> length (bb_view b)" using le by simp
    note l = RetrieveUntil_line [OF inv this] view_take [OF inv, of i] this
      Retrieve_inv [OF inv, of "i + 2"] Retrieve_view [OF inv, of "i + 2"]
    show ?thesis
    proof (cases "ps_state p")
      case REQUEST_LINE
      with Some l inv s show ?thesis
        by (auto simp: parse_step_def text_step_def split_line_def FindCRLF_view Let_def add.assoc
            split: if_splits prod.splits)
    next
      case HEADERS
      with Some l inv s show ?thesis
        by (auto simp: parse_step_def text_step_def split_line_def FindCRLF_view Let_def add.assoc
            split: if_splits prod.splits)
    qed (use inv s in \<open>auto simp: parse_step_def text_step_def readable_view Let_def
          split: if_splits\<close>)
  qed
  then show "text_step p (bb_view b) = (p', bb_view b', r)" "bb_inv b'" by auto
qed

lemma Parse_text:
  "bb_inv b \<Longrightarrow>
   \<exists>b'. HttpParser_Parse p b =
          Some (fst (parse_text p (bb_view b)), b', snd (snd (parse_text p (bb_view b))))
      \<and> bb_view b' = fst (snd (parse_text p (bb_view b))) \<and> bb_inv b'"
proof (induction "length (bb_view b)" arbitrary: p b rule: less_induct)
  case less
  obtain p1 b1 o1 where s: "parse_step p b = (p1, b1, o1)" by (cases "parse_step p b")
  note t = parse_step_text [OF less.prems s]
  show ?case
  proof (cases o1)
    case None
    have "length (bb_view b1) < length (bb_view b)"
      using t(1) None text_step_shrinks by blast
    from less.hyps [OF this t(2), of p1] s t None show ?thesis
      by (subst HttpParser_Parse.simps, subst (1 2 3) parse_text.simps) simp
  next
    case (Some r)
    with s t show ?thesis
      by (subst HttpParser_Parse.simps, subst (1 2 3) parse_text.simps) simp
  qed
qed

section \<open>Fragmentation\<close>

text \<open>The states in which whole lines are consumed.\<close>

definition line_state :: "HttpParser \<Rightarrow> bool" where
  "line_state p = (ps_state p = REQUEST_LINE \<or> ps_state p = HEADERS)"

text \<open>The bytes of a message arrive in pieces, each appended to the input buffer and followed by a
  call of the parser; the feeding stops at the first result other than \<open>NEED_MORE_DATA\<close>, and the
  bytes that arrive afterwards stay in the buffer.\<close>

fun feed :: "HttpParser \<Rightarrow> ByteBuffer \<Rightarrow> string list \<Rightarrow>
    (HttpParser \<times> ByteBuffer \<times> ParseResult) option" where
  "feed p b [] = Some (p, b, NEED_MORE_DATA)"
| "feed p b (s # ss) =
     (case HttpParser_Parse p (ByteBuffer_Append b s) of
        None \<Rightarrow> None
      | Some (p', b', r) \<Rightarrow>
          if r = NEED_MORE_DATA then feed p' b' ss else Some (p', foldl ByteBuffer_Append b' ss, r))"

lemma split_line_append:
  "split_line s = Some (l, r) \<Longrightarrow> split_line (s @ t) = Some (l, r @ t)"
proof -
  assume "split_line s = Some (l, r)"
  then obtain i where i: "find_str CRLF s = Some i" "l = take i s" "r = drop (i + 2) s"
    by (auto simp: split_line_def)
  moreover have "i + 2 \<le> length s" using find_str_split(1) [OF i(1)] by simp
  ultimately show ?thesis by (simp add: split_line_def find_str_append)
qed

lemma text_step_append:
  assumes "text_step p s = (p', s', None)"
  shows "text_step p (s @ t) = (p', s' @ t, None)"
proof (cases "split_line s")
  case None
  with assms show ?thesis
    by (cases "ps_state p") (simp_all add: text_step_def Let_def split: if_splits)
next
  case (Some lr)
  then obtain l r where lr: "split_line s = Some (l, r)" by (cases lr) simp
  note a = split_line_append [OF lr, of t]
  show ?thesis
  proof (cases "ps_state p")
    case REQUEST_LINE
    with assms lr a show ?thesis by (simp add: text_step_def split: if_splits prod.splits)
  next
    case HEADERS
    with assms lr a show ?thesis
      by (simp add: text_step_def Let_def split: if_splits prod.splits)
  qed (use assms in \<open>simp_all add: text_step_def Let_def split: if_splits\<close>)
qed

lemma text_step_need_more:
  "text_step p s = (p', s', Some NEED_MORE_DATA) \<Longrightarrow> p' = p \<and> s' = s"
  by (auto simp: text_step_def Let_def split: ParseState.splits option.splits if_splits prod.splits)

lemma text_step_done_append:
  assumes "text_step p s = (p', s', Some r)" "line_state p" "r = HEADERS_COMPLETE \<or> r = MESSAGE_COMPLETE"
  shows "text_step p (s @ t) = (p', s' @ t, Some r)"
proof (cases "split_line s")
  case None
  with assms show ?thesis by (auto simp: text_step_def line_state_def split: if_splits)
next
  case (Some lr)
  then obtain l r where lr: "split_line s = Some (l, r)" by (cases lr) simp
  note a = split_line_append [OF lr, of t]
  consider "ps_state p = REQUEST_LINE" | "ps_state p = HEADERS"
    using assms(2) by (auto simp: line_state_def)
  then show ?thesis
  proof cases
    case 1
    with assms(1,3) lr show ?thesis by (auto simp: text_step_def split: if_splits prod.splits)
  next
    case 2
    with assms(1,3) lr a show ?thesis
      by (auto simp: text_step_def Let_def split: if_splits prod.splits)
  qed
qed

lemma ParseHeader_state: "HttpParser_ParseHeader p l = (p', ok) \<Longrightarrow> ps_state p' = ps_state p"
  by (auto simp: HttpParser_ParseHeader_def with_error_def Let_def split: option.splits)

lemma text_step_line_state: "text_step p s = (p', s', None) \<Longrightarrow> line_state p'"
  by (auto simp: text_step_def line_state_def Let_def dest: ParseHeader_state
      split: ParseState.splits option.splits if_splits prod.splits)

lemma parse_text_need_more_append:
  "parse_text p s = (p', s', NEED_MORE_DATA) \<Longrightarrow> parse_text p (s @ t) = parse_text p' (s' @ t)"
proof (induction p s rule: parse_text.induct)
  case (1 p s)
  obtain p1 s1 o1 where st: "text_step p s = (p1, s1, o1)" by (cases "text_step p s")
  show ?case
  proof (cases o1)
    case None
    with 1 st have "parse_text p1 (s1 @ t) = parse_text p' (s' @ t)"
      by (auto simp: parse_text.simps [of p s])
    with st None text_step_append show ?thesis by (subst parse_text.simps) auto
  next
    case (Some r)
    with 1 st have "r = NEED_MORE_DATA" "p' = p1" "s' = s1"
      by (auto simp: parse_text.simps [of p s])
    with st Some text_step_need_more show ?thesis by blast
  qed
qed

lemma parse_text_need_more_state:
  "parse_text p s = (p', s', NEED_MORE_DATA) \<Longrightarrow> line_state p \<Longrightarrow> line_state p'"
proof (induction p s rule: parse_text.induct)
  case (1 p s)
  obtain p1 s1 o1 where st: "text_step p s = (p1, s1, o1)" by (cases "text_step p s")
  show ?case
  proof (cases o1)
    case None
    with 1 st text_step_line_state show ?thesis by (auto simp: parse_text.simps [of p s])
  next
    case (Some r)
    with 1 st text_step_need_more show ?thesis by (auto simp: parse_text.simps [of p s])
  qed
qed

lemma parse_text_done_append:
  "parse_text p s = (p', s', r) \<Longrightarrow> line_state p \<Longrightarrow>
   r = HEADERS_COMPLETE \<or> r = MESSAGE_COMPLETE \<Longrightarrow> parse_text p (s @ t) = (p', s' @ t, r)"
proof (induction p s rule: parse_text.induct)
  case (1 p s)
  obtain p1 s1 o1 where st: "text_step p s = (p1, s1, o1)" by (cases "text_step p s")
  show ?case
  proof (cases o1)
    case None
    with 1 st text_step_line_state have "parse_text p1 (s1 @ t) = (p', s' @ t, r)"
      by (auto simp: parse_text.simps [of p s])
    with st None text_step_append show ?thesis by (subst parse_text.simps) auto
  next
    case (Some q)
    with 1 st have "text_step p s = (p', s', Some r)" by (auto simp: parse_text.simps [of p s])
    with 1 text_step_done_append show ?thesis by (subst parse_text.simps) auto
  qed
qed

lemma Parse_buffer_room:
  "bb_inv b \<Longrightarrow> HttpParser_Parse p b = Some (p', b', r) \<Longrightarrow> bb_room b n \<Longrightarrow> bb_room b' n"
proof (induction "length (bb_view b)" arbitrary: p b rule: less_induct)
  case less
  obtain p1 b1 o1 where s: "parse_step p b = (p1, b1, o1)" by (cases "parse_step p b")
  note t = parse_step_text [OF less.prems(1) s]
  have "bb_buffer b1 = bb_buffer b" using s
    by (auto simp: parse_step_def Let_def ByteBuffer_RetrieveUntil_def Retrieve_buffer
        split: ParseState.splits option.splits if_splits prod.splits)
  then have room: "bb_room b1 n" using less.prems(3) by (simp add: bb_room_def)
  show ?case
  proof (cases o1)
    case None
    then have "length (bb_view b1) < length (bb_view b)" using t(1) text_step_shrinks by blast
    moreover have "HttpParser_Parse p1 b1 = Some (p', b', r)"
      using less.prems(2) s None by (subst (asm) HttpParser_Parse.simps) simp
    ultimately show ?thesis using less.hyps t(2) room by blast
  next
    case (Some q)
    with less.prems(2) s room show ?thesis by (subst (asm) HttpParser_Parse.simps) simp
  qed
qed

lemma Parse_text_eq:
  assumes "bb_inv b" "HttpParser_Parse p b = Some (p', b', r)"
  shows "parse_text p (bb_view b) = (p', bb_view b', r)" "bb_inv b'"
  using Parse_text [OF assms(1), of p] assms(2) by (auto simp: prod_eq_iff)

lemma feed_text:
  assumes "bb_inv b" "bb_room b (length (concat ss))" "line_state p"
  shows "\<exists>p' b' r. feed p b ss = Some (p', b', r) \<and> bb_inv b' \<and>
    (r \<noteq> PR_ERROR \<longrightarrow> r \<noteq> BODY_DATA \<longrightarrow> ss \<noteq> [] \<longrightarrow>
       parse_text p (bb_view b @ concat ss) = (p', bb_view b', r))"
  using assms
proof (induction ss arbitrary: p b)
  case Nil
  then show ?case by simp
next
  case (Cons s ss)
  let ?b = "ByteBuffer_Append b s"
  have r: "bb_room b (length s)" using Cons.prems(2) by (rule bb.room_mono) simp
  have i: "bb_inv ?b" using Cons.prems(1) r by (rule bb.inv_append)
  have v: "bb_view ?b = bb_view b @ s" using Cons.prems(1) r by (rule bb.view_append)
  have room: "bb_room ?b (length (concat ss) + 0)"
    using Cons.prems by (intro bb.room_append) simp_all
  obtain p1 b1 q where P: "HttpParser_Parse p ?b = Some (p1, b1, q)"
    using Parse_text [OF i] by blast
  note t = Parse_text_eq [OF i P]
  have room1: "bb_room b1 (length (concat ss) + 0)" using Parse_buffer_room [OF i P room] .
  show ?case
  proof (cases "q = NEED_MORE_DATA")
    case True
    with t have ls: "line_state p1" using parse_text_need_more_state Cons.prems(3) by blast
    have ap: "parse_text p (bb_view b @ s @ concat ss) = parse_text p1 (bb_view b1 @ concat ss)"
      using parse_text_need_more_append t(1) v True by (metis append_assoc)
    show ?thesis
    proof (cases "ss = []")
      case True
      with P \<open>q = NEED_MORE_DATA\<close> t v show ?thesis by simp
    next
      case False
      with Cons.IH [OF t(2) _ ls] room1 ap P True show ?thesis by simp
    qed
  next
    case False
    have "bb_view (foldl ByteBuffer_Append b1 ss) = bb_view b1 @ concat ss \<and>
        bb_inv (foldl ByteBuffer_Append b1 ss)"
      using bb.append_all [OF t(2) room1] by blast
    moreover have "q \<noteq> PR_ERROR \<longrightarrow> q \<noteq> BODY_DATA \<longrightarrow>
        parse_text p (bb_view b @ s @ concat ss) = (p1, bb_view b1 @ concat ss, q)"
      using parse_text_done_append [OF t(1) Cons.prems(3)] v False by (cases q) simp_all
    ultimately show ?thesis using P False by simp
  qed
qed

lemma parse_text_need_more_bound:
  "parse_text p s = (p', s', NEED_MORE_DATA) \<Longrightarrow>
   length s' \<le> (if ps_state p' = REQUEST_LINE then kMaxRequestLineSize
               else if ps_state p' = HEADERS then kMaxHeaderSize else 0)"
proof (induction p s rule: parse_text.induct)
  case (1 p s)
  obtain p1 s1 o1 where st: "text_step p s = (p1, s1, o1)" by (cases "text_step p s")
  show ?case
  proof (cases o1)
    case None
    with 1 st show ?thesis by (auto simp: parse_text.simps [of p s])
  next
    case (Some r)
    with 1 st have "text_step p s = (p', s', Some NEED_MORE_DATA)"
      by (auto simp: parse_text.simps [of p s])
    then show ?thesis
      by (auto simp: text_step_def Let_def split: ParseState.splits option.splits if_splits prod.splits)
  qed
qed

section \<open>Printing a request and parsing it back\<close>

definition render_header :: "string \<times> string \<Rightarrow> string" where
  "render_header kv = fst kv @ '': '' @ snd kv @ CRLF"

definition render_request :: "HttpMethod \<Rightarrow> string \<Rightarrow> (string \<times> string) list \<Rightarrow> string" where
  "render_request m uri hs =
     MethodToString m @ '' '' @ uri @ '' HTTP/1.1'' @ CRLF @ concat (map render_header hs) @ CRLF"

text \<open>A header name has no colon and no CR, a value no CR and no surrounding blanks.\<close>

definition header_ok :: "string \<times> string \<Rightarrow> bool" where
  "header_ok kv \<longleftrightarrow> CR \<notin> set (fst kv) \<and> CHR '':'' \<notin> set (fst kv) \<and> CR \<notin> set (snd kv) \<and> trim (snd kv) = snd kv"

definition header_map :: "(string \<times> string) list \<Rightarrow> (string \<rightharpoonup> string)" where
  "header_map hs = foldl (\<lambda>m (k, v). m(lower k \<mapsto> v)) Map.empty hs"

lemma find_CRLF_line: "CR \<notin> set l \<Longrightarrow> find_str CRLF (l @ CR # LF # r) = Some (length l)"
  by (induction l) auto

lemma split_line_line: "CR \<notin> set l \<Longrightarrow> split_line (l @ CR # LF # r) = Some (l, r)"
  by (simp add: split_line_def find_CRLF_line)

lemma trim_blank: "trim (CHR '' '' # v) = trim v"
  by (simp add: trim_def is_ws_def)

lemma ParseHeader_render:
  assumes "header_ok (k, v)"
  shows "HttpParser_ParseHeader p (k @ '': '' @ v) =
    (p\<lparr>ps_request := HttpRequest_AddHeader (ps_request p) k v\<rparr>, True)"
  using assms by (simp add: HttpParser_ParseHeader_def header_ok_def trim_blank Let_def)

lemma ParseRequestLine_render:
  assumes "m \<noteq> UNKNOWN" "CHR '' '' \<notin> set uri"
  shows "HttpParser_ParseRequestLine p (MethodToString m @ '' '' @ uri @ '' HTTP/1.1'') =
    (p\<lparr>ps_request := (set_uri ((ps_request p)\<lparr>rq_method := m\<rparr>) uri)\<lparr>rq_version := ''HTTP/1.1''\<rparr>\<rparr>, True)"
  using assms
  by (simp add: HttpParser_ParseRequestLine_def find_char_from_def Let_def add.assoc)

lemma parse_headers:
  assumes "\<forall>h \<in> set hs. header_ok h" "ps_state p = HEADERS"
  shows "parse_text p (concat (map render_header hs) @ CRLF @ rest) =
    parse_text (p\<lparr>ps_request := (ps_request p)\<lparr>rq_headers :=
      foldl (\<lambda>m (k, v). m(lower k \<mapsto> v)) (rq_headers (ps_request p)) hs\<rparr>\<rparr>) (CRLF @ rest)"
  using assms
proof (induction hs arbitrary: p)
  case Nil
  then show ?case by simp
next
  case (Cons h hs)
  obtain k v where h: "h = (k, v)" by (cases h)
  let ?p = "p\<lparr>ps_request := HttpRequest_AddHeader (ps_request p) k v\<rparr>"
  let ?l = "k @ '': '' @ v" and ?r = "concat (map render_header hs) @ CRLF @ rest"
  have ok: "header_ok (k, v)" using Cons.prems(1) h by simp
  then have "split_line (?l @ CR # LF # ?r) = Some (?l, ?r)"
    by (intro split_line_line) (simp add: header_ok_def)
  then have "text_step p (?l @ CR # LF # ?r) = (?p, ?r, None)"
    using Cons.prems(2) ParseHeader_render [OF ok] by (simp add: text_step_def)
  then have "parse_text p (?l @ CR # LF # ?r) = parse_text ?p ?r" by (subst parse_text.simps) simp
  moreover have "ps_state ?p = HEADERS" using Cons.prems(2) by simp
  moreover have "render_header h @ ?r = ?l @ CR # LF # ?r" by (simp add: h render_header_def)
  ultimately show ?case using Cons.IH [of ?p] Cons.prems(1)
    by (simp add: h HttpRequest_AddHeader_def)
qed

lemma parse_render:
  assumes m: "m \<noteq> UNKNOWN" and uri: "CHR '' '' \<notin> set uri" "CR \<notin> set uri"
    and hs: "\<forall>h \<in> set hs. header_ok h" and n: "n < size_bound"
    and cl: "header_map hs ''content-length'' = (if n = 0 then None else Some (nat_to_string n))"
    and te: "header_map hs ''transfer-encoding'' = None"
  shows "parse_text HttpParser_new (render_request m uri hs @ body) =
    (HttpParser_new\<lparr>ps_state := (if n = 0 then DONE else BODY),
       ps_request := (set_uri (HttpRequest_new\<lparr>rq_method := m\<rparr>) uri)\<lparr>rq_headers := header_map hs\<rparr>,
       ps_content_length := n, ps_remaining_body_length := n\<rparr>,
     body, if n = 0 then MESSAGE_COMPLETE else HEADERS_COMPLETE)"
proof -
  let ?l = "MethodToString m @ '' '' @ uri @ '' HTTP/1.1''"
  let ?r = "concat (map render_header hs) @ CRLF @ body"
  let ?q = "(set_uri (HttpRequest_new\<lparr>rq_method := m\<rparr>) uri)\<lparr>rq_version := ''HTTP/1.1''\<rparr>"
  let ?p = "HttpParser_new\<lparr>ps_state := HEADERS, ps_request := ?q\<rparr>"
  let ?p2 = "?p\<lparr>ps_request := ?q\<lparr>rq_headers := header_map hs\<rparr>\<rparr>"
  have "CR \<notin> set ?l" using uri by (cases m) simp_all
  then have sl: "split_line (?l @ CR # LF # ?r) = Some (?l, ?r)" by (rule split_line_line)
  have s: "text_step HttpParser_new (?l @ CR # LF # ?r) = (?p, ?r, None)"
    unfolding text_step_def sl option.case prod.case ParseRequestLine_render [OF m uri(1)]
    by (simp add: HttpParser_new_def)
  have v: "rq_version (set_uri (HttpRequest_new\<lparr>rq_method := m\<rparr>) uri) = ''HTTP/1.1''"
    and h: "rq_headers ?q = Map.empty"
    by (simp_all add: set_uri_def HttpRequest_new_def split: option.splits)
  have q: "?q = set_uri (HttpRequest_new\<lparr>rq_method := m\<rparr>) uri" using v by simp
  have "parse_text HttpParser_new (?l @ CR # LF # ?r) = parse_text ?p ?r"
    using s by (subst parse_text.simps) simp
  also have "\<dots> = parse_text ?p2 (CRLF @ body)"
    using h by (subst parse_headers [OF hs]) (simp_all add: header_map_def)
  also have "\<dots> = (?p2\<lparr>ps_state := (if n = 0 then DONE else BODY), ps_content_length := n,
      ps_remaining_body_length := n, ps_chunked := False\<rparr>,
     body, if n = 0 then MESSAGE_COMPLETE else HEADERS_COMPLETE)"
    using cl te n
    by (subst parse_text.simps)
       (simp add: text_step_def split_line_def HttpParser_FinishHeaders_def HttpRequest_GetHeader_def
         lower_def tolower_def HttpParser_HasBody_def Let_def)
  finally show ?thesis unfolding q
    by (simp add: render_request_def HttpParser_new_def)
qed

section \<open>Properties\<close>

text \<open>
  C6: On every well-formed buffer the parsing loop returns (it never spins), with the parser state
  and the result the reference parser computes on the readable bytes, leaves exactly the bytes the
  reference leaves, and keeps the buffer well-formed.
\<close>

theorem parse_implements_reference:
  assumes "bb_inv b"
  shows "\<exists>p' b' r. HttpParser_Parse p b = Some (p', b', r) \<and>
    parse_text p (bb_view b) = (p', bb_view b', r) \<and> bb_inv b'"
proof -
  obtain b' where "HttpParser_Parse p b =
      Some (fst (parse_text p (bb_view b)), b', snd (snd (parse_text p (bb_view b))))"
    "bb_view b' = fst (snd (parse_text p (bb_view b)))" "bb_inv b'"
    using Parse_text [OF assms] by blast
  then show ?thesis by (metis prod.collapse)
qed

theorem parse_implements_reference_witness:
  "\<exists>p' b' r. HttpParser_Parse HttpParser_new (ByteBuffer_new 16) = Some (p', b', r) \<and>
    parse_text HttpParser_new (bb_view (ByteBuffer_new 16)) = (p', bb_view b', r) \<and> bb_inv b'"
  using parse_implements_reference [of "ByteBuffer_new 16" HttpParser_new] bb_new [of 16] by simp

text \<open>
  C7: However the bytes of a request head are cut into network segments, when the incremental
  parsing reports a complete head (or a complete message) the parser state, the result and the
  bytes left over are those of parsing all the bytes at once.
\<close>

theorem parse_fragmentation:
  assumes "bb_inv b" "bb_room b (length (concat ss))" "line_state p"
    and "feed p b ss = Some (p', b', r)" "r = HEADERS_COMPLETE \<or> r = MESSAGE_COMPLETE"
  shows "\<exists>b''. HttpParser_Parse p (ByteBuffer_Append b (concat ss)) = Some (p', b'', r) \<and>
    bb_view b'' = bb_view b' \<and> bb_inv b''"
proof -
  have "ss \<noteq> []" using assms(4,5) by auto
  with feed_text [OF assms(1-3)] assms(4,5)
  have "parse_text p (bb_view b @ concat ss) = (p', bb_view b', r)" by auto
  with Parse_text [OF Append_inv [OF assms(1,2)], of p] Append_view [OF assms(1,2)]
  show ?thesis by simp
qed

definition sample_segments :: "string list" where
  "sample_segments = [''GET / HTTP/1.1'' @ [CR], [LF, CR, LF, CHR ''Z'']]"

lemma sample_segments_feed:
  "map_option (\<lambda>(p, b, r). (r, bb_view b)) (feed HttpParser_new (ByteBuffer_new 16) sample_segments) =
   Some (MESSAGE_COMPLETE, ''Z'')"
  by code_simp

theorem parse_fragmentation_witness:
  "\<exists>p' b''. HttpParser_Parse HttpParser_new
       (ByteBuffer_Append (ByteBuffer_new 16) (concat sample_segments)) =
     Some (p', b'', MESSAGE_COMPLETE) \<and> bb_view b'' = ''Z''"
proof -
  obtain p' b' where f: "feed HttpParser_new (ByteBuffer_new 16) sample_segments =
      Some (p', b', MESSAGE_COMPLETE)" and v: "bb_view b' = ''Z''"
    using sample_segments_feed by auto
  have "bb_room (ByteBuffer_new 16) (length (concat sample_segments))" by code_simp
  from parse_fragmentation [OF _ this _ f] v bb_new [of 16] show ?thesis
    by (auto simp: line_state_def HttpParser_new_def)
qed

text \<open>
  C8: When the parser asks for more bytes, it holds at most 4 KiB of an incomplete request line,
  at most 8 KiB of an incomplete header line, and nothing in the body state: unfinished input never
  grows the buffer beyond these limits.
\<close>

theorem parse_need_more_bounded:
  assumes "bb_inv b" "HttpParser_Parse p b = Some (p', b', NEED_MORE_DATA)"
  shows "ByteBuffer_ReadableBytes b' \<le>
    (if ps_state p' = REQUEST_LINE then 4096 else if ps_state p' = HEADERS then 8192 else 0)"
  using parse_text_need_more_bound [OF Parse_text_eq(1) [OF assms]] Parse_text_eq(2) [OF assms]
  by (auto simp: readable_view kMaxRequestLineSize_def kMaxHeaderSize_def split: if_splits)

theorem parse_need_more_bounded_witness:
  "\<exists>p' b'. HttpParser_Parse HttpParser_new (ByteBuffer_new 16) = Some (p', b', NEED_MORE_DATA) \<and>
    ByteBuffer_ReadableBytes b' \<le> 8192"
proof -
  have "map_option (\<lambda>(p, b, r). r) (HttpParser_Parse HttpParser_new (ByteBuffer_new 16)) =
      Some NEED_MORE_DATA" by code_simp
  then obtain p' b' where
    P: "HttpParser_Parse HttpParser_new (ByteBuffer_new 16) = Some (p', b', NEED_MORE_DATA)" by auto
  with parse_need_more_bounded [OF _ P] bb_new [of 16] show ?thesis by (auto split: if_splits)
qed

text \<open>
  C9: Printing a request (method, URI, headers, blank line) and parsing it back gives the method,
  the path and query of the URI, every header under its lower-cased name with the last value, the
  announced body length and \<open>HEADERS_COMPLETE\<close> exactly when a body is announced, and the bytes
  after the head stay in the buffer.
\<close>

theorem parse_render_roundtrip:
  assumes "m \<noteq> UNKNOWN" "CHR '' '' \<notin> set uri" "CR \<notin> set uri" "\<forall>h \<in> set hs. header_ok h"
    and "n < size_bound"
    and "header_map hs ''content-length'' = (if n = 0 then None else Some (nat_to_string n))"
    and "header_map hs ''transfer-encoding'' = None"
    and "bb_inv b" "bb_view b = render_request m uri hs @ body"
  shows "\<exists>p' b'. HttpParser_Parse HttpParser_new b =
       Some (p', b', if n = 0 then MESSAGE_COMPLETE else HEADERS_COMPLETE) \<and>
     bb_view b' = body \<and> rq_method (ps_request p') = m \<and>
     rq_headers (ps_request p') = header_map hs \<and>
     rq_path (ps_request p') @ (if CHR ''?'' \<in> set uri then ''?'' else '''') @ rq_query (ps_request p') = uri \<and>
     CHR ''?'' \<notin> set (rq_path (ps_request p')) \<and> ps_remaining_body_length p' = n"
proof -
  let ?q = "set_uri (HttpRequest_new\<lparr>rq_method := m\<rparr>) uri"
  have "rq_path ?q @ (if CHR ''?'' \<in> set uri then ''?'' else '''') @ rq_query ?q = uri"
    "CHR ''?'' \<notin> set (rq_path ?q)" "rq_method ?q = m"
    by (auto simp: set_uri_def HttpRequest_new_def split: option.splits dest: find_char_Some_split)
  with parse_render [OF assms(1-7), of body] Parse_text [OF assms(8), of HttpParser_new]
  show ?thesis unfolding assms(9) by auto
qed

definition sample_head :: string where
  "sample_head = render_request PUT ''/buckets/b/objects/k?x=1'' [(''Content-Length'', ''3'')] @ ''abc''"

theorem parse_render_roundtrip_witness:
  "\<exists>p' b'. HttpParser_Parse HttpParser_new (ByteBuffer_Append (ByteBuffer_new 16) sample_head) =
       Some (p', b', HEADERS_COMPLETE) \<and> bb_view b' = ''abc'' \<and> rq_method (ps_request p') = PUT \<and>
     ps_remaining_body_length p' = 3"
proof -
  let ?b = "ByteBuffer_Append (ByteBuffer_new 16) sample_head" and ?hs = "[(''Content-Length'', ''3'')]"
  have "bb_room (ByteBuffer_new 16) (length sample_head)" by code_simp
  with bb_new [of 16] have b: "bb_inv ?b" "bb_view ?b = sample_head"
    using Append_spec [of "ByteBuffer_new 16" sample_head] by (simp_all del: length_append)
  have n: "nat_to_string 3 = ''3''" by code_simp
  have "header_map ?hs ''content-length'' = Some (nat_to_string 3)"
    "header_map ?hs ''transfer-encoding'' = None" "\<forall>h \<in> set ?hs. header_ok h"
    unfolding n by code_simp+
  with parse_render_roundtrip [of PUT "''/buckets/b/objects/k?x=1''" ?hs 3 ?b "''abc''"] b
  show ?thesis by (auto simp: sample_head_def)
qed

end
