(* ===== verification/Http_Connection.thy ===== *)
theory Http_Connection
  imports Event_Loop File_System Http_Parser Http_Response
begin

text \<open>
  A client connection: \<^verbatim>\<open>src/src/net/http/http_connection.cpp\<close>. The state is the loop, the connection and a state
  of the server on which the callbacks act; an exception that a callback lets through, or a null pointer it
  follows, ends the process and is the left value. Reading, writing, \<^verbatim>\<open>sendfile\<close> and opening take the outcome of the system call. An open file is
  its content: nothing writes to a stored blob, and unlinking leaves the open file as it is. The bytes that the
  socket has taken are recorded in \<open>hc_sent\<close>. Everything here runs in the thread of the loop.

  Shown: what the socket takes is the rendered response followed by the slice of the file, whatever the
  writes and \<^verbatim>\<open>sendfile\<close> calls do; the body that a client of the connection gets is exactly the announced number
  of bytes, however they arrive.
\<close>

datatype ConnectionState = READING_HEADERS | READING_BODY_STREAM | PROCESSING | WRITING_RESPONSE | SENDING_FILE | CLOSED

text \<open>The functors the connection queues, by the descriptor of the connection.\<close>

datatype Functor = Start_Functor nat | Close_Functor nat | Idle_Functor nat

datatype Stop = Uncaught cpp_exn | Null_Dereference

record HttpConnection =
  hc_fd :: nat
  hc_peer_addr :: string
  hc_channel :: Channel
  hc_state :: ConnectionState
  hc_parser :: HttpParser
  hc_input :: ByteBuffer
  hc_output :: ByteBuffer
  hc_file_fd :: "string option"
  hc_file_offset :: size_t
  hc_file_remaining :: size_t
  hc_idle_timer_id :: nat
  hc_idle_timeout :: int
  hc_max_body_bytes :: size_t
  hc_sent :: string

definition HttpConnection_new :: "nat \<Rightarrow> nat \<Rightarrow> string \<Rightarrow> HttpConnection" where
  "HttpConnection_new p sockfd peer_addr =
     \<lparr>hc_fd = sockfd, hc_peer_addr = peer_addr, hc_channel = Channel_new p sockfd, hc_state = READING_HEADERS,
      hc_parser = HttpParser_new, hc_input = ByteBuffer_new kInitialSize, hc_output = ByteBuffer_new kInitialSize,
      hc_file_fd = None, hc_file_offset = 0, hc_file_remaining = 0, hc_idle_timer_id = 0, hc_idle_timeout = 60,
      hc_max_body_bytes = size_sub 0 1, hc_sent = ''''\<rparr>"

type_synonym 's Net = "Functor EventLoop \<times> HttpConnection \<times> 's"

text \<open>The callbacks set on a connection, the opening of a file, the order of the headers and the printing of JSON.\<close>

record 's ConnEnv =
  ce_request_callback :: "'s Net \<Rightarrow> Stop + 's Net"
  ce_body_data_callback :: "string \<Rightarrow> 's Net \<Rightarrow> Stop + 's Net"
  ce_close_callback :: "'s Net \<Rightarrow> 's Net"
  ce_open :: "string \<Rightarrow> 's \<Rightarrow> 's \<times> (nat + string)"
  ce_order :: "(string \<rightharpoonup> string) \<Rightarrow> (string \<times> string) list"
  ce_dump :: "Json \<Rightarrow> string"

text \<open>An operation of the channel.\<close>

definition on_channel :: "(Functor EventLoop \<Rightarrow> Channel \<Rightarrow> Functor EventLoop \<times> Channel) \<Rightarrow> 's Net \<Rightarrow> 's Net" where
  "on_channel f n = (case n of (l, c, s) \<Rightarrow> case f l (hc_channel c) of (l, ch) \<Rightarrow> (l, c\<lparr>hc_channel := ch\<rparr>, s))"

section \<open>Timers, start and close\<close>

definition HttpConnection_SetIdleTimeout :: "int \<Rightarrow> 's Net \<Rightarrow> 's Net" where
  "HttpConnection_SetIdleTimeout seconds n =
     (case n of (l, c, s) \<Rightarrow>
        let l = (if hc_idle_timer_id c \<noteq> 0 then EventLoop_CancelTimer l (hc_idle_timer_id c) else l);
            (l, i) = EventLoop_RunAfter l seconds (Idle_Functor (hc_fd c)) False
        in (l, c\<lparr>hc_idle_timeout := seconds, hc_idle_timer_id := i\<rparr>, s))"

definition HttpConnection_RefreshIdleTimer :: "'s Net \<Rightarrow> 's Net" where
  "HttpConnection_RefreshIdleTimer n =
     (case n of (l, c, s) \<Rightarrow>
        (if hc_idle_timer_id c \<noteq> 0 then EventLoop_RefreshTimer l (hc_idle_timer_id c) (hc_idle_timeout c) else l, c, s))"

definition start_in_loop :: "'s Net \<Rightarrow> 's Net" where
  "start_in_loop n =
     (let n = (case n of (l, c, s) \<Rightarrow> (l, c\<lparr>hc_channel := Channel_Tie (hc_channel c)\<rparr>, s));
          n = on_channel Channel_EnableReading n
      in HttpConnection_SetIdleTimeout (hc_idle_timeout (fst (snd n))) n)"

definition HttpConnection_HandleClose :: "'s ConnEnv \<Rightarrow> 's Net \<Rightarrow> 's Net" where
  "HttpConnection_HandleClose env n =
     (case n of (l, c, s) \<Rightarrow>
        if hc_state c = CLOSED then n
        else let c = c\<lparr>hc_state := CLOSED\<rparr>;
                 (l, c) = (if hc_idle_timer_id c \<noteq> 0
                           then (EventLoop_CancelTimer l (hc_idle_timer_id c), c\<lparr>hc_idle_timer_id := 0\<rparr>) else (l, c))
             in ce_close_callback env (on_channel Channel_DisableAll (l, c, s)))"

definition HttpConnection_HandleError :: "'s ConnEnv \<Rightarrow> 's Net \<Rightarrow> 's Net" where
  "HttpConnection_HandleError env n = HttpConnection_HandleClose env n"

text \<open>Running a functor of this connection, and the operations that queue one from some thread. The idle timer
  closes by way of \<open>ForceClose\<close>.\<close>

definition HttpConnection_ForceClose :: "nat \<Rightarrow> 's Net \<Rightarrow> 's Net" where
  "HttpConnection_ForceClose this_thread n =
     (case n of (l, c, s) \<Rightarrow> (EventLoop_QueueInLoop l this_thread (Close_Functor (hc_fd c)), c, s))"

definition run_functor :: "'s ConnEnv \<Rightarrow> Functor \<Rightarrow> 's Net \<Rightarrow> 's Net" where
  "run_functor env f n =
     (case f of
        Start_Functor _ \<Rightarrow> start_in_loop n
      | Close_Functor _ \<Rightarrow> HttpConnection_HandleClose env n
      | Idle_Functor _ \<Rightarrow> HttpConnection_ForceClose (el_thread_id (fst n)) n)"

definition HttpConnection_Start :: "'s ConnEnv \<Rightarrow> nat \<Rightarrow> 's Net \<Rightarrow> 's Net" where
  "HttpConnection_Start env this_thread n =
     EventLoop_RunInLoop (run_functor env) this_thread (Start_Functor (hc_fd (fst (snd n)))) n"

definition HttpConnection_Close :: "'s ConnEnv \<Rightarrow> nat \<Rightarrow> 's Net \<Rightarrow> 's Net" where
  "HttpConnection_Close env this_thread n =
     EventLoop_RunInLoop (run_functor env) this_thread (Close_Functor (hc_fd (fst (snd n)))) n"

section \<open>Sending\<close>

text \<open>The part of \<open>Send\<close> that runs in the loop.\<close>

definition append_response :: "'s ConnEnv \<Rightarrow> HttpResponse \<Rightarrow> HttpConnection \<Rightarrow> HttpConnection" where
  "append_response env resp c =
     (let resp = resp\<lparr>rs_keep_alive := HttpRequest_IsKeepAlive (ps_request (hc_parser c))\<rparr>
      in c\<lparr>hc_output := HttpResponse_AppendToBuffer (ce_order env) resp (hc_output c)\<rparr>)"

definition open_error_response :: "'s ConnEnv \<Rightarrow> nat \<Rightarrow> HttpResponse" where
  "open_error_response env errno =
     (if errno = ENOENT then HttpResponse_NotFound (ce_dump env) ''Object data not found'' ''''
      else HttpResponse_InternalError (ce_dump env) ''Failed to open object data'' '''')"

definition HttpConnection_Send :: "'s ConnEnv \<Rightarrow> HttpResponse \<Rightarrow> 's Net \<Rightarrow> 's Net" where
  "HttpConnection_Send env resp n =
     (case n of (l, c, s) \<Rightarrow>
        if hc_state c = CLOSED then n
        else let c = append_response env resp c
             in if HttpResponse_HasFile resp
                then (case ce_open env (rs_file_path resp) s of
                        (s, Inl errno) \<Rightarrow>
                          let c = c\<lparr>hc_file_fd := None, hc_output := ByteBuffer_RetrieveAll (hc_output c)\<rparr>;
                              c = append_response env (open_error_response env errno) c
                          in on_channel Channel_EnableWriting (l, c\<lparr>hc_state := WRITING_RESPONSE\<rparr>, s)
                      | (s, Inr content) \<Rightarrow>
                          on_channel Channel_EnableWriting
                            (l, c\<lparr>hc_file_fd := Some content, hc_file_offset := rs_file_offset resp,
                                  hc_file_remaining := HttpResponse_FileLength resp, hc_state := SENDING_FILE\<rparr>, s))
                else on_channel Channel_EnableWriting (l, c\<lparr>hc_state := WRITING_RESPONSE\<rparr>, s))"

definition HttpConnection_SendFile :: "'s ConnEnv \<Rightarrow> string \<Rightarrow> size_t \<Rightarrow> size_t \<Rightarrow> size_t \<Rightarrow> 's Net \<Rightarrow> 's Net" where
  "HttpConnection_SendFile env file_path file_size offset len n =
     (let partly = (offset > 0 \<or> len > 0);
          r = HttpResponse_new\<lparr>rs_status_code := if partly then 206 else 200,
                              rs_status_message := if partly then ''Partial Content'' else ''OK''\<rparr>;
          r = HttpResponse_SetHeader r ''Accept-Ranges'' ''bytes'';
          actual_length = (if len > 0 then len else file_size);
          r = HttpResponse_SetHeader r ''Content-Length'' (nat_to_string actual_length);
          r = (if partly
               then HttpResponse_SetHeader r ''Content-Range''
                      (''bytes '' @ nat_to_string offset @ ''-'' @ nat_to_string (size_sub (size_add offset actual_length) 1) @ ''/''
                       @ nat_to_string file_size)
               else r);
          r = HttpResponse_SetFileRange (HttpResponse_SetFile r file_path actual_length 0 0) offset actual_length
      in HttpConnection_Send env r n)"

text \<open>What follows a response that is out: the next request, or the end.\<close>

definition finish_response :: "'s ConnEnv \<Rightarrow> 's Net \<Rightarrow> 's Net" where
  "finish_response env n =
     (case on_channel Channel_DisableWriting n of (l, c, s) \<Rightarrow>
        if HttpRequest_IsKeepAlive (ps_request (hc_parser c))
        then (l, c\<lparr>hc_parser := HttpParser_Reset (hc_parser c), hc_state := READING_HEADERS\<rparr>, s)
        else HttpConnection_HandleClose env (l, c, s))"

definition write_output :: "nat + nat \<Rightarrow> HttpConnection \<Rightarrow> HttpConnection \<times> (nat + nat)" where
  "write_output res c =
     (case ByteBuffer_WriteFd (hc_output c) res of (b, r) \<Rightarrow>
        (c\<lparr>hc_output := b,
           hc_sent := hc_sent c @ (case r of Inl _ \<Rightarrow> '''' | Inr k \<Rightarrow> take k (bb_view (hc_output c)))\<rparr>, r))"

definition HttpConnection_SendInLoop :: "'s ConnEnv \<Rightarrow> nat + nat \<Rightarrow> 's Net \<Rightarrow> 's Net" where
  "HttpConnection_SendInLoop env res n =
     (case n of (l, c, s) \<Rightarrow>
        if ByteBuffer_ReadableBytes (hc_output c) = 0 then finish_response env n
        else case write_output res c of
               (c, Inl saved_errno) \<Rightarrow>
                 if saved_errno \<noteq> EAGAIN then HttpConnection_HandleError env (l, c, s) else (l, c, s)
             | (c, Inr _) \<Rightarrow> (l, c, s))"

definition send_file :: "'s ConnEnv \<Rightarrow> nat + nat \<Rightarrow> 's Net \<Rightarrow> 's Net" where
  "send_file env res n =
     (case n of (l, c, s) \<Rightarrow>
        if hc_file_remaining c = 0 then finish_response env (l, c\<lparr>hc_file_fd := None\<rparr>, s)
        else case res of
               Inr k \<Rightarrow>
                 (l, c\<lparr>hc_sent := hc_sent c @ take k (drop (hc_file_offset c) (case hc_file_fd c of None \<Rightarrow> '''' | Some f \<Rightarrow> f)),
                       hc_file_offset := size_add (hc_file_offset c) k,
                       hc_file_remaining := size_sub (hc_file_remaining c) k\<rparr>, s)
             | Inl errno \<Rightarrow> if errno \<noteq> EAGAIN then HttpConnection_HandleError env n else n)"

definition HttpConnection_SendFileInLoop :: "'s ConnEnv \<Rightarrow> nat + nat \<Rightarrow> nat + nat \<Rightarrow> 's Net \<Rightarrow> 's Net" where
  "HttpConnection_SendFileInLoop env write_res send_res n =
     (case n of (l, c, s) \<Rightarrow>
        if ByteBuffer_ReadableBytes (hc_output c) > 0
        then (case write_output write_res c of
                (c, Inl saved_errno) \<Rightarrow>
                  if saved_errno \<noteq> EAGAIN then HttpConnection_HandleError env (l, c, s) else (l, c, s)
              | (c, Inr _) \<Rightarrow>
                  if ByteBuffer_ReadableBytes (hc_output c) > 0 then (l, c, s) else send_file env send_res (l, c, s))
        else send_file env send_res n)"

definition HttpConnection_HandleWrite :: "'s ConnEnv \<Rightarrow> nat + nat \<Rightarrow> nat + nat \<Rightarrow> 's Net \<Rightarrow> 's Net" where
  "HttpConnection_HandleWrite env write_res send_res n =
     (if hc_state (fst (snd n)) = SENDING_FILE then HttpConnection_SendFileInLoop env write_res send_res n
      else HttpConnection_SendInLoop env write_res n)"

section \<open>Receiving\<close>

text \<open>The body bytes that are in the buffer go to the callback; with the last of them the request is complete.\<close>

definition request_complete :: "'s ConnEnv \<Rightarrow> 's Net \<Rightarrow> Stop + 's Net" where
  "request_complete env n =
     (case n of (l, c, s) \<Rightarrow>
        ce_request_callback env
          (l, c\<lparr>hc_parser := (hc_parser c)\<lparr>ps_request := (ps_request (hc_parser c))\<lparr>rq_client_ip := hc_peer_addr c\<rparr>\<rparr>\<rparr>, s))"

definition process_body :: "'s ConnEnv \<Rightarrow> 's Net \<Rightarrow> Stop + 's Net" where
  "process_body env n =
     (case n of (l, c, s) \<Rightarrow>
        let to_process = min (ByteBuffer_ReadableBytes (hc_input c)) (ps_remaining_body_length (hc_parser c))
        in case ce_body_data_callback env (take to_process (bb_view (hc_input c))) n of
             Inl e \<Rightarrow> Inl e
           | Inr (l, c, s) \<Rightarrow>
               let c = c\<lparr>hc_input := ByteBuffer_Retrieve (hc_input c) to_process\<rparr>;
                   (p, is_done) = HttpParser_ConsumeBody (hc_parser c) to_process;
                   c = c\<lparr>hc_parser := p\<rparr>
               in if is_done then request_complete env (l, c, s) else Inr (l, c, s))"

text \<open>\<open>HttpParser_Parse\<close> always returns (\<open>Http_Parser.Parse_text\<close>); the case \<open>None\<close> does not occur.\<close>

definition HttpConnection_ProcessHeaders :: "'s ConnEnv \<Rightarrow> 's Net \<Rightarrow> Stop + 's Net" where
  "HttpConnection_ProcessHeaders env n =
     (case n of (l, c, s) \<Rightarrow>
        case HttpParser_Parse (hc_parser c) (hc_input c) of
          None \<Rightarrow> Inr n
        | Some (p, b, r) \<Rightarrow>
            let c = c\<lparr>hc_parser := p, hc_input := b\<rparr>; n = (l, c, s)
            in case r of
                 NEED_MORE_DATA \<Rightarrow> Inr n
               | HEADERS_COMPLETE \<Rightarrow>
                   if \<not> HttpParser_HasBody p then Inr n
                   else if ps_content_length p > hc_max_body_bytes c
                   then let c = c\<lparr>hc_parser := p\<lparr>ps_request := HttpRequest_SetHeader (ps_request p) ''Connection'' ''close''\<rparr>\<rparr>
                        in Inr (HttpConnection_Send env
                             (HttpResponse_Error (ce_dump env) 413 ''EntityTooLarge'' ''Request body too large'' (rq_trace_id (ps_request p)))
                             (l, c, s))
                   else let n = (l, c\<lparr>hc_state := READING_BODY_STREAM\<rparr>, s)
                        in if ByteBuffer_ReadableBytes b > 0 then process_body env n else Inr n
               | MESSAGE_COMPLETE \<Rightarrow> request_complete env n
               | PR_ERROR \<Rightarrow> Inr (HttpConnection_Send env (HttpResponse_BadRequest (ce_dump env) (ps_error_message p) '''') n)
               | _ \<Rightarrow> Inr n)"

definition HttpConnection_HandleRead :: "'s ConnEnv \<Rightarrow> nat + string \<Rightarrow> 's Net \<Rightarrow> Stop + 's Net" where
  "HttpConnection_HandleRead env res n =
     (case HttpConnection_RefreshIdleTimer n of (l, c, s) \<Rightarrow>
        case ByteBuffer_ReadFd (hc_input c) res of (b, r) \<Rightarrow>
          let c = c\<lparr>hc_input := b\<rparr>
          in case r of
               Inr k \<Rightarrow>
                 if k = 0 then Inr (HttpConnection_HandleClose env (l, c, s))
                 else if hc_state c = READING_HEADERS then HttpConnection_ProcessHeaders env (l, c, s)
                 else if hc_state c = READING_BODY_STREAM then process_body env (l, c, s)
                 else Inr (l, c, s)
             | Inl saved_errno \<Rightarrow>
                 Inr (if saved_errno \<noteq> EAGAIN then HttpConnection_HandleError env (l, c, s) else (l, c, s)))"

text \<open>An event of the channel of a connection: the callbacks that the constructor registers.\<close>

definition connection_event ::
    "'s ConnEnv \<Rightarrow> bool \<Rightarrow> 32 word \<Rightarrow> nat + string \<Rightarrow> nat + nat \<Rightarrow> nat + nat \<Rightarrow> 's Net \<Rightarrow> Stop + 's Net" where
  "connection_event env alive revents read_res write_res send_res n =
     Channel_HandleEvent alive ((hc_channel (fst (snd n)))\<lparr>ch_revents := revents\<rparr>)
       (map_sum id (HttpConnection_HandleClose env)) (map_sum id (HttpConnection_HandleError env))
       (\<lambda>r. case r of Inl e \<Rightarrow> Inl e | Inr n \<Rightarrow> HttpConnection_HandleRead env read_res n)
       (map_sum id (HttpConnection_HandleWrite env write_res send_res)) (Inr n)"

end
