(* ===== verification/Connection_Theorems.thy ===== *)
theory Connection_Theorems
  imports Http_Connection
begin

text \<open>
  The output of a connection. While a response is on its way, what the socket has taken followed by what is still
  owed (the output buffer and the rest of the file slice) is the whole response; the connection leaves this
  phase for the next request only when nothing is owed.
\<close>

section \<open>Writing\<close>

text \<open>The callback for a closed connection leaves the connection object alone, as the one of the server does.\<close>

definition closes_only :: "'s ConnEnv \<Rightarrow> bool" where
  "closes_only env \<longleftrightarrow> (\<forall>n. fst (snd (ce_close_callback env n)) = fst (snd n))"

text \<open>\<open>S\<close> is the whole of what the socket is to take.\<close>

definition sends :: "string \<Rightarrow> HttpConnection \<Rightarrow> bool" where
  "sends S c \<longleftrightarrow>
     bb_inv (hc_output c) \<and>
     (case hc_state c of
        WRITING_RESPONSE \<Rightarrow> hc_sent c @ bb_view (hc_output c) = S
      | SENDING_FILE \<Rightarrow>
          (\<exists>f. hc_file_fd c = Some f \<and> hc_file_offset c + hc_file_remaining c \<le> length f \<and> length f < size_bound \<and>
             hc_sent c @ bb_view (hc_output c) @ take (hc_file_remaining c) (drop (hc_file_offset c) f) = S)
      | READING_HEADERS \<Rightarrow> hc_sent c = S
      | CLOSED \<Rightarrow> prefix (hc_sent c) S
      | _ \<Rightarrow> False)"

definition busy :: "HttpConnection \<Rightarrow> bool" where
  "busy c \<longleftrightarrow> hc_state c = WRITING_RESPONSE \<or> hc_state c = SENDING_FILE"

text \<open>The bytes still owed.\<close>

definition owed :: "HttpConnection \<Rightarrow> nat" where
  "owed c = length (bb_view (hc_output c)) + (if hc_state c = SENDING_FILE then hc_file_remaining c else 0)"

text \<open>Outcomes that the system calls can have: not more bytes than asked for.\<close>

definition io_possible :: "HttpConnection \<Rightarrow> nat + nat \<Rightarrow> nat + nat \<Rightarrow> bool" where
  "io_possible c write_res send_res \<longleftrightarrow>
     (\<forall>k. write_res = Inr k \<longrightarrow> k \<le> length (bb_view (hc_output c))) \<and> (\<forall>k. send_res = Inr k \<longrightarrow> k \<le> hc_file_remaining c)"

lemma on_channel_conn: "\<exists>ch. fst (snd (on_channel f (l, c, s))) = c\<lparr>hc_channel := ch\<rparr>"
  by (auto simp: on_channel_def split: prod.splits)

lemma HandleClose_conn:
  assumes "closes_only env" "HttpConnection_HandleClose env (l, c, s) = (l', c', s')"
  shows "hc_state c' = CLOSED \<and> hc_sent c' = hc_sent c \<and> hc_output c' = hc_output c"
proof (cases "hc_state c = CLOSED")
  case False
  let ?c = "c\<lparr>hc_state := CLOSED\<rparr>"
  obtain l1 c1 where lc: "(if hc_idle_timer_id ?c \<noteq> 0 then (EventLoop_CancelTimer l (hc_idle_timer_id ?c), ?c\<lparr>hc_idle_timer_id := 0\<rparr>) else (l, ?c)) = (l1, c1)"
    by (rule that [OF prod.collapse [symmetric]])
  have c1: "hc_state c1 = CLOSED" "hc_sent c1 = hc_sent c" "hc_output c1 = hc_output c" using lc by (auto split: if_splits)
  have "(l', c', s') = ce_close_callback env (on_channel Channel_DisableAll (l1, c1, s))"
    using assms(2) False lc by (auto simp: HttpConnection_HandleClose_def Let_def split: if_splits)
  then have "c' = fst (snd (on_channel Channel_DisableAll (l1, c1, s)))"
    using assms(1) by (metis closes_only_def fst_conv snd_conv)
  with on_channel_conn [of Channel_DisableAll l1 c1 s] c1 show ?thesis by auto
qed (use assms(2) in \<open>simp add: HttpConnection_HandleClose_def\<close>)

lemma HandleClose_sends:
  assumes "closes_only env" "bb_inv (hc_output c)" "prefix (hc_sent c) S"
  shows "sends S (fst (snd (HttpConnection_HandleClose env (l, c, s)))) \<and> \<not> busy (fst (snd (HttpConnection_HandleClose env (l, c, s)))) \<and>
    hc_sent (fst (snd (HttpConnection_HandleClose env (l, c, s)))) = hc_sent c"
proof -
  obtain l' c' s' where h: "HttpConnection_HandleClose env (l, c, s) = (l', c', s')" using prod_cases3 by blast
  show ?thesis using HandleClose_conn [OF assms(1) h] assms(2,3) by (simp add: h sends_def busy_def)
qed

lemma finish_sends:
  assumes "closes_only env" "bb_inv (hc_output c)" "hc_sent c = S"
  shows "sends S (fst (snd (finish_response env (l, c, s)))) \<and> \<not> busy (fst (snd (finish_response env (l, c, s)))) \<and>
    hc_sent (fst (snd (finish_response env (l, c, s)))) = S"
proof -
  obtain l' ch s' where d: "on_channel Channel_DisableWriting (l, c, s) = (l', c\<lparr>hc_channel := ch\<rparr>, s')"
    using on_channel_conn [of Channel_DisableWriting l c s] by (metis prod.collapse)
  show ?thesis
    using HandleClose_sends [OF assms(1), of "c\<lparr>hc_channel := ch\<rparr>" S l' s'] assms(2,3)
    by (auto simp: finish_response_def d sends_def busy_def)
qed

text \<open>One event. With outcomes of at least one byte, the bytes owed get fewer or the phase ends with everything
  taken.\<close>

definition progresses :: "string \<Rightarrow> HttpConnection \<Rightarrow> nat + nat \<Rightarrow> nat + nat \<Rightarrow> HttpConnection \<Rightarrow> bool" where
  "progresses S c write_res send_res c' \<longleftrightarrow>
     sends S c' \<and>
     ((\<forall>k. write_res = Inr k \<longrightarrow> bb_view (hc_output c) \<noteq> [] \<longrightarrow> 0 < k) \<and> (\<exists>k. write_res = Inr k) \<and>
      (\<forall>k. send_res = Inr k \<longrightarrow> hc_file_remaining c \<noteq> 0 \<longrightarrow> 0 < k) \<and> (\<exists>k. send_res = Inr k) \<longrightarrow>
        (if busy c' then owed c' < owed c else hc_sent c' = S))"

lemma write_output_eq:
  "write_output (Inl e) c = (c, Inl e)"
  "write_output (Inr k) c = (c\<lparr>hc_output := ByteBuffer_Retrieve (hc_output c) k, hc_sent := hc_sent c @ take k (bb_view (hc_output c))\<rparr>, Inr k)"
  by (simp_all add: write_output_def ByteBuffer_WriteFd_def)

lemma send_in_loop_progress:
  assumes env: "closes_only env" and c: "sends S c" "hc_state c = WRITING_RESPONSE" and io: "io_possible c w f"
  shows "progresses S c w f (fst (snd (HttpConnection_SendInLoop env w (l, c, s))))"
proof -
  have inv: "bb_inv (hc_output c)" and S: "hc_sent c @ bb_view (hc_output c) = S" using c by (simp_all add: sends_def)
  note rd = readable_view [OF inv]
  show ?thesis
  proof (cases "bb_view (hc_output c) = []")
    case True
    with finish_sends [OF env inv, of S l s] S rd show ?thesis
      by (auto simp: HttpConnection_SendInLoop_def progresses_def)
  next
    case False
    show ?thesis
    proof (cases w)
      case (Inl e)
      have "prefix (hc_sent c) S" using S by auto
      with HandleClose_sends [OF env inv, of S l s] c False Inl rd show ?thesis
        by (auto simp: HttpConnection_SendInLoop_def progresses_def write_output_eq HttpConnection_HandleError_def)
    next
      case (Inr k)
      with False rd c S inv show ?thesis
        by (auto simp: HttpConnection_SendInLoop_def progresses_def write_output_eq sends_def busy_def owed_def Retrieve_inv Retrieve_view)
    qed
  qed
qed

lemma send_file_progress:
  assumes env: "closes_only env" and c: "sends S c" "hc_state c = SENDING_FILE" "bb_view (hc_output c) = []"
    and f: "\<forall>k. f = Inr k \<longrightarrow> k \<le> hc_file_remaining c"
  shows "sends S (fst (snd (send_file env f (l, c, s))))"
    and "f = Inr k \<Longrightarrow> hc_file_remaining c \<noteq> 0 \<longrightarrow> 0 < k \<Longrightarrow>
      if busy (fst (snd (send_file env f (l, c, s)))) then owed (fst (snd (send_file env f (l, c, s)))) < owed c
      else hc_sent (fst (snd (send_file env f (l, c, s)))) = S"
proof -
  obtain t where inv: "bb_inv (hc_output c)" and t: "hc_file_fd c = Some t" "hc_file_offset c + hc_file_remaining c \<le> length t" "length t < size_bound"
    and S: "hc_sent c @ take (hc_file_remaining c) (drop (hc_file_offset c) t) = S" using c by (auto simp: sends_def)
  let ?n = "send_file env f (l, c, s)"
  have "sends S (fst (snd ?n)) \<and> (\<forall>k. f = Inr k \<and> (hc_file_remaining c \<noteq> 0 \<longrightarrow> 0 < k) \<longrightarrow>
      (if busy (fst (snd ?n)) then owed (fst (snd ?n)) < owed c else hc_sent (fst (snd ?n)) = S))"
  proof (cases "hc_file_remaining c = 0")
    case True
    with finish_sends [OF env, of "c\<lparr>hc_file_fd := None\<rparr>" S l s] inv S show ?thesis by (simp add: send_file_def)
  next
    case rem: False
    show ?thesis
    proof (cases f)
      case (Inl e)
      have "prefix (hc_sent c) S" using S by auto
      with HandleClose_sends [OF env inv, of S l s] c(1) Inl rem show ?thesis
        by (auto simp: send_file_def HttpConnection_HandleError_def)
    next
      case (Inr k)
      let ?d = "drop (hc_file_offset c) t" and ?r = "hc_file_remaining c"
      have k: "k \<le> ?r" using f Inr by simp
      have "take k ?d @ take (?r - k) (drop k ?d) = take ?r ?d" using take_add [of k "?r - k" ?d] k by simp
      moreover have "size_add (hc_file_offset c) k = hc_file_offset c + k" "size_sub ?r k = ?r - k" using k t by simp_all
      ultimately show ?thesis using Inr rem c t S inv k
        by (auto simp: send_file_def sends_def busy_def owed_def add.commute)
    qed
  qed
  then show "sends S (fst (snd ?n))" and "f = Inr k \<Longrightarrow> hc_file_remaining c \<noteq> 0 \<longrightarrow> 0 < k \<Longrightarrow>
      if busy (fst (snd ?n)) then owed (fst (snd ?n)) < owed c else hc_sent (fst (snd ?n)) = S" by blast+
qed

lemma send_file_in_loop_progress:
  assumes env: "closes_only env" and c: "sends S c" "hc_state c = SENDING_FILE" and io: "io_possible c w f"
  shows "progresses S c w f (fst (snd (HttpConnection_SendFileInLoop env w f (l, c, s))))"
proof (cases "bb_view (hc_output c) = []")
  case True
  then have "HttpConnection_SendFileInLoop env w f (l, c, s) = send_file env f (l, c, s)"
    using c by (simp add: HttpConnection_SendFileInLoop_def sends_def readable_view)
  with send_file_progress [OF env c True, where f = f and l = l and s = s] io show ?thesis by (auto simp: progresses_def io_possible_def)
next
  case False
  have inv: "bb_inv (hc_output c)" using c(1) by (simp add: sends_def)
  note rd = readable_view [OF inv]
  show ?thesis
  proof (cases w)
    case (Inl e)
    have "prefix (hc_sent c) S" using c by (auto simp: sends_def)
    with HandleClose_sends [OF env inv, of S l s] c False Inl rd show ?thesis
      by (auto simp: HttpConnection_SendFileInLoop_def progresses_def write_output_eq HttpConnection_HandleError_def)
  next
    case (Inr k)
    let ?c = "c\<lparr>hc_output := ByteBuffer_Retrieve (hc_output c) k, hc_sent := hc_sent c @ take k (bb_view (hc_output c))\<rparr>"
    have b: "bb_inv (hc_output ?c)" "bb_view (hc_output ?c) = drop k (bb_view (hc_output c))" using inv by (simp_all add: Retrieve_inv Retrieve_view)
    have c': "sends S ?c" "hc_state ?c = SENDING_FILE" using c b by (auto simp: sends_def)
    have o': "owed ?c = owed c - k" if "k \<le> length (bb_view (hc_output c))" using b that c(2) by (auto simp: owed_def)
    show ?thesis
    proof (cases "drop k (bb_view (hc_output c)) = []")
      case all: True
      then have "HttpConnection_SendFileInLoop env w f (l, c, s) = send_file env f (l, ?c, s)"
        using False Inr rd b by (simp add: HttpConnection_SendFileInLoop_def write_output_eq readable_view)
      with send_file_progress [OF env c', where f = f and l = l and s = s] all b io o' Inr show ?thesis
        by (fastforce simp: progresses_def io_possible_def split: if_splits)
    next
      case more: False
      then have "HttpConnection_SendFileInLoop env w f (l, c, s) = (l, ?c, s)"
        using False Inr rd b by (simp add: HttpConnection_SendFileInLoop_def write_output_eq readable_view)
      then show ?thesis using c' b c(2) more Inr False by (auto simp: progresses_def busy_def owed_def)
    qed
  qed
qed

lemma HandleWrite_progress:
  assumes "closes_only env" "sends S c" "busy c" "io_possible c w f"
  shows "progresses S c w f (fst (snd (HttpConnection_HandleWrite env w f (l, c, s))))"
  using assms send_file_in_loop_progress [of env S c w f l s] send_in_loop_progress [of env S c w f l s]
  by (auto simp: HttpConnection_HandleWrite_def busy_def)

section \<open>A whole response\<close>

definition rendered :: "'s ConnEnv \<Rightarrow> HttpConnection \<Rightarrow> HttpResponse \<Rightarrow> string" where
  "rendered env c resp =
     render_response (ce_order env) (resp\<lparr>rs_keep_alive := HttpRequest_IsKeepAlive (ps_request (hc_parser c))\<rparr>)"

text \<open>What the client is to receive: the rendered response and the slice of the file, or the answer that the data
  is missing.\<close>

definition response_bytes :: "'s ConnEnv \<Rightarrow> HttpConnection \<Rightarrow> HttpResponse \<Rightarrow> 's \<Rightarrow> string" where
  "response_bytes env c resp s =
     (if HttpResponse_HasFile resp
      then case snd (ce_open env (rs_file_path resp) s) of
             Inl e \<Rightarrow> rendered env c (open_error_response env e)
           | Inr t \<Rightarrow> rendered env c resp @ take (HttpResponse_FileLength resp) (drop (rs_file_offset resp) t)
      else rendered env c resp)"

text \<open>The connection is free to answer: it is open and its output buffer is empty and has room, and the slice lies
  inside the file.\<close>

definition can_answer :: "'s ConnEnv \<Rightarrow> HttpConnection \<Rightarrow> HttpResponse \<Rightarrow> 's \<Rightarrow> bool" where
  "can_answer env c resp s \<longleftrightarrow>
     hc_state c \<noteq> CLOSED \<and> bb_inv (hc_output c) \<and> bb_view (hc_output c) = [] \<and>
     (case snd (ce_open env (rs_file_path resp) s) of
        Inl e \<Rightarrow> bb_room (hc_output c) (length (rendered env c resp) + length (rendered env c (open_error_response env e)))
      | Inr t \<Rightarrow> bb_room (hc_output c) (length (rendered env c resp)) \<and> length t < size_bound \<and>
                 rs_file_offset resp + HttpResponse_FileLength resp \<le> length t)"

lemma append_response_spec:
  assumes "bb_inv (hc_output c)" "bb_room (hc_output c) (length (rendered env c resp))"
  shows "bb_inv (hc_output (append_response env resp c))"
    "bb_view (hc_output (append_response env resp c)) = bb_view (hc_output c) @ rendered env c resp"
    "length (bb_buffer (hc_output (append_response env resp c))) \<le> length (bb_buffer (hc_output c)) + length (rendered env c resp)"
  using Append_spec [OF assms] by (simp_all add: append_response_def rendered_def HttpResponse_AppendToBuffer_def)

lemma append_response_fields [simp]:
  "hc_state (append_response env r c) = hc_state c" "hc_sent (append_response env r c) = hc_sent c"
  "hc_parser (append_response env r c) = hc_parser c"
  by (simp_all add: append_response_def)

lemma RetrieveAll_buffer [simp]: "bb_buffer (ByteBuffer_RetrieveAll b) = bb_buffer b"
  by (simp add: ByteBuffer_RetrieveAll_def)

lemma rendered_parser: "hc_parser c' = hc_parser c \<Longrightarrow> rendered env c' r = rendered env c r"
  by (simp add: rendered_def)

lemma Send_sends:
  assumes c: "can_answer env c resp s" and S: "S = hc_sent c @ response_bytes env c resp s"
  shows "sends S (fst (snd (HttpConnection_Send env resp (l, c, s)))) \<and> busy (fst (snd (HttpConnection_Send env resp (l, c, s)))) \<and>
    hc_sent (fst (snd (HttpConnection_Send env resp (l, c, s)))) = hc_sent c"
proof -
  have o: "hc_state c \<noteq> CLOSED" "bb_inv (hc_output c)" "bb_view (hc_output c) = []" using c by (simp_all add: can_answer_def)
  obtain s' q where op: "ce_open env (rs_file_path resp) s = (s', q)" by (rule that [OF prod.collapse [symmetric]])
  let ?a = "append_response env resp c"
  have room: "bb_room (hc_output c) (length (rendered env c resp))"
    using c op by (cases q) (auto simp: can_answer_def bb_room_def)
  note a = append_response_spec [OF o(2) room]
  have ch: "\<exists>x. fst (snd (on_channel Channel_EnableWriting (l, d, t))) = d\<lparr>hc_channel := x\<rparr>" for d t by (rule on_channel_conn)
  show ?thesis
  proof (cases "HttpResponse_HasFile resp")
    case False
    with ch [of "?a\<lparr>hc_state := WRITING_RESPONSE\<rparr>" s] o a S show ?thesis
      by (auto simp: HttpConnection_Send_def sends_def busy_def response_bytes_def)
  next
    case True
    show ?thesis
    proof (cases q)
      case (Inr t)
      with True op c ch [of "?a\<lparr>hc_file_fd := Some t, hc_file_offset := rs_file_offset resp,
          hc_file_remaining := HttpResponse_FileLength resp, hc_state := SENDING_FILE\<rparr>" s'] o a S show ?thesis
        by (auto simp: HttpConnection_Send_def sends_def busy_def response_bytes_def can_answer_def)
    next
      case (Inl e)
      let ?b = "?a\<lparr>hc_file_fd := None, hc_output := ByteBuffer_RetrieveAll (hc_output ?a)\<rparr>"
      let ?r = "open_error_response env e"
      have e: "rendered env ?b ?r = rendered env c ?r" by (rule rendered_parser) simp
      have "bb_room (hc_output ?b) (length (rendered env ?b ?r))"
        unfolding e using a(3) c op Inl by (simp add: bb_room_def can_answer_def)
      then have "bb_inv (hc_output (append_response env ?r ?b))" "bb_view (hc_output (append_response env ?r ?b)) = rendered env c ?r"
        using append_response_spec [of ?b env ?r] a(1) by (simp_all add: RetrieveAll_inv e)
      with True op Inl ch [of "(append_response env ?r ?b)\<lparr>hc_state := WRITING_RESPONSE\<rparr>" s'] o S show ?thesis
        by (auto simp: HttpConnection_Send_def sends_def busy_def response_bytes_def Let_def)
    qed
  qed
qed

text \<open>A write event of the connection while a response is on its way.\<close>

inductive write_step :: "'s ConnEnv \<Rightarrow> 's Net \<Rightarrow> 's Net \<Rightarrow> bool" for env where
  Write: "busy c \<Longrightarrow> io_possible c w f \<Longrightarrow> write_step env (l, c, s) (HttpConnection_HandleWrite env w f (l, c, s))"

interpretation writing: step_invariant "\<lambda>n. sends S (fst (snd n))" "\<lambda>n n'. closes_only env \<and> write_step env n n'"
    "\<lambda>n. sends S (fst (snd n))" for S and env :: "'s ConnEnv"
  by unfold_locales (auto elim!: write_step.cases dest: HandleWrite_progress [unfolded progresses_def])

text \<open>A write event in which the socket takes up to so many bytes from each source.\<close>

definition write_event :: "'s ConnEnv \<Rightarrow> 's Net \<Rightarrow> nat \<times> nat \<Rightarrow> 's Net" where
  "write_event env n room =
     (let c = fst (snd n)
      in if busy c
         then HttpConnection_HandleWrite env (Inr (min (fst room) (length (bb_view (hc_output c)))))
                (Inr (min (snd room) (hc_file_remaining c))) n
         else n)"

lemma write_event_progress:
  assumes "closes_only env" "sends S (fst (snd n))" "busy (fst (snd n))" "fst room > 0" "snd room > 0"
  shows "sends S (fst (snd (write_event env n room)))"
    "if busy (fst (snd (write_event env n room))) then owed (fst (snd (write_event env n room))) < owed (fst (snd n))
     else hc_sent (fst (snd (write_event env n room))) = S"
proof -
  obtain l c s where n: "n = (l, c, s)" using prod_cases3 by blast
  let ?w = "Inr (min (fst room) (length (bb_view (hc_output c))))" and ?f = "Inr (min (snd room) (hc_file_remaining c))"
  have "io_possible c ?w ?f" by (simp add: io_possible_def)
  from HandleWrite_progress [OF assms(1) _ _ this, of S l s] assms n
  show "sends S (fst (snd (write_event env n room)))"
    "if busy (fst (snd (write_event env n room))) then owed (fst (snd (write_event env n room))) < owed (fst (snd n))
     else hc_sent (fst (snd (write_event env n room))) = S"
    by (simp_all add: write_event_def progresses_def)
qed

lemma write_events_finish:
  assumes env: "closes_only env" and pos: "\<forall>x \<in> set rooms. fst x > 0 \<and> snd x > 0"
  shows "sends S (fst (snd n)) \<Longrightarrow> busy (fst (snd n)) \<Longrightarrow> owed (fst (snd n)) < length rooms \<Longrightarrow>
    hc_sent (fst (snd (foldl (write_event env) n rooms))) = S \<and> \<not> busy (fst (snd (foldl (write_event env) n rooms)))"
  using pos
proof (induction rooms arbitrary: n)
  case (Cons x xs)
  let ?n = "write_event env n x"
  have idle: "foldl (write_event env) m xs = m" if "\<not> busy (fst (snd m))" for m
    using that by (induction xs) (simp_all add: write_event_def)
  note p = write_event_progress [OF env Cons.prems(1,2), of x]
  show ?case
  proof (cases "busy (fst (snd ?n))")
    case True
    with Cons p show ?thesis by simp
  next
    case False
    with idle p Cons.prems show ?thesis by simp
  qed
qed simp

lemma owed_length: "sends S c \<Longrightarrow> busy c \<Longrightarrow> length (hc_sent c) + owed c = length S"
  by (auto simp: sends_def busy_def owed_def)

section \<open>Theorems\<close>

text \<open>C34: Whatever the writes and \<^verbatim>\<open>sendfile\<close> calls do (partial, blocked or failed), after \<open>Send\<close> the socket has taken a
  prefix of the rendered response followed by the asked slice of the file, or of the answer that the data is
  missing when the file cannot be opened; and when the connection turns to the next request it has taken all of it.\<close>
theorem response_sent:
  assumes "closes_only env" "can_answer env c resp s"
    and "(write_step env)\<^sup>*\<^sup>* (HttpConnection_Send env resp (l, c, s)) (l', c', s')"
  shows "prefix (hc_sent c') (hc_sent c @ response_bytes env c resp s) \<and>
    (hc_state c' = READING_HEADERS \<longrightarrow> hc_sent c' = hc_sent c @ response_bytes env c resp s)"
proof -
  let ?S = "hc_sent c @ response_bytes env c resp s"
  have "(\<lambda>n n'. closes_only env \<and> write_step env n n')\<^sup>*\<^sup>* (HttpConnection_Send env resp (l, c, s)) (l', c', s')"
    using assms(1,3) by simp
  from writing.run_I [OF this, of ?S] Send_sends [OF assms(2)] have "sends ?S c'" by simp
  then show ?thesis by (auto simp: sends_def split: ConnectionState.splits intro: prefixI [OF sym])
qed

text \<open>C35: A response is completed: when in each of its write events the socket takes at least one byte of what there is to
  send, one event more than there are bytes is enough for the client to have all of it and for the connection to
  have turned to the next request or closed.\<close>
theorem response_completes:
  fixes env :: "'s ConnEnv" and l :: "Functor EventLoop"
  assumes "closes_only env" "can_answer env c resp s"
    and "\<forall>x \<in> set rooms. fst x > 0 \<and> snd x > 0" "length (response_bytes env c resp s) < length rooms"
  defines "c' \<equiv> fst (snd (foldl (write_event env) (HttpConnection_Send env resp (l, c, s)) rooms))"
  shows "hc_sent c' = hc_sent c @ response_bytes env c resp s \<and> \<not> busy c'"
proof -
  let ?S = "hc_sent c @ response_bytes env c resp s" and ?n = "HttpConnection_Send env resp (l, c, s)"
  have s: "sends ?S (fst (snd ?n))" "busy (fst (snd ?n))" "hc_sent (fst (snd ?n)) = hc_sent c"
    using Send_sends [OF assms(2) refl, of l] by simp_all
  have "owed (fst (snd ?n)) < length rooms" using owed_length [OF s(1,2)] s(3) assms(4) by simp
  from write_events_finish [OF assms(1,3) s(1,2) this] show ?thesis by (simp add: c'_def)
qed

text \<open>A connection whose client gets one short answer, in events of one byte.\<close>

definition quiet_env :: "unit ConnEnv" where
  "quiet_env = \<lparr>ce_request_callback = Inr, ce_body_data_callback = \<lambda>_. Inr, ce_close_callback = \<lambda>n. n,
     ce_open = \<lambda>_ s. (s, Inl ENOENT), ce_order = \<lambda>_. [], ce_dump = \<lambda>_. ''{}''\<rparr>"

definition quiet_loop :: "Functor EventLoop" where
  "quiet_loop = fst (projr (EventLoop_new False 1 (Some 3) (Some 4) (Some 5)))"

abbreviation quiet_conn :: HttpConnection where
  "quiet_conn \<equiv> HttpConnection_new 2 9 ''1.2.3.4:5''"

lemma quiet_closes: "closes_only quiet_env"
  by (simp add: closes_only_def quiet_env_def)

lemma quiet_rendered: "length (rendered quiet_env quiet_conn (HttpResponse_OK ''hi'')) < 100"
  "length (rendered quiet_env quiet_conn (open_error_response quiet_env ENOENT)) < 100"
proof -
  have r: "rendered quiet_env quiet_conn r =
      render_response (\<lambda>_. []) (r\<lparr>rs_keep_alive := HttpRequest_IsKeepAlive (ps_request HttpParser_new)\<rparr>)" for r
    by (simp add: rendered_def quiet_env_def HttpConnection_new_def)
  show "length (rendered quiet_env quiet_conn (HttpResponse_OK ''hi'')) < 100"
    "length (rendered quiet_env quiet_conn (open_error_response quiet_env ENOENT)) < 100"
    unfolding r by code_simp+
qed

lemma quiet_can_answer: "can_answer quiet_env quiet_conn (HttpResponse_OK ''hi'') ()"
proof -
  have "hc_state quiet_conn = READING_HEADERS" "hc_output quiet_conn = ByteBuffer_new kInitialSize" by (simp_all add: HttpConnection_new_def)
  moreover have "snd (ce_open quiet_env p ()) = Inl ENOENT" for p by (simp add: quiet_env_def)
  moreover have "length (bb_buffer (ByteBuffer_new kInitialSize)) < 10000" by (simp add: ByteBuffer_new_def kInitialSize_def kPrependSize_def)
  ultimately show ?thesis using quiet_rendered bb_new [of kInitialSize]
    by (simp add: can_answer_def bb_room_def kInitialSize_def kPrependSize_def)
qed

theorem response_sent_witness:
  "prefix (hc_sent (fst (snd (HttpConnection_Send quiet_env (HttpResponse_OK ''hi'') (quiet_loop, quiet_conn, ())))))
     (hc_sent quiet_conn @ response_bytes quiet_env quiet_conn (HttpResponse_OK ''hi'') ())"
proof -
  obtain l' c' s' where n: "HttpConnection_Send quiet_env (HttpResponse_OK ''hi'') (quiet_loop, quiet_conn, ()) = (l', c', s')"
    using prod_cases3 by blast
  from response_sent [OF quiet_closes quiet_can_answer, of quiet_loop l' c' s'] n show ?thesis by simp
qed

theorem response_completes_witness:
  "\<exists>k. hc_sent (fst (snd (foldl (write_event quiet_env)
       (HttpConnection_Send quiet_env (HttpResponse_OK ''hi'') (quiet_loop, quiet_conn, ())) (replicate k (1, 1)))))
     = response_bytes quiet_env quiet_conn (HttpResponse_OK ''hi'') ()"
proof -
  let ?b = "response_bytes quiet_env quiet_conn (HttpResponse_OK ''hi'') ()"
  have "hc_sent quiet_conn = []" by (simp add: HttpConnection_new_def)
  then show ?thesis
    using response_completes [OF quiet_closes quiet_can_answer, of "replicate (length ?b + 1) (1, 1)" quiet_loop]
    by (intro exI [of _ "length ?b + 1"]) simp
qed

end
