(* ===== verification/Presign_Auth.thy ===== *)
theory Presign_Auth
  imports Http_Parser Http_Router Json_Value Crypto_Uuid Status
begin

text \<open>
  Who may reach a handler: \<^verbatim>\<open>api/handlers/presign_handlers.cpp\<close>, \<^verbatim>\<open>api/middleware/auth_middleware.cpp\<close>,
  \<^verbatim>\<open>api/middleware/trace_middleware.cpp\<close>, \<^verbatim>\<open>service/auth_service.cpp\<close> and
  \<^verbatim>\<open>service/presign_service.cpp\<close>. The clock (\<open>now\<close>, seconds), HMAC (\<open>hmac\<close>), the identifier drawn for a
  trace (\<open>uuid\<close>) and the JSON library (\<open>dump\<close>, \<open>parse\<close>) are arguments. A call to
  \<open>HttpRequest::GetQueryParam\<close> fills the request's query cache, so the request passed on has it filled.
\<close>

section \<open>Presigned URLs\<close>

definition PresignHandlers_GenerateSignature ::
    "(string \<Rightarrow> string \<Rightarrow> 8 word list) \<Rightarrow> string \<Rightarrow> string \<Rightarrow> string \<Rightarrow> int \<Rightarrow> string" where
  "PresignHandlers_GenerateSignature hmac secret mthd path expires =
     (let string_to_sign = mthd @ [LF] @ path @ [LF] @ int_to_string expires
      in Crypto_HMAC_SHA256 hmac secret string_to_sign)"

text \<open>The optional fields of the body: the method, then the lifetime. \<open>Inl\<close>: an uncaught type error;
  \<open>Inr (Inl msg)\<close>: the request is refused.\<close>

definition presign_method :: "Json \<Rightarrow> cpp_exn + (string + string)" where
  "presign_method request_body =
     (if \<not> json_contains request_body ''method'' then Inr (Inr ''GET'')
      else case json_value_string request_body ''method'' '''' of
             Inl e \<Rightarrow> Inl e
           | Inr mthd \<Rightarrow>
               if mthd \<noteq> ''GET'' then Inr (Inl ''Only GET method is supported for presigned URLs'')
               else Inr (Inr mthd))"

definition presign_ttl :: "Json \<Rightarrow> cpp_exn + (string + int)" where
  "presign_ttl request_body =
     (if \<not> json_contains request_body ''ttl_seconds'' then Inr (Inr 600)
      else case json_value_int request_body ''ttl_seconds'' 0 of
             Inl e \<Rightarrow> Inl e
           | Inr n \<Rightarrow>
               let ttl_seconds = int32 n in
               if ttl_seconds < 1 \<or> ttl_seconds > 7 * 24 * 3600
               then Inr (Inl ''TTL must be between 1 and 604800 seconds'')
               else Inr (Inr ttl_seconds))"

definition presign_path :: "string \<Rightarrow> string \<Rightarrow> string" where
  "presign_path bucket object = ''/buckets/'' @ bucket @ ''/objects/'' @ object"

definition presign_url ::
    "(string \<Rightarrow> string \<Rightarrow> 8 word list) \<Rightarrow> string \<Rightarrow> string \<Rightarrow> string \<Rightarrow> int \<Rightarrow> string" where
  "presign_url hmac secret mthd path expires_timestamp =
     path @ ''?expires='' @ int_to_string expires_timestamp @ ''&sig='' @
     PresignHandlers_GenerateSignature hmac secret mthd path expires_timestamp @ ''&method='' @ mthd"

definition PresignHandlers_CreatePresignUrl ::
    "(Json \<Rightarrow> string) \<Rightarrow> (string \<Rightarrow> Json option) \<Rightarrow> (string \<Rightarrow> string \<Rightarrow> 8 word list) \<Rightarrow> int \<Rightarrow> string list \<Rightarrow> 's HttpHandler" where
  "PresignHandlers_CreatePresignUrl dump parse hmac now secrets request s =
     (case parse (rq_body request) of
        None \<Rightarrow> (s, Inr (HttpResponse_BadRequest dump ''Invalid JSON body'' ''''))
      | Some request_body \<Rightarrow>
          if \<not> json_contains request_body ''bucket'' \<or> \<not> json_contains request_body ''object''
          then (s, Inr (HttpResponse_BadRequest dump ''Missing bucket or object'' ''''))
          else case (json_value_string request_body ''bucket'' '''', json_value_string request_body ''object'' '''') of
            (Inl e, _) \<Rightarrow> (s, Inl e)
          | (_, Inl e) \<Rightarrow> (s, Inl e)
          | (Inr bucket, Inr object) \<Rightarrow>
              (case presign_method request_body of
                 Inl e \<Rightarrow> (s, Inl e)
               | Inr (Inl msg) \<Rightarrow> (s, Inr (HttpResponse_BadRequest dump msg ''''))
               | Inr (Inr mthd) \<Rightarrow>
                   (case presign_ttl request_body of
                      Inl e \<Rightarrow> (s, Inl e)
                    | Inr (Inl msg) \<Rightarrow> (s, Inr (HttpResponse_BadRequest dump msg ''''))
                    | Inr (Inr ttl_seconds) \<Rightarrow>
                        let expires_timestamp = now + ttl_seconds; path = presign_path bucket object in
                        (case secrets of
                           [] \<Rightarrow> (s, Inr (HttpResponse_InternalError dump ''No signing key configured'' ''''))
                         | secret # _ \<Rightarrow>
                             (s, Inr (HttpResponse_OK (dump (JObj
                               [(''url'', JStr (presign_url hmac secret mthd path expires_timestamp)),
                                (''expires_at'', JInt expires_timestamp), (''bucket'', JStr bucket),
                                (''object'', JStr object), (''method'', JStr mthd)]))))))))"

definition PresignHandlers_VerifyPresignUrl ::
    "(string \<Rightarrow> string \<Rightarrow> 8 word list) \<Rightarrow> int \<Rightarrow> string list \<Rightarrow> HttpRequest \<Rightarrow> bool" where
  "PresignHandlers_VerifyPresignUrl hmac now secrets request =
     (let expires_str = HttpRequest_GetQueryParam request ''expires'';
          sig = HttpRequest_GetQueryParam request ''sig'';
          mthd = HttpRequest_GetQueryParam request ''method''
      in if expires_str = '''' \<or> sig = '''' then False
         else let mthd = (if mthd = '''' then ''GET'' else mthd) in
           case stoll expires_str of
             Inl _ \<Rightarrow> False
           | Inr expires \<Rightarrow>
               if now > expires then False
               else if HttpMethodToString (rq_method request) \<noteq> mthd then False
               else \<exists>secret \<in> set secrets.
                      PresignHandlers_GenerateSignature hmac secret mthd (rq_path request) expires = sig)"

section \<open>The middleware\<close>

definition public_paths :: "string list" where
  "public_paths = [''/healthz'', ''/readyz'', ''/metrics'']"

definition AuthMiddleware_RequiresAuth :: "string \<Rightarrow> bool" where
  "AuthMiddleware_RequiresAuth path = (path \<notin> set public_paths)"

definition AuthMiddleware_ValidateBearerToken :: "string \<Rightarrow> string list \<Rightarrow> bool" where
  "AuthMiddleware_ValidateBearerToken auth_header valid_tokens =
     (let pre = ''Bearer '' in
      if length auth_header \<le> length pre then False
      else if take (length pre) auth_header \<noteq> pre then False
      else drop (length pre) auth_header \<in> set valid_tokens)"

definition AuthMiddleware_ValidateApiKey :: "string \<Rightarrow> string list \<Rightarrow> bool" where
  "AuthMiddleware_ValidateApiKey api_key valid_tokens = (api_key \<in> set valid_tokens)"

definition AuthMiddleware_Handle ::
    "(Json \<Rightarrow> string) \<Rightarrow> (string \<Rightarrow> string \<Rightarrow> 8 word list) \<Rightarrow> int \<Rightarrow> string list \<Rightarrow> 's Middleware" where
  "AuthMiddleware_Handle dump hmac now valid_tokens request next s =
     (if \<not> AuthMiddleware_RequiresAuth (rq_path request) then next request s
      else let request = HttpRequest_ParseQueryString request in
        if HttpRequest_GetQueryParam request ''sig'' \<noteq> ''''
        then if PresignHandlers_VerifyPresignUrl hmac now valid_tokens request
             then next (HttpRequest_SetHeader request ''X-Auth-Method'' ''presign'') s
             else (s, Inr (HttpResponse_Forbidden dump ''Invalid or expired signature'' ''''))
        else let auth_header = HttpRequest_GetHeader request ''Authorization'' in
          if auth_header \<noteq> '''' \<and> AuthMiddleware_ValidateBearerToken auth_header valid_tokens
          then next (HttpRequest_SetHeader request ''X-Auth-Method'' ''bearer'') s
          else let api_key = HttpRequest_GetHeader request ''X-API-Key'' in
            if api_key \<noteq> '''' \<and> AuthMiddleware_ValidateApiKey api_key valid_tokens
            then next (HttpRequest_SetHeader request ''X-Auth-Method'' ''apikey'') s
            else (s, Inr (HttpResponse_Unauthorized dump ''Authentication required'' '''')))"

definition TraceMiddleware_Handle :: "string \<Rightarrow> 's Middleware" where
  "TraceMiddleware_Handle uuid request next s =
     (let trace_id = HttpRequest_GetHeader request ''X-Request-Id'';
          (trace_id, request) =
            (if trace_id = '''' then (uuid, HttpRequest_SetHeader request ''X-Request-Id'' uuid) else (trace_id, request));
          request = request\<lparr>rq_trace_id := trace_id\<rparr>
      in case next request s of
           (s, Inl e) \<Rightarrow> (s, Inl e)
         | (s, Inr response) \<Rightarrow> (s, Inr (HttpResponse_SetHeader response ''X-Request-Id'' trace_id)))"

section \<open>The services\<close>

record AuthService =
  as_static_tokens :: "string list"

definition AuthService_new :: "string list \<Rightarrow> AuthService" where
  "AuthService_new static_tokens = \<lparr>as_static_tokens = static_tokens\<rparr>"

definition AuthService_ValidateToken :: "AuthService \<Rightarrow> string \<Rightarrow> bool" where
  "AuthService_ValidateToken a token = (token \<in> set (as_static_tokens a))"

definition AuthService_ValidateApiKey :: "AuthService \<Rightarrow> string \<Rightarrow> string \<Rightarrow> bool" where
  "AuthService_ValidateApiKey a key_id key_secret =
     AuthService_ValidateToken a (key_id @ '':'' @ key_secret)"

definition AuthService_GeneratePresignSignature ::
    "(string \<Rightarrow> string \<Rightarrow> 8 word list) \<Rightarrow> AuthService \<Rightarrow> string \<Rightarrow> string \<Rightarrow> int \<Rightarrow> string" where
  "AuthService_GeneratePresignSignature hmac a mthd path expires =
     (case as_static_tokens a of
        [] \<Rightarrow> ''''
      | token # _ \<Rightarrow> Crypto_HMAC_SHA256 hmac token (mthd @ [LF] @ path @ [LF] @ int_to_string expires))"

definition AuthService_ValidatePresign ::
    "(string \<Rightarrow> string \<Rightarrow> 8 word list) \<Rightarrow> int \<Rightarrow> AuthService \<Rightarrow> string \<Rightarrow> string \<Rightarrow> int \<Rightarrow> string \<Rightarrow> bool" where
  "AuthService_ValidatePresign hmac now_ts a mthd path expires signature =
     (if now_ts > expires then False
      else AuthService_GeneratePresignSignature hmac a mthd path expires = signature)"

record PresignService =
  pr_auth :: AuthService
  pr_base_url :: string

definition PresignService_new :: "AuthService \<Rightarrow> string \<Rightarrow> PresignService" where
  "PresignService_new auth_service base_url = \<lparr>pr_auth = auth_service, pr_base_url = base_url\<rparr>"

definition PresignService_BuildPresignUrl :: "PresignService \<Rightarrow> string \<Rightarrow> string \<Rightarrow> int \<Rightarrow> string \<Rightarrow> string" where
  "PresignService_BuildPresignUrl p mthd path expires signature =
     pr_base_url p @ path @ ''?X-Method='' @ mthd @ ''&X-Expires='' @ int_to_string expires @
     ''&X-Signature='' @ signature"

definition PresignService_GenerateGetUrl ::
    "(string \<Rightarrow> string \<Rightarrow> 8 word list) \<Rightarrow> int \<Rightarrow> PresignService \<Rightarrow> string \<Rightarrow> string \<Rightarrow> int \<Rightarrow> string Result" where
  "PresignService_GenerateGetUrl hmac now p bucket key expires_seconds =
     (let path = ''/'' @ bucket @ ''/'' @ key; expires = now + expires_seconds;
          signature = AuthService_GeneratePresignSignature hmac (pr_auth p) ''GET'' path expires
      in Inr (PresignService_BuildPresignUrl p ''GET'' path expires signature))"

definition PresignService_GeneratePutUrl ::
    "(string \<Rightarrow> string \<Rightarrow> 8 word list) \<Rightarrow> int \<Rightarrow> PresignService \<Rightarrow> string \<Rightarrow> string \<Rightarrow> int \<Rightarrow> string Result" where
  "PresignService_GeneratePutUrl hmac now p bucket key expires_seconds =
     (let path = ''/'' @ bucket @ ''/'' @ key; expires = now + expires_seconds;
          signature = AuthService_GeneratePresignSignature hmac (pr_auth p) ''PUT'' path expires
      in Inr (PresignService_BuildPresignUrl p ''PUT'' path expires signature))"

definition PresignService_ValidatePresignUrl ::
    "(string \<Rightarrow> string \<Rightarrow> 8 word list) \<Rightarrow> int \<Rightarrow> PresignService \<Rightarrow> string \<Rightarrow> string \<Rightarrow> string \<Rightarrow> string \<Rightarrow> Status" where
  "PresignService_ValidatePresignUrl hmac now p mthd path expires_str signature =
     (case stoll expires_str of
        Inl _ \<Rightarrow> Status_Error ErrorCode.InvalidArgument ''Invalid expires parameter''
      | Inr expires \<Rightarrow>
          if \<not> AuthService_ValidatePresign hmac now (pr_auth p) mthd path expires signature
          then Status_Error ErrorCode.Unauthorized ''Invalid or expired signature''
          else Status_OK)"

section \<open>Who is let through\<close>

text \<open>The credentials of a request, independently of the order in which the middleware looks at them: with a
  signature in the query, a signature of this method, path and expiry by one of the tokens, not expired;
  otherwise one of the tokens as bearer token or API key.\<close>

definition signed_string :: "HttpRequest \<Rightarrow> int \<Rightarrow> string" where
  "signed_string r expires = HttpMethodToString (rq_method r) @ [LF] @ rq_path r @ [LF] @ int_to_string expires"

definition valid_signature ::
    "(string \<Rightarrow> string \<Rightarrow> 8 word list) \<Rightarrow> int \<Rightarrow> string list \<Rightarrow> HttpRequest \<Rightarrow> string \<Rightarrow> int \<Rightarrow> bool" where
  "valid_signature hmac now tokens r secret expires \<longleftrightarrow>
     secret \<in> set tokens \<and> HttpRequest_GetQueryParam r ''expires'' \<noteq> '''' \<and>
     stoll (HttpRequest_GetQueryParam r ''expires'') = Inr expires \<and> now \<le> expires \<and>
     HttpMethodToString (rq_method r) =
       (if HttpRequest_GetQueryParam r ''method'' = '''' then ''GET'' else HttpRequest_GetQueryParam r ''method'') \<and>
     HttpRequest_GetQueryParam r ''sig'' = Crypto_HMAC_SHA256 hmac secret (signed_string r expires)"

definition authorised ::
    "(string \<Rightarrow> string \<Rightarrow> 8 word list) \<Rightarrow> int \<Rightarrow> string list \<Rightarrow> HttpRequest \<Rightarrow> bool" where
  "authorised hmac now tokens r \<longleftrightarrow>
     (if HttpRequest_GetQueryParam r ''sig'' \<noteq> ''''
      then \<exists>secret expires. valid_signature hmac now tokens r secret expires
      else \<exists>t \<in> set tokens. t \<noteq> '''' \<and>
             (HttpRequest_GetHeader r ''Authorization'' = ''Bearer '' @ t \<or> HttpRequest_GetHeader r ''X-API-Key'' = t))"

lemma verify_presign_iff:
  assumes "HttpRequest_GetQueryParam r ''sig'' \<noteq> ''''"
  shows "PresignHandlers_VerifyPresignUrl hmac now tokens r \<longleftrightarrow>
     (\<exists>secret expires. valid_signature hmac now tokens r secret expires)"
  using assms
  by (auto simp: PresignHandlers_VerifyPresignUrl_def PresignHandlers_GenerateSignature_def valid_signature_def
      signed_string_def Let_def split: sum.splits)

lemma bearer_iff:
  "AuthMiddleware_ValidateBearerToken h tokens \<longleftrightarrow> (\<exists>t \<in> set tokens. t \<noteq> '''' \<and> h = ''Bearer '' @ t)"
proof
  assume a: "AuthMiddleware_ValidateBearerToken h tokens"
  let ?n = "length ''Bearer ''"
  from a have "h = take ?n h @ drop ?n h" "take ?n h = ''Bearer ''" "drop ?n h \<in> set tokens" "drop ?n h \<noteq> ''''"
    by (auto simp: AuthMiddleware_ValidateBearerToken_def Let_def split: if_splits)
  then show "\<exists>t \<in> set tokens. t \<noteq> '''' \<and> h = ''Bearer '' @ t" by metis
qed (auto simp: AuthMiddleware_ValidateBearerToken_def Let_def)

lemma ParseQuery_sel [simp]:
  "rq_path (HttpRequest_ParseQueryString r) = rq_path r" "rq_method (HttpRequest_ParseQueryString r) = rq_method r"
  "rq_headers (HttpRequest_ParseQueryString r) = rq_headers r" "rq_body (HttpRequest_ParseQueryString r) = rq_body r"
  "rq_path_params (HttpRequest_ParseQueryString r) = rq_path_params r"
  "HttpRequest_GetHeader (HttpRequest_ParseQueryString r) k = HttpRequest_GetHeader r k"
  by (simp_all add: HttpRequest_ParseQueryString_def HttpRequest_GetHeader_def)

lemma valid_signature_cache [simp]:
  "valid_signature hmac now tokens (HttpRequest_ParseQueryString r) = valid_signature hmac now tokens r"
  by (intro ext) (simp add: valid_signature_def signed_string_def query_cache_unobservable)

lemma authorised_cache [simp]:
  "authorised hmac now tokens (HttpRequest_ParseQueryString r) = authorised hmac now tokens r"
  by (simp add: authorised_def query_cache_unobservable)

text \<open>C27: The authentication middleware passes a request on only on a public path or with valid credentials:
  on a public path the request goes through unchanged; with credentials (a current signature of this method,
  path and expiry by a configured token, or, without a signature, a configured token as bearer token or API
  key) it goes through marked with the way it was authenticated; in every other case no handler runs, the
  state is unchanged and the answer is 401 or 403.\<close>
theorem auth_gate:
  "(rq_path r \<in> set public_paths \<and> AuthMiddleware_Handle dump hmac now tokens r next s = next r s) \<or>
   (rq_path r \<notin> set public_paths \<and> authorised hmac now tokens r \<and>
      (\<exists>m. AuthMiddleware_Handle dump hmac now tokens r next s =
             next (HttpRequest_SetHeader (HttpRequest_ParseQueryString r) ''X-Auth-Method'' m) s)) \<or>
   (rq_path r \<notin> set public_paths \<and> \<not> authorised hmac now tokens r \<and>
      (\<exists>resp. AuthMiddleware_Handle dump hmac now tokens r next s = (s, Inr resp) \<and>
              rs_status_code resp \<in> {401, 403}))"
proof (cases "rq_path r \<in> set public_paths")
  case True
  then show ?thesis by (simp add: AuthMiddleware_Handle_def AuthMiddleware_RequiresAuth_def)
next
  case path: False
  let ?r = "HttpRequest_ParseQueryString r"
  show ?thesis
  proof (cases "HttpRequest_GetQueryParam r ''sig'' = ''''")
    case False
    then have "PresignHandlers_VerifyPresignUrl hmac now tokens ?r \<longleftrightarrow> authorised hmac now tokens r"
      using verify_presign_iff [of ?r hmac now tokens] authorised_cache [of hmac now tokens r]
      by (simp add: authorised_def query_cache_unobservable)
    with path False show ?thesis
      by (auto simp: AuthMiddleware_Handle_def AuthMiddleware_RequiresAuth_def query_cache_unobservable Let_def)
  next
    case True
    let ?bearer = "HttpRequest_GetHeader r ''Authorization'' \<noteq> '''' \<and>
      AuthMiddleware_ValidateBearerToken (HttpRequest_GetHeader r ''Authorization'') tokens"
    let ?key = "HttpRequest_GetHeader r ''X-API-Key'' \<noteq> '''' \<and>
      AuthMiddleware_ValidateApiKey (HttpRequest_GetHeader r ''X-API-Key'') tokens"
    have "authorised hmac now tokens r \<longleftrightarrow> ?bearer \<or> ?key"
      using True by (auto simp: authorised_def bearer_iff AuthMiddleware_ValidateApiKey_def)
    with path True show ?thesis
      by (auto simp: AuthMiddleware_Handle_def AuthMiddleware_RequiresAuth_def query_cache_unobservable Let_def)
  qed
qed

text \<open>A request line made of a presigned URL.\<close>

lemma ToHexString_nonempty: "bs \<noteq> [] \<Longrightarrow> Crypto_ToHexString bs \<noteq> ''''"
  using ToHexString_length [of bs] by force

lemma hex_no_char:
  assumes "\<not> is_lower_hex c"
  shows "c \<notin> set (Crypto_ToHexString bs)"
  using ToHexString_lower [of bs] assms by (auto simp: list_all_iff)

lemma presign_query:
  assumes "CHR ''&'' \<notin> set e" "CHR ''&'' \<notin> set g" "e \<noteq> []"
  shows "foldl query_pair Map.empty (getline_split (CHR ''&'') (''expires='' @ e @ ''&sig='' @ g @ ''&method=GET'')) =
     [''expires'' \<mapsto> e, ''sig'' \<mapsto> g, ''method'' \<mapsto> ''GET'']"
proof -
  have 1: "getline_split (CHR ''&'') ((''expires='' @ e) @ CHR ''&'' # (''sig='' @ g) @ CHR ''&'' # ''method=GET'') =
      [''expires='' @ e, ''sig='' @ g, ''method=GET'']"
    using assms by (subst getline_split_cons, simp, subst getline_split_cons, simp) simp
  have 2: "query_pair m (''expires='' @ e) = m(''expires'' \<mapsto> e)" for m
    using query_pair_eq [of "''expires''" m e] by simp
  have 3: "query_pair m (''sig='' @ g) = m(''sig'' \<mapsto> g)" for m
    using query_pair_eq [of "''sig''" m g] by simp
  have 4: "query_pair m ''method=GET'' = m(''method'' \<mapsto> ''GET'')" for m
    using query_pair_eq [of "''method''" m "''GET''"] by simp
  have "''expires='' @ e @ ''&sig='' @ g @ ''&method=GET'' =
      (''expires='' @ e) @ CHR ''&'' # (''sig='' @ g) @ CHR ''&'' # ''method=GET''" by simp
  then show ?thesis by (simp only: 1 2 3 4 foldl.simps)
qed

lemma presigned_request:
  assumes "CHR ''?'' \<notin> set path" "CHR '' '' \<notin> set path"
  assumes parse: "HttpParser_ParseRequestLine HttpParser_new
      (''GET '' @ presign_url hmac secret ''GET'' path expires @ '' HTTP/1.1'') = (p, ok)"
  shows "ok" "rq_path (ps_request p) = path" "rq_method (ps_request p) = GET"
    "HttpRequest_GetQueryParam (ps_request p) ''expires'' = int_to_string expires"
    "HttpRequest_GetQueryParam (ps_request p) ''sig'' =
       PresignHandlers_GenerateSignature hmac secret ''GET'' path expires"
    "HttpRequest_GetQueryParam (ps_request p) ''method'' = ''GET''"
proof -
  let ?e = "int_to_string expires" and ?g = "PresignHandlers_GenerateSignature hmac secret ''GET'' path expires"
  let ?q = "''expires='' @ ?e @ ''&sig='' @ ?g @ ''&method=GET''"
  let ?uri = "presign_url hmac secret ''GET'' path expires"
  have uri: "?uri = path @ CHR ''?'' # ?q" by (simp add: presign_url_def)
  have chars: "CHR ''&'' \<notin> set ?e" "CHR '' '' \<notin> set ?e" "CHR ''&'' \<notin> set ?g" "CHR '' '' \<notin> set ?g"
    by (auto simp: PresignHandlers_GenerateSignature_def Crypto_HMAC_SHA256_def Let_def is_lower_hex_def isdigit_def
        dest!: int_to_string_chars hex_no_char [THEN notE, rotated])
  have "CHR '' '' \<notin> set ?uri" using assms(2) chars unfolding uri by simp
  from ParseRequestLine_render [OF _ this, of GET HttpParser_new] parse
  have p: "ok" "ps_request p = (set_uri ((ps_request HttpParser_new)\<lparr>rq_method := GET\<rparr>) ?uri)\<lparr>rq_version := ''HTTP/1.1''\<rparr>"
    by auto
  have r: "ps_request p = (ps_request HttpParser_new)\<lparr>rq_method := GET, rq_path := path, rq_query := ?q, rq_version := ''HTTP/1.1''\<rparr>"
    unfolding p(2) uri set_uri_def using assms(1) by simp
  have params: "rq_query_params (HttpRequest_ParseQueryString (ps_request p)) =
      [''expires'' \<mapsto> ?e, ''sig'' \<mapsto> ?g, ''method'' \<mapsto> ''GET'']"
    using presign_query [of ?e ?g] chars
    unfolding r by (simp add: HttpRequest_ParseQueryString_def HttpParser_new_def HttpRequest_new_def)
  show "ok" by (rule p(1))
  show "rq_path (ps_request p) = path" "rq_method (ps_request p) = GET" by (simp_all add: r)
  show "HttpRequest_GetQueryParam (ps_request p) ''expires'' = ?e" "HttpRequest_GetQueryParam (ps_request p) ''sig'' = ?g"
    "HttpRequest_GetQueryParam (ps_request p) ''method'' = ''GET''"
    by (simp_all add: HttpRequest_GetQueryParam_def params)
qed

lemma sep_unique:
  fixes c :: char
  assumes "c \<notin> set a" "c \<notin> set a'" "a @ c # b = a' @ c # b'"
  shows "a = a' \<and> b = b'"
proof -
  have "length a = length a'"
    using find_char_append [OF assms(1), of b] find_char_append [OF assms(2), of b'] assms(3) by simp
  then show ?thesis using assms(3) by simp
qed

lemma method_string_inj [simp]: "HttpMethodToString m = HttpMethodToString m' \<longleftrightarrow> m = m'"
  by (cases m; cases m') simp_all

lemma method_no_LF: "LF \<notin> set (HttpMethodToString m)"
  by (cases m) simp_all

lemma signed_string_inj:
  assumes "signed_string r1 e1 = signed_string r2 e2"
  shows "rq_method r1 = rq_method r2 \<and> rq_path r1 = rq_path r2 \<and> e1 = e2"
proof -
  have digits: "LF \<notin> set (int_to_string e)" for e
    by (rule int_to_string_no_char) (simp_all add: isdigit_def)
  from assms have 1: "rq_method r1 = rq_method r2"
    and 2: "rq_path r1 @ LF # int_to_string e1 = rq_path r2 @ LF # int_to_string e2"
    using sep_unique [OF method_no_LF method_no_LF] by (auto simp: signed_string_def)
  have "rev (int_to_string e1) @ LF # rev (rq_path r1) = rev (int_to_string e2) @ LF # rev (rq_path r2)"
    using arg_cong [OF 2, of rev] by simp
  from sep_unique [OF _ _ this] digits 1 show ?thesis by simp
qed

text \<open>The body of a created URL.\<close>

definition presign_body :: "string \<Rightarrow> int \<Rightarrow> string \<Rightarrow> string \<Rightarrow> Json" where
  "presign_body url expires bucket object =
     JObj [(''url'', JStr url), (''expires_at'', JInt expires), (''bucket'', JStr bucket), (''object'', JStr object),
           (''method'', JStr ''GET'')]"

lemma create_presign_cases:
  assumes "PresignHandlers_CreatePresignUrl dump parse hmac now secrets req s = (s', Inr resp)"
    and "rs_status_code resp = 200" and "parse (rq_body req) = Some j"
    and "json_value_string j ''bucket'' '''' = Inr bucket" "json_value_string j ''object'' '''' = Inr object"
  obtains secret rest ttl where "s' = s" "secrets = secret # rest" "1 \<le> ttl" "ttl \<le> 604800"
    "rs_body resp = dump (presign_body (presign_url hmac secret ''GET'' (presign_path bucket object) (now + ttl)) (now + ttl)
       bucket object)"
proof -
  have ok: "rs_status_code (HttpResponse_OK b) = 200" "rs_body (HttpResponse_OK b) = b" for b
    by (simp_all add: response_simps Let_def)
  have mthd: "presign_method b = Inr (Inr m) \<Longrightarrow> m = ''GET''" for b m
    by (auto simp: presign_method_def split: sum.splits if_splits)
  have ttl: "presign_ttl b = Inr (Inr t) \<Longrightarrow> 1 \<le> t \<and> t \<le> 604800" for b t
    by (auto simp: presign_ttl_def Let_def split: sum.splits if_splits)
  show thesis
    using assms
    by (auto simp: PresignHandlers_CreatePresignUrl_def presign_body_def Let_def ok
        split: option.splits sum.splits list.splits if_splits dest!: mthd ttl intro!: that)
qed

text \<open>C28: A presigned URL that the server hands out works until it expires, for its object and no longer: when
  the creation answers 200, the body holds a URL and an expiry 1 second to 7 days ahead such that the request
  line made of the URL parses to a request for the path of the bucket and object asked for, and verifying that
  request succeeds exactly at the times up to the expiry. HMAC gives at least one byte; bucket and object
  contain no space and no question mark.\<close>
theorem presign_roundtrip:
  assumes "\<forall>k m. hmac k m \<noteq> []"
    and "PresignHandlers_CreatePresignUrl dump parse hmac now secrets req s = (s', Inr resp)"
    and "rs_status_code resp = 200" and "parse (rq_body req) = Some j"
    and "json_value_string j ''bucket'' '''' = Inr bucket" "json_value_string j ''object'' '''' = Inr object"
    and "CHR ''?'' \<notin> set (bucket @ object)" "CHR '' '' \<notin> set (bucket @ object)" and "0 \<le> now" "now < 2 ^ 62"
  shows "s' = s \<and>
    (\<exists>url expires p. rs_body resp = dump (presign_body url expires bucket object) \<and>
       now < expires \<and> expires \<le> now + 604800 \<and>
       HttpParser_ParseRequestLine HttpParser_new (''GET '' @ url @ '' HTTP/1.1'') = (p, True) \<and>
       rq_path (ps_request p) = presign_path bucket object \<and>
       (\<forall>t. PresignHandlers_VerifyPresignUrl hmac t secrets (ps_request p) \<longleftrightarrow> t \<le> expires))"
proof -
  obtain secret rest ttl where c: "s' = s" "secrets = secret # rest" "1 \<le> ttl" "ttl \<le> 604800"
    "rs_body resp = dump (presign_body (presign_url hmac secret ''GET'' (presign_path bucket object) (now + ttl)) (now + ttl)
       bucket object)"
    by (rule create_presign_cases [OF assms(2-6)]) (rule that)
  let ?path = "presign_path bucket object" and ?expires = "now + ttl"
  let ?url = "presign_url hmac secret ''GET'' ?path ?expires"
  have path: "CHR ''?'' \<notin> set ?path" "CHR '' '' \<notin> set ?path"
    using assms(7,8) by (simp_all add: presign_path_def)
  obtain p ok where line: "HttpParser_ParseRequestLine HttpParser_new (''GET '' @ ?url @ '' HTTP/1.1'') = (p, ok)" by fastforce
  note r = presigned_request [OF path line]
  have "PresignHandlers_GenerateSignature hmac secret ''GET'' ?path ?expires \<noteq> ''''"
    using assms(1) by (simp add: PresignHandlers_GenerateSignature_def Crypto_HMAC_SHA256_def Let_def ToHexString_nonempty)
  moreover have "stoll (int_to_string ?expires) = Inr ?expires"
    using c(3,4) assms(9,10) by (intro stoll_int_to_string) simp_all
  ultimately have "PresignHandlers_VerifyPresignUrl hmac t secrets (ps_request p) \<longleftrightarrow> t \<le> ?expires" for t
    using c(2) by (auto simp: PresignHandlers_VerifyPresignUrl_def r Let_def)
  with c(1,3-5) line r(1,2) show ?thesis
    by (intro conjI exI [of _ ?url] exI [of _ ?expires] exI [of _ p]) simp_all
qed

text \<open>C29: A signature speaks for one method, one path and one expiry: when two accepted requests carry the same
  signature, they agree in method, path and expiry, provided HMAC does not collide on what the two requests
  have signed (the three fields are joined unambiguously).\<close>
theorem presign_binds_request:
  assumes "PresignHandlers_VerifyPresignUrl hmac t1 secrets r1" "PresignHandlers_VerifyPresignUrl hmac t2 secrets r2"
    and "HttpRequest_GetQueryParam r1 ''sig'' = HttpRequest_GetQueryParam r2 ''sig''"
    and "\<forall>k1 k2 e1 e2. hmac k1 (signed_string r1 e1) = hmac k2 (signed_string r2 e2) \<longrightarrow>
           signed_string r1 e1 = signed_string r2 e2"
  shows "rq_method r1 = rq_method r2 \<and> rq_path r1 = rq_path r2 \<and>
    stoll (HttpRequest_GetQueryParam r1 ''expires'') = stoll (HttpRequest_GetQueryParam r2 ''expires'')"
proof -
  have sig: "HttpRequest_GetQueryParam r1 ''sig'' \<noteq> ''''" "HttpRequest_GetQueryParam r2 ''sig'' \<noteq> ''''"
    using assms(1,2) by (auto simp: PresignHandlers_VerifyPresignUrl_def Let_def split: if_splits)
  obtain k1 e1 k2 e2 where v: "valid_signature hmac t1 secrets r1 k1 e1" "valid_signature hmac t2 secrets r2 k2 e2"
    using assms(1,2) verify_presign_iff [OF sig(1)] verify_presign_iff [OF sig(2)] by blast
  then have "hmac k1 (signed_string r1 e1) = hmac k2 (signed_string r2 e2)"
    using assms(3) by (auto simp: valid_signature_def Crypto_HMAC_SHA256_def dest: ToHexString_inj)
  then have "signed_string r1 e1 = signed_string r2 e2" using assms(4) by blast
  from signed_string_inj [OF this] show ?thesis using v by (simp add: valid_signature_def)
qed

definition hi_hmac :: "string \<Rightarrow> string \<Rightarrow> 8 word list" where
  "hi_hmac k m = [7, 9]"

definition hi_parse :: "string \<Rightarrow> Json option" where
  "hi_parse body = Some (JObj [(''bucket'', JStr ''b''), (''object'', JStr ''o'')])"

definition hi_dump :: "Json \<Rightarrow> string" where
  "hi_dump j = ''{}''"

definition hi_create :: "nat \<times> (cpp_exn + HttpResponse)" where
  "hi_create = PresignHandlers_CreatePresignUrl hi_dump hi_parse hi_hmac 1000 [''t''] HttpRequest_new 0"

text \<open>A token, an object and its URL.\<close>

theorem presign_roundtrip_witness:
  "\<exists>url expires p. (1000::int) < expires \<and>
     HttpParser_ParseRequestLine HttpParser_new (''GET '' @ url @ '' HTTP/1.1'') = (p, True) \<and>
     rq_path (ps_request p) = presign_path ''b'' ''o'' \<and>
     PresignHandlers_VerifyPresignUrl hi_hmac expires [''t''] (ps_request p) \<and>
     \<not> PresignHandlers_VerifyPresignUrl hi_hmac (expires + 1) [''t''] (ps_request p)"
proof -
  have "rs_status_code (projr (snd hi_create)) = 200 \<and> isl (snd hi_create) = False" by code_simp
  then have run: "PresignHandlers_CreatePresignUrl hi_dump hi_parse hi_hmac 1000 [''t''] HttpRequest_new 0 =
      (fst hi_create, Inr (projr (snd hi_create)))" and ok: "rs_status_code (projr (snd hi_create)) = 200"
    by (simp_all add: hi_create_def prod_eq_iff)
  have "(0::int) \<le> 1000" "(1000::int) < 2 ^ 62" by simp_all
  from presign_roundtrip [OF _ run ok, of "JObj [(''bucket'', JStr ''b''), (''object'', JStr ''o'')]" "''b''" "''o''"] this
  show ?thesis
    by (fastforce simp: hi_hmac_def hi_parse_def json_value_string_def json_get_string_def)
qed

text \<open>A code that does not collide: the bytes of the message.\<close>

definition plain_hmac :: "string \<Rightarrow> string \<Rightarrow> 8 word list" where
  "plain_hmac k m = map (\<lambda>c. of_nat (of_char c)) m"

lemma plain_hmac_inj: "plain_hmac k m = plain_hmac k' m' \<longleftrightarrow> m = m'"
proof -
  have "unat (of_nat (of_char c) :: 8 word) = of_char c" for c :: char
    using of_char_less [of c] by (simp add: unsigned_of_nat take_bit_nat_def)
  then have "inj (\<lambda>c :: char. of_nat (of_char c) :: 8 word)"
    by (metis (mono_tags) injI of_char_eq_iff)
  then show ?thesis by (simp add: plain_hmac_def inj_map_eq_map)
qed

definition url_request :: "string \<Rightarrow> HttpRequest" where
  "url_request q = HttpRequest_new\<lparr>rq_method := GET, rq_path := ''/b'', rq_query := q\<rparr>"

theorem presign_binds_request_witness:
  "stoll (HttpRequest_GetQueryParam (url_request ''expires=9&sig=4745540a2f620a39&method=GET'') ''expires'') =
   stoll (HttpRequest_GetQueryParam (url_request ''sig=4745540a2f620a39&expires=09'') ''expires'')"
proof -
  let ?r1 = "url_request ''expires=9&sig=4745540a2f620a39&method=GET''"
  let ?r2 = "url_request ''sig=4745540a2f620a39&expires=09''"
  have 1: "PresignHandlers_VerifyPresignUrl plain_hmac 5 [''t''] ?r1" by code_simp
  have 2: "PresignHandlers_VerifyPresignUrl plain_hmac 9 [''t''] ?r2" by code_simp
  have 3: "HttpRequest_GetQueryParam ?r1 ''sig'' = HttpRequest_GetQueryParam ?r2 ''sig''" by code_simp
  from presign_binds_request [OF 1 2 3] show ?thesis by (simp add: plain_hmac_inj)
qed

end
