(* ===== verification/Metrics.thy ===== *)
theory Metrics
  imports Http_Request Http_Response File_System
begin

text \<open>
  \<^verbatim>\<open>src/src/util/metrics.{h,cpp}\<close>: the counters and gauges, the samples of request durations, the text in the
  Prometheus format, and the access log with the text of its lines. A duration is kept as the milliseconds it was
  computed from; a sample is at most a bound of the histogram exactly when its milliseconds are, because rounding
  to \<open>double\<close> is monotone and these values are far enough apart. The order in which the unordered maps are
  enumerated and the text of the sum of samples (a \<open>double\<close> with six digits) are parameters.
\<close>

record MetricsData =
  mx_http_requests :: "string \<rightharpoonup> nat"
  mx_upload_bytes :: size_t
  mx_download_bytes :: size_t
  mx_active_connections :: int
  mx_storage_used_bytes :: size_t
  mx_objects_count :: size_t
  mx_cas_blobs_count :: size_t
  mx_gc_queue_length :: size_t
  mx_request_durations :: "string \<rightharpoonup> int list"

definition Metrics_new :: MetricsData where
  "Metrics_new = \<lparr>mx_http_requests = Map.empty, mx_upload_bytes = 0, mx_download_bytes = 0, mx_active_connections = 0,
     mx_storage_used_bytes = 0, mx_objects_count = 0, mx_cas_blobs_count = 0, mx_gc_queue_length = 0,
     mx_request_durations = Map.empty\<rparr>"

section \<open>Updates\<close>

definition Metrics_IncrementHttpRequests :: "MetricsData \<Rightarrow> string \<Rightarrow> int \<Rightarrow> MetricsData" where
  "Metrics_IncrementHttpRequests m method code =
     (let key = method @ ''_'' @ int_to_string code
      in m\<lparr>mx_http_requests := (mx_http_requests m)
            (key \<mapsto> size_add (case mx_http_requests m key of None \<Rightarrow> 0 | Some n \<Rightarrow> n) 1)\<rparr>)"

definition Metrics_AddUploadBytes :: "MetricsData \<Rightarrow> size_t \<Rightarrow> MetricsData" where
  "Metrics_AddUploadBytes m bytes = m\<lparr>mx_upload_bytes := size_add (mx_upload_bytes m) bytes\<rparr>"

definition Metrics_AddDownloadBytes :: "MetricsData \<Rightarrow> size_t \<Rightarrow> MetricsData" where
  "Metrics_AddDownloadBytes m bytes = m\<lparr>mx_download_bytes := size_add (mx_download_bytes m) bytes\<rparr>"

definition Metrics_SetActiveConnections :: "MetricsData \<Rightarrow> int \<Rightarrow> MetricsData" where
  "Metrics_SetActiveConnections m n = m\<lparr>mx_active_connections := n\<rparr>"

definition Metrics_IncrementActiveConnections :: "MetricsData \<Rightarrow> MetricsData" where
  "Metrics_IncrementActiveConnections m = m\<lparr>mx_active_connections := int32 (mx_active_connections m + 1)\<rparr>"

definition Metrics_DecrementActiveConnections :: "MetricsData \<Rightarrow> MetricsData" where
  "Metrics_DecrementActiveConnections m = m\<lparr>mx_active_connections := int32 (mx_active_connections m - 1)\<rparr>"

definition Metrics_SetStorageUsedBytes :: "MetricsData \<Rightarrow> size_t \<Rightarrow> MetricsData" where
  "Metrics_SetStorageUsedBytes m bytes = m\<lparr>mx_storage_used_bytes := bytes\<rparr>"

definition Metrics_SetObjectsCount :: "MetricsData \<Rightarrow> size_t \<Rightarrow> MetricsData" where
  "Metrics_SetObjectsCount m n = m\<lparr>mx_objects_count := n\<rparr>"

definition Metrics_SetCasBlobsCount :: "MetricsData \<Rightarrow> size_t \<Rightarrow> MetricsData" where
  "Metrics_SetCasBlobsCount m n = m\<lparr>mx_cas_blobs_count := n\<rparr>"

definition Metrics_SetGcQueueLength :: "MetricsData \<Rightarrow> size_t \<Rightarrow> MetricsData" where
  "Metrics_SetGcQueueLength m n = m\<lparr>mx_gc_queue_length := n\<rparr>"

definition Metrics_ObserveRequestDuration :: "MetricsData \<Rightarrow> string \<Rightarrow> string \<Rightarrow> int \<Rightarrow> MetricsData" where
  "Metrics_ObserveRequestDuration m method route ms =
     (let key = method @ ''_'' @ route;
          samples = (case mx_request_durations m key of None \<Rightarrow> [] | Some ds \<Rightarrow> ds) @ [ms];
          samples = (if length samples > 10000 then drop 5000 samples else samples)
      in m\<lparr>mx_request_durations := (mx_request_durations m)(key \<mapsto> samples)\<rparr>)"

section \<open>Access log\<close>

definition access_bytes_in :: "HttpRequest \<Rightarrow> size_t" where
  "access_bytes_in request =
     (let internal_size = HttpRequest_GetHeader request ''X-Internal-Size''
      in if internal_size \<noteq> '''' then (case stoull internal_size of Inr n \<Rightarrow> n | Inl _ \<Rightarrow> length (rq_body request))
         else length (rq_body request))"

definition Logging_AccessLog :: "HttpRequest \<Rightarrow> HttpResponse \<Rightarrow> int \<Rightarrow> MetricsData \<Rightarrow> MetricsData" where
  "Logging_AccessLog request response latency_ms m =
     (let method = HttpMethodToString (rq_method request);
          m = Metrics_IncrementHttpRequests m method (rs_status_code response);
          m = Metrics_ObserveRequestDuration m method (rq_path request) latency_ms;
          bytes_in = access_bytes_in request;
          bytes_out = (if HttpResponse_HasFile response then HttpResponse_FileLength response else length (rs_body response));
          m = (if rq_method request = PUT \<or> rq_method request = POST then Metrics_AddUploadBytes m bytes_in else m)
      in if rq_method request = GET then Metrics_AddDownloadBytes m bytes_out else m)"

section \<open>Log lines\<close>

text \<open>\<^verbatim>\<open>src/src/util/logging.cpp\<close>: the level chosen by \<open>Logger::Init\<close> and the text of a line of the access log; \<open>now_ms\<close> is
  the clock. The sinks are described by their files, sizes and patterns; what the system says to the creation of a
  directory or a file is an argument, with the text of the exception when it fails. What spdlog does with a line
  is not modelled.\<close>

datatype LogLevel = Level_trace | Level_debug | Level_info | Level_warn | Level_err

definition Logger_level :: "string \<Rightarrow> LogLevel" where
  "Logger_level level =
     (if level = ''trace'' then Level_trace
      else if level = ''debug'' then Level_debug
      else if level = ''info'' then Level_info
      else if level = ''warn'' then Level_warn
      else if level = ''error'' then Level_err
      else Level_info)"

datatype Sink = Console_Sink string | Rotating_Sink string nat nat string

record LogSys =
  lo_mkdir :: "string \<Rightarrow> string option"
  lo_open :: "string \<Rightarrow> string option"

record Logger =
  lg_json_format :: bool
  lg_sinks :: "Sink list"
  lg_level :: LogLevel
  lg_access_sink :: Sink
  lg_access_level :: LogLevel

definition console_sink :: Sink where
  "console_sink = Console_Sink ''[%Y-%m-%d %H:%M:%S.%e] [%^%l%$] [%t] %v''"

definition error_sink :: "string \<Rightarrow> Sink" where
  "error_sink path = Rotating_Sink path (100 * 1024 * 1024) 10 ''[%Y-%m-%d %H:%M:%S.%e] [%l] [%t] %v''"

definition access_sink :: "string \<Rightarrow> Sink" where
  "access_sink path = Rotating_Sink path (100 * 1024 * 1024) 10 ''%v''"

text \<open>The first exception, in the order of the calls, or the loggers.\<close>

definition Logger_Init :: "LogSys \<Rightarrow> string \<Rightarrow> string \<Rightarrow> string \<Rightarrow> bool \<Rightarrow> string + Logger" where
  "Logger_Init sys level access_log_path error_log_path json_format =
     (let mkdir = (\<lambda>path. if path \<noteq> '''' then lo_mkdir sys (parent_path path) else None);
          open1 = (\<lambda>path. if path \<noteq> '''' then lo_open sys path else None)
      in case mkdir error_log_path of Some e \<Rightarrow> Inl e | None \<Rightarrow>
         (case mkdir access_log_path of Some e \<Rightarrow> Inl e | None \<Rightarrow>
         (case open1 error_log_path of Some e \<Rightarrow> Inl e | None \<Rightarrow>
         (case open1 access_log_path of Some e \<Rightarrow> Inl e | None \<Rightarrow>
            Inr \<lparr>lg_json_format = json_format,
                 lg_sinks = console_sink # (if error_log_path \<noteq> '''' then [error_sink error_log_path] else []),
                 lg_level = Logger_level level,
                 lg_access_sink = (if access_log_path \<noteq> '''' then access_sink access_log_path else console_sink),
                 lg_access_level = Level_info\<rparr>))))"

definition Logging_Init :: "LogSys \<Rightarrow> string \<Rightarrow> string \<Rightarrow> string \<Rightarrow> bool \<Rightarrow> string + Logger" where
  "Logging_Init sys level access_log_path error_log_path json_format =
     Logger_Init sys level access_log_path error_log_path json_format"

definition Logger_LogAccess ::
    "(Json \<Rightarrow> string) \<Rightarrow> int \<Rightarrow> bool \<Rightarrow> string \<Rightarrow> string \<Rightarrow> string \<Rightarrow> string \<Rightarrow> int \<Rightarrow> int \<Rightarrow> size_t \<Rightarrow> size_t \<Rightarrow> string \<Rightarrow> string \<Rightarrow> string" where
  "Logger_LogAccess dump now_ms json_format trace_id client_ip method path status latency_ms bytes_in bytes_out bucket object =
     (if json_format
      then dump (JObj ([(''ts'', JInt now_ms), (''trace_id'', JStr trace_id), (''client_ip'', JStr client_ip), (''method'', JStr method),
                        (''path'', JStr path), (''status'', JInt status), (''latency_ms'', JInt latency_ms),
                        (''bytes_in'', JInt (int bytes_in)), (''bytes_out'', JInt (int bytes_out))] @
                       (if bucket \<noteq> '''' then [(''bucket'', JStr bucket)] else []) @
                       (if object \<noteq> '''' then [(''object'', JStr object)] else [])))
      else trace_id @ '' '' @ client_ip @ '' '' @ method @ '' '' @ path @ '' '' @ int_to_string status @ '' '' @ int_to_string latency_ms @ ''ms '' @
           nat_to_string bytes_in @ '' '' @ nat_to_string bytes_out)"

section \<open>Text\<close>

record MetricsEnv =
  xe_requests :: "(string \<rightharpoonup> nat) \<Rightarrow> (string \<times> nat) list"
  xe_durations :: "(string \<rightharpoonup> int list) \<Rightarrow> (string \<times> int list) list"
  xe_sum_text :: "int list \<Rightarrow> string"

text \<open>\<open>kBuckets\<close> in milliseconds, and the text of each bound: as the stream first prints it, and once
  \<open>std::fixed\<close> and the precision have been set by the first sum.\<close>

definition kBuckets :: "int list" where
  "kBuckets = [1, 5, 10, 25, 50, 100, 250, 500, 1000, 2500, 5000, 10000]"

definition bound_text :: "bool \<Rightarrow> int \<Rightarrow> string" where
  "bound_text is_fixed b =
     (let seconds = nat_to_string (nat b div 1000); frac = nat_to_string (nat b mod 1000);
          digits = replicate (3 - length frac) (CHR ''0'') @ frac;
          short = rev (dropWhile (\<lambda>c. c = CHR ''0'') (rev digits))
      in if is_fixed then seconds @ ''.'' @ digits @ ''000''
         else if short = [] then seconds else seconds @ ''.'' @ short)"

definition gauge :: "string \<Rightarrow> string \<Rightarrow> string \<Rightarrow> string \<Rightarrow> string" where
  "gauge name help kind val =
     ''# HELP '' @ name @ '' '' @ help @ [LF] @ ''# TYPE '' @ name @ '' '' @ kind @ [LF] @ name @ '' '' @ val @ [LF]"

definition request_line_text :: "string \<times> nat \<Rightarrow> string" where
  "request_line_text e =
     (case e of (key, count) \<Rightarrow>
        case find_char (CHR ''_'') key of
          None \<Rightarrow> ''''
        | Some pos \<Rightarrow>
            ''minis3_http_requests_total{method='' @ [CHR 0x22] @ take pos key @ [CHR 0x22] @ '',code='' @ [CHR 0x22] @
            drop (pos + 1) key @ [CHR 0x22] @ ''} '' @ nat_to_string count @ [LF])"

definition bucket_counts :: "int list \<Rightarrow> nat list" where
  "bucket_counts durations = map (\<lambda>b. length (filter (\<lambda>d. d \<le> b) durations)) kBuckets"

definition duration_labels :: "string \<Rightarrow> string \<Rightarrow> string" where
  "duration_labels method route = ''{method='' @ [CHR 0x22] @ method @ [CHR 0x22] @ '',route='' @ [CHR 0x22] @ route @ [CHR 0x22]"

definition histogram_text :: "MetricsEnv \<Rightarrow> bool \<Rightarrow> string \<Rightarrow> int list \<Rightarrow> string" where
  "histogram_text env is_fixed key durations =
     (let (method, route) = (case find_char (CHR ''_'') key of Some pos \<Rightarrow> (take pos key, drop (pos + 1) key) | None \<Rightarrow> (key, ''''));
          labels = duration_labels method route;
          bucket = (\<lambda>le n. ''minis3_http_request_duration_seconds_bucket'' @ labels @ '',le='' @ [CHR 0x22] @ le @ [CHR 0x22] @ ''} '' @
                      nat_to_string n @ [LF])
      in concat (map (\<lambda>(b, n). bucket (bound_text is_fixed b) n) (zip kBuckets (bucket_counts durations))) @
         bucket ''+Inf'' (length durations) @
         ''minis3_http_request_duration_seconds_sum'' @ labels @ ''} '' @ xe_sum_text env durations @ [LF] @
         ''minis3_http_request_duration_seconds_count'' @ labels @ ''} '' @ nat_to_string (length durations) @ [LF])"

fun histograms :: "MetricsEnv \<Rightarrow> bool \<Rightarrow> (string \<times> int list) list \<Rightarrow> string" where
  "histograms env is_fixed [] = ''''"
| "histograms env is_fixed ((key, durations) # rest) =
     (if durations = [] then histograms env is_fixed rest
      else histogram_text env is_fixed key durations @ histograms env True rest)"

definition Metrics_Export :: "MetricsEnv \<Rightarrow> MetricsData \<Rightarrow> string" where
  "Metrics_Export env m =
     ''# HELP minis3_http_requests_total Total number of HTTP requests'' @ [LF] @ ''# TYPE minis3_http_requests_total counter'' @ [LF] @
     concat (map request_line_text (xe_requests env (mx_http_requests m))) @
     gauge ''minis3_upload_bytes_total'' ''Total bytes uploaded'' ''counter'' (nat_to_string (mx_upload_bytes m)) @
     gauge ''minis3_download_bytes_total'' ''Total bytes downloaded'' ''counter'' (nat_to_string (mx_download_bytes m)) @
     gauge ''minis3_active_connections'' ''Current number of active connections'' ''gauge'' (int_to_string (mx_active_connections m)) @
     gauge ''minis3_storage_used_bytes'' ''Total storage used in bytes'' ''gauge'' (nat_to_string (mx_storage_used_bytes m)) @
     gauge ''minis3_objects_count'' ''Total number of objects'' ''gauge'' (nat_to_string (mx_objects_count m)) @
     gauge ''minis3_cas_blobs_count'' ''Total number of CAS blobs'' ''gauge'' (nat_to_string (mx_cas_blobs_count m)) @
     gauge ''minis3_gc_queue_length'' ''Current GC queue length'' ''gauge'' (nat_to_string (mx_gc_queue_length m)) @
     ''# HELP minis3_http_request_duration_seconds HTTP request duration in seconds'' @ [LF] @
     ''# TYPE minis3_http_request_duration_seconds histogram'' @ [LF] @
     histograms env False (xe_durations env (mx_request_durations m))"

section \<open>Lemmas\<close>

text \<open>Without log files nothing is created and the initialisation cannot fail; lines of the access log have no prefix
  exactly when they go to a file.\<close>

lemma Logger_Init_console:
  "\<exists>lg. Logger_Init sys level '''' '''' js = Inr lg \<and> lg_sinks lg = [console_sink] \<and> lg_access_sink lg = console_sink"
  by (simp add: Logger_Init_def)

lemma Logger_Init_files:
  assumes "Logger_Init sys level a e js = Inr lg"
  shows "(a \<noteq> '''' \<longrightarrow> lo_open sys a = None \<and> lg_access_sink lg = access_sink a) \<and> (e \<noteq> '''' \<longrightarrow> lo_open sys e = None \<and> error_sink e \<in> set (lg_sinks lg))"
  using assms by (auto simp: Logger_Init_def Let_def split: option.splits if_splits)

text \<open>At most 10000 samples are kept of a key, the last ones.\<close>

definition samples_bounded :: "MetricsData \<Rightarrow> bool" where
  "samples_bounded m \<longleftrightarrow> (\<forall>key ds. mx_request_durations m key = Some ds \<longrightarrow> length ds \<le> 10000)"

lemma Observe_bounded: "samples_bounded m \<Longrightarrow> samples_bounded (Metrics_ObserveRequestDuration m method route ms)"
  by (force simp: samples_bounded_def Metrics_ObserveRequestDuration_def Let_def split: option.splits)

lemma AccessLog_bounded: "samples_bounded m \<Longrightarrow> samples_bounded (Logging_AccessLog request response ms m)"
  using Observe_bounded [of "Metrics_IncrementHttpRequests m (HttpMethodToString (rq_method request)) (rs_status_code response)"
      "HttpMethodToString (rq_method request)" "rq_path request" ms]
  by (simp add: samples_bounded_def Logging_AccessLog_def Metrics_AddUploadBytes_def Metrics_AddDownloadBytes_def
      Metrics_IncrementHttpRequests_def Let_def)

text \<open>The counts of the histogram grow with the bound and are at most the number of samples.\<close>

lemma bucket_counts_cumulative: "sorted (bucket_counts ds @ [length ds])"
proof -
  have "a \<le> b \<Longrightarrow> length (filter (\<lambda>d. d \<le> a) ds) \<le> length (filter (\<lambda>d. d \<le> b) ds)" for a b :: int by (induction ds) auto
  then show ?thesis by (simp add: bucket_counts_def kBuckets_def)
qed

lemma bound_texts:
  "map (bound_text False) kBuckets = [''0.001'', ''0.005'', ''0.01'', ''0.025'', ''0.05'', ''0.1'', ''0.25'', ''0.5'', ''1'', ''2.5'', ''5'', ''10'']"
  "hd (map (bound_text True) kBuckets) = ''0.001000''"
  by code_simp+

end
