(* ===== verification/Server.thy ===== *)
theory Server
  imports Http_Connection Presign_Auth Bucket_Handlers Object_Handlers Multipart_Handlers Metrics
begin

text \<open>
  The server: \<^verbatim>\<open>src/src/server/server.cpp\<close>. The route table, the middleware, the callbacks set on every connection
  (a complete request, a piece of a body, the close of a connection), streamed uploads by connection, and the
  choice of a loop for a new connection. The stores and the collector are the state of the request handlers;
  configuration values, the key function of the signatures and the duration of the request are in the environment,
  and so is the text of the metrics, which is that of the metrics at the time of the request.
  Headers that the middleware adds to a request are seen by the handlers only.
\<close>

section \<open>State\<close>

record UploadContext =
  uc_session :: "WriteSession option"
  uc_expected_sha256 :: string
  uc_bytes_written :: size_t
  uc_streaming :: bool

definition UploadContext_new :: UploadContext where
  "UploadContext_new = \<lparr>uc_session = None, uc_expected_sha256 = '''', uc_bytes_written = 0, uc_streaming = False\<rparr>"

record ('d, 'r) Server =
  sv_world :: "('d, 'r) World"
  sv_uploads :: "nat \<rightharpoonup> UploadContext"
  sv_connections :: "nat set"
  sv_metrics :: MetricsData
  sv_next_loop_index :: size_t

record ('d, 'r) ServerEnv =
  sc_api :: "('d, 'r) Api"
  sc_auth_enabled :: bool
  sc_static_tokens :: "string list"
  sc_hmac :: "string \<Rightarrow> string \<Rightarrow> 8 word list"
  sc_metrics :: string
  sc_metrics_env :: MetricsEnv
  sc_latency_ms :: int
  sc_order :: "(string \<rightharpoonup> string) \<Rightarrow> (string \<times> string) list"
  sc_connection_idle_timeout :: int
  sc_max_body_bytes :: size_t

section \<open>Routes\<close>

definition route_table :: "('d, 'r) ServerEnv \<Rightarrow> (HttpMethod \<times> string \<times> ('d, 'r) World HttpHandler) list" where
  "route_table env =
     (let api = sc_api env in
      [(GET, ''/healthz'', HealthHandlers_HealthCheck api),
       (GET, ''/readyz'', HealthHandlers_ReadyCheck api),
       (GET, ''/metrics'', HealthHandlers_Metrics (sc_metrics env)),
       (PUT, ''/buckets/{bucket}'', BucketHandlers_CreateBucket api),
       (GET, ''/buckets/{bucket}'', BucketHandlers_GetBucket api),
       (DELETE, ''/buckets/{bucket}'', BucketHandlers_DeleteBucket api),
       (GET, ''/buckets'', BucketHandlers_ListBuckets api),
       (PUT, ''/buckets/{bucket}/objects/{object}'', ObjectHandlers_PutObject api),
       (GET, ''/buckets/{bucket}/objects/{object}'', ObjectHandlers_GetObject api),
       (HEAD, ''/buckets/{bucket}/objects/{object}'', ObjectHandlers_HeadObject api),
       (DELETE, ''/buckets/{bucket}/objects/{object}'', ObjectHandlers_DeleteObject api),
       (GET, ''/buckets/{bucket}/objects'', ObjectHandlers_ListObjects api),
       (POST, ''/buckets/{bucket}/multipart/{object}'', MultipartHandlers_InitUpload api),
       (PUT, ''/buckets/{bucket}/multipart/{object}/{upload_id}/parts/{part_number}'', MultipartHandlers_UploadPart api),
       (POST, ''/buckets/{bucket}/multipart/{object}/{upload_id}/complete'', MultipartHandlers_CompleteUpload api),
       (DELETE, ''/buckets/{bucket}/multipart/{object}/{upload_id}'', MultipartHandlers_AbortUpload api),
       (POST, ''/presign'', PresignHandlers_CreatePresignUrl (ap_dump api) (me_parse (ap_meta api)) (sc_hmac env) (ap_now api)
                              (sc_static_tokens env))])"

fun add_routes :: "'s HttpRouter \<Rightarrow> (HttpMethod \<times> string \<times> 's HttpHandler) list \<Rightarrow> cpp_exn + 's HttpRouter" where
  "add_routes r [] = Inr r"
| "add_routes r ((m, pattern, handler) # rest) =
     (case HttpRouter_Route r m pattern handler of Inl e \<Rightarrow> Inl e | Inr r \<Rightarrow> add_routes r rest)"

definition Server_SetupRoutes :: "('d, 'r) ServerEnv \<Rightarrow> cpp_exn + ('d, 'r) World HttpRouter" where
  "Server_SetupRoutes env =
     (let api = sc_api env;
          r = HttpRouter_Use HttpRouter_new (TraceMiddleware_Handle (ap_uuid api 0));
          r = (if sc_auth_enabled env
               then HttpRouter_Use r (AuthMiddleware_Handle (ap_dump api) (sc_hmac env) (ap_now api) (sc_static_tokens env))
               else r)
      in case add_routes r (route_table env) of
           Inl e \<Rightarrow> Inl e
         | Inr r \<Rightarrow> Inr (HttpRouter_SetNotFoundHandler r
             (\<lambda>req w. answer w (HttpResponse_NotFound (ap_dump api) (''Resource not found: '' @ rq_path req) ''''))))"

definition Server_Handle :: "('d, 'r) ServerEnv \<Rightarrow> ('d, 'r) World HttpHandler" where
  "Server_Handle env request w =
     (case Server_SetupRoutes env of
        Inl e \<Rightarrow> (w, Inl e)
      | Inr r \<Rightarrow> HttpRouter_Handle (ap_dump (sc_api env)) r request w)"

section \<open>Callbacks of a connection\<close>

definition Server_ShouldStreamUpload :: "HttpRequest \<Rightarrow> bool" where
  "Server_ShouldStreamUpload request =
     (if rq_method request \<noteq> PUT then False
      else find_str ''/objects/'' (rq_path request) \<noteq> None \<or> find_str ''/multipart/'' (rq_path request) \<noteq> None)"

text \<open>The environment of a connection without its callbacks; \<open>Send\<close> uses no others.\<close>

definition send_env :: "('d, 'r) ServerEnv \<Rightarrow> ('d, 'r) Server ConnEnv" where
  "send_env env =
     \<lparr>ce_request_callback = Inr, ce_body_data_callback = \<lambda>_. Inr, ce_close_callback = \<lambda>n. n,
      ce_open = \<lambda>path s. (case sys_open (w_fs (sv_world s)) path of (fs, r) \<Rightarrow> (s\<lparr>sv_world := (sv_world s)\<lparr>w_fs := fs\<rparr>\<rparr>, r)),
      ce_order = sc_order env, ce_dump = ap_dump (sc_api env)\<rparr>"

text \<open>The context of the connection is taken out; a streamed upload is committed and handed on by two headers.\<close>

definition take_upload :: "('d, 'r) Server \<Rightarrow> nat \<Rightarrow> ('d, 'r) Server \<times> UploadContext" where
  "take_upload s fd =
     (case sv_uploads s fd of
        None \<Rightarrow> (s, UploadContext_new)
      | Some ctx \<Rightarrow> (s\<lparr>sv_uploads := (sv_uploads s)(fd := None)\<rparr>, ctx))"

definition route_request :: "('d, 'r) ServerEnv \<Rightarrow> ('d, 'r) Server Net \<Rightarrow> Stop + ('d, 'r) Server Net" where
  "route_request env n =
     (case n of (l, c, s) \<Rightarrow>
        let request = ps_request (hc_parser c); env = env\<lparr>sc_metrics := Metrics_Export (sc_metrics_env env) (sv_metrics s)\<rparr>
        in case Server_Handle env request (sv_world s) of
             (w, Inl e) \<Rightarrow> Inl (Uncaught e)
           | (w, Inr response) \<Rightarrow>
               Inr (HttpConnection_Send (send_env env) response
                 (l, c, s\<lparr>sv_world := w, sv_metrics := Logging_AccessLog request response (sc_latency_ms env) (sv_metrics s)\<rparr>)))"

definition set_request :: "(HttpRequest \<Rightarrow> HttpRequest) \<Rightarrow> HttpConnection \<Rightarrow> HttpConnection" where
  "set_request f c = c\<lparr>hc_parser := (hc_parser c)\<lparr>ps_request := f (ps_request (hc_parser c))\<rparr>\<rparr>"

definition Server_OnRequest :: "('d, 'r) ServerEnv \<Rightarrow> ('d, 'r) Server Net \<Rightarrow> Stop + ('d, 'r) Server Net" where
  "Server_OnRequest env n =
     (case n of (l, c, s) \<Rightarrow>
        case take_upload s (hc_fd c) of (s, ctx) \<Rightarrow>
          (case (uc_streaming ctx, uc_session ctx) of
             (True, Some session) \<Rightarrow>
               (case DataStore_CommitWrite (ap_store (sc_api env)) (ap_ds (sc_api env)) (w_fs (sv_world s)) session (uc_expected_sha256 ctx) of
                  (fs, Inl status) \<Rightarrow>
                    Inr (HttpConnection_Send (send_env env)
                           (HttpResponse_BadRequest (ap_dump (sc_api env)) (st_message status) (rq_trace_id (ps_request (hc_parser c))))
                           (l, c, s\<lparr>sv_world := (sv_world s)\<lparr>w_fs := fs\<rparr>\<rparr>))
                | (fs, Inr cas_key) \<Rightarrow>
                    route_request env
                      (l, set_request (\<lambda>r. HttpRequest_SetHeader (HttpRequest_SetHeader r ''X-Internal-CAS-Key'' cas_key)
                             ''X-Internal-Size'' (nat_to_string (uc_bytes_written ctx))) c,
                       s\<lparr>sv_world := (sv_world s)\<lparr>w_fs := fs\<rparr>\<rparr>))
           | _ \<Rightarrow> route_request env (l, c, s)))"

text \<open>A failed upload is answered at once and the connection is to be closed.\<close>

definition fail_upload :: "('d, 'r) ServerEnv \<Rightarrow> string \<Rightarrow> ('d, 'r) Server Net \<Rightarrow> ('d, 'r) Server Net" where
  "fail_upload env msg n =
     (let request = ps_request (hc_parser (fst (snd n)));
          n = HttpConnection_Send (send_env env) (HttpResponse_InternalError (ap_dump (sc_api env)) msg (rq_trace_id request)) n
      in HttpConnection_ForceClose (el_thread_id (fst n)) n)"

definition begin_upload ::
    "('d, 'r) ServerEnv \<Rightarrow> HttpRequest \<Rightarrow> UploadContext \<Rightarrow> FileSys \<Rightarrow> FileSys \<times> UploadContext \<times> bool" where
  "begin_upload env request ctx fs =
     (if uc_streaming ctx then (fs, ctx, True)
      else let ctx = ctx\<lparr>uc_streaming := True, uc_expected_sha256 := HttpRequest_GetHeader request ''X-Content-SHA256''\<rparr>
           in case DataStore_BeginWrite (ap_store (sc_api env)) (ap_ds (sc_api env)) fs (ap_uuid (sc_api env) 4) of
                (fs, Inl _) \<Rightarrow> (fs, ctx, False)
              | (fs, Inr session) \<Rightarrow> (fs, ctx\<lparr>uc_session := Some session\<rparr>, True))"

definition Server_OnBodyData ::
    "('d, 'r) ServerEnv \<Rightarrow> string \<Rightarrow> ('d, 'r) Server Net \<Rightarrow> Stop + ('d, 'r) Server Net" where
  "Server_OnBodyData env data n =
     (case n of (l, c, s) \<Rightarrow>
        let request = ps_request (hc_parser c); fd = hc_fd c
        in if \<not> Server_ShouldStreamUpload request
           then Inr (l, set_request (\<lambda>r. r\<lparr>rq_body := rq_body r @ data\<rparr>) c, s)
           else let ctx = (case sv_uploads s fd of None \<Rightarrow> UploadContext_new | Some ctx \<Rightarrow> ctx)
                in case begin_upload env request ctx (w_fs (sv_world s)) of
                     (fs, ctx, ok) \<Rightarrow>
                       let s = s\<lparr>sv_world := (sv_world s)\<lparr>w_fs := fs\<rparr>, sv_uploads := (sv_uploads s)(fd \<mapsto> ctx)\<rparr>
                       in if \<not> ok then Inr (fail_upload env ''Failed to start upload'' (l, c, s))
                          else case uc_session ctx of
                                 None \<Rightarrow> Inl Null_Dereference
                               | Some session \<Rightarrow>
                                   (case WriteSession_Write (ap_store (sc_api env)) fs session data of
                                      (fs, session, status) \<Rightarrow>
                                        let ctx = ctx\<lparr>uc_session := Some session,
                                                     uc_bytes_written := if Status_ok status then size_add (uc_bytes_written ctx) (length data)
                                                                         else uc_bytes_written ctx\<rparr>;
                                            s = s\<lparr>sv_world := (sv_world s)\<lparr>w_fs := fs\<rparr>, sv_uploads := (sv_uploads s)(fd \<mapsto> ctx)\<rparr>
                                        in if \<not> Status_ok status then Inr (fail_upload env ''Failed to write upload'' (l, c, s))
                                           else Inr (l, c, s)))"

text \<open>Dropping a context destroys its session, which removes the temporary file.\<close>

definition Server_OnConnectionClose :: "('d, 'r) Server Net \<Rightarrow> ('d, 'r) Server Net" where
  "Server_OnConnectionClose n =
     (case n of (l, c, s) \<Rightarrow>
        let s = s\<lparr>sv_connections := sv_connections s - {hc_fd c}, sv_metrics := Metrics_DecrementActiveConnections (sv_metrics s)\<rparr>;
            fs = (case sv_uploads s (hc_fd c) of
                    Some ctx \<Rightarrow> (case uc_session ctx of None \<Rightarrow> w_fs (sv_world s) | Some ws \<Rightarrow> WriteSession_destroy (w_fs (sv_world s)) ws)
                  | None \<Rightarrow> w_fs (sv_world s))
        in (l, c, s\<lparr>sv_uploads := (sv_uploads s)(hc_fd c := None), sv_world := (sv_world s)\<lparr>w_fs := fs\<rparr>\<rparr>))"

text \<open>The callbacks of every connection.\<close>

definition conn_env :: "('d, 'r) ServerEnv \<Rightarrow> ('d, 'r) Server ConnEnv" where
  "conn_env env =
     (send_env env)\<lparr>ce_request_callback := Server_OnRequest env, ce_body_data_callback := Server_OnBodyData env,
                   ce_close_callback := Server_OnConnectionClose\<rparr>"

definition Server_ActiveConnections :: "('d, 'r) Server \<Rightarrow> nat" where
  "Server_ActiveConnections s = card (sv_connections s)"

section \<open>New connections\<close>

text \<open>The next loop, by its index among the loops of the input threads; none of them, the main loop.\<close>

definition Server_GetNextLoop :: "nat \<Rightarrow> ('d, 'r) Server \<Rightarrow> ('d, 'r) Server \<times> nat option" where
  "Server_GetNextLoop io_loops s =
     (if io_loops = 0 then (s, None)
      else (s\<lparr>sv_next_loop_index := size_add (sv_next_loop_index s) 1\<rparr>, Some (sv_next_loop_index s mod io_loops)))"

text \<open>The connection on the chosen loop \<open>l\<close>; \<open>this_thread\<close> is the thread of the acceptor.\<close>

definition Server_OnNewConnection ::
    "('d, 'r) ServerEnv \<Rightarrow> nat \<Rightarrow> nat \<Rightarrow> nat \<Rightarrow> string \<Rightarrow> Functor EventLoop \<Rightarrow> ('d, 'r) Server \<Rightarrow> ('d, 'r) Server Net" where
  "Server_OnNewConnection env this_thread p sockfd peer_addr l s =
     (let (l, c, s) = HttpConnection_SetIdleTimeout (sc_connection_idle_timeout env) (l, HttpConnection_new p sockfd peer_addr, s);
          c = c\<lparr>hc_max_body_bytes := sc_max_body_bytes env\<rparr>;
          s = s\<lparr>sv_connections := insert sockfd (sv_connections s), sv_metrics := Metrics_IncrementActiveConnections (sv_metrics s)\<rparr>
      in HttpConnection_Start (conn_env env) this_thread (l, c, s))"

end
