(* ===== verification/Server_Theorems.thy ===== *)
theory Server_Theorems
  imports Server Cas_Integrity Handler_Theorems Connection_Theorems
begin

text \<open>
  Uploads through a connection: however the bytes of a body arrive, the handlers see them as one blob of the
  store; and what happens when writing a piece fails. The dispatch of the route table.
\<close>

section \<open>A piece of a body\<close>

lemma conn_env_fields [simp]:
  "ce_request_callback (conn_env env) = Server_OnRequest env" "ce_body_data_callback (conn_env env) = Server_OnBodyData env"
  "ce_close_callback (conn_env env) = Server_OnConnectionClose"
  by (simp_all add: conn_env_def)

text \<open>A connection that waits for \<open>R\<close> more bytes of a body and has none in its buffer.\<close>

definition awaits :: "HttpConnection \<Rightarrow> nat \<Rightarrow> bool" where
  "awaits c R \<longleftrightarrow>
     hc_state c = READING_BODY_STREAM \<and> ps_remaining_body_length (hc_parser c) = R \<and> bb_inv (hc_input c) \<and>
     bb_view (hc_input c) = [] \<and> bb_room (hc_input c) R"

lemma read_bytes:
  assumes c: "awaits c R" and d: "d \<noteq> []" "length d \<le> R"
  obtains l' b where "HttpConnection_HandleRead env (Inr d) (l, c, s) = process_body env (l', c\<lparr>hc_input := b\<rparr>, s)"
    "bb_inv b" "bb_view b = d" "ByteBuffer_ReadableBytes b = length d"
    "length (bb_buffer b) \<le> length (bb_buffer (hc_input c)) + length d"
proof -
  have i: "hc_state c = READING_BODY_STREAM" "bb_inv (hc_input c)" "bb_view (hc_input c) = []" "bb_room (hc_input c) (length d)"
    using c d by (auto simp: awaits_def bb_room_def)
  define b where "b = fst (ByteBuffer_ReadFd (hc_input c) (Inr d))"
  have b: "ByteBuffer_ReadFd (hc_input c) (Inr d) = (b, Inr (length d))" by (simp add: b_def ByteBuffer_ReadFd_def Let_def)
  have v: "bb_inv b" "bb_view b = d" "length (bb_buffer b) \<le> length (bb_buffer (hc_input c)) + length d"
    using ReadFd_spec [OF i(2,4)] b i(3) by simp_all
  obtain l1 where l1: "HttpConnection_RefreshIdleTimer (l, c, s) = (l1, c, s)" by (simp add: HttpConnection_RefreshIdleTimer_def)
  show ?thesis
    by (rule that [of l1 b]) (use b l1 i d(1) v in \<open>simp_all add: HttpConnection_HandleRead_def readable_view\<close>)
qed

text \<open>A piece of the body in the buffer that the callback takes without touching the connection.\<close>

lemma process_piece:
  assumes c: "hc_state c = READING_BODY_STREAM" "ps_remaining_body_length (hc_parser c) = R"
    and b: "bb_inv b" "bb_view b = d" "bb_room b (R - length d)" and d: "length d \<le> R"
    and cb: "\<exists>l'. ce_body_data_callback env d (l, c\<lparr>hc_input := b\<rparr>, s) = Inr (l', c\<lparr>hc_input := b\<rparr>, s')"
  obtains l' b' where "awaits (c\<lparr>hc_input := b', hc_parser := (hc_parser c)\<lparr>ps_remaining_body_length := R - length d\<rparr>\<rparr>) (R - length d)"
    "length d < R \<Longrightarrow> process_body env (l, c\<lparr>hc_input := b\<rparr>, s) =
       Inr (l', c\<lparr>hc_input := b', hc_parser := (hc_parser c)\<lparr>ps_remaining_body_length := R - length d\<rparr>\<rparr>, s')"
    "length d = R \<Longrightarrow> process_body env (l, c\<lparr>hc_input := b\<rparr>, s) =
       request_complete env (l', c\<lparr>hc_input := b', hc_parser := (hc_parser c)\<lparr>ps_remaining_body_length := 0, ps_state := DONE\<rparr>\<rparr>, s')"
proof -
  obtain l' where l': "ce_body_data_callback env d (l, c\<lparr>hc_input := b\<rparr>, s) = Inr (l', c\<lparr>hc_input := b\<rparr>, s')" using cb by blast
  let ?b = "ByteBuffer_Retrieve b (length d)"
  have v: "ByteBuffer_ReadableBytes b = length d" using b by (simp add: readable_view)
  have r: "bb_inv ?b" "bb_view ?b = []" "bb_buffer ?b = bb_buffer b" using b by (simp_all add: Retrieve_inv Retrieve_view Retrieve_buffer)
  have p: "process_body env (l, c\<lparr>hc_input := b\<rparr>, s) =
      (let (p, is_done) = HttpParser_ConsumeBody (hc_parser c) (length d); c' = c\<lparr>hc_input := ?b, hc_parser := p\<rparr>
       in if is_done then request_complete env (l', c', s') else Inr (l', c', s'))"
    using v b c d l' by (simp add: process_body_def min_def Let_def split: prod.splits)
  show ?thesis
  proof (rule that [of ?b l'])
    show "awaits (c\<lparr>hc_input := ?b, hc_parser := (hc_parser c)\<lparr>ps_remaining_body_length := R - length d\<rparr>\<rparr>) (R - length d)"
      using r b(3) c by (simp add: awaits_def bb_room_def)
  qed (use p c d in \<open>simp_all add: HttpParser_ConsumeBody_def Let_def\<close>)
qed

lemma read_piece:
  assumes c: "awaits c R" and d: "d \<noteq> []" "length d \<le> R"
    and cb: "\<And>l b. \<exists>l'. ce_body_data_callback env d (l, c\<lparr>hc_input := b\<rparr>, s) = Inr (l', c\<lparr>hc_input := b\<rparr>, s')"
  obtains l' b where "awaits (c\<lparr>hc_input := b, hc_parser := (hc_parser c)\<lparr>ps_remaining_body_length := R - length d\<rparr>\<rparr>) (R - length d)"
    "length d < R \<Longrightarrow> HttpConnection_HandleRead env (Inr d) (l, c, s) =
       Inr (l', c\<lparr>hc_input := b, hc_parser := (hc_parser c)\<lparr>ps_remaining_body_length := R - length d\<rparr>\<rparr>, s')"
    "length d = R \<Longrightarrow> HttpConnection_HandleRead env (Inr d) (l, c, s) =
       request_complete env (l', c\<lparr>hc_input := b, hc_parser := (hc_parser c)\<lparr>ps_remaining_body_length := 0, ps_state := DONE\<rparr>\<rparr>, s')"
proof -
  have i: "hc_state c = READING_BODY_STREAM" "ps_remaining_body_length (hc_parser c) = R" "bb_room (hc_input c) R"
    using c by (simp_all add: awaits_def)
  obtain l1 b where h: "HttpConnection_HandleRead env (Inr d) (l, c, s) = process_body env (l1, c\<lparr>hc_input := b\<rparr>, s)"
    and v: "bb_inv b" "bb_view b = d" "ByteBuffer_ReadableBytes b = length d"
      "length (bb_buffer b) \<le> length (bb_buffer (hc_input c)) + length d" using read_bytes [OF c d] .
  have "bb_room b (R - length d)" using v(4) i(3) d(2) by (simp add: bb_room_def)
  from process_piece [OF i(1,2) v(1,2) this d(2) cb] that show ?thesis unfolding h by metis
qed

text \<open>The last piece completes the request whatever the callback did, as long as it left the parser alone.\<close>

definition same_request :: "HttpConnection \<Rightarrow> HttpConnection \<Rightarrow> bool" where
  "same_request c c' \<longleftrightarrow> hc_parser c' = hc_parser c \<and> hc_fd c' = hc_fd c \<and> hc_peer_addr c' = hc_peer_addr c"

lemma read_last_piece:
  assumes c: "awaits c (length d)" and d: "d \<noteq> []"
    and cb: "\<And>l b. \<exists>l' c'. ce_body_data_callback env d (l, c\<lparr>hc_input := b\<rparr>, s) = Inr (l', c', s') \<and> same_request c c' \<and> hc_output c' = queue"
  shows "\<exists>l' c'. HttpConnection_HandleRead env (Inr d) (l, c, s) = request_complete env (l', c', s') \<and>
    ps_request (hc_parser c') = ps_request (hc_parser c) \<and> hc_fd c' = hc_fd c \<and> hc_peer_addr c' = hc_peer_addr c \<and> hc_output c' = queue"
proof -
  have i: "ps_remaining_body_length (hc_parser c) = length d" using c by (simp add: awaits_def)
  obtain l1 b where h: "HttpConnection_HandleRead env (Inr d) (l, c, s) = process_body env (l1, c\<lparr>hc_input := b\<rparr>, s)"
    and v: "bb_view b = d" "ByteBuffer_ReadableBytes b = length d" using read_bytes [OF c d order_refl] .
  obtain l2 c2 where l2: "ce_body_data_callback env d (l1, c\<lparr>hc_input := b\<rparr>, s) = Inr (l2, c2, s')" "same_request c c2" "hc_output c2 = queue" using cb by blast
  let ?c = "c2\<lparr>hc_input := ByteBuffer_Retrieve (hc_input c2) (length d), hc_parser := (hc_parser c)\<lparr>ps_remaining_body_length := 0, ps_state := DONE\<rparr>\<rparr>"
  have "process_body env (l1, c\<lparr>hc_input := b\<rparr>, s) = request_complete env (l2, ?c, s')"
    using v i d l2 by (simp add: process_body_def HttpParser_ConsumeBody_def same_request_def Let_def)
  with h l2(2,3) show ?thesis by (intro exI [of _ l2] exI [of _ ?c]) (simp add: same_request_def)
qed

section \<open>Streamed uploads\<close>

text \<open>After some bytes of the body of an upload: they are in the temporary file, in the digest and in the count; every
  other file is as it was.\<close>

definition uploading :: "('d, 'r) ServerEnv \<Rightarrow> nat \<Rightarrow> string \<Rightarrow> ('d, 'r) Server \<Rightarrow> string \<Rightarrow> ('d, 'r) Server \<Rightarrow> bool" where
  "uploading env fd expected s0 acc s \<longleftrightarrow>
     (\<exists>ws fs. s = s0\<lparr>sv_world := (sv_world s0)\<lparr>w_fs := fs\<rparr>,
                    sv_uploads := (sv_uploads s0)(fd \<mapsto> \<lparr>uc_session = Some ws, uc_expected_sha256 = expected,
                                                         uc_bytes_written = length acc, uc_streaming = True\<rparr>)\<rparr> \<and>
        fs_script fs = [] \<and> ws_ok fs ws \<and> sha_data (ws_sha256_ctx ws) = acc \<and>
        ws_tmp_path ws = tmp_file (ap_ds (sc_api env)) ''upload'' (ap_uuid (sc_api env) 4) \<and>
        same_except {ws_tmp_path ws} (w_fs (sv_world s0)) fs)"

definition ready_for_upload :: "('d, 'r) ServerEnv \<Rightarrow> nat \<Rightarrow> ('d, 'r) Server \<Rightarrow> bool" where
  "ready_for_upload env fd s \<longleftrightarrow>
     sv_uploads s fd = None \<and> fs_script (w_fs (sv_world s)) = [] \<and>
     fs_files (w_fs (sv_world s)) (tmp_file (ap_ds (sc_api env)) ''upload'' (ap_uuid (sc_api env) 4)) = None"

lemma upload_more:
  assumes u: "uploading env (hc_fd c) e s0 acc s" and st: "Server_ShouldStreamUpload (ps_request (hc_parser c))"
    and len: "length (acc @ d) < size_bound"
  shows "\<exists>s'. (\<forall>l b. Server_OnBodyData env d (l, c\<lparr>hc_input := b\<rparr>, s) = Inr (l, c\<lparr>hc_input := b\<rparr>, s')) \<and>
    uploading env (hc_fd c) e s0 (acc @ d) s'"
proof -
  from u obtain ws fs where s: "s = s0\<lparr>sv_world := (sv_world s0)\<lparr>w_fs := fs\<rparr>,
      sv_uploads := (sv_uploads s0)(hc_fd c \<mapsto> \<lparr>uc_session = Some ws, uc_expected_sha256 = e, uc_bytes_written = length acc, uc_streaming = True\<rparr>)\<rparr>"
    and f: "fs_script fs = []" "ws_ok fs ws" "sha_data (ws_sha256_ctx ws) = acc"
      "ws_tmp_path ws = tmp_file (ap_ds (sc_api env)) ''upload'' (ap_uuid (sc_api env) 4)"
      "same_except {ws_tmp_path ws} (w_fs (sv_world s0)) fs" by (auto simp: uploading_def)
  let ?ws = "ws\<lparr>ws_sha256_ctx := SHA256Context_Update (ws_sha256_ctx ws) d, ws_bytes_written := size_add (ws_bytes_written ws) (length d)\<rparr>"
  let ?fs = "fs\<lparr>fs_files := (fs_files fs)(ws_tmp_path ws \<mapsto> acc @ d)\<rparr>"
  have w: "WriteSession_Write (ap_store (sc_api env)) fs ws d = (?fs, ?ws, Status_OK)"
    using f by (intro WriteSession_Write_no_fault) (simp_all add: ws_ok_def)
  let ?s = "s0\<lparr>sv_world := (sv_world s0)\<lparr>w_fs := ?fs\<rparr>,
      sv_uploads := (sv_uploads s0)(hc_fd c \<mapsto> \<lparr>uc_session = Some ?ws, uc_expected_sha256 = e,
        uc_bytes_written = length (acc @ d), uc_streaming = True\<rparr>)\<rparr>"
  have "Server_OnBodyData env d (l, c\<lparr>hc_input := b\<rparr>, s) = Inr (l, c\<lparr>hc_input := b\<rparr>, ?s)" for l b
    using st w len by (simp add: Server_OnBodyData_def begin_upload_def s)
  moreover have "uploading env (hc_fd c) e s0 (acc @ d) ?s"
    unfolding uploading_def using f by (intro exI [of _ ?ws] exI [of _ ?fs]) (auto simp: ws_ok_def same_except_def)
  ultimately show ?thesis by blast
qed

lemma upload_first:
  assumes r: "ready_for_upload env (hc_fd c) s" and st: "Server_ShouldStreamUpload (ps_request (hc_parser c))"
  shows "\<exists>s1. uploading env (hc_fd c) (HttpRequest_GetHeader (ps_request (hc_parser c)) ''X-Content-SHA256'') s [] s1 \<and>
    (\<forall>l b. Server_OnBodyData env d (l, c\<lparr>hc_input := b\<rparr>, s) = Server_OnBodyData env d (l, c\<lparr>hc_input := b\<rparr>, s1))"
proof -
  let ?tmp = "tmp_file (ap_ds (sc_api env)) ''upload'' (ap_uuid (sc_api env) 4)"
  let ?fs = "(w_fs (sv_world s))\<lparr>fs_files := (fs_files (w_fs (sv_world s)))(?tmp \<mapsto> [])\<rparr>"
  let ?e = "HttpRequest_GetHeader (ps_request (hc_parser c)) ''X-Content-SHA256''"
  let ?s = "s\<lparr>sv_world := (sv_world s)\<lparr>w_fs := ?fs\<rparr>, sv_uploads := (sv_uploads s)(hc_fd c \<mapsto>
      \<lparr>uc_session = Some (WriteSession_new ?tmp), uc_expected_sha256 = ?e, uc_bytes_written = 0, uc_streaming = True\<rparr>)\<rparr>"
  have b: "DataStore_BeginWrite (ap_store (sc_api env)) (ap_ds (sc_api env)) (w_fs (sv_world s)) (ap_uuid (sc_api env) 4)
      = (?fs, Inr (WriteSession_new ?tmp))" using r by (intro BeginWrite_no_fault) (simp_all add: ready_for_upload_def)
  have "uploading env (hc_fd c) ?e s [] ?s"
    unfolding uploading_def using r BeginWrite_ws_ok [OF b]
    by (intro exI [of _ "WriteSession_new ?tmp"] exI [of _ ?fs])
       (auto simp: ready_for_upload_def WriteSession_new_def SHA256Context_new_def same_except_def)
  moreover have "Server_OnBodyData env d (l, c\<lparr>hc_input := b\<rparr>, s) = Server_OnBodyData env d (l, c\<lparr>hc_input := b\<rparr>, ?s)" for l b
    using r st b by (simp add: Server_OnBodyData_def begin_upload_def ready_for_upload_def UploadContext_new_def Let_def cong: if_cong)
  ultimately show ?thesis by blast
qed

primrec read_all :: "'s ConnEnv \<Rightarrow> string list \<Rightarrow> 's Net \<Rightarrow> Stop + 's Net" where
  "read_all env [] n = Inr n"
| "read_all env (d # ds) n = (case HttpConnection_HandleRead env (Inr d) n of Inl e \<Rightarrow> Inl e | Inr n \<Rightarrow> read_all env ds n)"

lemma upload_piece:
  assumes u: "uploading env (hc_fd c) (HttpRequest_GetHeader (ps_request (hc_parser c)) ''X-Content-SHA256'') s0 acc s \<or>
      acc = [] \<and> s = s0 \<and> ready_for_upload env (hc_fd c) s0"
    and st: "Server_ShouldStreamUpload (ps_request (hc_parser c))" and len: "length (acc @ d) < size_bound"
  shows "\<exists>s'. (\<forall>l b. Server_OnBodyData env d (l, c\<lparr>hc_input := b\<rparr>, s) = Inr (l, c\<lparr>hc_input := b\<rparr>, s')) \<and>
    uploading env (hc_fd c) (HttpRequest_GetHeader (ps_request (hc_parser c)) ''X-Content-SHA256'') s0 (acc @ d) s'"
proof -
  from u obtain s1 where s1: "uploading env (hc_fd c) (HttpRequest_GetHeader (ps_request (hc_parser c)) ''X-Content-SHA256'') s0 acc s1"
    "\<forall>l b. Server_OnBodyData env d (l, c\<lparr>hc_input := b\<rparr>, s) = Server_OnBodyData env d (l, c\<lparr>hc_input := b\<rparr>, s1)"
    using upload_first [OF _ st] by blast
  with upload_more [OF s1(1) st len] show ?thesis by simp
qed

lemma upload_pieces:
  assumes "ds \<noteq> []" "\<forall>d \<in> set ds. d \<noteq> []" "awaits c (length (concat ds))" "length (acc @ concat ds) < size_bound"
    and "Server_ShouldStreamUpload (ps_request (hc_parser c))"
    and "uploading env (hc_fd c) (HttpRequest_GetHeader (ps_request (hc_parser c)) ''X-Content-SHA256'') s0 acc s \<or>
      acc = [] \<and> s = s0 \<and> ready_for_upload env (hc_fd c) s0"
  shows "\<exists>l' b s'. read_all (conn_env env) ds (l, c, s) =
      request_complete (conn_env env) (l', c\<lparr>hc_input := b, hc_parser := (hc_parser c)\<lparr>ps_remaining_body_length := 0, ps_state := DONE\<rparr>\<rparr>, s') \<and>
    uploading env (hc_fd c) (HttpRequest_GetHeader (ps_request (hc_parser c)) ''X-Content-SHA256'') s0 (acc @ concat ds) s'"
  using assms
proof (induction ds arbitrary: l c s acc)
  case (Cons d ds)
  let ?R = "length (concat (d # ds))" and ?e = "HttpRequest_GetHeader (ps_request (hc_parser c)) ''X-Content-SHA256''"
  have d: "d \<noteq> []" "length d \<le> ?R" using Cons.prems(2) by simp_all
  from upload_piece [OF Cons.prems(6,5), of d] Cons.prems(4) obtain s1 where
    s1: "\<forall>l b. Server_OnBodyData env d (l, c\<lparr>hc_input := b\<rparr>, s) = Inr (l, c\<lparr>hc_input := b\<rparr>, s1)" "uploading env (hc_fd c) ?e s0 (acc @ d) s1"
    by auto
  from s1(1) have cb: "\<exists>l'. ce_body_data_callback (conn_env env) d (l, c\<lparr>hc_input := b\<rparr>, s) = Inr (l', c\<lparr>hc_input := b\<rparr>, s1)" for l b by simp
  obtain l1 b where r: "awaits (c\<lparr>hc_input := b, hc_parser := (hc_parser c)\<lparr>ps_remaining_body_length := ?R - length d\<rparr>\<rparr>) (?R - length d)"
    "length d < ?R \<Longrightarrow> HttpConnection_HandleRead (conn_env env) (Inr d) (l, c, s) =
       Inr (l1, c\<lparr>hc_input := b, hc_parser := (hc_parser c)\<lparr>ps_remaining_body_length := ?R - length d\<rparr>\<rparr>, s1)"
    "length d = ?R \<Longrightarrow> HttpConnection_HandleRead (conn_env env) (Inr d) (l, c, s) =
       request_complete (conn_env env) (l1, c\<lparr>hc_input := b, hc_parser := (hc_parser c)\<lparr>ps_remaining_body_length := 0, ps_state := DONE\<rparr>\<rparr>, s1)"
    using read_piece [OF Cons.prems(3) d cb, where l = l] by blast
  show ?case
  proof (cases "ds = []")
    case True
    then have "read_all (conn_env env) (d # ds) (l, c, s) = HttpConnection_HandleRead (conn_env env) (Inr d) (l, c, s)"
      by (cases "HttpConnection_HandleRead (conn_env env) (Inr d) (l, c, s)") simp_all
    with True r(3) s1(2) show ?thesis by (intro exI [of _ l1] exI [of _ b] exI [of _ s1]) simp
  next
    case False
    let ?c = "c\<lparr>hc_input := b, hc_parser := (hc_parser c)\<lparr>ps_remaining_body_length := ?R - length d\<rparr>\<rparr>"
    have more: "length d < ?R" using False Cons.prems(2) by (cases ds) auto
    have "\<exists>l' b s'. read_all (conn_env env) ds (l1, ?c, s1) = request_complete (conn_env env)
        (l', ?c\<lparr>hc_input := b, hc_parser := (hc_parser ?c)\<lparr>ps_remaining_body_length := 0, ps_state := DONE\<rparr>\<rparr>, s') \<and>
        uploading env (hc_fd ?c) (HttpRequest_GetHeader (ps_request (hc_parser ?c)) ''X-Content-SHA256'') s0 ((acc @ d) @ concat ds) s'"
      using Cons.prems r(1) s1(2) False by (intro Cons.IH) auto
    with r(2) [OF more] show ?thesis by auto
  qed
qed simp

text \<open>The segment with which the head ends: the bytes of it that belong to the body are processed at once.\<close>

lemma read_head:
  assumes c: "hc_state c = READING_HEADERS" "bb_inv (hc_input c)" "bb_room (hc_input c) (length (d @ later))" and d: "d \<noteq> []"
    and p: "parse_text (hc_parser c) (bb_view (hc_input c) @ d) = (p, first, HEADERS_COMPLETE)"
    and len: "0 < ps_content_length p" "ps_content_length p \<le> hc_max_body_bytes c"
  obtains l' b where "bb_inv b" "bb_view b = first" "bb_room b (length later)"
    "HttpConnection_HandleRead env (Inr d) (l, c, s) =
       (if first = [] then Inr else process_body env) (l', c\<lparr>hc_state := READING_BODY_STREAM, hc_input := b, hc_parser := p\<rparr>, s)"
proof -
  define b0 where "b0 = fst (ByteBuffer_ReadFd (hc_input c) (Inr d))"
  have rd: "ByteBuffer_ReadFd (hc_input c) (Inr d) = (b0, Inr (length d))" by (simp add: b0_def ByteBuffer_ReadFd_def Let_def)
  have room: "bb_room (hc_input c) (length d)" using c(3) by (simp add: bb_room_def)
  have v: "bb_inv b0" "bb_view b0 = bb_view (hc_input c) @ d" "length (bb_buffer b0) \<le> length (bb_buffer (hc_input c)) + length d"
    using ReadFd_spec [OF c(2) room] by (simp_all add: b0_def)
  obtain b where b: "HttpParser_Parse (hc_parser c) b0 = Some (p, b, HEADERS_COMPLETE)" "bb_view b = first" "bb_inv b"
    using Parse_text [OF v(1), of "hc_parser c"] v(2) p by auto
  have "bb_room b0 (length later)" using v(3) c(3) by (simp add: bb_room_def)
  from Parse_buffer_room [OF v(1) b(1) this] have later: "bb_room b (length later)" .
  obtain l1 where l1: "HttpConnection_RefreshIdleTimer (l, c, s) = (l1, c, s)" by (simp add: HttpConnection_RefreshIdleTimer_def)
  have sw: "c\<lparr>hc_parser := p, hc_input := b, hc_state := READING_BODY_STREAM\<rparr> = c\<lparr>hc_state := READING_BODY_STREAM, hc_input := b, hc_parser := p\<rparr>" by simp
  have "HttpConnection_HandleRead env (Inr d) (l, c, s) = HttpConnection_ProcessHeaders env (l1, c\<lparr>hc_input := b0\<rparr>, s)"
    using rd l1 c(1) d by (simp add: HttpConnection_HandleRead_def)
  also have "... = (if first = [] then Inr else process_body env) (l1, c\<lparr>hc_state := READING_BODY_STREAM, hc_input := b, hc_parser := p\<rparr>, s)"
    using b len by (simp add: HttpConnection_ProcessHeaders_def HttpParser_HasBody_def readable_view Let_def sw)
  finally show ?thesis using b later that by blast
qed

lemma upload_from_head:
  assumes c: "hc_state c = READING_HEADERS" "bb_inv (hc_input c)" "bb_room (hc_input c) (length (d @ concat ds))" and d: "d \<noteq> []"
    and p: "parse_text (hc_parser c) (bb_view (hc_input c) @ d) = (p, first, HEADERS_COMPLETE)"
    and len: "0 < length (first @ concat ds)" "ps_content_length p = length (first @ concat ds)" "ps_content_length p \<le> hc_max_body_bytes c"
      "ps_remaining_body_length p = length (first @ concat ds)" "length (first @ concat ds) < size_bound"
    and ds: "\<forall>d \<in> set ds. d \<noteq> []" and st: "Server_ShouldStreamUpload (ps_request p)" and u: "ready_for_upload env (hc_fd c) s"
  shows "\<exists>l' b s'. read_all (conn_env env) (d # ds) (l, c, s) = request_complete (conn_env env)
      (l', c\<lparr>hc_state := READING_BODY_STREAM, hc_input := b, hc_parser := p\<lparr>ps_remaining_body_length := 0, ps_state := DONE\<rparr>\<rparr>, s') \<and>
    uploading env (hc_fd c) (HttpRequest_GetHeader (ps_request p) ''X-Content-SHA256'') s (first @ concat ds) s'"
proof -
  let ?c = "\<lambda>b p. c\<lparr>hc_state := READING_BODY_STREAM, hc_input := b, hc_parser := p\<rparr>" and ?R = "length (first @ concat ds)"
  have pos: "0 < ps_content_length p" using len by simp
  obtain l1 b where b: "bb_inv b" "bb_view b = first" "bb_room b (length (concat ds))" and
    h: "HttpConnection_HandleRead (conn_env env) (Inr d) (l, c, s) = (if first = [] then Inr else process_body (conn_env env)) (l1, ?c b p, s)"
    by (rule read_head [OF c(1,2,3) d p pos len(3)])
  show ?thesis
  proof (cases "first = []")
    case True
    have "awaits (?c b p) (length (concat ds))" using b True len(4) by (simp add: awaits_def)
    moreover have "ds \<noteq> []" using True len(1) by auto
    ultimately show ?thesis using upload_pieces [of ds "?c b p" "[]" env s s l1] ds True len(5) st u h by auto
  next
    case False
    from upload_piece [of env "?c b p" s "[]" s first] st u len(5) obtain s1 where
      s1: "\<forall>l b'. Server_OnBodyData env first (l, (?c b p)\<lparr>hc_input := b'\<rparr>, s) = Inr (l, (?c b p)\<lparr>hc_input := b'\<rparr>, s1)"
        "uploading env (hc_fd c) (HttpRequest_GetHeader (ps_request p) ''X-Content-SHA256'') s first s1"
      by (auto simp: ready_for_upload_def)
    then have cb: "\<exists>l'. ce_body_data_callback (conn_env env) first (l1, (?c b p)\<lparr>hc_input := b\<rparr>, s) = Inr (l', (?c b p)\<lparr>hc_input := b\<rparr>, s1)" by simp
    have room: "bb_room b (?R - length first)" "length first \<le> ?R" using b(3) by simp_all
    obtain l2 b2 where q: "awaits ((?c b p)\<lparr>hc_input := b2, hc_parser := (hc_parser (?c b p))\<lparr>ps_remaining_body_length := ?R - length first\<rparr>\<rparr>) (?R - length first)"
      "length first < ?R \<Longrightarrow> process_body (conn_env env) (l1, (?c b p)\<lparr>hc_input := b\<rparr>, s) =
         Inr (l2, (?c b p)\<lparr>hc_input := b2, hc_parser := (hc_parser (?c b p))\<lparr>ps_remaining_body_length := ?R - length first\<rparr>\<rparr>, s1)"
      "length first = ?R \<Longrightarrow> process_body (conn_env env) (l1, (?c b p)\<lparr>hc_input := b\<rparr>, s) =
         request_complete (conn_env env) (l2, (?c b p)\<lparr>hc_input := b2, hc_parser := (hc_parser (?c b p))\<lparr>ps_remaining_body_length := 0, ps_state := DONE\<rparr>\<rparr>, s1)"
      by (rule process_piece [where c = "?c b p" and R = ?R, OF _ _ b(1,2) room cb]) (use len in simp_all)
    have sw: "(?c b p)\<lparr>hc_input := b\<rparr> = ?c b p" by simp
    note q = q [unfolded sw]
    show ?thesis
    proof (cases "ds = []")
      case True
      then have "read_all (conn_env env) (d # ds) (l, c, s) = HttpConnection_HandleRead (conn_env env) (Inr d) (l, c, s)"
        by (cases "HttpConnection_HandleRead (conn_env env) (Inr d) (l, c, s)") simp_all
      with True False h q(3) s1(2) show ?thesis by (intro exI [of _ l2] exI [of _ b2] exI [of _ s1]) simp
    next
      case ne: False
      then have lt: "length first < ?R" using ds by (cases ds) auto
      let ?p = "p\<lparr>ps_remaining_body_length := length (concat ds)\<rparr>"
      have a: "awaits (?c b2 ?p) (length (concat ds))" using q(1) by simp
      have "\<exists>l' b s'. read_all (conn_env env) ds (l2, ?c b2 ?p, s1) = request_complete (conn_env env)
          (l', (?c b2 ?p)\<lparr>hc_input := b, hc_parser := (hc_parser (?c b2 ?p))\<lparr>ps_remaining_body_length := 0, ps_state := DONE\<rparr>\<rparr>, s') \<and>
          uploading env (hc_fd (?c b2 ?p)) (HttpRequest_GetHeader (ps_request (hc_parser (?c b2 ?p))) ''X-Content-SHA256'') s (first @ concat ds) s'"
        using ne ds a len(5) st s1(2) by (intro upload_pieces) auto
      with q(2) [OF lt] h False show ?thesis by auto
    qed
  qed
qed

text \<open>The commit of the session.\<close>

lemma CommitWrite_expected:
  assumes "e = [] \<or> e = Crypto_SHA256 (se_sha env) (sha_data (ws_sha256_ctx ws))"
  shows "DataStore_CommitWrite env ds fs ws e = DataStore_CommitWrite env ds fs ws []"
proof (cases "e = []")
  case False
  obtain f w q where fin: "WriteSession_Finish env (ds_sync_mode ds) fs ws = (f, w, q)" using prod_cases3 by blast
  then have "k = e" if "q = Inr k" for k
    using that False assms by (auto simp: WriteSession_Finish_def Let_def Err_def split: if_splits)
  then show ?thesis by (cases q) (simp_all add: DataStore_CommitWrite_def fin)
qed simp

text \<open>The request as the handlers see it after a streamed upload.\<close>

definition handed_on :: "HttpConnection \<Rightarrow> string \<Rightarrow> nat \<Rightarrow> HttpRequest" where
  "handed_on c cas_key n =
     HttpRequest_SetHeader (HttpRequest_SetHeader ((ps_request (hc_parser c))\<lparr>rq_client_ip := hc_peer_addr c\<rparr>)
       ''X-Internal-CAS-Key'' cas_key) ''X-Internal-Size'' (nat_to_string n)"

lemma upload_committed:
  assumes u: "uploading env (hc_fd c) e s0 body s" and e: "e = [] \<or> e = Crypto_SHA256 (se_sha (ap_store (sc_api env))) body"
    and clash: "blob (ap_ds (sc_api env)) (w_fs (sv_world s0)) (Crypto_SHA256 (se_sha (ap_store (sc_api env))) body) \<in> {None, Some body}"
    and none: "sv_uploads s0 (hc_fd c) = None"
    and tmp: "fs_files (w_fs (sv_world s0)) (tmp_file (ap_ds (sc_api env)) ''upload'' (ap_uuid (sc_api env) 4)) = None"
  shows "\<exists>c' fs. request_complete (conn_env env) (l, c, s) = route_request env (l, c', s0\<lparr>sv_world := (sv_world s0)\<lparr>w_fs := fs\<rparr>\<rparr>) \<and>
    ps_request (hc_parser c') = handed_on c (Crypto_SHA256 (se_sha (ap_store (sc_api env))) body) (length body) \<and>
    fs_files fs = (fs_files (w_fs (sv_world s0)))(CasLayout_GetCasPath (ds_base_dir (ap_ds (sc_api env)))
      (Crypto_SHA256 (se_sha (ap_store (sc_api env))) body) \<mapsto> body)"
proof -
  let ?api = "sc_api env" and ?k = "Crypto_SHA256 (se_sha (ap_store (sc_api env))) body"
  let ?p = "CasLayout_GetCasPath (ds_base_dir (ap_ds ?api)) ?k"
  from u obtain ws fs where s: "s = s0\<lparr>sv_world := (sv_world s0)\<lparr>w_fs := fs\<rparr>,
      sv_uploads := (sv_uploads s0)(hc_fd c \<mapsto> \<lparr>uc_session = Some ws, uc_expected_sha256 = e, uc_bytes_written = length body, uc_streaming = True\<rparr>)\<rparr>"
    and f: "fs_script fs = []" "ws_ok fs ws" "sha_data (ws_sha256_ctx ws) = body" "ws_tmp_path ws = tmp_file (ap_ds ?api) ''upload'' (ap_uuid ?api 4)"
      "same_except {ws_tmp_path ws} (w_fs (sv_world s0)) fs" by (auto simp: uploading_def)
  let ?fs = "fs\<lparr>fs_files := (fs_files fs)(ws_tmp_path ws := None,
        ?p := (if fs_files fs ?p = None then fs_files fs (ws_tmp_path ws) else fs_files fs ?p))\<rparr>"
  have "DataStore_CommitWrite (ap_store ?api) (ap_ds ?api) fs ws e = DataStore_CommitWrite (ap_store ?api) (ap_ds ?api) fs ws []"
    using e f(3) by (intro CommitWrite_expected) simp
  then have cm: "DataStore_CommitWrite (ap_store ?api) (ap_ds ?api) fs ws e = (?fs, Inr ?k)"
    using CommitWrite_no_fault [OF f(1,2) refl refl, of "ap_store ?api" "ap_ds ?api"] f(3) by (simp add: digest_def)
  let ?g = "\<lambda>r. HttpRequest_SetHeader (HttpRequest_SetHeader r ''X-Internal-CAS-Key'' ?k) ''X-Internal-Size'' (nat_to_string (length body))"
  let ?c = "set_request ?g (set_request (\<lambda>r. r\<lparr>rq_client_ip := hc_peer_addr c\<rparr>) c)"
  have up: "(sv_uploads s0)(hc_fd c := None) = sv_uploads s0" using none by auto
  have "request_complete (conn_env env) (l, c, s) = route_request env (l, ?c, s0\<lparr>sv_world := (sv_world s0)\<lparr>w_fs := ?fs\<rparr>\<rparr>)"
    using cm up by (simp add: request_complete_def Server_OnRequest_def take_upload_def s set_request_def)
  moreover have "ps_request (hc_parser ?c) = handed_on c ?k (length body)" by (simp add: set_request_def handed_on_def)
  moreover have "fs_files ?fs = (fs_files (w_fs (sv_world s0)))(?p \<mapsto> body)"
  proof -
    have t: "ws_tmp_path ws \<noteq> ?p" using f(2) is_tmp_not_cas by (auto simp: ws_ok_def)
    then have "fs_files fs ?p = fs_files (w_fs (sv_world s0)) ?p" using f(5) by (auto simp: same_except_def)
    moreover have "fs_files fs (ws_tmp_path ws) = Some body" using f(2,3) by (simp add: ws_ok_def)
    ultimately show ?thesis using f(4,5) tmp t clash by (auto simp: same_except_def blob_def fun_eq_iff)
  qed
  ultimately show ?thesis by blast
qed

text \<open>A failed piece: the answer is put in the output, the request stays.\<close>

lemma on_channel_same: "on_channel f (l, c, s) = (l', c', s') \<Longrightarrow> same_request c c' \<and> s' = s"
  by (auto simp: on_channel_def same_request_def split: prod.splits)

definition error_queued :: "('d, 'r) ServerEnv \<Rightarrow> string \<Rightarrow> HttpConnection \<Rightarrow> ByteBuffer" where
  "error_queued env msg c = HttpResponse_AppendToBuffer (sc_order env)
     ((HttpResponse_InternalError (ap_dump (sc_api env)) msg (rq_trace_id (ps_request (hc_parser c))))
        \<lparr>rs_keep_alive := HttpRequest_IsKeepAlive (ps_request (hc_parser c))\<rparr>) (hc_output c)"

lemma fail_upload_same:
  assumes "fail_upload env msg (l, c, s) = (l', c', s')"
  shows "same_request c c' \<and> s' = s" "hc_state c \<noteq> CLOSED \<Longrightarrow> hc_output c' = error_queued env msg c"
proof -
  have f: "HttpResponse_HasFile (HttpResponse_InternalError dump m t) = False" for dump m t
    by (simp add: HttpResponse_HasFile_def HttpResponse_InternalError_def HttpResponse_Error_def Let_def HttpResponse_new_def
        HttpResponse_SetJsonBody_def HttpResponse_SetHeader_def)
  show "same_request c c' \<and> s' = s" "hc_state c \<noteq> CLOSED \<Longrightarrow> hc_output c' = error_queued env msg c" using assms
    by (auto simp: fail_upload_def HttpConnection_Send_def HttpConnection_ForceClose_def on_channel_def append_response_def f
        error_queued_def send_env_def same_request_def Let_def split: prod.splits if_splits)
qed

lemma write_all_cut:
  assumes "fs_script fs = [Sys_short n, Sys_err e]" "fs_files fs p = Some c" "0 < n" "n < length d" "e \<noteq> EINTR"
  shows "write_all fs p d = (fs\<lparr>fs_script := [], fs_files := (fs_files fs)(p \<mapsto> c @ take n d)\<rparr>, Some e)"
  using assms
  by (subst write_all.simps, subst write_all.simps) (auto simp: sys_write_def next_outcome_def Let_def)

definition with_script :: "sys_outcome list \<Rightarrow> ('d, 'r) Server \<Rightarrow> ('d, 'r) Server" where
  "with_script script s = s\<lparr>sv_world := (sv_world s)\<lparr>w_fs := (w_fs (sv_world s))\<lparr>fs_script := script\<rparr>\<rparr>\<rparr>"

lemma upload_cut:
  assumes u: "uploading env (hc_fd c) e s0 acc s" and st: "Server_ShouldStreamUpload (ps_request (hc_parser c))"
    and n: "0 < n" "n < length d" "errno \<noteq> EINTR" and open1: "hc_state c \<noteq> CLOSED"
  shows "\<exists>s'. (\<forall>l b. \<exists>l' c'. Server_OnBodyData env d (l, c\<lparr>hc_input := b\<rparr>, with_script [Sys_short n, Sys_err errno] s) = Inr (l', c', s') \<and>
      same_request c c' \<and> hc_output c' = error_queued env ''Failed to write upload'' c) \<and>
    (\<exists>ws fs. sv_uploads s' (hc_fd c) = Some \<lparr>uc_session = Some ws, uc_expected_sha256 = e, uc_bytes_written = length acc, uc_streaming = True\<rparr> \<and>
      w_fs (sv_world s') = fs \<and> fs_script fs = [] \<and> \<not> ws_finished ws \<and> is_tmp (ws_tmp_path ws) \<and> sha_data (ws_sha256_ctx ws) = acc \<and>
      fs_files fs (ws_tmp_path ws) = Some (acc @ take n d) \<and> same_except {ws_tmp_path ws} (w_fs (sv_world s0)) fs)"
proof -
  from u obtain ws fs where s: "s = s0\<lparr>sv_world := (sv_world s0)\<lparr>w_fs := fs\<rparr>,
      sv_uploads := (sv_uploads s0)(hc_fd c \<mapsto> \<lparr>uc_session = Some ws, uc_expected_sha256 = e, uc_bytes_written = length acc, uc_streaming = True\<rparr>)\<rparr>"
    and f: "ws_ok fs ws" "sha_data (ws_sha256_ctx ws) = acc" "same_except {ws_tmp_path ws} (w_fs (sv_world s0)) fs"
    by (auto simp: uploading_def)
  let ?fs = "fs\<lparr>fs_script := [], fs_files := (fs_files fs)(ws_tmp_path ws \<mapsto> acc @ take n d)\<rparr>"
  let ?s = "s0\<lparr>sv_world := (sv_world s0)\<lparr>w_fs := ?fs\<rparr>,
      sv_uploads := (sv_uploads s0)(hc_fd c \<mapsto> \<lparr>uc_session = Some ws, uc_expected_sha256 = e, uc_bytes_written = length acc, uc_streaming = True\<rparr>)\<rparr>"
  have "write_all (fs\<lparr>fs_script := [Sys_short n, Sys_err errno]\<rparr>) (ws_tmp_path ws) d =
      (fs\<lparr>fs_script := [Sys_short n, Sys_err errno]\<rparr>\<lparr>fs_script := [], fs_files := (fs_files fs)(ws_tmp_path ws \<mapsto> acc @ take n d)\<rparr>, Some errno)"
    using write_all_cut [of "fs\<lparr>fs_script := [Sys_short n, Sys_err errno]\<rparr>" n errno "ws_tmp_path ws" acc d] f n by (simp add: ws_ok_def)
  then have w: "WriteSession_Write (ap_store (sc_api env)) (fs\<lparr>fs_script := [Sys_short n, Sys_err errno]\<rparr>) ws d =
      (?fs, ws, Status_Error StorageError (''Write failed: '' @ se_strerror (ap_store (sc_api env)) errno))"
    using f by (simp add: WriteSession_Write_def ws_ok_def)
  have "\<exists>l' c'. Server_OnBodyData env d (l, c\<lparr>hc_input := b\<rparr>, with_script [Sys_short n, Sys_err errno] s) = Inr (l', c', ?s) \<and>
      same_request c c' \<and> hc_output c' = error_queued env ''Failed to write upload'' c" for l b
  proof -
    obtain l' c' s' where x: "fail_upload env ''Failed to write upload'' (l, c\<lparr>hc_input := b\<rparr>, ?s) = (l', c', s')" using prod_cases3 by blast
    moreover from fail_upload_same [OF x] open1 have "same_request c c'" "s' = ?s" "hc_output c' = error_queued env ''Failed to write upload'' c"
      by (simp_all add: same_request_def error_queued_def)
    ultimately show ?thesis using st w
      by (intro exI [of _ l'] exI [of _ c']) (simp add: Server_OnBodyData_def begin_upload_def s with_script_def Status_Error_def Status_ok_def)
  qed
  moreover have "sv_uploads ?s (hc_fd c) = Some \<lparr>uc_session = Some ws, uc_expected_sha256 = e, uc_bytes_written = length acc, uc_streaming = True\<rparr> \<and>
      w_fs (sv_world ?s) = ?fs \<and> fs_script ?fs = [] \<and> \<not> ws_finished ws \<and> is_tmp (ws_tmp_path ws) \<and> sha_data (ws_sha256_ctx ws) = acc \<and>
      fs_files ?fs (ws_tmp_path ws) = Some (acc @ take n d) \<and> same_except {ws_tmp_path ws} (w_fs (sv_world s0)) ?fs"
    using f by (auto simp: s ws_ok_def same_except_def)
  ultimately show ?thesis by blast
qed

section \<open>Theorems\<close>

text \<open>C36: However an upload is cut into network segments, from the segment \<open>d\<close> with which its head ends (and which may
  bring the first bytes of the body) to the last one, when no system call fails the handlers are called
  once, with the request that names the SHA-256 and the length of the whole body, and the store then has exactly
  one new file, the body under its key. The body is not empty and within the limit, \<open>X-Content-SHA256\<close> is absent or right, and no
  other content is stored under the digest.\<close>
theorem streamed_upload:
  fixes env :: "('d, 'r) ServerEnv" and first :: string and ds :: "string list"
  defines "body \<equiv> first @ concat ds"
  defines "k \<equiv> Crypto_SHA256 (se_sha (ap_store (sc_api env))) body"
  assumes "hc_state c = READING_HEADERS" "bb_inv (hc_input c)" "bb_room (hc_input c) (length (d @ concat ds))" "d \<noteq> []" "\<forall>d \<in> set ds. d \<noteq> []"
    and "parse_text (hc_parser c) (bb_view (hc_input c) @ d) = (p, first, HEADERS_COMPLETE)"
    and "0 < length body" "length body < size_bound" "ps_content_length p \<le> hc_max_body_bytes c"
      "ps_content_length p = length body" "ps_remaining_body_length p = length body"
    and "Server_ShouldStreamUpload (ps_request p)" "ready_for_upload env (hc_fd c) s"
    and "HttpRequest_GetHeader (ps_request p) ''X-Content-SHA256'' \<in> {[], k}"
    and "blob (ap_ds (sc_api env)) (w_fs (sv_world s)) k \<in> {None, Some body}"
  shows "\<exists>l' c' fs. read_all (conn_env env) (d # ds) (l, c, s) = route_request env (l', c', s\<lparr>sv_world := (sv_world s)\<lparr>w_fs := fs\<rparr>\<rparr>) \<and>
    ps_request (hc_parser c') = handed_on (c\<lparr>hc_parser := p\<rparr>) k (length body) \<and>
    fs_files fs = (fs_files (w_fs (sv_world s)))(CasLayout_GetCasPath (ds_base_dir (ap_ds (sc_api env))) k \<mapsto> body)"
proof -
  note a = assms(3-) [unfolded body_def]
  from upload_from_head [OF a(1-4,6,7,10,9,11,8,5,12,13), of l] obtain l' b s' where
    r: "read_all (conn_env env) (d # ds) (l, c, s) = request_complete (conn_env env)
      (l', c\<lparr>hc_state := READING_BODY_STREAM, hc_input := b, hc_parser := p\<lparr>ps_remaining_body_length := 0, ps_state := DONE\<rparr>\<rparr>, s')"
    and u: "uploading env (hc_fd c) (HttpRequest_GetHeader (ps_request p) ''X-Content-SHA256'') s body s'" unfolding body_def by blast
  let ?c = "c\<lparr>hc_state := READING_BODY_STREAM, hc_input := b, hc_parser := p\<lparr>ps_remaining_body_length := 0, ps_state := DONE\<rparr>\<rparr>"
  have h: "handed_on ?c key n = handed_on (c\<lparr>hc_parser := p\<rparr>) key n" for key n by (simp add: handed_on_def)
  have u': "uploading env (hc_fd ?c) (HttpRequest_GetHeader (ps_request p) ''X-Content-SHA256'') s body s'" using u by simp
  from upload_committed [OF u', of l'] r h a(13-15) show ?thesis
    by (simp add: ready_for_upload_def k_def body_def) blast
qed

text \<open>C38: When the last piece of a streamed upload is written only in part before the write fails (and the request
  has no \<open>X-Content-SHA256\<close>, and no blob is stored under the digest of the bytes before that piece), the
  error answer is put in the output of the connection, and yet the request goes on: the temporary file, which has some of the bytes of the
  piece, is committed under the digest of the bytes before it, and the handlers are called with that key, so
  their answer follows the error. The blob does not have the content that its name says.\<close>
theorem failed_write_committed:
  fixes env :: "('d, 'r) ServerEnv"
  assumes "uploading env (hc_fd c) [] s0 acc s" "Server_ShouldStreamUpload (ps_request (hc_parser c))"
    and "awaits c (length d)" "0 < n" "n < length d" "errno \<noteq> EINTR"
  defines "k \<equiv> Crypto_SHA256 (se_sha (ap_store (sc_api env))) acc"
  assumes "blob (ap_ds (sc_api env)) (w_fs (sv_world s0)) k = None"
  shows "\<exists>l' c' s'. HttpConnection_HandleRead (conn_env env) (Inr d) (l, c, with_script [Sys_short n, Sys_err errno] s) =
      route_request env (l', c', s') \<and>
    hc_output c' = error_queued env ''Failed to write upload'' c \<and> ps_request (hc_parser c') = handed_on c k (length acc) \<and>
    blob (ap_ds (sc_api env)) (w_fs (sv_world s')) k = Some (acc @ take n d)"
proof -
  let ?api = "sc_api env" let ?p = "CasLayout_GetCasPath (ds_base_dir (ap_ds ?api)) k"
  have "hc_state c \<noteq> CLOSED" using assms(3) by (simp add: awaits_def)
  from upload_cut [OF assms(1,2,4,5,6) this] obtain s' ws fs where
    cb: "\<And>l b. \<exists>l' c'. Server_OnBodyData env d (l, c\<lparr>hc_input := b\<rparr>, with_script [Sys_short n, Sys_err errno] s) = Inr (l', c', s') \<and>
      same_request c c' \<and> hc_output c' = error_queued env ''Failed to write upload'' c"
    and u: "sv_uploads s' (hc_fd c) = Some \<lparr>uc_session = Some ws, uc_expected_sha256 = [], uc_bytes_written = length acc, uc_streaming = True\<rparr>"
      "w_fs (sv_world s') = fs" "fs_script fs = []" "\<not> ws_finished ws" "is_tmp (ws_tmp_path ws)" "sha_data (ws_sha256_ctx ws) = acc"
      "fs_files fs (ws_tmp_path ws) = Some (acc @ take n d)" "same_except {ws_tmp_path ws} (w_fs (sv_world s0)) fs" by blast
  have "d \<noteq> []" using assms(5) by auto
  from read_last_piece [OF assms(3) this, of "conn_env env" _ s' _ l, simplified, OF cb] obtain l' c' where
    r: "HttpConnection_HandleRead (conn_env env) (Inr d) (l, c, with_script [Sys_short n, Sys_err errno] s) = request_complete (conn_env env) (l', c', s')"
    "ps_request (hc_parser c') = ps_request (hc_parser c)" "hc_fd c' = hc_fd c" "hc_peer_addr c' = hc_peer_addr c"
    "hc_output c' = error_queued env ''Failed to write upload'' c" by blast
  let ?fs = "fs\<lparr>fs_files := (fs_files fs)(ws_tmp_path ws := None,
        ?p := (if fs_files fs ?p = None then fs_files fs (ws_tmp_path ws) else fs_files fs ?p))\<rparr>"
  have cm: "DataStore_CommitWrite (ap_store ?api) (ap_ds ?api) fs ws [] = (?fs, Inr k)"
    using CommitWrite_moves [OF u(3,4,5,7) refl refl, of "ap_store ?api" "ap_ds ?api"] u(6) by (simp add: digest_def k_def)
  have "fs_files fs ?p = None" using assms(8) u(8) is_tmp_not_cas [OF u(5)] by (metis blob_def same_except_def singletonD)
  then have b: "blob (ap_ds ?api) ?fs k = Some (acc @ take n d)" using u(7) by (simp add: blob_def)
  let ?g = "\<lambda>r. HttpRequest_SetHeader (HttpRequest_SetHeader r ''X-Internal-CAS-Key'' k) ''X-Internal-Size'' (nat_to_string (length acc))"
  let ?c = "set_request ?g (set_request (\<lambda>r. r\<lparr>rq_client_ip := hc_peer_addr c'\<rparr>) c')"
  let ?s = "s'\<lparr>sv_uploads := (sv_uploads s')(hc_fd c := None), sv_world := (sv_world s')\<lparr>w_fs := ?fs\<rparr>\<rparr>"
  have "request_complete (conn_env env) (l', c', s') = route_request env (l', ?c, ?s)"
    using cm u(1,2) r(3) by (simp add: request_complete_def Server_OnRequest_def take_upload_def set_request_def)
  moreover have "ps_request (hc_parser ?c) = handed_on c k (length acc)" "hc_output ?c = error_queued env ''Failed to write upload'' c"
    using r by (simp_all add: set_request_def handed_on_def)
  ultimately show ?thesis using r(1) b by (intro exI [of _ l'] exI [of _ ?c] exI [of _ ?s]) simp
qed

section \<open>The route table\<close>

text \<open>No two routes with the same method match the same path: they differ in the number of slashes, or neither has a
  parameter.\<close>

lemma separated_code [code]:
  "separated [] = True" "separated (Lit c # is) = separated is"
  "separated (Seg # is) = ((case is of [] \<Rightarrow> True | j # _ \<Rightarrow> j = Lit (CHR ''/'')) \<and> separated is)"
  "separated (Wild # is) = False" "separated (Raw c # is) = False"
  by (auto split: list.splits)

definition slashes :: "RegexItem list \<Rightarrow> nat" where
  "slashes is = length (filter (\<lambda>i. i = Lit (CHR ''/'')) is)"

lemma count_slashes:
  "separated is \<Longrightarrow> list_all seg_value vs \<Longrightarrow> length vs = segs is \<Longrightarrow> length (filter (\<lambda>c. c = CHR ''/'') (fill is vs)) = slashes is"
proof (induction "is" arbitrary: vs)
  case (Cons i "is")
  then show ?case
  proof (cases i)
    case Seg
    with Cons.prems obtain v ws where vs: "vs = v # ws" "seg_value v" "list_all seg_value ws" "length ws = segs is" by (cases vs) auto
    then have "filter (\<lambda>c. c = CHR ''/'') v = []" by (auto simp: seg_value_def filter_empty_conv)
    with Cons.IH [OF _ vs(3,4)] Cons.prems(1) Seg vs(1) show ?thesis by (simp add: slashes_def)
  qed (auto simp: slashes_def)
qed (simp add: slashes_def)

lemma fill_literal: "separated is \<Longrightarrow> segs is = 0 \<Longrightarrow> is = map Lit (fill is [])"
  by (induction "is" rule: separated.induct) auto

definition compiled :: "string \<Rightarrow> RegexItem list \<times> string list" where
  "compiled p = (case HttpRouter_CompilePattern p of Inr c \<Rightarrow> c | Inl _ \<Rightarrow> ([], []))"

definition well_compiled :: "string \<Rightarrow> bool" where
  "well_compiled p = (case HttpRouter_CompilePattern p of Inl _ \<Rightarrow> False | Inr (items, names) \<Rightarrow> separated items \<and> length names = segs items)"

definition route_patterns :: "(HttpMethod \<times> string) list" where
  "route_patterns = map (\<lambda>(m, p, h). (m, p))
     (route_table \<lparr>sc_api = undefined, sc_auth_enabled = False, sc_static_tokens = [], sc_hmac = \<lambda>_ _. [], sc_metrics = '''',
        sc_metrics_env = undefined, sc_latency_ms = 0, sc_order = \<lambda>_. [], sc_connection_idle_timeout = 0, sc_max_body_bytes = 0\<rparr> :: (HttpMethod \<times> string \<times> (unit, unit) World HttpHandler) list)"

lemma route_patterns_eq: "map (\<lambda>(m, p, h). (m, p)) (route_table env) = route_patterns"
  by (simp add: route_table_def route_patterns_def Let_def)

definition shape :: "string \<Rightarrow> nat \<times> nat" where
  "shape p = (slashes (fst (compiled p)), segs (fst (compiled p)))"

definition route_shapes :: "(HttpMethod \<times> string \<times> nat \<times> nat) list" where
  "route_shapes =
     [(GET, ''/healthz'', 1, 0), (GET, ''/readyz'', 1, 0), (GET, ''/metrics'', 1, 0),
      (PUT, ''/buckets/{bucket}'', 2, 1), (GET, ''/buckets/{bucket}'', 2, 1), (DELETE, ''/buckets/{bucket}'', 2, 1), (GET, ''/buckets'', 1, 0),
      (PUT, ''/buckets/{bucket}/objects/{object}'', 4, 2), (GET, ''/buckets/{bucket}/objects/{object}'', 4, 2),
      (HEAD, ''/buckets/{bucket}/objects/{object}'', 4, 2), (DELETE, ''/buckets/{bucket}/objects/{object}'', 4, 2),
      (GET, ''/buckets/{bucket}/objects'', 3, 1), (POST, ''/buckets/{bucket}/multipart/{object}'', 4, 2),
      (PUT, ''/buckets/{bucket}/multipart/{object}/{upload_id}/parts/{part_number}'', 7, 4),
      (POST, ''/buckets/{bucket}/multipart/{object}/{upload_id}/complete'', 6, 3),
      (DELETE, ''/buckets/{bucket}/multipart/{object}/{upload_id}'', 5, 3), (POST, ''/presign'', 1, 0)]"

lemma route_shapes: "map (\<lambda>(m, p). (m, p, shape p)) route_patterns = route_shapes"
  unfolding route_patterns_def route_table_def Let_def by code_simp

lemma patterns_compile: "list_all (\<lambda>(m, p). well_compiled p) route_patterns"
  unfolding route_patterns_def route_table_def Let_def by code_simp

lemma shapes_differ:
  "list_all (\<lambda>(m, p, n, k). list_all (\<lambda>(m', p', n', k'). m = m' \<and> p \<noteq> p' \<longrightarrow> n \<noteq> n' \<or> k = 0 \<and> k' = 0) route_shapes) route_shapes"
  by code_simp

lemma literal_patterns: "list_all (\<lambda>(m, p). segs (fst (compiled p)) = 0 \<longrightarrow> fill (fst (compiled p)) [] = p) route_patterns"
  unfolding route_patterns_def route_table_def Let_def by code_simp

lemma compile_route:
  assumes "(m, p, h) \<in> set (route_table env)"
  shows "HttpRouter_CompilePattern p = Inr (compiled p)" "separated (fst (compiled p))" "length (snd (compiled p)) = segs (fst (compiled p))"
proof -
  have "(m, p) \<in> set route_patterns" using assms by (force simp flip: route_patterns_eq [of env])
  with patterns_compile have "well_compiled p" by (auto simp: list_all_iff)
  then show "HttpRouter_CompilePattern p = Inr (compiled p)" "separated (fst (compiled p))" "length (snd (compiled p)) = segs (fst (compiled p))"
    by (auto simp: well_compiled_def compiled_def split: sum.splits)
qed

lemma routes_exclusive:
  assumes r: "(m, p, h) \<in> set (route_table env)" "(m, p', h') \<in> set (route_table env)" "p \<noteq> p'"
    and vs: "list_all seg_value vs" "length vs = segs (fst (compiled p))"
  shows "regex_match (fst (compiled p')) (fill (fst (compiled p)) vs) = None"
proof (rule ccontr)
  let ?i = "fst (compiled p)" and ?j = "fst (compiled p')"
  assume "regex_match ?j (fill ?i vs) \<noteq> None"
  then obtain ws where ws: "fill ?i vs = fill ?j ws" "list_all seg_value ws" "length ws = segs ?j"
    using regex_match_sound [OF _ compile_route(2) [OF r(2)]] by blast
  have "slashes ?i = slashes ?j" using count_slashes [OF compile_route(2) [OF r(1)] vs] count_slashes [OF compile_route(2) [OF r(2)] ws(2,3)] ws(1) by simp
  moreover have "(m, p, shape p) \<in> set route_shapes" "(m, p', shape p') \<in> set route_shapes"
    using r(1,2) by (force simp flip: route_shapes route_patterns_eq [of env])+
  ultimately have "segs ?i = 0" "segs ?j = 0" using shapes_differ r(3) by (fastforce simp: list_all_iff shape_def)+
  moreover have "(m, p) \<in> set route_patterns" "(m, p') \<in> set route_patterns" using r(1,2) by (force simp flip: route_patterns_eq [of env])+
  ultimately have "fill ?i [] = p" "fill ?j [] = p'" using literal_patterns by (auto simp: list_all_iff)
  with ws vs(2) r(3) \<open>segs ?i = 0\<close> \<open>segs ?j = 0\<close> show False by simp
qed

lemma find_route_only:
  "e \<in> set rs \<Longrightarrow> re_method e = rq_method rq \<Longrightarrow> regex_match (re_regex e) (rq_path rq) = Some caps \<Longrightarrow>
   (\<And>e'. e' \<in> set rs \<Longrightarrow> e' \<noteq> e \<Longrightarrow> re_method e' = rq_method rq \<Longrightarrow> regex_match (re_regex e') (rq_path rq) = None) \<Longrightarrow>
   find_route rs rq = Some (e, caps)"
proof (induction rs)
  case (Cons r rs)
  show ?case
  proof (cases "r = e")
    case False
    with Cons have "find_route rs rq = Some (e, caps)" by auto
    with Cons.prems(4) [of r] False show ?thesis by auto
  qed (use Cons.prems in simp)
qed simp

definition entry :: "HttpMethod \<times> string \<times> 's HttpHandler \<Rightarrow> 's RouteEntry" where
  "entry r = (case r of (m, p, h) \<Rightarrow>
     \<lparr>re_method = m, re_pattern = p, re_regex = fst (compiled p), re_param_names = snd (compiled p), re_handler = h\<rparr>)"

lemma add_routes_entries:
  "\<forall>(m, p, h) \<in> set rs. HttpRouter_CompilePattern p = Inr (compiled p) \<Longrightarrow>
   add_routes r rs = Inr (r\<lparr>hr_routes := hr_routes r @ map entry rs\<rparr>)"
proof (induction rs arbitrary: r)
  case (Cons x rs)
  obtain m p h where x: "x = (m, p, h)" by (cases x)
  obtain it ns where c: "compiled p = (it, ns)" by (cases "compiled p")
  with Cons.prems x have "HttpRouter_Route r m p h = Inr (r\<lparr>hr_routes := hr_routes r @ [entry x]\<rparr>)" by (auto simp: HttpRouter_Route_def entry_def)
  with Cons x show ?case by simp
qed simp

definition middlewares :: "('d, 'r) ServerEnv \<Rightarrow> ('d, 'r) World Middleware list" where
  "middlewares env = TraceMiddleware_Handle (ap_uuid (sc_api env) 0) #
     (if sc_auth_enabled env
      then [AuthMiddleware_Handle (ap_dump (sc_api env)) (sc_hmac env) (ap_now (sc_api env)) (sc_static_tokens env)] else [])"

lemma SetupRoutes_table:
  "\<exists>nf. Server_SetupRoutes env = Inr \<lparr>hr_routes = map entry (route_table env), hr_middlewares = middlewares env, hr_not_found = Some nf\<rparr> \<and>
     nf = (\<lambda>req w. answer w (HttpResponse_NotFound (ap_dump (sc_api env)) (''Resource not found: '' @ rq_path req) ''''))"
proof -
  have "\<forall>(m, p, h) \<in> set (route_table env). HttpRouter_CompilePattern p = Inr (compiled p)" using compile_route(1) by fast
  from add_routes_entries [OF this] show ?thesis
    by (simp add: Server_SetupRoutes_def HttpRouter_Use_def HttpRouter_new_def HttpRouter_SetNotFoundHandler_def middlewares_def Let_def)
qed

lemma patterns_distinct: "distinct route_patterns"
  unfolding route_patterns_def route_table_def Let_def by code_simp

lemma same_route: "(m, p, h) \<in> set (route_table env) \<Longrightarrow> (m, p, h') \<in> set (route_table env) \<Longrightarrow> h = h'"
  using patterns_distinct unfolding route_patterns_eq [of env, symmetric] by (fastforce simp: distinct_map inj_on_def)

text \<open>C37: Every route of the server is reachable and leads to its own handler: a request with the method of a route and a
  path that fills its parameters with non-empty values without slashes runs that handler, behind the middleware,
  with these values as path parameters. No route is hidden by another.\<close>
theorem routes_dispatch:
  assumes "(m, pattern, handler) \<in> set (route_table env)" "HttpRouter_CompilePattern pattern = Inr (items, names)"
    and "rq_method request = m" "rq_path request = fill items vs" "list_all seg_value vs" "length vs = length names"
  shows "Server_Handle env request w = wrap (middlewares env) handler (set_params request names vs) w"
proof -
  note c = compile_route [OF assms(1)]
  let ?e = "entry (m, pattern, handler)"
  have "compiled pattern = (items, names)" using c(1) assms(2) by simp
  then have i: "fst (compiled pattern) = items" "snd (compiled pattern) = names" "length vs = segs items" using c(3) assms(6) by simp_all
  have "find_route (map entry (route_table env)) request = Some (?e, vs)"
  proof (rule find_route_only)
    show "?e \<in> set (map entry (route_table env))" using assms(1) by simp
    show "re_method ?e = rq_method request" using assms(3) by (simp add: entry_def)
    show "regex_match (re_regex ?e) (rq_path request) = Some vs"
      using regex_match_complete [of items vs] c(2) i assms(4,5) by (simp add: entry_def)
    fix e' assume e': "e' \<in> set (map entry (route_table env))" "e' \<noteq> ?e" "re_method e' = rq_method request"
    then obtain p h where r: "e' = entry (m, p, h)" "(m, p, h) \<in> set (route_table env)" using assms(3) by (auto simp: entry_def)
    with e'(2) same_route [OF assms(1)] have "pattern \<noteq> p" by blast
    from routes_exclusive [OF assms(1) r(2) this assms(5)] i assms(4) show "regex_match (re_regex e') (rq_path request) = None"
      by (simp add: r(1) entry_def)
  qed
  with SetupRoutes_table [of env] i show ?thesis by (auto simp: Server_Handle_def HttpRouter_Handle_def entry_def)
qed

section \<open>Samples\<close>

definition hi_env :: "(Mem, unit) ServerEnv" where
  "hi_env = \<lparr>sc_api = hi_api, sc_auth_enabled = False, sc_static_tokens = [], sc_hmac = \<lambda>_ _. [], sc_metrics = '''',
     sc_metrics_env = \<lparr>xe_requests = \<lambda>_. [], xe_durations = \<lambda>_. [], xe_sum_text = \<lambda>_. ''0''\<rparr>, sc_latency_ms = 0, sc_order = \<lambda>_. [], sc_connection_idle_timeout = 60, sc_max_body_bytes = 100\<rparr>"

definition hi_server :: "(Mem, unit) Server" where
  "hi_server = \<lparr>sv_world = hi_world, sv_uploads = Map.empty, sv_connections = {9}, sv_metrics = Metrics_new, sv_next_loop_index = 0\<rparr>"

definition hi_conn :: HttpConnection where
  "hi_conn = quiet_conn\<lparr>hc_state := READING_BODY_STREAM,
     hc_parser := HttpParser_new\<lparr>ps_remaining_body_length := 2, ps_request := HttpRequest_new\<lparr>rq_method := PUT, rq_path := ''/buckets/b/objects/k''\<rparr>\<rparr>\<rparr>"

lemma hi_upload:
  "awaits hi_conn (Suc (Suc 0))" "Server_ShouldStreamUpload (ps_request (hc_parser hi_conn))" "ready_for_upload hi_env (hc_fd hi_conn) hi_server"
  "HttpRequest_GetHeader (ps_request (hc_parser hi_conn)) ''X-Content-SHA256'' = []"
  "sc_api hi_env = hi_api" "sv_world hi_server = hi_world" "blob toy_store (w_fs hi_world) k = None"
proof -
  show "awaits hi_conn (Suc (Suc 0))" using bb_new [of kInitialSize]
    by (simp add: awaits_def hi_conn_def HttpConnection_new_def bb_room_def kInitialSize_def kPrependSize_def ByteBuffer_new_def)
  show "Server_ShouldStreamUpload (ps_request (hc_parser hi_conn))" by (simp add: hi_conn_def) code_simp
qed (simp_all add: ready_for_upload_def hi_env_def hi_server_def hi_world_def empty_fs_def hi_conn_def HttpRequest_GetHeader_def
       HttpRequest_new_def blob_def)

text \<open>The head and the first byte of a body, then the rest.\<close>

definition head_segment :: string where
  "head_segment = render_request PUT ''/buckets/b/objects/k'' [(''Content-Length'', ''2'')] @ ''h''"

definition head_parser :: HttpParser where
  "head_parser = HttpParser_new\<lparr>ps_state := BODY,
     ps_request := (set_uri (HttpRequest_new\<lparr>rq_method := PUT\<rparr>) ''/buckets/b/objects/k'')\<lparr>rq_headers := header_map [(''Content-Length'', ''2'')]\<rparr>,
     ps_content_length := 2, ps_remaining_body_length := 2\<rparr>"

definition head_conn :: HttpConnection where
  "head_conn = quiet_conn\<lparr>hc_state := READING_HEADERS, hc_parser := HttpParser_new, hc_input := ByteBuffer_new 16, hc_max_body_bytes := 100\<rparr>"

lemma head_parsed:
  "parse_text HttpParser_new head_segment = (head_parser, ''h'', HEADERS_COMPLETE)"
  "Server_ShouldStreamUpload (ps_request head_parser)" "HttpRequest_GetHeader (ps_request head_parser) ''X-Content-SHA256'' = []"
  "bb_room (ByteBuffer_new 16) (length (head_segment @ ''i''))" "head_segment \<noteq> []"
proof -
  have n: "nat_to_string 2 = ''2''" by code_simp
  have "header_map [(''Content-Length'', ''2'')] ''content-length'' = Some (nat_to_string 2)"
    "header_map [(''Content-Length'', ''2'')] ''transfer-encoding'' = None" "\<forall>h \<in> set [(''Content-Length'', ''2'')]. header_ok h"
    unfolding n by code_simp+
  with parse_render [of PUT "''/buckets/b/objects/k''" "[(''Content-Length'', ''2'')]" 2 "''h''"]
  show "parse_text HttpParser_new head_segment = (head_parser, ''h'', HEADERS_COMPLETE)" by (simp add: head_parser_def head_segment_def)
qed code_simp+

theorem streamed_upload_witness:
  "\<exists>l' c' fs. read_all (conn_env hi_env) [head_segment, ''i''] (quiet_loop, head_conn, hi_server) =
      route_request hi_env (l', c', hi_server\<lparr>sv_world := hi_world\<lparr>w_fs := fs\<rparr>\<rparr>) \<and>
    blob toy_store fs (Crypto_SHA256 (se_sha toy_env) ''hi'') = Some ''hi''"
proof -
  have c: "hc_state head_conn = READING_HEADERS" "hc_input head_conn = ByteBuffer_new 16" "hc_parser head_conn = HttpParser_new"
    "hc_max_body_bytes head_conn = 100" "ready_for_upload hi_env (hc_fd head_conn) hi_server"
    using hi_upload(3) by (simp_all add: head_conn_def hi_conn_def)
  have l: "0 < length (''h'' @ concat [''i''])" "length (''h'' @ concat [''i'']) < size_bound" "ps_content_length head_parser = length (''h'' @ concat [''i''])"
    "ps_remaining_body_length head_parser = length (''h'' @ concat [''i''])" "ps_content_length head_parser \<le> hc_max_body_bytes head_conn"
    by (simp_all add: head_parser_def c(4))
  have "bb_inv (hc_input head_conn)" "parse_text (hc_parser head_conn) (bb_view (hc_input head_conn) @ head_segment) = (head_parser, ''h'', HEADERS_COMPLETE)"
    "bb_room (hc_input head_conn) (length (head_segment @ concat [''i'']))" unfolding c(2,3) using bb_new [of 16] head_parsed(1,4) by simp_all
  from streamed_upload [OF c(1) this(1,3) head_parsed(5) _ this(2) l(1,2,5,3,4) head_parsed(2) c(5), of quiet_loop]
  obtain l' c' fs where
    "read_all (conn_env hi_env) [head_segment, ''i''] (quiet_loop, head_conn, hi_server) = route_request hi_env (l', c', hi_server\<lparr>sv_world := hi_world\<lparr>w_fs := fs\<rparr>\<rparr>)"
    "fs_files fs = (fs_files (w_fs hi_world))(CasLayout_GetCasPath (ds_base_dir toy_store) (Crypto_SHA256 (se_sha toy_env) ''hi'') \<mapsto> ''hi'')"
    by (auto simp: head_parsed(3) hi_upload)
  then show ?thesis by (intro exI [of _ l'] exI [of _ c'] exI [of _ fs]) (simp add: blob_def)
qed

theorem failed_write_committed_witness:
  "\<exists>s l' c' s'. HttpConnection_HandleRead (conn_env hi_env) (Inr ''hi'') (quiet_loop, hi_conn, with_script [Sys_short 1, Sys_err 28] s) =
      route_request hi_env (l', c', s') \<and> hc_output c' = error_queued hi_env ''Failed to write upload'' hi_conn \<and>
    blob toy_store (w_fs (sv_world s')) (Crypto_SHA256 (se_sha toy_env) []) = Some ''h''"
proof -
  obtain s where "uploading hi_env (hc_fd hi_conn) [] hi_server [] s" using upload_first [OF hi_upload(3,2)] hi_upload(4) by fastforce
  from failed_write_committed [OF this hi_upload(2), of "''hi''" 1 28 quiet_loop] hi_upload show ?thesis by auto
qed

theorem routes_dispatch_witness:
  "\<exists>items. Server_Handle hi_env (HttpRequest_new\<lparr>rq_method := GET, rq_path := ''/buckets/b/objects/k''\<rparr>) hi_world =
     wrap (middlewares hi_env) (ObjectHandlers_GetObject hi_api)
       (set_params (HttpRequest_new\<lparr>rq_method := GET, rq_path := ''/buckets/b/objects/k''\<rparr>) [''bucket'', ''object''] [''b'', ''k'']) hi_world \<and>
   HttpRouter_CompilePattern ''/buckets/{bucket}/objects/{object}'' = Inr (items, [''bucket'', ''object''])"
proof -
  let ?p = "''/buckets/{bucket}/objects/{object}''"
  define it where "it = map Lit ''/buckets/'' @ [Seg] @ map Lit ''/objects/'' @ [Seg]"
  have c: "HttpRouter_CompilePattern ?p = Inr (it, [''bucket'', ''object''])" unfolding it_def by code_simp
  have "(GET, ?p, ObjectHandlers_GetObject hi_api) \<in> set (route_table hi_env)" by (simp add: route_table_def Let_def hi_upload)
  moreover have "fill it [''b'', ''k''] = ''/buckets/b/objects/k''" by (simp add: it_def)
  ultimately show ?thesis
    using routes_dispatch [OF _ c, of GET "ObjectHandlers_GetObject hi_api" hi_env "HttpRequest_new\<lparr>rq_method := GET, rq_path := ''/buckets/b/objects/k''\<rparr>"
        "[''b'', ''k'']" hi_world] c
    by (intro exI [of _ it]) (simp add: seg_value_def)
qed

end
