(* ===== verification/Response_Framing.thy ===== *)
theory Response_Framing
  imports Server_Theorems
begin

text \<open>
  The responses of all handlers behind the router and the middleware have one form: a head with distinct header
  names, and a body or a file whose length the head declares. The exceptions are listed by the theorem: answers
  without content (204), which need no length, and the refusal of a range (416), which needs one and has none.
\<close>

section \<open>The form of a response\<close>

text \<open>What is sent after the head.\<close>

definition payload :: "HttpResponse \<Rightarrow> size_t" where
  "payload r = (if HttpResponse_HasFile r then HttpResponse_FileLength r else length (rs_body r))"

definition framed :: "HttpResponse \<Rightarrow> bool" where
  "framed r \<longleftrightarrow>
     (if rs_status_code r \<in> {204, 416}
      then rs_headers r ''Content-Length'' = None \<and> rs_body r = [] \<and> \<not> HttpResponse_HasFile r
      else case rs_headers r ''Content-Length'' of
             Some n \<Rightarrow> n = nat_to_string (payload r)
           | None \<Rightarrow> rs_body r \<noteq> [] \<and> \<not> HttpResponse_HasFile r)"

lemma framed_on_wire:
  assumes "framed r" "enumerates order (rs_headers r)"
  shows "\<exists>hs. render_response order r = ''HTTP/1.1 '' @ int_to_string (rs_status_code r) @ '' '' @ rs_status_message r @ CRLF @
      concat (map header_line hs) @ CRLF @ (if HttpResponse_HasFile r then '''' else rs_body r) \<and> distinct (map fst hs) \<and>
    map_of hs ''Content-Length'' = (if rs_status_code r \<in> {204, 416} then None else Some (nat_to_string (payload r))) \<and>
    (rs_status_code r \<in> {204, 416} \<longrightarrow> payload r = 0)"
proof -
  let ?cl = "if rs_body r \<noteq> [] \<and> rs_headers r ''Content-Length'' = None then [(''Content-Length'', nat_to_string (length (rs_body r)))] else []"
  let ?co = "if rs_headers r ''Connection'' = None then [(''Connection'', if rs_keep_alive r then ''keep-alive'' else ''close'')] else []"
  let ?hs = "order (rs_headers r) @ ?cl @ ?co"
  have o: "map_of (order (rs_headers r)) = rs_headers r" "distinct (map fst (order (rs_headers r)))"
    using assms(2) by (simp_all add: enumerates_def)
  then have keys: "k \<in> set (map fst (order (rs_headers r))) \<longleftrightarrow> rs_headers r k \<noteq> None" for k
    by (metis list.set_map map_of_eq_None_iff)
  have d: "distinct (map fst ?hs)" using o(2) keys by (auto simp del: set_map)
  have m: "map_of ?hs ''Content-Length'' = (if rs_status_code r \<in> {204, 416} then None else Some (nat_to_string (payload r)))"
    using assms(1) o(1) by (auto simp: framed_def payload_def map_add_def split: option.splits if_splits)
  have "render_response order r = ''HTTP/1.1 '' @ int_to_string (rs_status_code r) @ '' '' @ rs_status_message r @ CRLF @
      concat (map header_line ?hs) @ CRLF @ (if HttpResponse_HasFile r then '''' else rs_body r)"
    by (simp add: render_response_def header_line_def)
  moreover have "rs_status_code r \<in> {204, 416} \<longrightarrow> payload r = 0" using assms(1) by (auto simp: framed_def payload_def)
  ultimately show ?thesis using d m by blast
qed

section \<open>Building blocks of the handlers\<close>

definition framed_answer :: "'s \<times> (cpp_exn + HttpResponse) \<Rightarrow> bool" where
  "framed_answer a = (case snd a of Inl _ \<Rightarrow> True | Inr r \<Rightarrow> framed r)"

lemma framed_answer_simps [simp]:
  "framed_answer (w, Inl e)" "framed_answer (w, Inr r) = framed r"
  by (simp_all add: framed_answer_def)

lemma framed_answer_answer [simp]: "framed_answer (answer w r) = framed r"
  by (simp add: answer_def)

text \<open>The JSON library never prints an empty text.\<close>

definition prints :: "(Json \<Rightarrow> string) \<Rightarrow> bool" where
  "prints dump \<longleftrightarrow> (\<forall>j. dump j \<noteq> [])"

lemma prints_dump [simp]: "prints dump \<Longrightarrow> dump j \<noteq> []"
  by (simp add: prints_def)

lemma framed_errors [simp]:
  assumes "prints dump"
  shows "framed (HttpResponse_NotFound dump m t)" "framed (HttpResponse_BadRequest dump m t)"
    "framed (HttpResponse_Unauthorized dump m t)" "framed (HttpResponse_Forbidden dump m t)"
    "framed (HttpResponse_Conflict dump m t)" "framed (HttpResponse_InternalError dump m t)"
    "framed (HttpResponse_ServiceUnavailable dump m t)"
  using assms by (simp_all add: framed_def response_simps HttpResponse_HasFile_def)

lemma framed_answers [simp]:
  assumes "prints (ap_dump api)"
  shows "framed_answer (bad_request api m w)" "framed_answer (not_found api m w)" "framed_answer (internal_error api m w)"
    "framed_answer (conflict api m w)"
  using assms by (simp_all add: bad_request_def not_found_def internal_error_def conflict_def)

lemma framed_bodies [simp]:
  "b \<noteq> [] \<Longrightarrow> framed (HttpResponse_OK b)" "b \<noteq> [] \<Longrightarrow> framed (HttpResponse_Created b)" "framed HttpResponse_NoContent"
  "framed (HttpResponse_RangeNotSatisfiable n)"
  "b \<noteq> [] \<Longrightarrow> k \<noteq> ''Content-Length'' \<Longrightarrow> framed (HttpResponse_SetBody (HttpResponse_SetHeader (HttpResponse_code HTTP_OK) k v) b)"
  by (simp_all add: framed_def response_simps HttpResponse_HasFile_def)

lemma framed_put_response [simp]: "prints (ap_dump api) \<Longrightarrow> framed (put_response api bn k e n)"
  by (simp add: put_response_def framed_def response_simps HttpResponse_HasFile_def)

lemma framed_with_bucket [intro!]:
  "prints (ap_dump api) \<Longrightarrow> (\<And>b w. framed_answer (k b w)) \<Longrightarrow> framed_answer (with_bucket api n w k)"
  by (auto simp: with_bucket_def split: prod.splits sum.splits)

lemma framed_with_key [intro!]:
  "prints (ap_dump api) \<Longrightarrow> (\<And>bn ok b w. framed_answer (k bn ok b w)) \<Longrightarrow> framed_answer (with_key api rq w k)"
  by (auto simp: with_key_def Let_def)

lemma framed_with_object [intro!]:
  "prints (ap_dump api) \<Longrightarrow> (\<And>b w. framed_answer (k b w)) \<Longrightarrow> framed_answer (with_object api i n w k)"
  by (auto simp: with_object_def split: prod.splits sum.splits)

lemma framed_with_upload [intro!]:
  "prints (ap_dump api) \<Longrightarrow> (\<And>b w. framed_answer (k b w)) \<Longrightarrow> framed_answer (with_upload api n w k)"
  by (auto simp: with_upload_def split: prod.splits sum.splits)

section \<open>The handlers\<close>

text \<open>The suffix of length 0, which is taken for a range.\<close>

definition empty_suffix :: "string \<Rightarrow> bool" where
  "empty_suffix h = (case range_regex h of Some (a, b) \<Rightarrow> a = [] \<and> b \<noteq> [] \<and> digits_val b = 0 | None \<Rightarrow> False)"

text \<open>A request that repeats no earlier one and asks for no such suffix.\<close>

definition plain :: "HttpRequest \<Rightarrow> bool" where
  "plain rq \<longleftrightarrow> HttpRequest_GetHeader rq ''Idempotency-Key'' = '''' \<and> \<not> empty_suffix (HttpRequest_GetHeader rq ''Range'')"

lemma size_of_less: "size_of i < size_bound"
  by (simp add: size_of_def nat_less_iff)

lemma ParseRange_nonempty:
  assumes "ObjectHandlers_ParseRange h n = Inr (Some (s, e))" "n < size_bound" "\<not> empty_suffix h"
  shows "s \<le> e \<and> e < n"
proof -
  have n: "0 < n" using assms(1) by (auto simp: ObjectHandlers_ParseRange_def intro: gr0I)
  obtain a b where r: "h = ''bytes='' @ a @ CHR ''-'' # b" "list_all isdigit a" "list_all isdigit b" "e < n"
      "s \<le> e \<or> a = [] \<and> digits_val b = 0 \<and> s = n"
    using ParseRange_shape [OF n assms(2,1)] by blast
  then have g: "range_regex h = Some (a, b)" by (simp add: range_regex_Some)
  have "b \<noteq> []" if "a = []" using assms(1) g n that by (auto simp: ObjectHandlers_ParseRange_def)
  then show ?thesis using r(4,5) g assms(3) by (auto simp: empty_suffix_def)
qed

lemma object_response_framed:
  assumes "p \<noteq> []" "rng = None \<or> (\<exists>s e. rng = Some (s, e) \<and> s \<le> e \<and> e < size_of (oi_size obj))"
  shows "framed (object_response p obj rng)"
proof -
  have "0 < size_add (size_sub e s) 1" if "s \<le> e" "e < size_of (oi_size obj)" for s e
    using that size_of_less [of "oi_size obj"] by simp
  with assms show ?thesis
    by (auto simp: framed_def payload_def object_response_def object_headers_def HttpResponse_HasFile_def Let_def)
qed

lemma CasPath_nonempty [simp]: "DataStore_GetFilePath ds k \<noteq> []"
  by (simp add: DataStore_GetFilePath_def CasLayout_GetCasPath_def FileSystem_JoinPath_def)

lemma framed_GetObject:
  assumes "prints (ap_dump api)" "plain rq"
  shows "framed_answer (ObjectHandlers_GetObject api rq w)"
  unfolding ObjectHandlers_GetObject_def
  using assms ParseRange_nonempty [OF _ size_of_less]
  by (auto simp: Let_def plain_def split: prod.splits sum.splits option.splits intro!: object_response_framed)

lemma framed_PutObject:
  assumes "prints (ap_dump api)" "plain rq"
  shows "framed_answer (ObjectHandlers_PutObject api rq w)"
proof -
  have "framed_answer (put_metadata api rq bn k i c n m h w)" for bn k i c n m h w
    using assms by (auto simp: put_metadata_def Let_def split: prod.splits sum.splits)
  with assms show ?thesis
    by (auto simp: ObjectHandlers_PutObject_def put_idempotency_def plain_def Let_def split: prod.splits sum.splits)
qed

lemma framed_objects:
  assumes "prints (ap_dump api)"
  shows "framed_answer (ObjectHandlers_DeleteObject api rq w)" "framed_answer (ObjectHandlers_ListObjects api rq w)"
  using assms
  by (auto simp: ObjectHandlers_DeleteObject_def ObjectHandlers_ListObjects_def Let_def split: prod.splits sum.splits)

lemma framed_buckets:
  assumes "prints (ap_dump api)"
  shows "framed_answer (BucketHandlers_CreateBucket api rq w)" "framed_answer (BucketHandlers_GetBucket api rq w)"
    "framed_answer (BucketHandlers_DeleteBucket api rq w)" "framed_answer (BucketHandlers_ListBuckets api rq w)"
    "framed_answer (HealthHandlers_HealthCheck api rq w)" "framed_answer (HealthHandlers_ReadyCheck api rq w)"
  using assms
  by (auto simp: BucketHandlers_CreateBucket_def BucketHandlers_GetBucket_def BucketHandlers_DeleteBucket_def BucketHandlers_ListBuckets_def
      HealthHandlers_HealthCheck_def HealthHandlers_ReadyCheck_def Let_def split: prod.splits sum.splits bool.splits)

lemma framed_CompleteUpload:
  assumes "prints (ap_dump api)"
  shows "framed_answer (MultipartHandlers_CompleteUpload api rq w)"
proof -
  have "framed_answer (complete_merge api bn k i u cs n w)" for bn k i u cs n w
    using assms by (auto simp: complete_merge_def Let_def split: prod.splits sum.splits)
  then have "framed_answer (complete_parts api bn k i u cps w)" for bn k i u cps w
    using assms by (auto simp: complete_parts_def Let_def split: prod.splits sum.splits)
  with assms show ?thesis
    by (auto simp: MultipartHandlers_CompleteUpload_def Let_def split: sum.splits option.splits Json.splits)
qed

lemma framed_uploads:
  assumes "prints (ap_dump api)"
  shows "framed_answer (MultipartHandlers_InitUpload api rq w)" "framed_answer (MultipartHandlers_UploadPart api rq w)"
    "framed_answer (MultipartHandlers_AbortUpload api rq w)"
proof -
  have "framed_answer (upload_part_data api rq i n w)" for i n w
    using assms by (auto simp: upload_part_data_def Let_def split: prod.splits sum.splits)
  with assms show "framed_answer (MultipartHandlers_UploadPart api rq w)"
    by (auto simp: MultipartHandlers_UploadPart_def Let_def split: prod.splits sum.splits)
qed (use assms in \<open>auto simp: MultipartHandlers_InitUpload_def MultipartHandlers_AbortUpload_def Let_def split: prod.splits sum.splits\<close>)

lemma framed_presign:
  assumes "prints dump"
  shows "framed_answer (PresignHandlers_CreatePresignUrl dump parse hmac now secrets rq s)"
  using assms by (auto simp: PresignHandlers_CreatePresignUrl_def Let_def split: option.splits sum.splits list.splits)

lemma framed_metrics: "m \<noteq> [] \<Longrightarrow> framed_answer (HealthHandlers_Metrics m rq w)"
  by (simp add: HealthHandlers_Metrics_def)

lemma framed_route:
  assumes "(m, p, h) \<in> set (route_table env)" "m \<noteq> HEAD" "prints (ap_dump (sc_api env))" "sc_metrics env \<noteq> []" "plain rq"
  shows "framed_answer (h rq w)"
  using assms(1,2) framed_GetObject [OF assms(3,5)] framed_PutObject [OF assms(3,5)] framed_objects [OF assms(3)] framed_buckets [OF assms(3)]
    framed_CompleteUpload [OF assms(3)] framed_uploads [OF assms(3)] framed_presign [OF assms(3)] framed_metrics [OF assms(4)]
  by (auto simp: route_table_def Let_def)

section \<open>The router and the middleware\<close>

lemma plain_set_params [simp]: "plain (set_params rq ns vs) = plain rq"
  by (induction rq ns vs rule: set_params.induct) (simp_all add: plain_def HttpRequest_GetHeader_def HttpRequest_SetPathParam_def)

lemma lower_plain [simp]: "lower ''Idempotency-Key'' = ''idempotency-key''" "lower ''Range'' = ''range''"
  by code_simp+

lemma lower_middleware [simp]: "lower ''X-Request-Id'' = ''x-request-id''" "lower ''X-Auth-Method'' = ''x-auth-method''"
  by code_simp+

lemma plain_SetHeader [simp]:
  "lower k \<noteq> ''idempotency-key'' \<Longrightarrow> lower k \<noteq> ''range'' \<Longrightarrow> plain (HttpRequest_SetHeader rq k v) = plain rq"
  by (auto simp: plain_def)

lemma plain_fields [simp]: "plain (rq\<lparr>rq_trace_id := t\<rparr>) = plain rq" "plain (HttpRequest_ParseQueryString rq) = plain rq"
  by (simp_all add: plain_def HttpRequest_GetHeader_def HttpRequest_ParseQueryString_def)

lemma framed_trace:
  assumes "plain rq" "\<And>rq s. plain rq \<Longrightarrow> framed_answer (next rq s)"
  shows "framed_answer (TraceMiddleware_Handle uuid rq next s)"
proof -
  have next_framed: "next rq' s = (s', Inr r) \<Longrightarrow> plain rq' \<Longrightarrow> framed r" for rq' s s' r using assms(2) [of rq' s] by simp
  have "framed r \<Longrightarrow> framed (HttpResponse_SetHeader r ''X-Request-Id'' v)" for r v
    by (auto simp: framed_def payload_def HttpResponse_HasFile_def HttpResponse_FileLength_def split: option.splits if_splits)
  moreover have "plain (HttpRequest_SetHeader rq ''X-Request-Id'' v)" for v using assms(1) by simp
  ultimately show ?thesis using assms(1)
    by (auto simp: TraceMiddleware_Handle_def Let_def split: prod.splits sum.splits dest!: next_framed)
qed

lemma framed_auth:
  assumes "prints dump" "plain rq" "\<And>rq s. plain rq \<Longrightarrow> framed_answer (next rq s)"
  shows "framed_answer (AuthMiddleware_Handle dump hmac now tokens rq next s)"
  using assms by (simp add: AuthMiddleware_Handle_def Let_def)

lemma framed_wrap:
  assumes "prints (ap_dump (sc_api env))" "plain rq" "\<And>rq s. plain rq \<Longrightarrow> framed_answer (h rq s)"
  shows "framed_answer (wrap (middlewares env) h rq w)"
  using assms by (auto simp: wrap_def middlewares_def intro!: framed_trace framed_auth)

lemma find_route_entry:
  "find_route rs rq = Some (e, caps) \<Longrightarrow> e \<in> set rs \<and> re_method e = rq_method rq"
  by (induction rs rq rule: find_route.induct) (auto split: if_splits option.splits)

lemma Server_Handle_framed:
  assumes "prints (ap_dump (sc_api env))" "sc_metrics env \<noteq> []" "plain rq" "rq_method rq \<noteq> HEAD"
  shows "framed_answer (Server_Handle env rq w)"
proof (cases "find_route (map entry (route_table env)) rq")
  case None
  with SetupRoutes_table [of env] assms(1) show ?thesis by (auto simp: Server_Handle_def HttpRouter_Handle_def)
next
  case (Some x)
  obtain e caps where x: "x = (e, caps)" by (cases x)
  with find_route_entry Some have "e \<in> set (map entry (route_table env))" "re_method e = rq_method rq" by blast+
  then obtain m p h where e: "e = entry (m, p, h)" "(m, p, h) \<in> set (route_table env)" "m = rq_method rq" by (auto simp: entry_def)
  have "framed_answer (h rq' w')" if "plain rq'" for rq' w' using framed_route [OF e(2) _ assms(1,2) that] e(3) assms(4) by simp
  then have "framed_answer (wrap (middlewares env) h (set_params rq ns caps) w)" for ns using framed_wrap [OF assms(1)] assms(3) by simp
  moreover have "\<exists>ns. Server_Handle env rq w = wrap (middlewares env) h (set_params rq ns caps) w"
    using SetupRoutes_table [of env] Some x e(1) by (auto simp: Server_Handle_def HttpRouter_Handle_def entry_def)
  ultimately show ?thesis by auto
qed

text \<open>What the connection answers itself: 400 for a request that does not parse or a checksum that does not match, 413 for a
  body that is too large, 500 for a failed write, 404 or 500 for a file that does not open.\<close>

definition connection_answer :: "(Json \<Rightarrow> string) \<Rightarrow> HttpResponse \<Rightarrow> bool" where
  "connection_answer dump r \<longleftrightarrow> (\<exists>m t. r \<in> {HttpResponse_BadRequest dump m t, HttpResponse_InternalError dump m t,
     HttpResponse_NotFound dump m t, HttpResponse_Error dump 413 ''EntityTooLarge'' m t})"

lemma connection_answer_framed: "prints dump \<Longrightarrow> connection_answer dump r \<Longrightarrow> framed r"
  by (auto simp: connection_answer_def) (simp add: framed_def response_simps HttpResponse_HasFile_def)

lemma keep_alive_fields [simp]:
  "rs_status_code (r\<lparr>rs_keep_alive := ka\<rparr>) = rs_status_code r" "rs_status_message (r\<lparr>rs_keep_alive := ka\<rparr>) = rs_status_message r"
  "rs_headers (r\<lparr>rs_keep_alive := ka\<rparr>) = rs_headers r" "rs_body (r\<lparr>rs_keep_alive := ka\<rparr>) = rs_body r"
  "HttpResponse_HasFile (r\<lparr>rs_keep_alive := ka\<rparr>) = HttpResponse_HasFile r"
  "HttpResponse_FileLength (r\<lparr>rs_keep_alive := ka\<rparr>) = HttpResponse_FileLength r"
  by (simp_all add: HttpResponse_HasFile_def HttpResponse_FileLength_def)

lemma framed_keep_alive [simp]:
  "framed (r\<lparr>rs_keep_alive := ka\<rparr>) = framed r" "payload (r\<lparr>rs_keep_alive := ka\<rparr>) = payload r"
  by (simp_all only: framed_def payload_def keep_alive_fields)

text \<open>The exception: the range \<^verbatim>\<open>bytes=-0\<close> of an object that is not empty declares no content and sends the whole file.\<close>

lemma empty_suffix_misframed:
  assumes "ObjectHandlers_ParseRange h (size_of (oi_size obj)) = Inr (Some (s, e))" "empty_suffix h" "p \<noteq> []"
  shows "rs_headers (object_response p obj (Some (s, e))) ''Content-Length'' = Some ''0''"
    "payload (object_response p obj (Some (s, e))) = size_of (oi_size obj)" "0 < size_of (oi_size obj)"
proof -
  let ?n = "size_of (oi_size obj)"
  show n: "0 < ?n" using assms(1) by (auto simp: ObjectHandlers_ParseRange_def intro: gr0I)
  obtain b where b: "range_regex h = Some ([], b)" "b \<noteq> []" "digits_val b = 0" using assms(2) by (auto simp: empty_suffix_def split: option.splits)
  then have "list_all isdigit b" by (simp add: range_regex_Some)
  with assms(1) n b have se: "s = ?n" "e = ?n - 1"
    using size_of_less [of "oi_size obj"] by (auto simp: ObjectHandlers_ParseRange_def stoull_digits Let_def)
  have "size_add (size_sub (?n - 1) ?n) 1 = 0" using n size_of_less [of "oi_size obj"] by (simp add: size_add_def size_sub_def)
  moreover have "nat_to_string 0 = ''0''" by code_simp
  ultimately show "rs_headers (object_response p obj (Some (s, e))) ''Content-Length'' = Some ''0''"
    "payload (object_response p obj (Some (s, e))) = ?n"
    using assms(3) n se by (simp_all add: payload_def object_response_def object_headers_def HttpResponse_HasFile_def Let_def)
qed

text \<open>C4: A response is well formed on the wire, whether a handler behind the router and the middleware gave it
  (to a request other than \<^verbatim>\<open>HEAD\<close>, without idempotency key, and not asking for the suffix \<^verbatim>\<open>bytes=-0\<close>), or the connection
  answered itself (400, 413, 404 and 500): a status line, headers with distinct names and the body, where
  \<^verbatim>\<open>Content-Length\<close> is the number of bytes of the body or of the slice of the file that follows. The only responses
  without \<^verbatim>\<open>Content-Length\<close> are those with status 204 and the refusals of a range (416), which carry nothing.
  Excepted are recorded responses, sent again as they were, and \<^verbatim>\<open>bytes=-0\<close> (\<open>empty_suffix_misframed\<close>); JSON values print as
  non-empty texts.\<close>
theorem responses_framed:
  assumes "\<And>j. ap_dump (sc_api env) j \<noteq> ''''" "enumerates order (rs_headers r)"
    and "sc_metrics env \<noteq> '''' \<and> plain request \<and> rq_method request \<noteq> HEAD \<and> Server_Handle env request w = (w', Inr r) \<or>
      connection_answer (ap_dump (sc_api env)) r"
  shows "\<exists>hs. render_response order (r\<lparr>rs_keep_alive := ka\<rparr>) = ''HTTP/1.1 '' @ int_to_string (rs_status_code r) @ '' '' @ rs_status_message r @ CRLF @
      concat (map header_line hs) @ CRLF @ (if HttpResponse_HasFile r then '''' else rs_body r) \<and> distinct (map fst hs) \<and>
    map_of hs ''Content-Length'' = (if rs_status_code r \<in> {204, 416} then None else Some (nat_to_string (payload r))) \<and>
    (rs_status_code r \<in> {204, 416} \<longrightarrow> payload r = 0)"
proof -
  have p: "prints (ap_dump (sc_api env))" using assms(1) by (simp add: prints_def)
  have "framed r" using assms(3) Server_Handle_framed [OF p, of request w] connection_answer_framed [OF p] by auto
  then have f: "framed (r\<lparr>rs_keep_alive := ka\<rparr>)" by simp
  from framed_on_wire [OF f, of order, unfolded keep_alive_fields framed_keep_alive] assms(2) show ?thesis .
qed

section \<open>Sample\<close>

definition printing_env :: "(Mem, unit) ServerEnv" where
  "printing_env = hi_env\<lparr>sc_api := hi_api\<lparr>ap_meta := (mem_env bin_col)\<lparr>me_dump := \<lambda>_. ''{}''\<rparr>\<rparr>, sc_metrics := ''m''\<rparr>"

definition health_request :: HttpRequest where
  "health_request = HttpRequest_new\<lparr>rq_method := GET, rq_path := ''/healthz''\<rparr>"

lemma health_answer:
  "Server_Handle printing_env health_request w = (w, Inr (HttpResponse_SetHeader (HttpResponse_OK ''{}'') ''X-Request-Id'' ''u''))"
proof -
  have m: "regex_match (fst (compiled ''/healthz'')) ''/healthz'' = Some []" "snd (compiled ''/healthz'') = []" by code_simp+
  have "find_route (map entry (route_table printing_env)) health_request =
      Some (entry (GET, ''/healthz'', HealthHandlers_HealthCheck (sc_api printing_env)), [])"
    by (simp add: route_table_def Let_def entry_def health_request_def HttpRequest_new_def m)
  with SetupRoutes_table [of printing_env] show ?thesis
    by (auto simp: Server_Handle_def HttpRouter_Handle_def entry_def m(2) wrap_def middlewares_def TraceMiddleware_Handle_def HealthHandlers_HealthCheck_def
        answer_def printing_env_def hi_env_def hi_api_def health_request_def HttpRequest_GetHeader_def HttpRequest_new_def Let_def)
qed

theorem responses_framed_witness:
  "\<exists>hs. render_response (\<lambda>m. [(''X-Request-Id'', the (m ''X-Request-Id''))]) ((HttpResponse_SetHeader (HttpResponse_OK ''{}'') ''X-Request-Id'' ''u'')\<lparr>rs_keep_alive := True\<rparr>) =
     ''HTTP/1.1 200 OK'' @ CRLF @ concat (map header_line hs) @ CRLF @ ''{}'' \<and> map_of hs ''Content-Length'' = Some ''2''"
proof -
  let ?r = "HttpResponse_SetHeader (HttpResponse_OK ''{}'') ''X-Request-Id'' ''u''"
  have n: "int_to_string 200 = ''200''" "nat_to_string 2 = ''2''" by code_simp+
  have r: "rs_headers ?r = [''X-Request-Id'' \<mapsto> ''u'']" "rs_body ?r = ''{}''" "rs_status_code ?r = 200" "rs_status_message ?r = ''OK''"
      "\<not> HttpResponse_HasFile ?r" "payload ?r = 2"
    by (simp_all add: response_simps HttpResponse_HasFile_def payload_def)
  have "plain health_request" unfolding plain_def health_request_def by code_simp
  then have h: "sc_metrics printing_env \<noteq> '''' \<and> plain health_request \<and> rq_method health_request \<noteq> HEAD \<and>
      Server_Handle printing_env health_request hi_world = (hi_world, Inr ?r) \<or> connection_answer (ap_dump (sc_api printing_env)) ?r"
    by (simp add: health_answer) (simp add: printing_env_def health_request_def HttpRequest_new_def)
  have e: "enumerates (\<lambda>m. [(''X-Request-Id'', the (m ''X-Request-Id''))]) (rs_headers ?r)"
    unfolding r(1) by (simp add: enumerates_def)
  have d: "ap_dump (sc_api printing_env) j \<noteq> ''''" for j by (simp add: printing_env_def)
  from responses_framed [OF d e h, where ka = True] show ?thesis unfolding r(2,3,4,6) n if_not_P [OF r(5)] by simp blast
qed

end
