(* ===== verification/Redis_Cache.thy ===== *)
theory Redis_Cache
  imports Status
begin

text \<open>
  The Redis client: \<^verbatim>\<open>src/src/util/redis_cache.cpp\<close>. The socket is given by what it will do: the segments that
  \<open>recv\<close> delivers (an empty segment, or none left, is a closed connection or a time-out), how many bytes each
  \<open>send\<close> takes (0 is a failure; when the list is used up, all of them), and the bytes sent so far. The outcomes of
  the attempts to connect are given in the same way. A loop that reads therefore ends; a peer that sends a line
  without an end forever has no such list. Redis itself is not modelled: the lemmas speak of the bytes it sends,
  in the format of its protocol.
\<close>

section \<open>Sockets\<close>

record Socket =
  so_in :: "string list"
  so_room :: "nat list"
  so_out :: string

definition sys_recv :: "Socket \<Rightarrow> nat \<Rightarrow> Socket \<times> string option" where
  "sys_recv so n =
     (case so_in so of
        [] \<Rightarrow> (so, None)
      | seg # rest \<Rightarrow>
          if seg = [] then (so\<lparr>so_in := rest\<rparr>, None)
          else (so\<lparr>so_in := (if length seg \<le> n then rest else drop n seg # rest)\<rparr>, Some (take n seg)))"

definition sys_send :: "Socket \<Rightarrow> string \<Rightarrow> Socket \<times> nat" where
  "sys_send so data =
     (case so_room so of
        [] \<Rightarrow> (so\<lparr>so_out := so_out so @ data\<rparr>, length data)
      | k # ks \<Rightarrow> (so\<lparr>so_room := ks, so_out := so_out so @ take k data\<rparr>, min k (length data)))"

definition bytes_left :: "Socket \<Rightarrow> nat" where
  "bytes_left so = length (so_in so) + length (concat (so_in so))"

lemma sys_recv_less: "sys_recv so n = (so', Some d) \<Longrightarrow> 0 < n \<Longrightarrow> bytes_left so' < bytes_left so \<and> d \<noteq> [] \<and> length d \<le> n"
  by (auto simp: sys_recv_def bytes_left_def split: list.splits if_splits)

section \<open>The client\<close>

record RedisConfig =
  rd_enabled :: bool
  rd_host :: string
  rd_port :: nat
  rd_password :: string
  rd_db :: int
  rd_connect_timeout_ms :: int
  rd_command_timeout_ms :: int
  rd_object_meta_ttl_seconds :: int

datatype Dial = No_Socket | Refused | Dialled Socket

text \<open>\<open>rc_socket\<close> is \<open>None\<close> when \<open>sockfd_\<close> is negative; \<open>rc_dials\<close> are the attempts to connect to come.\<close>

record RedisCache =
  rc_config :: RedisConfig
  rc_socket :: "Socket option"
  rc_dials :: "Dial list"

definition RedisCache_new :: "RedisConfig \<Rightarrow> Dial list \<Rightarrow> RedisCache" where
  "RedisCache_new config dials = \<lparr>rc_config = config, rc_socket = None, rc_dials = dials\<rparr>"

definition RedisCache_Enabled :: "RedisCache \<Rightarrow> bool" where
  "RedisCache_Enabled c = rd_enabled (rc_config c)"

definition RedisCache_ObjectMetaTtlSeconds :: "RedisCache \<Rightarrow> int" where
  "RedisCache_ObjectMetaTtlSeconds c = rd_object_meta_ttl_seconds (rc_config c)"

definition bulk :: "string \<Rightarrow> string" where
  "bulk arg = ''$'' @ nat_to_string (length arg) @ CRLF @ arg @ CRLF"

definition RedisCache_BuildRespCommand :: "string list \<Rightarrow> string" where
  "RedisCache_BuildRespCommand args = ''*'' @ nat_to_string (length args) @ CRLF @ concat (map bulk args)"

text \<open>\<open>sent\<close> bytes of the data are out.\<close>

function send_loop :: "Socket \<Rightarrow> string \<Rightarrow> nat \<Rightarrow> Socket \<times> bool" where
  "send_loop so data sent =
     (if sent < length data
      then case sys_send so (drop sent data) of (so', n) \<Rightarrow> if n = 0 then (so', False) else send_loop so' data (sent + n)
      else (so, True))"
  by pat_completeness auto
termination by (relation "measure (\<lambda>(so, data, sent). length data - sent)") auto

declare send_loop.simps [simp del]

definition RedisCache_SendAll :: "Socket \<Rightarrow> string \<Rightarrow> Socket \<times> bool" where
  "RedisCache_SendAll so data = send_loop so data 0"

function line_loop :: "Socket \<Rightarrow> string \<Rightarrow> char \<Rightarrow> Socket \<times> string option" where
  "line_loop so line prev =
     (case sys_recv so 1 of
        (so', None) \<Rightarrow> (so', None)
      | (so', Some d) \<Rightarrow>
          let ch = hd d; line = line @ [ch]
          in if prev = CR \<and> ch = LF then (so', Some (take (length line - 2) line)) else line_loop so' line ch)"
  by pat_completeness auto
termination by (relation "measure (\<lambda>(so, line, prev). bytes_left so)") (auto dest!: sys_recv_less [OF sym])

declare line_loop.simps [simp del]

definition RedisCache_ReadLine :: "Socket \<Rightarrow> Socket \<times> string option" where
  "RedisCache_ReadLine so = line_loop so '''' (CHR 0x00)"

function exact_loop :: "Socket \<Rightarrow> nat \<Rightarrow> string \<Rightarrow> Socket \<times> string option" where
  "exact_loop so len out =
     (if length out < len
      then case sys_recv so (len - length out) of
             (so', None) \<Rightarrow> (so', None)
           | (so', Some d) \<Rightarrow> exact_loop so' len (out @ d)
      else (so, Some out))"
  by pat_completeness auto
termination by (relation "measure (\<lambda>(so, len, out). bytes_left so)") (auto dest!: sys_recv_less [OF sym])

declare exact_loop.simps [simp del]

definition RedisCache_ReadExact :: "Socket \<Rightarrow> nat \<Rightarrow> Socket \<times> string option" where
  "RedisCache_ReadExact so len = exact_loop so len ''''"

section \<open>Commands\<close>

definition RedisCache_SendCommandGetBulk :: "Socket \<Rightarrow> string list \<Rightarrow> Socket \<times> (cpp_exn + string option Result)" where
  "RedisCache_SendCommandGetBulk so args =
     (case RedisCache_SendAll so (RedisCache_BuildRespCommand args) of
        (so, False) \<Rightarrow> (so, Inr (Err ServiceUnavailable ''Redis write failed''))
      | (so, True) \<Rightarrow>
          (case RedisCache_ReadLine so of
             (so, None) \<Rightarrow> (so, Inr (Err ServiceUnavailable ''Redis read failed''))
           | (so, Some []) \<Rightarrow> (so, Inr (Err ServiceUnavailable ''Redis empty response''))
           | (so, Some (type # text)) \<Rightarrow>
               if type = CHR ''$''
               then (case stoi text of
                       Inl e \<Rightarrow> (so, Inl e)
                     | Inr len \<Rightarrow>
                         if len < 0 then (so, Inr (Inr None))
                         else case RedisCache_ReadExact so (nat len) of
                                (so, None) \<Rightarrow> (so, Inr (Err ServiceUnavailable ''Redis bulk read failed''))
                              | (so, Some payload) \<Rightarrow>
                                  (case RedisCache_ReadExact so 2 of
                                     (so, None) \<Rightarrow> (so, Inr (Err ServiceUnavailable ''Redis trailing CRLF missing''))
                                   | (so, Some _) \<Rightarrow> (so, Inr (Inr (Some payload)))))
               else if type = CHR ''-'' then (so, Inr (Err ServiceUnavailable (''Redis error: '' @ text)))
               else (so, Inr (Err ServiceUnavailable ''Unexpected Redis response type''))))"

definition RedisCache_SendCommandExpectOk :: "Socket \<Rightarrow> string list \<Rightarrow> Socket \<times> Status" where
  "RedisCache_SendCommandExpectOk so args =
     (case RedisCache_SendAll so (RedisCache_BuildRespCommand args) of
        (so, False) \<Rightarrow> (so, Status_Error ServiceUnavailable ''Redis write failed'')
      | (so, True) \<Rightarrow>
          (case RedisCache_ReadLine so of
             (so, None) \<Rightarrow> (so, Status_Error ServiceUnavailable ''Redis read failed'')
           | (so, Some []) \<Rightarrow> (so, Status_Error ServiceUnavailable ''Redis empty response'')
           | (so, Some (type # text)) \<Rightarrow>
               if type = CHR ''+'' \<or> type = CHR '':'' \<or> type = CHR ''$'' then (so, Status_OK)
               else if type = CHR ''-'' then (so, Status_Error ServiceUnavailable (''Redis error: '' @ text))
               else (so, Status_Error ServiceUnavailable ''Unexpected Redis response type'')))"

section \<open>Connecting\<close>

text \<open>The parts of a dotted address, and \<open>inet_pton(AF_INET)\<close>: four decimal numbers below 256 without leading zeros.\<close>

fun dot_split :: "string \<Rightarrow> string list" where
  "dot_split [] = [[]]"
| "dot_split (c # s) =
     (if c = CHR ''.'' then [] # dot_split s else case dot_split s of p # ps \<Rightarrow> (c # p) # ps | [] \<Rightarrow> [[c]])"

definition octet :: "string \<Rightarrow> bool" where
  "octet p \<longleftrightarrow> p \<noteq> [] \<and> list_all isdigit p \<and> digits_val p \<le> 255 \<and> (length p = 1 \<or> hd p \<noteq> CHR ''0'')"

definition inet_pton :: "string \<Rightarrow> bool" where
  "inet_pton host \<longleftrightarrow> (let ps = dot_split (takeWhile (\<lambda>c. c \<noteq> CHR 0x00) host) in length ps = 4 \<and> list_all octet ps)"

definition RedisCache_Close :: "RedisCache \<Rightarrow> RedisCache" where
  "RedisCache_Close c = c\<lparr>rc_socket := None\<rparr>"

definition RedisCache_destroy :: "RedisCache \<Rightarrow> RedisCache" where
  "RedisCache_destroy c = RedisCache_Close c"

text \<open>The commands after the connection: a failure of the first two closes it, one of the last does not.\<close>

definition greet :: "RedisConfig \<Rightarrow> Socket \<Rightarrow> Socket option \<times> Status" where
  "greet config so =
     (case (if rd_password config \<noteq> '''' then RedisCache_SendCommandExpectOk so [''AUTH'', rd_password config] else (so, Status_OK)) of
        (so, status) \<Rightarrow>
          if \<not> Status_ok status then (None, status)
          else (case (if rd_db config > 0 then RedisCache_SendCommandExpectOk so [''SELECT'', int_to_string (rd_db config)]
                      else (so, Status_OK)) of
                  (so, status) \<Rightarrow>
                    if \<not> Status_ok status then (None, status)
                    else (case RedisCache_SendCommandExpectOk so [''PING''] of (so, status) \<Rightarrow> (Some so, status))))"

definition RedisCache_Connect :: "RedisCache \<Rightarrow> RedisCache \<times> Status" where
  "RedisCache_Connect c =
     (let c = RedisCache_Close c;
          (dial, rest) = (case rc_dials c of [] \<Rightarrow> (No_Socket, []) | d # ds \<Rightarrow> (d, ds));
          c = c\<lparr>rc_dials := rest\<rparr>
      in case dial of
           No_Socket \<Rightarrow> (c, Status_Error InternalError ''Failed to create Redis socket'')
         | Refused \<Rightarrow> (c, if \<not> inet_pton (rd_host (rc_config c)) then Status_Error InvalidArgument ''Invalid Redis host''
                          else Status_Error ServiceUnavailable ''Failed to connect Redis'')
         | Dialled so \<Rightarrow>
             if \<not> inet_pton (rd_host (rc_config c)) then (c, Status_Error InvalidArgument ''Invalid Redis host'')
             else case greet (rc_config c) so of (so, status) \<Rightarrow> (c\<lparr>rc_socket := so\<rparr>, status))"

definition RedisCache_EnsureConnected :: "RedisCache \<Rightarrow> RedisCache \<times> Status" where
  "RedisCache_EnsureConnected c = (if rc_socket c \<noteq> None then (c, Status_OK) else RedisCache_Connect c)"

definition RedisCache_Init :: "RedisCache \<Rightarrow> RedisCache \<times> Status" where
  "RedisCache_Init c = (if \<not> rd_enabled (rc_config c) then (c, Status_OK) else RedisCache_Connect c)"

section \<open>Operations\<close>

definition RedisCache_Get :: "RedisCache \<Rightarrow> string \<Rightarrow> RedisCache \<times> (cpp_exn + string option Result)" where
  "RedisCache_Get c key =
     (if \<not> rd_enabled (rc_config c) then (c, Inr (Inr None))
      else case RedisCache_EnsureConnected c of
             (c, status) \<Rightarrow>
               if \<not> Status_ok status then (c, Inr (Inl status))
               else (case RedisCache_SendCommandGetBulk (the (rc_socket c)) [''GET'', key] of
                       (so, res) \<Rightarrow>
                         let c = c\<lparr>rc_socket := Some so\<rparr>
                         in case res of
                              Inr (Inl _) \<Rightarrow> (RedisCache_Close c, res)
                            | _ \<Rightarrow> (c, res)))"

text \<open>\<open>SetEx\<close> and \<open>Del\<close> after the guard: a command whose failure closes the connection.\<close>

definition run_command :: "RedisCache \<Rightarrow> string list \<Rightarrow> RedisCache \<times> Status" where
  "run_command c args =
     (case RedisCache_EnsureConnected c of
        (c, status) \<Rightarrow>
          if \<not> Status_ok status then (c, status)
          else (case RedisCache_SendCommandExpectOk (the (rc_socket c)) args of
                  (so, status) \<Rightarrow>
                    let c = c\<lparr>rc_socket := Some so\<rparr> in (if \<not> Status_ok status then RedisCache_Close c else c, status)))"

definition RedisCache_SetEx :: "RedisCache \<Rightarrow> string \<Rightarrow> int \<Rightarrow> string \<Rightarrow> RedisCache \<times> Status" where
  "RedisCache_SetEx c key ttl_seconds val =
     (if \<not> rd_enabled (rc_config c) then (c, Status_OK)
      else run_command c [''SET'', key, val, ''EX'', int_to_string ttl_seconds])"

definition RedisCache_Del :: "RedisCache \<Rightarrow> string \<Rightarrow> RedisCache \<times> Status" where
  "RedisCache_Del c key = (if \<not> rd_enabled (rc_config c) then (c, Status_OK) else run_command c [''DEL'', key])"

section \<open>Framing\<close>

text \<open>A socket that has not failed and will not.\<close>

definition so_live :: "Socket \<Rightarrow> bool" where
  "so_live so \<longleftrightarrow> [] \<notin> set (so_in so) \<and> 0 \<notin> set (so_room so)"

definition reads :: "Socket \<Rightarrow> string \<Rightarrow> Socket \<Rightarrow> bool" where
  "reads so d so' \<longleftrightarrow> so_live so' \<and> concat (so_in so) = d @ concat (so_in so') \<and> so_room so' = so_room so \<and> so_out so' = so_out so"

lemma reads_refl [simp]: "so_live so \<Longrightarrow> reads so [] so"
  by (simp add: reads_def)

lemma reads_trans: "reads so d so' \<Longrightarrow> reads so' e so'' \<Longrightarrow> reads so (d @ e) so''"
  by (simp add: reads_def)

lemma sys_recv_reads:
  assumes "so_live so" "concat (so_in so) \<noteq> []" "0 < n"
  obtains d so' where "sys_recv so n = (so', Some d)" "reads so d so'" "d \<noteq> []" "length d \<le> n"
  using assms by (cases "so_in so") (auto simp: sys_recv_def so_live_def reads_def dest: in_set_dropD)

lemma recv_char:
  assumes "so_live so" "concat (so_in so) = c # r"
  shows "\<exists>so'. sys_recv so 1 = (so', Some [c]) \<and> reads so [c] so' \<and> so_live so' \<and> concat (so_in so') = r"
proof -
  obtain seg rest where "so_in so = (c # seg) # rest" using assms by (cases "so_in so") (auto simp: so_live_def append_eq_Cons_conv)
  with assms show ?thesis by (cases seg) (auto simp: sys_recv_def so_live_def reads_def)
qed

lemma line_loop_reads:
  "so_live so \<Longrightarrow> concat (so_in so) = str @ CRLF @ rest \<Longrightarrow> CR \<notin> set str \<Longrightarrow> prev \<noteq> CR \<Longrightarrow>
   \<exists>so'. line_loop so line prev = (so', Some (line @ str)) \<and> reads so (str @ CRLF) so'"
proof (induction str arbitrary: so line prev)
  case Nil
  from recv_char [OF Nil(1)] Nil(2) obtain so1 where 1: "sys_recv so 1 = (so1, Some [CR])" "reads so [CR] so1" "so_live so1" "concat (so_in so1) = LF # rest"
    by fastforce
  from recv_char [OF 1(3,4)] obtain so2 where 2: "sys_recv so1 1 = (so2, Some [LF])" "reads so1 [LF] so2" by blast
  from reads_trans [OF 1(2) 2(2)] 1(1) 2(1) Nil(4) show ?case
    by (intro exI [of _ so2]) (simp add: line_loop.simps [of so] line_loop.simps [of so1])
next
  case (Cons c str)
  from recv_char [OF Cons(2)] Cons(3) obtain so1 where 1: "sys_recv so 1 = (so1, Some [c])" "reads so [c] so1" "so_live so1"
    "concat (so_in so1) = str @ CRLF @ rest" by fastforce
  from Cons.IH [OF 1(3,4), of c "line @ [c]"] Cons(4) obtain so2 where
    2: "line_loop so1 (line @ [c]) c = (so2, Some ((line @ [c]) @ str))" "reads so1 (str @ CRLF) so2" by auto
  from reads_trans [OF 1(2) 2(2)] 1(1) 2(1) Cons(4,5) show ?case
    by (intro exI [of _ so2]) (simp add: line_loop.simps [of so])
qed

lemma exact_loop_reads:
  "so_live so \<Longrightarrow> concat (so_in so) = d @ rest \<Longrightarrow> len = length out + length d \<Longrightarrow>
   \<exists>so'. exact_loop so len out = (so', Some (out @ d)) \<and> reads so d so'"
proof (induction so len out arbitrary: d rule: exact_loop.induct)
  case (1 so len out)
  show ?case
  proof (cases "d = []")
    case True
    with 1 show ?thesis by (simp add: exact_loop.simps [of so])
  next
    case False
    then have more: "length out < len" "0 < len - length out" using 1(4) by (cases d; simp)+
    obtain e so1 where e: "sys_recv so (len - length out) = (so1, Some e)" "reads so e so1" "length e \<le> len - length out"
      using sys_recv_reads [OF 1(2) _ more(2)] 1(3) False by (metis Nil_is_append_conv)
    have d: "d = e @ drop (length e) d" "concat (so_in so1) = drop (length e) d @ rest" "so_live so1"
      using e 1(3,4) more by (auto simp: reads_def append_eq_append_conv2)
    have "\<exists>so'. exact_loop so1 len (out @ e) = (so', Some ((out @ e) @ drop (length e) d)) \<and> reads so1 (drop (length e) d) so'"
      using 1(1) [OF more(1) e(1) [symmetric] refl, of "drop (length e) d"] d 1(4) e(3) by simp
    with e more d(1) show ?thesis by (auto simp: exact_loop.simps [of so] dest: reads_trans)
  qed
qed

lemma send_loop_sends:
  "so_live so \<Longrightarrow> \<exists>so'. send_loop so data sent = (so', True) \<and> so_live so' \<and> so_in so' = so_in so \<and> so_out so' = so_out so @ drop sent data"
proof (induction so data sent rule: send_loop.induct)
  case (1 so data sent)
  show ?case
  proof (cases "sent < length data")
    case False
    with 1 show ?thesis by (simp add: send_loop.simps [of so])
  next
    case True
    obtain so1 n where s: "sys_send so (drop sent data) = (so1, n)" by (cases "sys_send so (drop sent data)")
    have n: "n \<noteq> 0" "so_live so1" "so_in so1 = so_in so" "so_out so1 = so_out so @ take n (drop sent data)"
      using s 1(2) True by (auto simp: sys_send_def so_live_def min_def split: list.splits)
    have "drop sent data = take n (drop sent data) @ drop (sent + n) data" by (simp add: add.commute flip: drop_drop)
    then have o: "so_out so @ drop sent data = so_out so1 @ drop (sent + n) data" using n(4) by (metis append.assoc)
    from 1(1) [OF True s [symmetric] n(1,2)] n(1,3) o s True show ?thesis by (simp add: send_loop.simps [of so])
  qed
qed

text \<open>What a server reads: a line, a number of arguments and each of them by its length.\<close>

definition resp_line :: "char \<Rightarrow> string \<Rightarrow> (nat \<times> string) option" where
  "resp_line tag s =
     (case find_str CRLF s of
        None \<Rightarrow> None
      | Some i \<Rightarrow>
          (case take i s of
             t # digits \<Rightarrow> if t = tag then (case stoull digits of Inl _ \<Rightarrow> None | Inr n \<Rightarrow> Some (n, drop (i + 2) s)) else None
           | [] \<Rightarrow> None))"

fun resp_args :: "nat \<Rightarrow> string \<Rightarrow> (string list \<times> string) option" where
  "resp_args 0 s = Some ([], s)"
| "resp_args (Suc k) s =
     (case resp_line (CHR ''$'') s of
        None \<Rightarrow> None
      | Some (n, s) \<Rightarrow>
          if length s < n + 2 \<or> take 2 (drop n s) \<noteq> CRLF then None
          else case resp_args k (drop (n + 2) s) of None \<Rightarrow> None | Some (as, r) \<Rightarrow> Some (take n s # as, r))"

definition resp_command :: "string \<Rightarrow> (string list \<times> string) option" where
  "resp_command s = (case resp_line (CHR ''*'') s of None \<Rightarrow> None | Some (n, s) \<Rightarrow> resp_args n s)"


lemma no_CR_digits [simp]: "CR \<notin> set (nat_to_string n)"
  using nat_to_string_digits [of CR n] by (auto simp: isdigit_def)

lemma find_CRLF: "CR \<notin> set s \<Longrightarrow> find_str CRLF (s @ CRLF @ r) = Some (length s)"
  by (induction s) auto

lemma resp_line_tag: "n < size_bound \<Longrightarrow> tag \<noteq> CR \<Longrightarrow> resp_line tag (tag # nat_to_string n @ CRLF @ r) = Some (n, r)"
  using find_CRLF [of "tag # nat_to_string n" r] by (simp add: resp_line_def)

lemma resp_args_bulk:
  "\<forall>a \<in> set args. length a < size_bound \<Longrightarrow> resp_args (length args) (concat (map bulk args) @ r) = Some (args, r)"
proof (induction args)
  case (Cons a args)
  have "resp_line (CHR ''$'') (bulk a @ s) = Some (length a, a @ CRLF @ s)" for s
    using resp_line_tag [of "length a" "CHR ''$''" "a @ CRLF @ s"] Cons.prems by (simp add: bulk_def)
  with Cons show ?case by simp
qed simp

theorem resp_roundtrip:
  assumes "length args < size_bound" "\<forall>a \<in> set args. length a < size_bound"
  shows "resp_command (RedisCache_BuildRespCommand args @ r) = Some (args, r)"
  using resp_line_tag [of "length args" "CHR ''*''" "concat (map bulk args) @ r"] resp_args_bulk [OF assms(2)] assms(1)
  by (simp add: resp_command_def RedisCache_BuildRespCommand_def)

lemma nat_to_string_short: "length (nat_to_string n) \<le> n + 1"
proof (induction n rule: nat_to_string.induct)
  case (1 n)
  then show ?case by (subst nat_to_string.simps) auto
qed

lemma int_to_string_short: "- (2 ^ 31) \<le> i \<Longrightarrow> i < 2 ^ 31 \<Longrightarrow> length (int_to_string i) < size_bound"
  using nat_to_string_short [of "nat i"] nat_to_string_short [of "nat (- i)"] by (auto simp: int_to_string_def)

lemma SendAll_sends:
  "so_live so \<Longrightarrow> \<exists>so'. RedisCache_SendAll so d = (so', True) \<and> so_live so' \<and> so_in so' = so_in so \<and> so_out so' = so_out so @ d"
  using send_loop_sends [of so d 0] by (simp add: RedisCache_SendAll_def)

lemma ReadLine_reads:
  "so_live so \<Longrightarrow> concat (so_in so) = str @ CRLF @ rest \<Longrightarrow> CR \<notin> set str \<Longrightarrow>
   \<exists>so'. RedisCache_ReadLine so = (so', Some str) \<and> reads so (str @ CRLF) so'"
  using line_loop_reads [of so str rest "CHR 0x00" "[]"] by (simp add: RedisCache_ReadLine_def)

lemma ReadExact_reads:
  "so_live so \<Longrightarrow> concat (so_in so) = d @ rest \<Longrightarrow> \<exists>so'. RedisCache_ReadExact so (length d) = (so', Some d) \<and> reads so d so'"
  using exact_loop_reads [of so d rest "length d" "[]"] by (simp add: RedisCache_ReadExact_def)

text \<open>The reply to a command is the bytes \<open>reply\<close>; the socket then stands right after it.\<close>

definition answered :: "Socket \<Rightarrow> string list \<Rightarrow> string \<Rightarrow> Socket \<Rightarrow> bool" where
  "answered so args reply so' \<longleftrightarrow>
     so_live so' \<and> so_out so' = so_out so @ RedisCache_BuildRespCommand args \<and> concat (so_in so) = reply @ concat (so_in so')"

lemma GetBulk_hit:
  assumes l: "so_live so" "concat (so_in so) = bulk v @ rest" "length v < 2 ^ 31"
  shows "\<exists>so'. RedisCache_SendCommandGetBulk so args = (so', Inr (Inr (Some v))) \<and> answered so args (bulk v) so'"
proof -
  from SendAll_sends [OF l(1)] obtain s1 where
    1: "RedisCache_SendAll so (RedisCache_BuildRespCommand args) = (s1, True)" "so_live s1" "so_in s1 = so_in so"
       "so_out s1 = so_out so @ RedisCache_BuildRespCommand args" by blast
  let ?h = "CHR ''$'' # nat_to_string (length v)"
  have "concat (so_in s1) = ?h @ CRLF @ v @ CRLF @ rest" using 1(3) l(2) by (simp add: bulk_def)
  from ReadLine_reads [OF 1(2) this] obtain s2 where 2: "RedisCache_ReadLine s1 = (s2, Some ?h)" "reads s1 (?h @ CRLF) s2" by auto
  then have c2: "so_live s2" "concat (so_in s2) = v @ CRLF @ rest" using 1(3) l(2) by (simp_all add: bulk_def reads_def)
  from ReadExact_reads [OF c2] obtain s3 where 3: "RedisCache_ReadExact s2 (length v) = (s3, Some v)" "reads s2 v s3" by blast
  then have c3: "so_live s3" "concat (so_in s3) = CRLF @ rest" using c2 by (simp_all add: reads_def)
  from ReadExact_reads [OF c3] obtain s4 where 4: "RedisCache_ReadExact s3 2 = (s4, Some CRLF)" "reads s3 CRLF s4"
    by (auto simp: numeral_2_eq_2)
  have i: "stoi (nat_to_string (length v)) = Inr (int (length v))" using l(3) by (simp add: stoi_def)
  from reads_trans [OF reads_trans [OF 2(2) 3(2)] 4(2)] 1 show ?thesis
    by (intro exI [of _ s4]) (simp add: RedisCache_SendCommandGetBulk_def 2(1) i 3(1) 4(1) answered_def reads_def bulk_def)
qed

lemma GetBulk_miss:
  assumes l: "so_live so" "concat (so_in so) = ''$-1'' @ CRLF @ rest"
  shows "\<exists>so'. RedisCache_SendCommandGetBulk so args = (so', Inr (Inr None)) \<and> answered so args (''$-1'' @ CRLF) so'"
proof -
  from SendAll_sends [OF l(1)] obtain s1 where
    1: "RedisCache_SendAll so (RedisCache_BuildRespCommand args) = (s1, True)" "so_live s1" "so_in s1 = so_in so"
       "so_out s1 = so_out so @ RedisCache_BuildRespCommand args" by blast
  from ReadLine_reads [of s1 "''$-1''"] 1 l obtain s2 where 2: "RedisCache_ReadLine s1 = (s2, Some ''$-1'')" "reads s1 (''$-1'' @ CRLF) s2" by auto
  have i: "stoi ''-1'' = Inr (- 1)" by code_simp
  from 1 2 show ?thesis
    by (intro exI [of _ s2]) (simp add: RedisCache_SendCommandGetBulk_def i answered_def reads_def)
qed

lemma ExpectOk_simple:
  assumes l: "so_live so" "concat (so_in so) = (CHR ''+'' # str) @ CRLF @ rest" "CR \<notin> set str"
  shows "\<exists>so'. RedisCache_SendCommandExpectOk so args = (so', Status_OK) \<and> answered so args ((CHR ''+'' # str) @ CRLF) so'"
proof -
  from SendAll_sends [OF l(1)] obtain s1 where
    1: "RedisCache_SendAll so (RedisCache_BuildRespCommand args) = (s1, True)" "so_live s1" "so_in s1 = so_in so"
       "so_out s1 = so_out so @ RedisCache_BuildRespCommand args" by blast
  from ReadLine_reads [of s1 "CHR ''+'' # str"] 1 l obtain s2 where
    2: "RedisCache_ReadLine s1 = (s2, Some (CHR ''+'' # str))" "reads s1 ((CHR ''+'' # str) @ CRLF) s2" by auto
  from 1 2 show ?thesis by (intro exI [of _ s2]) (simp add: RedisCache_SendCommandExpectOk_def answered_def reads_def)
qed

section \<open>Theorems\<close>

text \<open>C39: A value written to the cache and read back: when Redis answers a \<open>SET\<close> with OK and the \<open>GET\<close> with the value,
  in whatever segments those bytes arrive and however the sends are cut, the client reports success and then
  exactly the value, reads no byte beyond the replies, and what it sent decodes to exactly the two commands,
  whatever bytes are in the key and the value.\<close>
theorem redis_roundtrip:
  assumes "rd_enabled (rc_config c)" "rc_socket c = Some so" "so_live so"
    and "concat (so_in so) = ''+OK'' @ CRLF @ bulk v @ rest" "length v < 2 ^ 31" "length key < size_bound" "- (2 ^ 31) \<le> ttl" "ttl < 2 ^ 31"
  shows "\<exists>so' so''. RedisCache_SetEx c key ttl v = (c\<lparr>rc_socket := Some so'\<rparr>, Status_OK) \<and>
    RedisCache_Get (c\<lparr>rc_socket := Some so'\<rparr>) key = (c\<lparr>rc_socket := Some so''\<rparr>, Inr (Inr (Some v))) \<and>
    concat (so_in so'') = rest \<and>
    (\<exists>sent. so_out so'' = so_out so @ sent \<and>
       resp_command sent = Some ([''SET'', key, v, ''EX'', int_to_string ttl], RedisCache_BuildRespCommand [''GET'', key]) \<and>
       resp_command (RedisCache_BuildRespCommand [''GET'', key]) = Some ([''GET'', key], []))"
proof -
  let ?set = "[''SET'', key, v, ''EX'', int_to_string ttl]"
  from ExpectOk_simple [OF assms(3), of "''OK''"] assms(4) obtain s1 where
    1: "RedisCache_SendCommandExpectOk so ?set = (s1, Status_OK)" "answered so ?set (''+OK'' @ CRLF) s1" by auto
  from 1(2) assms(4) have l: "so_live s1" "concat (so_in s1) = bulk v @ rest" by (simp_all add: answered_def)
  from GetBulk_hit [OF l assms(5)] obtain s2 where
    2: "RedisCache_SendCommandGetBulk s1 [''GET'', key] = (s2, Inr (Inr (Some v)))" "answered s1 [''GET'', key] (bulk v) s2" by blast
  have "length v < size_bound" using assms(5) by simp
  moreover have "length (int_to_string ttl) < size_bound" using assms(7,8) by (rule int_to_string_short)
  ultimately have "\<forall>a \<in> set ?set. length a < size_bound" using assms(6) by simp
  from resp_roundtrip [OF _ this, of "RedisCache_BuildRespCommand [''GET'', key]"] resp_roundtrip [of "[''GET'', key]" "[]"] assms(6)
  have "resp_command (RedisCache_BuildRespCommand ?set @ RedisCache_BuildRespCommand [''GET'', key]) = Some (?set, RedisCache_BuildRespCommand [''GET'', key])"
    "resp_command (RedisCache_BuildRespCommand [''GET'', key]) = Some ([''GET'', key], [])" by simp_all
  with 1 2 l assms(1,2) show ?thesis
    by (intro exI [of _ s1] exI [of _ s2])
       (simp add: RedisCache_SetEx_def run_command_def RedisCache_Get_def RedisCache_EnsureConnected_def answered_def)
qed


text \<open>After a failed command on an open connection the connection is closed, so no late reply can be taken for
  the answer to another command; the \<open>PING\<close> of \<open>Connect\<close> is the exception.\<close>

lemma Get_error_closes:
  assumes "rc_socket c = Some so" "RedisCache_Get c key = (c', Inr (Inl status))"
  shows "rc_socket c' = None"
  using assms
  by (auto simp: RedisCache_Get_def RedisCache_EnsureConnected_def RedisCache_Close_def Let_def split: if_splits prod.splits sum.splits)

lemma run_command_error_closes:
  assumes "rc_socket c = Some so" "run_command c args = (c', status)" "\<not> Status_ok status"
  shows "rc_socket c' = None"
  using assms by (auto simp: run_command_def RedisCache_EnsureConnected_def RedisCache_Close_def Let_def split: if_splits prod.splits)

definition local_config :: RedisConfig where
  "local_config = \<lparr>rd_enabled = True, rd_host = ''127.0.0.1'', rd_port = 6379, rd_password = '''', rd_db = 0,
     rd_connect_timeout_ms = 500, rd_command_timeout_ms = 1000, rd_object_meta_ttl_seconds = 120\<rparr>"

lemma ping_failure_keeps_socket:
  "\<exists>c status. RedisCache_Connect (RedisCache_new local_config [Dialled \<lparr>so_in = [], so_room = [], so_out = ''''\<rparr>]) = (c, status) \<and>
     \<not> Status_ok status \<and> rc_socket c \<noteq> None"
proof -
  let ?c = "RedisCache_new local_config [Dialled \<lparr>so_in = [], so_room = [], so_out = ''''\<rparr>]"
  have "\<not> Status_ok (snd (RedisCache_Connect ?c)) \<and> rc_socket (fst (RedisCache_Connect ?c)) \<noteq> None" by code_simp
  then show ?thesis by (intro exI [of _ "fst (RedisCache_Connect ?c)"] exI [of _ "snd (RedisCache_Connect ?c)"]) simp
qed

definition split_socket :: Socket where
  "split_socket = \<lparr>so_in = [''+O'', ''K'' @ CRLF @ ''$2'', CRLF @ ''h'', ''i'' @ CRLF], so_room = [5, 1], so_out = ''''\<rparr>"

theorem redis_roundtrip_witness:
  "\<exists>c. RedisCache_SetEx ((RedisCache_new local_config [])\<lparr>rc_socket := Some split_socket\<rparr>) ''k'' 120 ''hi'' = (c, Status_OK) \<and>
     snd (RedisCache_Get c ''k'') = Inr (Inr (Some ''hi''))"
proof -
  let ?c = "(RedisCache_new local_config [])\<lparr>rc_socket := Some split_socket\<rparr>"
  have "rd_enabled (rc_config ?c)" "rc_socket ?c = Some split_socket" "so_live split_socket"
    by (simp_all add: RedisCache_new_def local_config_def so_live_def split_socket_def)
  moreover have "concat (so_in split_socket) = ''+OK'' @ CRLF @ bulk ''hi'' @ []" by code_simp
  ultimately show ?thesis using redis_roundtrip [of ?c split_socket "''hi''" "[]" "''k''" 120] by force
qed

end
