(* ===== verification/Config.thy ===== *)
theory Config
  imports Redis_Cache
begin

text \<open>
  \<^verbatim>\<open>src/src/util/config.{h,cpp}\<close>: the configuration, its default values and its reading from YAML. The YAML
  library is a parameter: loading a text, the member of a node (none when it is not defined), the elements of a
  sequence and the conversions, each of which may throw.
\<close>

section \<open>The sections of the configuration\<close>

datatype ConfigExn = Runtime_error string | Yaml_exception string

record 'n Yaml =
  ya_load :: "string \<Rightarrow> ConfigExn + 'n"
  ya_member :: "'n \<Rightarrow> string \<Rightarrow> ConfigExn + 'n option"
  ya_elements :: "'n \<Rightarrow> 'n list"
  ya_string :: "'n \<Rightarrow> ConfigExn + string"
  ya_uint16 :: "'n \<Rightarrow> ConfigExn + nat"
  ya_int :: "'n \<Rightarrow> ConfigExn + int"
  ya_size :: "'n \<Rightarrow> ConfigExn + size_t"
  ya_bool :: "'n \<Rightarrow> ConfigExn + bool"

record ServerConfig =
  cs_listen_ip :: string
  cs_listen_port :: nat
  cs_io_threads :: int
  cs_worker_threads :: int
  cs_recv_buffer_size :: int
  cs_send_buffer_size :: int

definition ServerConfig_default :: ServerConfig where
  "ServerConfig_default =
    \<lparr>cs_listen_ip = ''0.0.0.0'', cs_listen_port = 8080, cs_io_threads = 4, cs_worker_threads = 8,
     cs_recv_buffer_size = 0, cs_send_buffer_size = 0\<rparr>"

record StorageConfig =
  cg_data_dir :: string
  cg_tmp_dir :: string
  cg_sync_mode :: string

definition StorageConfig_default :: StorageConfig where
  "StorageConfig_default =
    \<lparr>cg_data_dir = ''/var/lib/minis3/data'', cg_tmp_dir = ''/var/lib/minis3/tmp'', cg_sync_mode =
     ''fsync''\<rparr>"

record MySQLConfig =
  cm_host :: string
  cm_port :: nat
  cm_user :: string
  cm_password :: string
  cm_database :: string
  cm_pool_size :: int
  cm_connect_timeout :: int
  cm_read_timeout :: int

definition MySQLConfig_default :: MySQLConfig where
  "MySQLConfig_default =
    \<lparr>cm_host = ''127.0.0.1'', cm_port = 3306, cm_user = ''minis3'', cm_password = ''minis3_password'',
     cm_database = ''minis3'', cm_pool_size = 16, cm_connect_timeout = 5, cm_read_timeout = 30\<rparr>"

definition RedisConfig_default :: RedisConfig where
  "RedisConfig_default =
    \<lparr>rd_enabled = False, rd_host = ''127.0.0.1'', rd_port = 6379, rd_password = '''', rd_db = 0,
     rd_connect_timeout_ms = 500, rd_command_timeout_ms = 1000, rd_object_meta_ttl_seconds = 120\<rparr>"

record AuthConfig =
  ca_enabled :: bool
  ca_static_tokens :: "string list"

definition AuthConfig_default :: AuthConfig where
  "AuthConfig_default =
    \<lparr>ca_enabled = True, ca_static_tokens = []\<rparr>"

record LimitsConfig =
  cl_max_body_bytes :: size_t
  cl_max_header_bytes :: size_t
  cl_max_concurrent_uploads :: int
  cl_max_concurrent_downloads :: int
  cl_connection_idle_timeout :: int
  cl_request_timeout :: int

definition LimitsConfig_default :: LimitsConfig where
  "LimitsConfig_default =
    \<lparr>cl_max_body_bytes = 5 * 1024 * 1024 * 1024, cl_max_header_bytes = 8192, cl_max_concurrent_uploads =
     100, cl_max_concurrent_downloads = 500, cl_connection_idle_timeout = 60, cl_request_timeout = 3600\<rparr>"

record MultipartConfig =
  cp_min_part_size :: size_t
  cp_max_part_number :: int
  cp_expire_hours :: int

definition MultipartConfig_default :: MultipartConfig where
  "MultipartConfig_default =
    \<lparr>cp_min_part_size = 5 * 1024 * 1024, cp_max_part_number = 10000, cp_expire_hours = 24\<rparr>"

record LogConfig =
  cf_level :: string
  cf_access_log_path :: string
  cf_error_log_path :: string
  cf_json_format :: bool

definition LogConfig_default :: LogConfig where
  "LogConfig_default =
    \<lparr>cf_level = ''info'', cf_access_log_path = ''/var/log/minis3/access.log'', cf_error_log_path =
     ''/var/log/minis3/error.log'', cf_json_format = True\<rparr>"

record MetricsConfig =
  cx_enabled :: bool
  cx_listen_port :: nat
  cx_path :: string

definition MetricsConfig_default :: MetricsConfig where
  "MetricsConfig_default =
    \<lparr>cx_enabled = True, cx_listen_port = 9090, cx_path = ''/metrics''\<rparr>"

record GCConfig =
  cc_enabled :: bool
  cc_interval_seconds :: int
  cc_batch_size :: int

definition GCConfig_default :: GCConfig where
  "GCConfig_default =
    \<lparr>cc_enabled = True, cc_interval_seconds = 300, cc_batch_size = 100\<rparr>"

record Config =
  cfg_server :: ServerConfig
  cfg_storage :: StorageConfig
  cfg_mysql :: MySQLConfig
  cfg_redis :: RedisConfig
  cfg_auth :: AuthConfig
  cfg_limits :: LimitsConfig
  cfg_multipart :: MultipartConfig
  cfg_log :: LogConfig
  cfg_metrics :: MetricsConfig
  cfg_gc :: GCConfig

section \<open>Reading\<close>

definition and_then :: "('e + 'a) \<Rightarrow> ('a \<Rightarrow> 'e + 'b) \<Rightarrow> 'e + 'b" where
  "and_then r k = (case r of Inl e \<Rightarrow> Inl e | Inr v \<Rightarrow> k v)"

definition GetOrDefault :: "'n Yaml \<Rightarrow> ('n \<Rightarrow> ConfigExn + 'a) \<Rightarrow> 'n \<Rightarrow> string \<Rightarrow> 'a \<Rightarrow> ConfigExn + 'a" where
  "GetOrDefault y conv node key default_value =
     and_then (ya_member y node key) (\<lambda>m. case m of None \<Rightarrow> Inr default_value | Some v \<Rightarrow> conv v)"

fun read_tokens :: "'n Yaml \<Rightarrow> 'n list \<Rightarrow> ConfigExn + string list" where
  "read_tokens y [] = Inr []"
| "read_tokens y (t # ts) = and_then (ya_string y t) (\<lambda>s. and_then (read_tokens y ts) (\<lambda>ss. Inr (s # ss)))"

definition ParseServerConfig :: "'n Yaml \<Rightarrow> 'n option \<Rightarrow> ConfigExn + ServerConfig" where
  "ParseServerConfig y m =
     (case m of
        None \<Rightarrow> Inr ServerConfig_default
      | Some node \<Rightarrow>
          and_then (GetOrDefault y (ya_string y) node ''listen_ip'' (cs_listen_ip ServerConfig_default)) (\<lambda>listen_ip.
          and_then (GetOrDefault y (ya_uint16 y) node ''listen_port'' (cs_listen_port ServerConfig_default)) (\<lambda>listen_port.
          and_then (GetOrDefault y (ya_int y) node ''io_threads'' (cs_io_threads ServerConfig_default)) (\<lambda>io_threads.
          and_then (GetOrDefault y (ya_int y) node ''worker_threads'' (cs_worker_threads ServerConfig_default)) (\<lambda>worker_threads.
          and_then (GetOrDefault y (ya_int y) node ''recv_buffer_size'' (cs_recv_buffer_size ServerConfig_default)) (\<lambda>recv_buffer_size.
          and_then (GetOrDefault y (ya_int y) node ''send_buffer_size'' (cs_send_buffer_size ServerConfig_default)) (\<lambda>send_buffer_size.
          Inr \<lparr>cs_listen_ip = listen_ip, cs_listen_port = listen_port, cs_io_threads = io_threads,
            cs_worker_threads = worker_threads, cs_recv_buffer_size = recv_buffer_size, cs_send_buffer_size =
            send_buffer_size\<rparr>)))))))"

definition ParseStorageConfig :: "'n Yaml \<Rightarrow> 'n option \<Rightarrow> ConfigExn + StorageConfig" where
  "ParseStorageConfig y m =
     (case m of
        None \<Rightarrow> Inr StorageConfig_default
      | Some node \<Rightarrow>
          and_then (GetOrDefault y (ya_string y) node ''data_dir'' (cg_data_dir StorageConfig_default)) (\<lambda>data_dir.
          and_then (GetOrDefault y (ya_string y) node ''tmp_dir'' (cg_tmp_dir StorageConfig_default)) (\<lambda>tmp_dir.
          and_then (GetOrDefault y (ya_string y) node ''sync_mode'' (cg_sync_mode StorageConfig_default)) (\<lambda>sync_mode.
          Inr \<lparr>cg_data_dir = data_dir, cg_tmp_dir = tmp_dir, cg_sync_mode = sync_mode\<rparr>))))"

definition ParseMySQLConfig :: "'n Yaml \<Rightarrow> 'n option \<Rightarrow> ConfigExn + MySQLConfig" where
  "ParseMySQLConfig y m =
     (case m of
        None \<Rightarrow> Inr MySQLConfig_default
      | Some node \<Rightarrow>
          and_then (GetOrDefault y (ya_string y) node ''host'' (cm_host MySQLConfig_default)) (\<lambda>host.
          and_then (GetOrDefault y (ya_uint16 y) node ''port'' (cm_port MySQLConfig_default)) (\<lambda>port.
          and_then (GetOrDefault y (ya_string y) node ''user'' (cm_user MySQLConfig_default)) (\<lambda>user.
          and_then (GetOrDefault y (ya_string y) node ''password'' (cm_password MySQLConfig_default)) (\<lambda>password.
          and_then (GetOrDefault y (ya_string y) node ''database'' (cm_database MySQLConfig_default)) (\<lambda>database.
          and_then (GetOrDefault y (ya_int y) node ''pool_size'' (cm_pool_size MySQLConfig_default)) (\<lambda>pool_size.
          and_then (GetOrDefault y (ya_int y) node ''connect_timeout'' (cm_connect_timeout MySQLConfig_default)) (\<lambda>connect_timeout.
          and_then (GetOrDefault y (ya_int y) node ''read_timeout'' (cm_read_timeout MySQLConfig_default)) (\<lambda>read_timeout.
          Inr \<lparr>cm_host = host, cm_port = port, cm_user = user, cm_password = password, cm_database = database,
            cm_pool_size = pool_size, cm_connect_timeout = connect_timeout, cm_read_timeout = read_timeout\<rparr>)))))))))"

definition ParseRedisConfig :: "'n Yaml \<Rightarrow> 'n option \<Rightarrow> ConfigExn + RedisConfig" where
  "ParseRedisConfig y m =
     (case m of
        None \<Rightarrow> Inr RedisConfig_default
      | Some node \<Rightarrow>
          and_then (GetOrDefault y (ya_bool y) node ''enabled'' (rd_enabled RedisConfig_default)) (\<lambda>enabled.
          and_then (GetOrDefault y (ya_string y) node ''host'' (rd_host RedisConfig_default)) (\<lambda>host.
          and_then (GetOrDefault y (ya_uint16 y) node ''port'' (rd_port RedisConfig_default)) (\<lambda>port.
          and_then (GetOrDefault y (ya_string y) node ''password'' (rd_password RedisConfig_default)) (\<lambda>password.
          and_then (GetOrDefault y (ya_int y) node ''db'' (rd_db RedisConfig_default)) (\<lambda>db.
          and_then (GetOrDefault y (ya_int y) node ''connect_timeout_ms'' (rd_connect_timeout_ms RedisConfig_default)) (\<lambda>connect_timeout_ms.
          and_then (GetOrDefault y (ya_int y) node ''command_timeout_ms'' (rd_command_timeout_ms RedisConfig_default)) (\<lambda>command_timeout_ms.
          and_then (GetOrDefault y (ya_int y) node ''object_meta_ttl_seconds'' (rd_object_meta_ttl_seconds RedisConfig_default)) (\<lambda>object_meta_ttl_seconds.
          Inr \<lparr>rd_enabled = enabled, rd_host = host, rd_port = port, rd_password = password, rd_db = db,
            rd_connect_timeout_ms = connect_timeout_ms, rd_command_timeout_ms = command_timeout_ms,
            rd_object_meta_ttl_seconds = object_meta_ttl_seconds\<rparr>)))))))))"

definition ParseAuthConfig :: "'n Yaml \<Rightarrow> 'n option \<Rightarrow> ConfigExn + AuthConfig" where
  "ParseAuthConfig y m =
     (case m of
        None \<Rightarrow> Inr AuthConfig_default
      | Some node \<Rightarrow>
          and_then (GetOrDefault y (ya_bool y) node ''enabled'' (ca_enabled AuthConfig_default)) (\<lambda>enabled.
          and_then (and_then (ya_member y node ''static_tokens'')
              (\<lambda>ts. case ts of None \<Rightarrow> Inr [] | Some ts \<Rightarrow> read_tokens y (ya_elements y ts))) (\<lambda>static_tokens.
          Inr \<lparr>ca_enabled = enabled, ca_static_tokens = static_tokens\<rparr>)))"

definition ParseLimitsConfig :: "'n Yaml \<Rightarrow> 'n option \<Rightarrow> ConfigExn + LimitsConfig" where
  "ParseLimitsConfig y m =
     (case m of
        None \<Rightarrow> Inr LimitsConfig_default
      | Some node \<Rightarrow>
          and_then (GetOrDefault y (ya_size y) node ''max_body_bytes'' (cl_max_body_bytes LimitsConfig_default)) (\<lambda>max_body_bytes.
          and_then (GetOrDefault y (ya_size y) node ''max_header_bytes'' (cl_max_header_bytes LimitsConfig_default)) (\<lambda>max_header_bytes.
          and_then (GetOrDefault y (ya_int y) node ''max_concurrent_uploads'' (cl_max_concurrent_uploads LimitsConfig_default)) (\<lambda>max_concurrent_uploads.
          and_then (GetOrDefault y (ya_int y) node ''max_concurrent_downloads'' (cl_max_concurrent_downloads LimitsConfig_default)) (\<lambda>max_concurrent_downloads.
          and_then (GetOrDefault y (ya_int y) node ''connection_idle_timeout'' (cl_connection_idle_timeout LimitsConfig_default)) (\<lambda>connection_idle_timeout.
          and_then (GetOrDefault y (ya_int y) node ''request_timeout'' (cl_request_timeout LimitsConfig_default)) (\<lambda>request_timeout.
          Inr \<lparr>cl_max_body_bytes = max_body_bytes, cl_max_header_bytes = max_header_bytes,
            cl_max_concurrent_uploads = max_concurrent_uploads, cl_max_concurrent_downloads =
            max_concurrent_downloads, cl_connection_idle_timeout = connection_idle_timeout, cl_request_timeout =
            request_timeout\<rparr>)))))))"

definition ParseMultipartConfig :: "'n Yaml \<Rightarrow> 'n option \<Rightarrow> ConfigExn + MultipartConfig" where
  "ParseMultipartConfig y m =
     (case m of
        None \<Rightarrow> Inr MultipartConfig_default
      | Some node \<Rightarrow>
          and_then (GetOrDefault y (ya_size y) node ''min_part_size'' (cp_min_part_size MultipartConfig_default)) (\<lambda>min_part_size.
          and_then (GetOrDefault y (ya_int y) node ''max_part_number'' (cp_max_part_number MultipartConfig_default)) (\<lambda>max_part_number.
          and_then (GetOrDefault y (ya_int y) node ''expire_hours'' (cp_expire_hours MultipartConfig_default)) (\<lambda>expire_hours.
          Inr \<lparr>cp_min_part_size = min_part_size, cp_max_part_number = max_part_number, cp_expire_hours =
            expire_hours\<rparr>))))"

definition ParseLogConfig :: "'n Yaml \<Rightarrow> 'n option \<Rightarrow> ConfigExn + LogConfig" where
  "ParseLogConfig y m =
     (case m of
        None \<Rightarrow> Inr LogConfig_default
      | Some node \<Rightarrow>
          and_then (GetOrDefault y (ya_string y) node ''level'' (cf_level LogConfig_default)) (\<lambda>level.
          and_then (GetOrDefault y (ya_string y) node ''access_log_path'' (cf_access_log_path LogConfig_default)) (\<lambda>access_log_path.
          and_then (GetOrDefault y (ya_string y) node ''error_log_path'' (cf_error_log_path LogConfig_default)) (\<lambda>error_log_path.
          and_then (GetOrDefault y (ya_bool y) node ''json_format'' (cf_json_format LogConfig_default)) (\<lambda>json_format.
          Inr \<lparr>cf_level = level, cf_access_log_path = access_log_path, cf_error_log_path = error_log_path,
            cf_json_format = json_format\<rparr>)))))"

definition ParseMetricsConfig :: "'n Yaml \<Rightarrow> 'n option \<Rightarrow> ConfigExn + MetricsConfig" where
  "ParseMetricsConfig y m =
     (case m of
        None \<Rightarrow> Inr MetricsConfig_default
      | Some node \<Rightarrow>
          and_then (GetOrDefault y (ya_bool y) node ''enabled'' (cx_enabled MetricsConfig_default)) (\<lambda>enabled.
          and_then (GetOrDefault y (ya_uint16 y) node ''listen_port'' (cx_listen_port MetricsConfig_default)) (\<lambda>listen_port.
          and_then (GetOrDefault y (ya_string y) node ''path'' (cx_path MetricsConfig_default)) (\<lambda>path.
          Inr \<lparr>cx_enabled = enabled, cx_listen_port = listen_port, cx_path = path\<rparr>))))"

definition ParseGCConfig :: "'n Yaml \<Rightarrow> 'n option \<Rightarrow> ConfigExn + GCConfig" where
  "ParseGCConfig y m =
     (case m of
        None \<Rightarrow> Inr GCConfig_default
      | Some node \<Rightarrow>
          and_then (GetOrDefault y (ya_bool y) node ''enabled'' (cc_enabled GCConfig_default)) (\<lambda>enabled.
          and_then (GetOrDefault y (ya_int y) node ''interval_seconds'' (cc_interval_seconds GCConfig_default)) (\<lambda>interval_seconds.
          and_then (GetOrDefault y (ya_int y) node ''batch_size'' (cc_batch_size GCConfig_default)) (\<lambda>batch_size.
          Inr \<lparr>cc_enabled = enabled, cc_interval_seconds = interval_seconds, cc_batch_size = batch_size\<rparr>))))"

definition section_of :: "'n Yaml \<Rightarrow> 'n \<Rightarrow> string \<Rightarrow> ('n Yaml \<Rightarrow> 'n option \<Rightarrow> ConfigExn + 'a) \<Rightarrow> ConfigExn + 'a" where
  "section_of y root name parse = and_then (ya_member y root name) (parse y)"

definition Config_LoadFromString :: "'n Yaml \<Rightarrow> string \<Rightarrow> ConfigExn + Config" where
  "Config_LoadFromString y yaml_content =
     and_then (ya_load y yaml_content) (\<lambda>root.
     and_then (section_of y root ''server'' ParseServerConfig) (\<lambda>server.
     and_then (section_of y root ''storage'' ParseStorageConfig) (\<lambda>storage.
     and_then (section_of y root ''mysql'' ParseMySQLConfig) (\<lambda>mysql.
     and_then (section_of y root ''redis'' ParseRedisConfig) (\<lambda>redis.
     and_then (section_of y root ''auth'' ParseAuthConfig) (\<lambda>auth.
     and_then (section_of y root ''limits'' ParseLimitsConfig) (\<lambda>limits.
     and_then (section_of y root ''multipart'' ParseMultipartConfig) (\<lambda>multipart.
     and_then (section_of y root ''log'' ParseLogConfig) (\<lambda>log.
     and_then (section_of y root ''metrics'' ParseMetricsConfig) (\<lambda>metrics.
     and_then (section_of y root ''gc'' ParseGCConfig) (\<lambda>gc.
     Inr \<lparr>cfg_server = server, cfg_storage = storage, cfg_mysql = mysql, cfg_redis = redis, cfg_auth = auth,
       cfg_limits = limits, cfg_multipart = multipart, cfg_log = log, cfg_metrics = metrics, cfg_gc = gc\<rparr>)))))))))))"

text \<open>The content of the file, or none when it cannot be opened.\<close>

definition Config_LoadFromFile :: "'n Yaml \<Rightarrow> (string \<Rightarrow> string option) \<Rightarrow> string \<Rightarrow> ConfigExn + Config" where
  "Config_LoadFromFile y read_file path =
     (case read_file path of
        None \<Rightarrow> Inl (Runtime_error (''Failed to open config file: '' @ path))
      | Some content \<Rightarrow> Config_LoadFromString y content)"

definition Config_default :: Config where
  "Config_default =
    \<lparr>cfg_server = ServerConfig_default, cfg_storage = StorageConfig_default, cfg_mysql =
      MySQLConfig_default, cfg_redis = RedisConfig_default, cfg_auth = AuthConfig_default, cfg_limits =
      LimitsConfig_default, cfg_multipart = MultipartConfig_default, cfg_log = LogConfig_default,
      cfg_metrics = MetricsConfig_default, cfg_gc = GCConfig_default\<rparr>"

section \<open>Lemmas\<close>

lemma and_then_simps [simp]: "and_then (Inr v) k = k v" "and_then (Inl e) k = Inl e"
  by (simp_all add: and_then_def)

text \<open>A document without any of the sections gives the default configuration, and so does one whose sections have
  none of the members.\<close>

lemma load_default:
  assumes "ya_load y text_of = Inr root" "\<And>key. ya_member y root key = Inr None"
  shows "Config_LoadFromString y text_of = Inr Config_default"
  using assms by (simp add: Config_LoadFromString_def section_of_def Config_default_def
      ParseServerConfig_def ParseStorageConfig_def ParseMySQLConfig_def ParseRedisConfig_def ParseAuthConfig_def ParseLimitsConfig_def ParseMultipartConfig_def ParseLogConfig_def ParseMetricsConfig_def ParseGCConfig_def)

lemma load_empty_sections:
  assumes "ya_load y text_of = Inr root" "\<And>key. ya_member y root key = Inr (Some node)" "\<And>key. ya_member y node key = Inr None"
  shows "Config_LoadFromString y text_of = Inr Config_default"
  using assms by (simp add: Config_LoadFromString_def section_of_def Config_default_def GetOrDefault_def
      ParseServerConfig_def ParseStorageConfig_def ParseMySQLConfig_def ParseRedisConfig_def ParseAuthConfig_def ParseLimitsConfig_def ParseMultipartConfig_def ParseLogConfig_def ParseMetricsConfig_def ParseGCConfig_def
      ServerConfig_default_def StorageConfig_default_def MySQLConfig_default_def RedisConfig_default_def AuthConfig_default_def LimitsConfig_default_def MultipartConfig_default_def LogConfig_default_def MetricsConfig_default_def GCConfig_default_def)

end
