(* ===== verification/Mysql_Pool.thy ===== *)
theory Mysql_Pool
  imports Prelude "HOL-Library.Multiset"
begin

text \<open>
  \<^verbatim>\<open>src/src/db/mysql_pool.{h,cpp}\<close>: a connection wraps a handle of the MySQL client library, the pool is a queue of
  connections. The library is a parameter over a state of its own; a handle is a number. The options set on a
  handle before it connects are part of \<open>ml_real_connect\<close>. The mutex makes every operation of the pool one step;
  a call that waits on the condition variable and is woken is the call at the moment it is woken, so a call that
  finds no connection is blocked (without a time-out) or returns null (with one).
\<close>

section \<open>Connections\<close>

record ('d, 'res) MysqlLib =
  ml_init :: "'d \<Rightarrow> 'd \<times> nat option"
  ml_real_connect :: "'d \<Rightarrow> nat \<Rightarrow> 'd \<times> bool"
  ml_close :: "'d \<Rightarrow> nat \<Rightarrow> 'd"
  ml_ping :: "'d \<Rightarrow> nat \<Rightarrow> 'd \<times> bool"
  ml_real_query :: "'d \<Rightarrow> nat \<Rightarrow> string \<Rightarrow> 'd \<times> bool"
  ml_store_result :: "'d \<Rightarrow> nat \<Rightarrow> 'd \<times> 'res option"
  ml_insert_id :: "'d \<Rightarrow> nat \<Rightarrow> nat"
  ml_affected_rows :: "'d \<Rightarrow> nat \<Rightarrow> nat"
  ml_error :: "'d \<Rightarrow> nat \<Rightarrow> string"
  ml_escape :: "'d \<Rightarrow> nat \<Rightarrow> string \<Rightarrow> string"

record MySQLConnection =
  mc_mysql :: "nat option"

definition MySQLConnection_new :: MySQLConnection where
  "MySQLConnection_new = \<lparr>mc_mysql = None\<rparr>"

definition MySQLConnection_Connect :: "('d, 'res) MysqlLib \<Rightarrow> MySQLConnection \<Rightarrow> 'd \<Rightarrow> 'd \<times> MySQLConnection \<times> bool" where
  "MySQLConnection_Connect lib c d =
     (case ml_init lib d of
        (d, None) \<Rightarrow> (d, c\<lparr>mc_mysql := None\<rparr>, False)
      | (d, Some h) \<Rightarrow>
          (case ml_real_connect lib d h of
             (d, False) \<Rightarrow> (ml_close lib d h, c\<lparr>mc_mysql := None\<rparr>, False)
           | (d, True) \<Rightarrow>
               (fst (ml_real_query lib d h ''SET SESSION TRANSACTION ISOLATION LEVEL READ COMMITTED''), c\<lparr>mc_mysql := Some h\<rparr>, True)))"

definition MySQLConnection_Disconnect :: "('d, 'res) MysqlLib \<Rightarrow> MySQLConnection \<Rightarrow> 'd \<Rightarrow> 'd \<times> MySQLConnection" where
  "MySQLConnection_Disconnect lib c d =
     (case mc_mysql c of None \<Rightarrow> (d, c) | Some h \<Rightarrow> (ml_close lib d h, c\<lparr>mc_mysql := None\<rparr>))"

text \<open>\<open>delete\<close> runs the destructor.\<close>

definition MySQLConnection_destroy :: "('d, 'res) MysqlLib \<Rightarrow> MySQLConnection \<Rightarrow> 'd \<Rightarrow> 'd" where
  "MySQLConnection_destroy lib c d = fst (MySQLConnection_Disconnect lib c d)"

definition MySQLConnection_IsValid :: "MySQLConnection \<Rightarrow> bool" where
  "MySQLConnection_IsValid c \<longleftrightarrow> mc_mysql c \<noteq> None"

definition MySQLConnection_Ping :: "('d, 'res) MysqlLib \<Rightarrow> MySQLConnection \<Rightarrow> 'd \<Rightarrow> 'd \<times> bool" where
  "MySQLConnection_Ping lib c d = (case mc_mysql c of None \<Rightarrow> (d, False) | Some h \<Rightarrow> ml_ping lib d h)"

definition MySQLConnection_Execute :: "('d, 'res) MysqlLib \<Rightarrow> MySQLConnection \<Rightarrow> 'd \<Rightarrow> string \<Rightarrow> 'd \<times> bool" where
  "MySQLConnection_Execute lib c d sql = (case mc_mysql c of None \<Rightarrow> (d, False) | Some h \<Rightarrow> ml_real_query lib d h sql)"

definition MySQLConnection_Query :: "('d, 'res) MysqlLib \<Rightarrow> MySQLConnection \<Rightarrow> 'd \<Rightarrow> string \<Rightarrow> 'd \<times> 'res option" where
  "MySQLConnection_Query lib c d sql =
     (case MySQLConnection_Execute lib c d sql of
        (d, False) \<Rightarrow> (d, None)
      | (d, True) \<Rightarrow> ml_store_result lib d (the (mc_mysql c)))"

definition MySQLConnection_LastInsertId :: "('d, 'res) MysqlLib \<Rightarrow> MySQLConnection \<Rightarrow> 'd \<Rightarrow> nat" where
  "MySQLConnection_LastInsertId lib c d = (case mc_mysql c of None \<Rightarrow> 0 | Some h \<Rightarrow> ml_insert_id lib d h)"

definition MySQLConnection_AffectedRows :: "('d, 'res) MysqlLib \<Rightarrow> MySQLConnection \<Rightarrow> 'd \<Rightarrow> nat" where
  "MySQLConnection_AffectedRows lib c d = (case mc_mysql c of None \<Rightarrow> 0 | Some h \<Rightarrow> ml_affected_rows lib d h)"

definition MySQLConnection_LastError :: "('d, 'res) MysqlLib \<Rightarrow> MySQLConnection \<Rightarrow> 'd \<Rightarrow> string" where
  "MySQLConnection_LastError lib c d = (case mc_mysql c of None \<Rightarrow> ''Connection not established'' | Some h \<Rightarrow> ml_error lib d h)"

definition MySQLConnection_Escape :: "('d, 'res) MysqlLib \<Rightarrow> MySQLConnection \<Rightarrow> 'd \<Rightarrow> string \<Rightarrow> string" where
  "MySQLConnection_Escape lib c d str = (case mc_mysql c of None \<Rightarrow> str | Some h \<Rightarrow> ml_escape lib d h str)"

section \<open>The pool\<close>

record MySQLPool =
  mp_pool_size :: int
  mp_connections :: "MySQLConnection list"
  mp_closed :: bool
  mp_active_count :: int

definition MySQLPool_new :: "int \<Rightarrow> MySQLPool" where
  "MySQLPool_new pool_size = \<lparr>mp_pool_size = pool_size, mp_connections = [], mp_closed = False, mp_active_count = 0\<rparr>"

fun init_loop :: "('d, 'res) MysqlLib \<Rightarrow> nat \<Rightarrow> MySQLPool \<Rightarrow> 'd \<Rightarrow> 'd \<times> MySQLPool \<times> bool" where
  "init_loop lib 0 p d = (d, p, True)"
| "init_loop lib (Suc k) p d =
     (case MySQLConnection_Connect lib MySQLConnection_new d of
        (d, conn, False) \<Rightarrow> (d, p, False)
      | (d, conn, True) \<Rightarrow> init_loop lib k (p\<lparr>mp_connections := mp_connections p @ [conn]\<rparr>) d)"

definition MySQLPool_Init :: "('d, 'res) MysqlLib \<Rightarrow> MySQLPool \<Rightarrow> 'd \<Rightarrow> 'd \<times> MySQLPool \<times> bool" where
  "MySQLPool_Init lib p d = init_loop lib (nat (mp_pool_size p)) p d"

fun pop_all :: "('d, 'res) MysqlLib \<Rightarrow> MySQLConnection list \<Rightarrow> 'd \<Rightarrow> 'd" where
  "pop_all lib [] d = d"
| "pop_all lib (c # cs) d = pop_all lib cs (MySQLConnection_destroy lib c d)"

definition MySQLPool_Close :: "('d, 'res) MysqlLib \<Rightarrow> MySQLPool \<Rightarrow> 'd \<Rightarrow> 'd \<times> MySQLPool" where
  "MySQLPool_Close lib p d = (pop_all lib (mp_connections p) d, p\<lparr>mp_closed := True, mp_connections := []\<rparr>)"

definition MySQLPool_destroy :: "('d, 'res) MysqlLib \<Rightarrow> MySQLPool \<Rightarrow> 'd \<Rightarrow> 'd" where
  "MySQLPool_destroy lib p d = fst (MySQLPool_Close lib p d)"

text \<open>A created connection goes back to the pool when its last owner drops it, by the deleter \<open>ReturnConnection\<close>.\<close>

definition MySQLPool_CreateConnection :: "('d, 'res) MysqlLib \<Rightarrow> 'd \<Rightarrow> 'd \<times> MySQLConnection option" where
  "MySQLPool_CreateConnection lib d =
     (case MySQLConnection_Connect lib MySQLConnection_new d of
        (d, conn, False) \<Rightarrow> (d, None)
      | (d, conn, True) \<Rightarrow> (d, Some conn))"

definition MySQLPool_ReturnConnection :: "('d, 'res) MysqlLib \<Rightarrow> MySQLPool \<Rightarrow> 'd \<Rightarrow> MySQLConnection \<Rightarrow> 'd \<times> MySQLPool" where
  "MySQLPool_ReturnConnection lib p d conn =
     (if mp_closed p then (MySQLConnection_destroy lib conn d, p)
      else case MySQLConnection_Ping lib conn d of
             (d, ok) \<Rightarrow>
               let (d, p) =
                 (if ok then (d, p\<lparr>mp_connections := mp_connections p @ [conn]\<rparr>)
                  else case MySQLConnection_Connect lib MySQLConnection_new (MySQLConnection_destroy lib conn d) of
                         (d, new_conn, True) \<Rightarrow> (d, p\<lparr>mp_connections := mp_connections p @ [new_conn]\<rparr>)
                       | (d, new_conn, False) \<Rightarrow> (d, p))
               in (d, p\<lparr>mp_active_count := mp_active_count p - 1\<rparr>))"

datatype 'a Wait = Blocked | Returned 'a

definition MySQLPool_GetConnection ::
    "('d, 'res) MysqlLib \<Rightarrow> int \<Rightarrow> MySQLPool \<Rightarrow> 'd \<Rightarrow> 'd \<times> MySQLPool \<times> MySQLConnection option Wait" where
  "MySQLPool_GetConnection lib timeout_ms p d =
     (if mp_closed p then (d, p, Returned None)
      else case mp_connections p of
             [] \<Rightarrow> (d, p, if timeout_ms < 0 then Blocked else Returned None)
           | conn # rest \<Rightarrow>
               let p = p\<lparr>mp_connections := rest\<rparr>
               in case MySQLConnection_Ping lib conn d of
                    (d, True) \<Rightarrow> (d, p\<lparr>mp_active_count := mp_active_count p + 1\<rparr>, Returned (Some conn))
                  | (d, False) \<Rightarrow>
                      (case MySQLConnection_Connect lib conn d of
                         (d, conn, False) \<Rightarrow> (MySQLConnection_destroy lib conn d, p, Returned None)
                       | (d, conn, True) \<Rightarrow> (d, p\<lparr>mp_active_count := mp_active_count p + 1\<rparr>, Returned (Some conn))))"

definition MySQLPool_AvailableCount :: "MySQLPool \<Rightarrow> nat" where
  "MySQLPool_AvailableCount p = length (mp_connections p)"

definition MySQLPool_TotalCount :: "MySQLPool \<Rightarrow> int" where
  "MySQLPool_TotalCount p = mp_pool_size p"

definition PooledConnection :: "('d, 'res) MysqlLib \<Rightarrow> MySQLPool \<Rightarrow> 'd \<Rightarrow> 'd \<times> MySQLPool \<times> MySQLConnection option Wait" where
  "PooledConnection lib p d = MySQLPool_GetConnection lib (- 1) p d"

definition PooledConnection_IsValid :: "MySQLConnection option \<Rightarrow> bool" where
  "PooledConnection_IsValid c = (case c of None \<Rightarrow> False | Some c \<Rightarrow> MySQLConnection_IsValid c)"

section \<open>Runs of the pool\<close>

text \<open>What is used of the library: \<open>mysql_init\<close> gives a handle that is not open, \<open>mysql_close\<close> closes it, the other
  calls open and close none.\<close>

definition mysql_lib :: "('d, 'res) MysqlLib \<Rightarrow> ('d \<Rightarrow> nat set) \<Rightarrow> bool" where
  "mysql_lib lib opened \<longleftrightarrow>
     (\<forall>d d' h. ml_init lib d = (d', Some h) \<longrightarrow> h \<notin> opened d \<and> opened d' = insert h (opened d)) \<and>
     (\<forall>d d'. ml_init lib d = (d', None) \<longrightarrow> opened d' = opened d) \<and>
     (\<forall>d h. opened (fst (ml_real_connect lib d h)) = opened d) \<and>
     (\<forall>d h. opened (ml_close lib d h) = opened d - {h}) \<and>
     (\<forall>d h. opened (fst (ml_ping lib d h)) = opened d) \<and>
     (\<forall>d h sql. opened (fst (ml_real_query lib d h sql)) = opened d)"

text \<open>The pool, the library and the connections in use.\<close>

type_synonym 'd PoolState = "'d \<times> MySQLPool \<times> MySQLConnection list"

inductive pool_step :: "('d, 'res) MysqlLib \<Rightarrow> 'd PoolState \<Rightarrow> 'd PoolState \<Rightarrow> bool" for lib where
  Get: "MySQLPool_GetConnection lib timeout_ms p d = (d', p', Returned (Some c)) \<Longrightarrow> pool_step lib (d, p, used) (d', p', c # used)"
| Get_null: "MySQLPool_GetConnection lib timeout_ms p d = (d', p', Returned None) \<Longrightarrow> pool_step lib (d, p, used) (d', p', used)"
| Use: "c \<in> set used \<Longrightarrow> MySQLConnection_Execute lib c d sql = (d', ok) \<Longrightarrow> pool_step lib (d, p, used) (d', p, used)"
| Return: "c \<in> set used \<Longrightarrow> MySQLPool_ReturnConnection lib p d c = (d', p') \<Longrightarrow> pool_step lib (d, p, used) (d', p', remove1 c used)"
| Close: "MySQLPool_Close lib p d = (d', p') \<Longrightarrow> pool_step lib (d, p, used) (d', p', used)"

inductive_cases pool_stepE: "pool_step lib s t"

definition handles :: "MySQLConnection list \<Rightarrow> nat option list" where
  "handles cs = map mc_mysql cs"

text \<open>Every connection of the pool or in use has an open handle of its own.\<close>

definition pool_inv :: "('d \<Rightarrow> nat set) \<Rightarrow> int \<Rightarrow> 'd PoolState \<Rightarrow> bool" where
  "pool_inv opened n s \<longleftrightarrow>
     (case s of (d, p, used) \<Rightarrow>
        distinct (handles (mp_connections p @ used)) \<and> set (handles (mp_connections p @ used)) \<subseteq> Some ` opened d \<and>
        int (length (mp_connections p) + length used) \<le> max 0 n \<and>
        (mp_closed p \<longrightarrow> mp_connections p = []) \<and> (\<not> mp_closed p \<longrightarrow> mp_active_count p = int (length used)))"

lemma Connect_opens:
  assumes "mysql_lib lib opened" "MySQLConnection_Connect lib c d = (d', c', True)"
  obtains h where "mc_mysql c' = Some h" "h \<notin> opened d" "opened d' = insert h (opened d)"
proof -
  obtain d1 h where 1: "ml_init lib d = (d1, Some h)" using assms(2)
    by (auto simp: MySQLConnection_Connect_def split: prod.splits option.splits)
  moreover obtain d2 where 2: "ml_real_connect lib d1 h = (d2, True)" using assms(2) 1
    by (auto simp: MySQLConnection_Connect_def split: prod.splits bool.splits)
  ultimately have c: "mc_mysql c' = Some h" "d' = fst (ml_real_query lib d2 h ''SET SESSION TRANSACTION ISOLATION LEVEL READ COMMITTED'')"
    using assms(2) by (auto simp: MySQLConnection_Connect_def)
  have "h \<notin> opened d" "opened d1 = insert h (opened d)" using assms(1) 1 by (auto simp: mysql_lib_def)
  moreover have "opened d2 = opened d1" using assms(1) 2 unfolding mysql_lib_def by (metis fst_conv)
  moreover have "opened d' = opened d2" using assms(1) c(2) by (simp add: mysql_lib_def)
  ultimately show ?thesis using that c(1) by simp
qed

lemma Connect_fails:
  assumes "mysql_lib lib opened" "MySQLConnection_Connect lib c d = (d', c', False)"
  shows "mc_mysql c' = None \<and> opened d' = opened d"
proof -
  obtain d1 r where 1: "ml_init lib d = (d1, r)" by (cases "ml_init lib d")
  show ?thesis
  proof (cases r)
    case None
    with assms 1 show ?thesis by (auto simp: MySQLConnection_Connect_def mysql_lib_def)
  next
    case (Some h)
    with assms(2) 1 obtain d2 where 2: "ml_real_connect lib d1 h = (d2, False)" "d' = ml_close lib d2 h" "mc_mysql c' = None"
      by (auto simp: MySQLConnection_Connect_def split: prod.splits bool.splits)
    have "h \<notin> opened d" "opened d1 = insert h (opened d)" using assms(1) 1 Some by (auto simp: mysql_lib_def)
    moreover have "opened d2 = opened d1" using assms(1) 2(1) unfolding mysql_lib_def by (metis fst_conv)
    moreover have "opened d' = opened d2 - {h}" using assms(1) 2(2) by (simp add: mysql_lib_def)
    ultimately show ?thesis using 2(3) by auto
  qed
qed

lemma Ping_opened: "mysql_lib lib opened \<Longrightarrow> MySQLConnection_Ping lib c d = (d', ok) \<Longrightarrow> opened d' = opened d"
  unfolding mysql_lib_def MySQLConnection_Ping_def by (auto split: option.splits) (metis fst_conv)+

lemma destroy_opened: "mysql_lib lib opened \<Longrightarrow> opened (MySQLConnection_destroy lib c d) = opened d - set_option (mc_mysql c)"
  by (auto simp: mysql_lib_def MySQLConnection_destroy_def MySQLConnection_Disconnect_def split: option.splits)

lemma Execute_opened: "mysql_lib lib opened \<Longrightarrow> MySQLConnection_Execute lib c d sql = (d', ok) \<Longrightarrow> opened d' = opened d"
  unfolding mysql_lib_def MySQLConnection_Execute_def by (auto split: option.splits) (metis fst_conv)+

lemma pop_all_opened: "mysql_lib lib opened \<Longrightarrow> opened (pop_all lib cs d) = opened d - {h. Some h \<in> set (handles cs)}"
  by (induction cs arbitrary: d) (auto simp: handles_def destroy_opened)

text \<open>The part of the invariant that is about handles, for any list of connections.\<close>

definition owns :: "nat set \<Rightarrow> MySQLConnection list \<Rightarrow> bool" where
  "owns op cs \<longleftrightarrow> distinct (handles cs) \<and> set (handles cs) \<subseteq> Some ` op"

lemma owns_perm: "owns op cs \<Longrightarrow> mset cs' = mset cs \<Longrightarrow> owns op cs'"
  unfolding owns_def handles_def by (metis mset_map set_mset_mset mset_eq_imp_distinct_iff)

lemma owns_Cons: "owns op (c # cs) \<longleftrightarrow> (\<exists>h. mc_mysql c = Some h \<and> h \<in> op \<and> owns (op - {h}) cs)"
proof -
  have "set (handles cs) \<subseteq> Some ` (op - {h}) \<longleftrightarrow> set (handles cs) \<subseteq> Some ` op \<and> Some h \<notin> set (handles cs)" for h by auto
  moreover have "handles (c # cs) = mc_mysql c # handles cs" by (simp add: handles_def)
  ultimately show ?thesis by (auto simp: owns_def)
qed

lemma owns_mono: "owns op cs \<Longrightarrow> op \<subseteq> op' \<Longrightarrow> owns op' cs"
  unfolding owns_def by (meson image_mono subset_trans)

lemma owns_tl: "owns op (c # cs) \<Longrightarrow> owns op cs"
  by (auto simp: owns_def handles_def)

lemma owns_append: "owns op (cs @ us) \<Longrightarrow> owns (op - {h. Some h \<in> set (handles cs)}) us"
proof (induction cs arbitrary: op)
  case (Cons c cs)
  then obtain h where h: "mc_mysql c = Some h" "owns (op - {h}) (cs @ us)" by (auto simp: owns_Cons)
  have "op - {h} - {h. Some h \<in> set (handles cs)} = op - {h. Some h \<in> set (handles (c # cs))}" using h(1) by (auto simp: handles_def)
  with Cons.IH [OF h(2)] show ?case by simp
qed (simp add: handles_def)

lemma Connect_owns:
  assumes "mysql_lib lib opened" "MySQLConnection_Connect lib c d = (d', c', True)" "owns (opened d) cs"
  shows "owns (opened d') (c' # cs)"
proof -
  obtain h where h: "mc_mysql c' = Some h" "h \<notin> opened d" "opened d' = insert h (opened d)" using Connect_opens [OF assms(1,2)] .
  then have "opened d' - {h} = opened d" by auto
  with h assms(3) show ?thesis by (auto simp: owns_Cons)
qed

lemma destroy_owns:
  assumes "mysql_lib lib opened" "owns (opened d) (c # cs)"
  shows "owns (opened (MySQLConnection_destroy lib c d)) cs"
  using assms by (auto simp: owns_Cons destroy_opened)

lemma Get_owns:
  assumes "mysql_lib lib opened" "owns (opened d) (mp_connections p @ used)"
    and "MySQLPool_GetConnection lib t p d = (d', p', Returned r)"
  shows "owns (opened d') (mp_connections p' @ (case r of None \<Rightarrow> [] | Some c \<Rightarrow> [c]) @ used)"
    and "length (mp_connections p') + length (case r of None \<Rightarrow> [] | Some c \<Rightarrow> [c]) \<le> length (mp_connections p)"
    and "mp_closed p' = mp_closed p" "mp_closed p \<Longrightarrow> p' = p"
    and "mp_active_count p' = mp_active_count p + (if r = None then 0 else 1)"
proof -
  consider "mp_closed p \<or> mp_connections p = []" | c cs where "\<not> mp_closed p" "mp_connections p = c # cs" by (cases "mp_connections p") auto
  then have "owns (opened d') (mp_connections p' @ (case r of None \<Rightarrow> [] | Some c \<Rightarrow> [c]) @ used) \<and>
    length (mp_connections p') + length (case r of None \<Rightarrow> [] | Some c \<Rightarrow> [c]) \<le> length (mp_connections p) \<and>
    mp_closed p' = mp_closed p \<and> (mp_closed p \<longrightarrow> p' = p) \<and> mp_active_count p' = mp_active_count p + (if r = None then 0 else 1)"
  proof cases
    case 1
    with assms(2,3) show ?thesis by (auto simp: MySQLPool_GetConnection_def split: list.splits if_splits)
  next
    case 2
    obtain d1 ok where pg: "MySQLConnection_Ping lib c d = (d1, ok)" by (cases "MySQLConnection_Ping lib c d")
    then have o1: "owns (opened d1) (c # cs @ used)" using Ping_opened [OF assms(1) pg] assms(2) 2 by simp
    have perm: "owns op (cs @ c' # used) = owns op (c' # cs @ used)" for op c' by (rule iffI; erule owns_perm) simp_all
    show ?thesis
    proof (cases ok)
      case True
      with pg 2 assms(3) o1 show ?thesis by (auto simp: MySQLPool_GetConnection_def perm)
    next
      case False
      obtain d2 c2 ok2 where cn: "MySQLConnection_Connect lib c d1 = (d2, c2, ok2)" using prod_cases3 by blast
      show ?thesis
      proof (cases ok2)
        case True
        with cn Connect_owns [OF assms(1) _ owns_tl [OF o1]] have "owns (opened d2) (c2 # cs @ used)" by simp
        with True False pg cn 2 assms(3) show ?thesis by (auto simp: MySQLPool_GetConnection_def perm)
      next
        case f: False
        with cn Connect_fails [OF assms(1)] have "mc_mysql c2 = None" "opened d2 = opened d1" by simp_all
        with destroy_opened [OF assms(1), of c2 d2] owns_tl [OF o1] f False pg cn 2 assms(3) show ?thesis
          by (auto simp: MySQLPool_GetConnection_def)
      qed
    qed
  qed
  then show "owns (opened d') (mp_connections p' @ (case r of None \<Rightarrow> [] | Some c \<Rightarrow> [c]) @ used)"
    "length (mp_connections p') + length (case r of None \<Rightarrow> [] | Some c \<Rightarrow> [c]) \<le> length (mp_connections p)"
    "mp_closed p' = mp_closed p" "mp_closed p \<Longrightarrow> p' = p"
    "mp_active_count p' = mp_active_count p + (if r = None then 0 else 1)" by blast+
qed

lemma Return_owns:
  assumes "mysql_lib lib opened" "owns (opened d) (c # mp_connections p @ used)"
    and "MySQLPool_ReturnConnection lib p d c = (d', p')"
  shows "owns (opened d') (mp_connections p' @ used) \<and> length (mp_connections p') \<le> Suc (length (mp_connections p)) \<and>
    mp_closed p' = mp_closed p \<and> (mp_closed p \<longrightarrow> p' = p) \<and> (\<not> mp_closed p \<longrightarrow> mp_active_count p' = mp_active_count p - 1)"
proof (cases "mp_closed p")
  case True
  with assms(3) destroy_owns [OF assms(1,2)] show ?thesis by (auto simp: MySQLPool_ReturnConnection_def)
next
  case False
  have perm: "owns op ((cs @ [c']) @ us) = owns op (c' # cs @ us)" for op c' cs us by (rule iffI; erule owns_perm) simp_all
  obtain d1 ok where pg: "MySQLConnection_Ping lib c d = (d1, ok)" by (cases "MySQLConnection_Ping lib c d")
  then have o1: "owns (opened d1) (c # mp_connections p @ used)" using Ping_opened [OF assms(1) pg] assms(2) by simp
  show ?thesis
  proof (cases ok)
    case True
    with False pg o1 assms(3) perm [of "opened d1" "mp_connections p" c used] show ?thesis by (auto simp: MySQLPool_ReturnConnection_def)
  next
    case f: False
    let ?d = "MySQLConnection_destroy lib c d1"
    obtain d2 c2 ok2 where cn: "MySQLConnection_Connect lib MySQLConnection_new ?d = (d2, c2, ok2)" using prod_cases3 by blast
    note o2 = destroy_owns [OF assms(1) o1]
    show ?thesis
    proof (cases ok2)
      case True
      with cn Connect_owns [OF assms(1) _ o2] have "owns (opened d2) (c2 # mp_connections p @ used)" by simp
      with True f False pg cn assms(3) perm [of "opened d2" "mp_connections p" c2 used] show ?thesis by (auto simp: MySQLPool_ReturnConnection_def)
    next
      case g: False
      with cn Connect_fails [OF assms(1)] have "opened d2 = opened ?d" by simp
      with g o2 f False pg cn assms(3) show ?thesis by (auto simp: MySQLPool_ReturnConnection_def)
    qed
  qed
qed


lemma pool_inv_owns:
  "pool_inv opened n (d, p, used) \<longleftrightarrow>
     owns (opened d) (mp_connections p @ used) \<and> int (length (mp_connections p) + length used) \<le> max 0 n \<and>
     (mp_closed p \<longrightarrow> mp_connections p = []) \<and> (\<not> mp_closed p \<longrightarrow> mp_active_count p = int (length used))"
  by (auto simp: pool_inv_def owns_def)

lemma pool_step_inv:
  assumes lib: "mysql_lib lib opened" and inv: "pool_inv opened n s" and st: "pool_step lib s t"
  shows "pool_inv opened n t"
  using st
proof cases
  case (Get timeout_ms p d d' p' c used)
  with inv Get_owns [OF lib _ Get(3), of used] show ?thesis by (auto simp: pool_inv_owns)
next
  case (Get_null timeout_ms p d d' p' used)
  with inv Get_owns [OF lib _ Get_null(3), of used] show ?thesis by (auto simp: pool_inv_owns)
next
  case (Use c used d sql d' ok p)
  with inv Execute_opened [OF lib Use(4)] show ?thesis by (auto simp: pool_inv_owns)
next
  case (Return c used p d d' p')
  have m: "mset (c # mp_connections p @ remove1 c used) = mset (mp_connections p @ used)" using Return(3) by simp
  have "owns (opened d) (mp_connections p @ used)" using inv Return(1) by (simp add: pool_inv_owns)
  from Return_owns [OF lib owns_perm [OF this m] Return(4)] inv Return(1-3) show ?thesis
    by (auto simp: pool_inv_owns length_remove1 Suc_leI dest: length_pos_if_in_set)
next
  case (Close p d d' p' used)
  have "owns (opened d) (mp_connections p @ used)" using inv Close(1) by (simp add: pool_inv_owns)
  then have "owns (opened d - {h. Some h \<in> set (handles (mp_connections p))}) used"
    by (rule owns_append)
  with Close inv pop_all_opened [OF lib, of "mp_connections p" d] show ?thesis by (auto simp: pool_inv_owns MySQLPool_Close_def)
qed

lemma init_loop_inv:
  assumes lib: "mysql_lib lib opened"
  shows "owns (opened d) (mp_connections p) \<Longrightarrow> init_loop lib k p d = (d', p', ok) \<Longrightarrow>
    owns (opened d') (mp_connections p') \<and> length (mp_connections p') \<le> length (mp_connections p) + k \<and>
    (ok \<longrightarrow> length (mp_connections p') = length (mp_connections p) + k) \<and> mp_closed p' = mp_closed p \<and> mp_active_count p' = mp_active_count p"
proof (induction k arbitrary: p d)
  case (Suc k)
  obtain d1 c ok1 where c: "MySQLConnection_Connect lib MySQLConnection_new d = (d1, c, ok1)" using prod_cases3 by blast
  show ?case
  proof (cases ok1)
    case True
    with c have "owns (opened d1) (c # mp_connections p)" using Connect_owns [OF lib _ Suc(2)] by simp
    then have "owns (opened d1) (mp_connections p @ [c])" by (rule owns_perm) simp
    with Suc.IH [of d1 "p\<lparr>mp_connections := mp_connections p @ [c]\<rparr>"] Suc.prems(2) c True show ?thesis by auto
  next
    case False
    with c Suc.prems Connect_fails [OF lib] show ?thesis by auto
  qed
qed simp

interpretation pool_sys: step_invariant "\<lambda>s. \<exists>d d0 p0 ok. MySQLPool_Init lib (MySQLPool_new n) d = (d0, p0, ok) \<and> s = (d0, p0, [])"
    "pool_step lib" "\<lambda>s. mysql_lib lib opened \<longrightarrow> pool_inv opened n s" for lib opened n
proof unfold_locales
  fix s :: "'a PoolState" assume "\<exists>d d0 p0 ok. MySQLPool_Init lib (MySQLPool_new n) d = (d0, p0, ok) \<and> s = (d0, p0, [])"
  then obtain d d0 p0 ok where s: "MySQLPool_Init lib (MySQLPool_new n) d = (d0, p0, ok)" "s = (d0, p0, [])" by blast
  have "owns (opened d) (mp_connections (MySQLPool_new n))" by (simp add: MySQLPool_new_def owns_def handles_def)
  with s init_loop_inv [of lib opened d "MySQLPool_new n" "nat n" d0 p0 ok]
  show "mysql_lib lib opened \<longrightarrow> pool_inv opened n s" by (auto simp: pool_inv_owns MySQLPool_Init_def MySQLPool_new_def)
qed (blast intro: pool_step_inv)

text \<open>C40: However clients take, use and give back connections of the pool and close it, and whichever calls of the client
  library fail: no connection is in the hands of two users, or of a user and the pool; each has an open handle of
  its own; there are never more connections than the size of the pool; and the count of active connections is the
  number of connections in use until the pool is closed. When the initialisation succeeds the pool starts full.\<close>
theorem pool_safe:
  assumes "mysql_lib lib opened" "MySQLPool_Init lib (MySQLPool_new n) d = (d0, p0, ok)"
    and "(pool_step lib)\<^sup>*\<^sup>* (d0, p0, []) (d', p', used)"
  shows "pool_inv opened n (d', p', used) \<and> (ok \<longrightarrow> int (length (mp_connections p0)) = max 0 n)"
proof -
  have "pool_inv opened n (d', p', used)" using pool_sys.reach_I [of lib n "(d0, p0, [])"] assms by blast
  moreover have "length (mp_connections p0) = nat n" if ok
    using init_loop_inv [OF assms(1), of d "MySQLPool_new n" "nat n"] assms(2) that
    by (auto simp: MySQLPool_Init_def MySQLPool_new_def owns_def handles_def)
  ultimately show ?thesis by auto
qed


text \<open>A connection that has gone away is connected again without a disconnect: the handle it had stays open and
  nothing refers to it any more.\<close>

lemma reconnect_leaks_handle:
  assumes lib: "mysql_lib lib opened" and inv: "pool_inv opened n (d, p, used)"
    and p: "\<not> mp_closed p" "mp_connections p = c # cs" "mc_mysql c = Some h"
    and fails: "MySQLConnection_Ping lib c d = (d1, False)" "MySQLConnection_Connect lib c d1 = (d', c', True)"
  shows "\<exists>p'. MySQLPool_GetConnection lib t p d = (d', p', Returned (Some c')) \<and>
    h \<in> opened d' \<and> Some h \<notin> set (handles (mp_connections p' @ c' # used))"
proof -
  have o: "owns (opened d) (c # cs @ used)" using inv p(2) by (simp add: pool_inv_owns)
  have d1: "opened d1 = opened d" using Ping_opened [OF lib fails(1)] .
  obtain k where k: "mc_mysql c' = Some k" "k \<notin> opened d1" "opened d' = insert k (opened d1)" using Connect_opens [OF lib fails(2)] .
  have h: "h \<in> opened d" "Some h \<notin> set (handles (cs @ used))" using o p(3) by (auto simp: owns_def handles_def)
  let ?p = "p\<lparr>mp_connections := cs, mp_active_count := mp_active_count p + 1\<rparr>"
  have "MySQLPool_GetConnection lib t p d = (d', ?p, Returned (Some c'))" using p(1,2) fails by (simp add: MySQLPool_GetConnection_def)
  moreover have "Some h \<notin> set (handles (mp_connections ?p @ c' # used))" using h k d1 by (auto simp: handles_def)
  ultimately show ?thesis using h(1) k(3) d1 by auto
qed

section \<open>Samples\<close>

text \<open>A library that counts its handles and never fails.\<close>

definition counting_lib :: "(nat \<times> nat set, unit) MysqlLib" where
  "counting_lib = \<lparr>ml_init = \<lambda>(n, s). ((Suc n, insert n s), Some n), ml_real_connect = \<lambda>d h. (d, True),
     ml_close = \<lambda>(n, s) h. (n, s - {h}), ml_ping = \<lambda>d h. (d, True), ml_real_query = \<lambda>d h sql. (d, True),
     ml_store_result = \<lambda>d h. (d, None), ml_insert_id = \<lambda>d h. 0, ml_affected_rows = \<lambda>d h. 0, ml_error = \<lambda>d h. '''',
     ml_escape = \<lambda>d h str. str\<rparr>"

definition counting_opened :: "nat \<times> nat set \<Rightarrow> nat set" where
  "counting_opened d = {h \<in> snd d. h < fst d}"

lemma counting_lib_ok: "mysql_lib counting_lib counting_opened"
  by (auto simp: mysql_lib_def counting_lib_def counting_opened_def)

theorem pool_safe_witness:
  "\<exists>d p c1 c2. (pool_step counting_lib)\<^sup>*\<^sup>*
      (case MySQLPool_Init counting_lib (MySQLPool_new 2) (0, {}) of (d, p, ok) \<Rightarrow> (d, p, [])) (d, p, [c1, c2]) \<and>
    pool_inv counting_opened 2 (d, p, [c1, c2])"
proof -
  let ?p = "\<lparr>mp_pool_size = 2, mp_connections = [\<lparr>mc_mysql = Some 0\<rparr>, \<lparr>mc_mysql = Some 1\<rparr>], mp_closed = False, mp_active_count = 0\<rparr>"
  let ?d = "(2 :: nat, {0, 1 :: nat})"
  have i: "MySQLPool_Init counting_lib (MySQLPool_new 2) (0, {}) = (?d, ?p, True)"
    by (simp add: MySQLPool_Init_def MySQLPool_new_def numeral_2_eq_2 MySQLConnection_Connect_def counting_lib_def MySQLConnection_new_def insert_commute)
  let ?p1 = "?p\<lparr>mp_connections := [\<lparr>mc_mysql = Some 1\<rparr>], mp_active_count := 1\<rparr>"
  let ?p2 = "?p\<lparr>mp_connections := [], mp_active_count := 2\<rparr>"
  have "MySQLPool_GetConnection counting_lib (- 1) ?p ?d = (?d, ?p1, Returned (Some \<lparr>mc_mysql = Some 0\<rparr>))"
    "MySQLPool_GetConnection counting_lib (- 1) ?p1 ?d = (?d, ?p2, Returned (Some \<lparr>mc_mysql = Some 1\<rparr>))"
    by (simp_all add: MySQLPool_GetConnection_def MySQLConnection_Ping_def counting_lib_def)
  from pool_step.Get [OF this(1), of "[]"] pool_step.Get [OF this(2), of "[\<lparr>mc_mysql = Some 0\<rparr>]"]
  have r: "(pool_step counting_lib)\<^sup>*\<^sup>* (?d, ?p, []) (?d, ?p2, [\<lparr>mc_mysql = Some 1\<rparr>, \<lparr>mc_mysql = Some 0\<rparr>])" by (meson converse_rtranclp_into_rtranclp rtranclp.rtrancl_refl)
  from pool_safe [OF counting_lib_ok i r] i r show ?thesis
    by (intro exI [of _ ?d] exI [of _ ?p2] exI [of _ "\<lparr>mc_mysql = Some 1\<rparr>"] exI [of _ "\<lparr>mc_mysql = Some 0\<rparr>"]) simp
qed

end
