(* ===== verification/Startup.thy ===== *)
theory Startup
  imports Server Config Mysql_Pool
begin

text \<open>
  Start and stop: \<^verbatim>\<open>src/cmd/minis3_server/main.cpp\<close>, \<open>Init\<close>, \<open>Start\<close> and \<open>Stop\<close> of \<^verbatim>\<open>src/src/server/server.cpp\<close>, and the
  rest of \<^verbatim>\<open>src/src/net/epoll/acceptor.cpp\<close>. The results of the system calls (sockets, descriptors) are arguments;
  the parameters of the stores come with the environment of the server, to which the configuration is applied.
  The threads that \<open>Start\<close> creates run \<open>EventLoop::Loop\<close> on the loops they register.
\<close>

section \<open>Acceptor\<close>

record Acceptor =
  ac_channel :: Channel
  ac_port :: nat
  ac_listening :: bool

text \<open>\<open>p\<close> is the address of the channel, \<open>sock\<close> the new socket, \<open>bind_error\<close> the error number of \<open>bind\<close>.\<close>

definition Acceptor_new ::
    "(nat \<Rightarrow> string) \<Rightarrow> nat \<Rightarrow> nat option \<Rightarrow> nat option \<Rightarrow> string \<Rightarrow> nat \<Rightarrow> string + Acceptor" where
  "Acceptor_new strerror p sock bind_error ip port =
     (case sock of
        None \<Rightarrow> Inl ''Failed to create socket''
      | Some listen_fd \<Rightarrow>
          if \<not> (ip = '''' \<or> ip = ''0.0.0.0'') \<and> \<not> inet_pton ip then Inl (''Invalid IP address: '' @ ip)
          else case bind_error of
                 Some errno \<Rightarrow> Inl (''Failed to bind to '' @ ip @ '':'' @ nat_to_string port @ '' - '' @ strerror errno)
               | None \<Rightarrow> Inr \<lparr>ac_channel = Channel_new p listen_fd, ac_port = port, ac_listening = False\<rparr>)"

definition Acceptor_Listen ::
    "(nat \<Rightarrow> string) \<Rightarrow> nat option \<Rightarrow> 'f EventLoop \<Rightarrow> Acceptor \<Rightarrow> 'f EventLoop \<times> Acceptor \<times> string option" where
  "Acceptor_Listen strerror listen_error l a =
     (let a = a\<lparr>ac_listening := True\<rparr>
      in case listen_error of
           Some errno \<Rightarrow> (l, a, Some (''Failed to listen: '' @ strerror errno))
         | None \<Rightarrow> (case Channel_EnableReading l (ac_channel a) of (l, ch) \<Rightarrow> (l, a\<lparr>ac_channel := ch\<rparr>, None)))"

definition Acceptor_destroy :: "'f EventLoop \<Rightarrow> Acceptor \<Rightarrow> 'f EventLoop" where
  "Acceptor_destroy l a = (case Channel_DisableAll l (ac_channel a) of (l, ch) \<Rightarrow> fst (Channel_Remove l ch))"

section \<open>Initialisation\<close>

record ServerParts =
  sp_mysql_pool :: MySQLPool
  sp_redis_cache :: "RedisCache option"
  sp_data_store :: DataStore
  sp_gc :: "GarbageCollector option"
  sp_main_loop :: "Functor EventLoop"
  sp_acceptor :: Acceptor

text \<open>What the system answers during the initialisation: the descriptors of the main loop, the listening socket and
  the attempts to reach Redis.\<close>

record StartSys =
  ss_epoll_fd :: "nat option"
  ss_event_fd :: "nat option"
  ss_timer_fd :: "nat option"
  ss_socket :: "nat option"
  ss_bind_error :: "nat option"
  ss_dials :: "Dial list"
  ss_log :: LogSys

definition data_store_of :: "StorageConfig \<Rightarrow> DataStore" where
  "data_store_of c = \<lparr>ds_base_dir = cg_data_dir c, ds_tmp_dir = cg_tmp_dir c, ds_sync_mode = DataStore_ParseSyncMode (cg_sync_mode c)\<rparr>"

definition server_env :: "Config \<Rightarrow> ('d, 'r) ServerEnv \<Rightarrow> ('d, 'r) ServerEnv" where
  "server_env config env =
     env\<lparr>sc_api := (sc_api env)\<lparr>ap_ds := data_store_of (cfg_storage config)\<rparr>,
         sc_auth_enabled := ca_enabled (cfg_auth config), sc_static_tokens := ca_static_tokens (cfg_auth config),
         sc_connection_idle_timeout := cl_connection_idle_timeout (cfg_limits config),
         sc_max_body_bytes := cl_max_body_bytes (cfg_limits config)\<rparr>"

definition init_redis :: "RedisConfig \<Rightarrow> Dial list \<Rightarrow> RedisCache option" where
  "init_redis config dials =
     (if rd_enabled config
      then (case RedisCache_Init (RedisCache_new config dials) of (c, status) \<Rightarrow> if Status_ok status then Some c else None)
      else None)"

text \<open>\<open>Inl\<close> is an exception that \<open>Init\<close> lets through.\<close>

definition Server_Init ::
    "('m, 'res) MysqlLib \<Rightarrow> ('d, 'r) ServerEnv \<Rightarrow> StartSys \<Rightarrow> nat \<Rightarrow> Config \<Rightarrow> 'm \<Rightarrow> FileSys \<Rightarrow>
     'm \<times> FileSys \<times> (string + ServerParts Result)" where
  "Server_Init lib env sys this_thread config m fs =
     (let se = ap_store (sc_api env); lc = cfg_log config
      in case Logging_Init (ss_log sys) (cf_level lc) (cf_access_log_path lc) (cf_error_log_path lc) (cf_json_format lc) of
           Inl e \<Rightarrow> (m, fs, Inl e)
         | Inr _ \<Rightarrow>
         case MySQLPool_Init lib (MySQLPool_new (cm_pool_size (cfg_mysql config))) m of
           (m, pool, False) \<Rightarrow> (m, fs, Inr (Err DatabaseError ''Failed to initialize MySQL pool''))
         | (m, pool, True) \<Rightarrow>
             let redis = init_redis (cfg_redis config) (ss_dials sys);
                 ds = data_store_of (cfg_storage config)
             in case DataStore_Init se ds fs of
                  (fs, store_status) \<Rightarrow>
                    if \<not> Status_ok store_status then (m, fs, Inr (Inl store_status))
                    else let gc = (if cc_enabled (cfg_gc config)
                                   then Some (GarbageCollector_new (cc_interval_seconds (cfg_gc config)) (cc_batch_size (cfg_gc config)))
                                   else None)
                         in (m, fs,
                             case EventLoop_new False this_thread (ss_epoll_fd sys) (ss_event_fd sys) (ss_timer_fd sys) of
                               Inl e \<Rightarrow> Inl e
                             | Inr (main_loop, _, _) \<Rightarrow>
                                 (case Acceptor_new (se_strerror se) 2 (ss_socket sys) (ss_bind_error sys)
                                         (cs_listen_ip (cfg_server config)) (cs_listen_port (cfg_server config)) of
                                    Inl e \<Rightarrow> Inl e
                                  | Inr acceptor \<Rightarrow>
                                      (case Server_SetupRoutes (server_env config env) of
                                         Inl _ \<Rightarrow> Inl ''Failed to set up the routes''
                                       | Inr _ \<Rightarrow>
                                           Inr (Inr \<lparr>sp_mysql_pool = pool, sp_redis_cache = redis, sp_data_store = ds, sp_gc = gc,
                                                     sp_main_loop = main_loop, sp_acceptor = acceptor\<rparr>)))))"

section \<open>Running\<close>

text \<open>\<open>ru_connections\<close>: the index of the loop and the descriptor of every open connection.\<close>

record RunState =
  ru_running :: bool
  ru_gc :: "GarbageCollector option"
  ru_main_loop :: "Functor EventLoop"
  ru_acceptor :: "Acceptor option"
  ru_io_loops :: "Functor EventLoop list"
  ru_io_loops_ready :: nat
  ru_connections :: "(nat \<times> nat) list"

definition run_state :: "ServerParts \<Rightarrow> RunState" where
  "run_state parts = \<lparr>ru_running = False, ru_gc = sp_gc parts, ru_main_loop = sp_main_loop parts, ru_acceptor = Some (sp_acceptor parts),
     ru_io_loops = [], ru_io_loops_ready = 0, ru_connections = []\<rparr>"

text \<open>\<open>loops\<close> are the loops that the threads construct, in the order in which they register them; \<open>Start\<close> waits for
  all of them. The result is an exception or the state in which the main loop is entered.\<close>

definition Server_Start ::
    "(nat \<Rightarrow> string) \<Rightarrow> nat option \<Rightarrow> Functor EventLoop list \<Rightarrow> RunState \<Rightarrow> string + RunState" where
  "Server_Start strerror listen_error loops s =
     (if ru_running s then Inr s
      else let s = s\<lparr>ru_running := True, ru_io_loops := ru_io_loops s @ loops, ru_io_loops_ready := ru_io_loops_ready s + length loops,
                     ru_gc := map_option GarbageCollector_Start (ru_gc s)\<rparr>
           in case ru_acceptor s of
                None \<Rightarrow> Inl ''null acceptor''
              | Some a \<Rightarrow>
                  (case Acceptor_Listen strerror listen_error (ru_main_loop s) a of
                     (l, a, Some e) \<Rightarrow> Inl e
                   | (l, a, None) \<Rightarrow> Inr (s\<lparr>ru_main_loop := l, ru_acceptor := Some a\<rparr>)))"

definition force_close :: "nat \<Rightarrow> Functor EventLoop list \<Rightarrow> nat \<times> nat \<Rightarrow> Functor EventLoop list" where
  "force_close this_thread loops conn =
     (case conn of (i, fd) \<Rightarrow>
        if i < length loops then loops[i := EventLoop_QueueInLoop (loops ! i) this_thread (Close_Functor fd)] else loops)"

text \<open>The second result: the loops as their threads find them.\<close>

definition Server_Stop :: "nat \<Rightarrow> RunState \<Rightarrow> RunState \<times> Functor EventLoop list" where
  "Server_Stop this_thread s =
     (if \<not> ru_running s then (s, ru_io_loops s)
      else let main = (case ru_acceptor s of None \<Rightarrow> ru_main_loop s | Some a \<Rightarrow> Acceptor_destroy (ru_main_loop s) a);
               loops = foldl (force_close this_thread) (ru_io_loops s) (ru_connections s);
               loops = map (\<lambda>l. EventLoop_Quit l this_thread) loops
           in (s\<lparr>ru_running := False, ru_acceptor := None, ru_gc := map_option GarbageCollector_Stop (ru_gc s), ru_connections := [],
                 ru_io_loops := [], ru_io_loops_ready := 0, ru_main_loop := EventLoop_Quit main this_thread\<rparr>, loops))"

section \<open>The program\<close>

definition PrintUsage :: "string \<Rightarrow> string" where
  "PrintUsage program =
     ''Usage: '' @ program @ '' [config_file]'' @ [LF] @ [LF] @
     ''MiniS3 - A lightweight object storage server'' @ [LF] @ [LF] @
     ''Options:'' @ [LF] @
     ''  config_file    Path to configuration file (default: /etc/minis3/server.yaml)'' @ [LF] @
     ''  -h, --help     Show this help message'' @ [LF] @
     ''  -v, --version  Show version information'' @ [LF] @ [LF]"

definition PrintVersion :: string where
  "PrintVersion = ''MiniS3 version 1.0.0'' @ [LF] @ ''Built with C++20'' @ [LF] @ [LF]"

text \<open>The command line: \<open>Inl\<close> is the exit code of an early return with the texts on the standard output and the standard error,
  \<open>Inr\<close> the path of the configuration. For an empty argument \<open>arg[0]\<close> is the terminating null.\<close>

fun parse_args :: "string \<Rightarrow> string \<Rightarrow> string list \<Rightarrow> (nat \<times> string \<times> string) + string" where
  "parse_args program config_path [] = Inr config_path"
| "parse_args program config_path (arg # args) =
     (if arg = ''-h'' \<or> arg = ''--help'' then Inl (0, PrintUsage program, '''')
      else if arg = ''-v'' \<or> arg = ''--version'' then Inl (0, PrintVersion, '''')
      else if arg = '''' \<or> hd arg \<noteq> CHR ''-'' then parse_args program arg args
      else Inl (1, PrintUsage program, ''Unknown option: '' @ arg @ [LF]))"

text \<open>A signal while the server runs (\<open>g_server\<close> is set), in whatever thread it is delivered to.\<close>

definition SignalHandler :: "nat \<Rightarrow> RunState option \<Rightarrow> (RunState \<times> Functor EventLoop list) option" where
  "SignalHandler this_thread g_server = map_option (Server_Stop this_thread) g_server"

definition Server_destroy :: "nat \<Rightarrow> RunState \<Rightarrow> RunState \<times> Functor EventLoop list" where
  "Server_destroy this_thread s = Server_Stop this_thread s"

text \<open>The exit code, when the program ends before \<open>Start\<close>, or the parts it starts with.\<close>

definition main_prepare ::
    "'n Yaml \<Rightarrow> (string \<Rightarrow> string option) \<Rightarrow> ('m, 'res) MysqlLib \<Rightarrow> ('d, 'r) ServerEnv \<Rightarrow> StartSys \<Rightarrow> nat \<Rightarrow> string \<Rightarrow> string list \<Rightarrow>
     'm \<Rightarrow> FileSys \<Rightarrow> 'm \<times> FileSys \<times> (nat + ServerParts)" where
  "main_prepare y read_file lib env sys this_thread program args m fs =
     (case parse_args program ''/etc/minis3/server.yaml'' args of
        Inl (code, _) \<Rightarrow> (m, fs, Inl code)
      | Inr config_path \<Rightarrow>
          (case Config_LoadFromFile y read_file config_path of
             Inl _ \<Rightarrow> (m, fs, Inl 1)
           | Inr config \<Rightarrow>
               (case Server_Init lib env sys this_thread config m fs of
                  (m, fs, Inl _) \<Rightarrow> (m, fs, Inl 1)
                | (m, fs, Inr (Inl _)) \<Rightarrow> (m, fs, Inl 1)
                | (m, fs, Inr (Inr parts)) \<Rightarrow> (m, fs, Inr parts))))"

section \<open>Lemmas\<close>

text \<open>Redis is optional: whatever its connection does, the initialisation ends in the same way, with or without the cache.\<close>

lemma Init_without_redis:
  assumes "Server_Init lib env sys t config m fs = (m', fs', Inr (Inr parts))"
  shows "Server_Init lib env (sys\<lparr>ss_dials := dials\<rparr>) t config m fs =
    (m', fs', Inr (Inr (parts\<lparr>sp_redis_cache := init_redis (cfg_redis config) dials\<rparr>)))"
  using assms by (auto simp: Server_Init_def Let_def Err_def split: prod.splits bool.splits if_splits sum.splits)

text \<open>A stopped server: every loop has been told to quit after the closes of its connections were queued.\<close>

lemma force_close_length: "length (force_close t loops c) = length loops"
  by (simp add: force_close_def split: prod.splits)

lemma Quit_sets: "el_quit (EventLoop_Quit l t) = True" "el_pending_functors (EventLoop_Quit l t) = el_pending_functors l"
  by (simp_all add: EventLoop_Quit_def EventLoop_Wakeup_def Notifier_Notify_def Let_def)

lemma Stop_quits:
  assumes "ru_running s" "Server_Stop t s = (s', loops)"
  shows "length loops = length (ru_io_loops s) \<and> list_all el_quit loops \<and> el_quit (ru_main_loop s') \<and> \<not> ru_running s' \<and> ru_connections s' = []"
proof -
  have "length (foldl (force_close t) ls cs) = length ls" for ls cs by (induction cs arbitrary: ls) (simp_all add: force_close_length)
  then show ?thesis using assms by (auto simp: Server_Stop_def Let_def list_all_iff Quit_sets)
qed

text \<open>The destructor after \<open>Stop\<close>, and a second signal, do nothing more.\<close>

lemma Stop_twice: "Server_Stop t s = (s', loops) \<Longrightarrow> Server_destroy t' s' = (s', ru_io_loops s')"
  by (auto simp: Server_destroy_def Server_Stop_def Let_def split: if_splits)

text \<open>An unknown option before any other ends the program with code 1 and an explanation.\<close>

lemma parse_args_unknown:
  assumes "arg \<noteq> ''''" "hd arg = CHR ''-''" "arg \<notin> {''-h'', ''--help'', ''-v'', ''--version''}"
  shows "parse_args program p (arg # args) = Inl (1, PrintUsage program, ''Unknown option: '' @ arg @ [LF])"
  using assms by simp

text \<open>The last argument that is not an option names the configuration.\<close>

lemma parse_args_last:
  "list_all (\<lambda>a. a = '''' \<or> hd a \<noteq> CHR ''-'') args \<Longrightarrow> parse_args program p args = Inr (last (p # args))"
proof (induction args arbitrary: p)
  case (Cons a args)
  then have "\<not> (a = ''-h'' \<or> a = ''--help'' \<or> a = ''-v'' \<or> a = ''--version'')" by auto
  with Cons show ?case by auto
qed simp

end
