(* ===== verification/Services.thy ===== *)
theory Services
  imports Api_World
begin

text \<open>
  The service layer: \<^verbatim>\<open>src/src/service/{object,bucket,multipart}_service.cpp\<close>. The server does not use it; it offers the
  operations of the handlers over the plain operations of the metadata store, without transactions. The state is
  the state of the handlers. A result of a store that the code does not look at is dropped here as well.
\<close>

section \<open>Steps\<close>

text \<open>Returning early with the error of a result, and operations of the data store on the state.\<close>

definition or_return :: "('s \<times> 'a Result) \<Rightarrow> ('a \<Rightarrow> 's \<Rightarrow> 's \<times> 'b Result) \<Rightarrow> 's \<times> 'b Result" where
  "or_return r k = (case r of (w, Inl e) \<Rightarrow> (w, Inl e) | (w, Inr v) \<Rightarrow> k v w)"

definition data_op :: "(FileSys \<Rightarrow> FileSys \<times> 'a) \<Rightarrow> ('d, 'r) World \<Rightarrow> ('d, 'r) World \<times> 'a" where
  "data_op f w = (case f (w_fs w) of (fs, r) \<Rightarrow> (w\<lparr>w_fs := fs\<rparr>, r))"

text \<open>The blob of some content: written unless its file is there, then registered, which also counts a reference.\<close>

definition store_content :: "('d, 'r) Api \<Rightarrow> string \<Rightarrow> ('d, 'r) World \<Rightarrow> ('d, 'r) World \<times> string Result" where
  "store_content api content w =
     (let sha256 = Crypto_SHA256 (se_sha (ap_store api)) content;
          (w, cas_exists) = data_op (\<lambda>fs. DataStore_Exists (ap_ds api) fs sha256) w
      in or_return (if cas_exists then (w, Inr sha256)
                    else data_op (\<lambda>fs. DataStore_Write (ap_store api) (ap_ds api) fs (ap_uuid api 1) content) w) (\<lambda>_ w.
         or_return (meta_op (\<lambda>ms. MetaStore_RegisterCasBlob (ap_meta api) ms sha256 (int (length content))) w) (\<lambda>_ w.
         (w, Inr sha256))))"

section \<open>Objects\<close>

definition ObjectService_HeadObject ::
    "('d, 'r) Api \<Rightarrow> int \<Rightarrow> string \<Rightarrow> ('d, 'r) World \<Rightarrow> ('d, 'r) World \<times> ObjectInfo Result" where
  "ObjectService_HeadObject api bucket_id key w = meta_op (\<lambda>ms. MetaStore_GetObject (ap_meta api) (ap_now api) ms bucket_id key) w"

definition found :: "('s \<times> 'a Result) \<Rightarrow> 's \<times> bool Result" where
  "found r =
     (case r of
        (w, Inr _) \<Rightarrow> (w, Inr True)
      | (w, Inl e) \<Rightarrow> (w, if Status_IsNotFound e then Inr False else Inl e))"

definition ObjectService_ObjectExists ::
    "('d, 'r) Api \<Rightarrow> int \<Rightarrow> string \<Rightarrow> ('d, 'r) World \<Rightarrow> ('d, 'r) World \<times> bool Result" where
  "ObjectService_ObjectExists api bucket_id key w =
     found (meta_op (\<lambda>ms. MetaStore_GetObject (ap_meta api) (ap_now api) ms bucket_id key) w)"

text \<open>An object that is replaced by other content gives its reference up first.\<close>

definition release_old ::
    "('d, 'r) Api \<Rightarrow> int \<Rightarrow> string \<Rightarrow> string \<Rightarrow> ('d, 'r) World \<Rightarrow> ('d, 'r) World" where
  "release_old api bucket_id key sha256 w =
     (case ObjectService_HeadObject api bucket_id key w of
        (w, Inr old) \<Rightarrow>
          if oi_sha256_hash old \<noteq> sha256 then fst (meta_op (\<lambda>ms. MetaStore_DecrementRefCount (ap_meta api) ms (oi_sha256_hash old)) w) else w
      | (w, Inl _) \<Rightarrow> w)"

definition ObjectService_PutObject ::
    "('d, 'r) Api \<Rightarrow> int \<Rightarrow> string \<Rightarrow> string \<Rightarrow> string \<Rightarrow> ('d, 'r) World \<Rightarrow> ('d, 'r) World \<times> string Result" where
  "ObjectService_PutObject api bucket_id key content content_type w =
     or_return (store_content api content w) (\<lambda>sha256 w.
     or_return (ObjectService_ObjectExists api bucket_id key w) (\<lambda>exists w.
     or_return (meta_op (\<lambda>ms. MetaStore_PutObject (ap_meta api) ms bucket_id key (int (length content)) (quoted sha256) content_type sha256)
                  (if exists then release_old api bucket_id key sha256 w else w)) (\<lambda>_ w.
     (w, Inr sha256))))"

definition ObjectService_GetObject ::
    "('d, 'r) Api \<Rightarrow> int \<Rightarrow> string \<Rightarrow> ('d, 'r) World \<Rightarrow> ('d, 'r) World \<times> (string \<times> ObjectInfo) Result" where
  "ObjectService_GetObject api bucket_id key w =
     or_return (ObjectService_HeadObject api bucket_id key w) (\<lambda>info w.
     or_return (data_op (\<lambda>fs. DataStore_Read (ap_store api) (ap_ds api) fs (oi_sha256_hash info)) w) (\<lambda>content w.
     (w, Inr (content, info))))"

text \<open>The interval that is read: a negative or too large end means the last byte.\<close>

definition clamp_range :: "int \<Rightarrow> int \<Rightarrow> int \<Rightarrow> (int \<times> int) Result" where
  "clamp_range sz rstart rend =
     (if rstart < 0 \<or> sz \<le> rstart then Err InvalidArgument ''Invalid range start''
      else let rend = (if rend < 0 then sz - 1 else rend);
               rend = (if sz \<le> rend then sz - 1 else rend)
           in if rend < rstart then Err InvalidArgument ''Invalid range: start > end'' else Inr (rstart, rend))"

definition ObjectService_GetObjectRange ::
    "('d, 'r) Api \<Rightarrow> int \<Rightarrow> string \<Rightarrow> int \<Rightarrow> int \<Rightarrow> ('d, 'r) World \<Rightarrow> ('d, 'r) World \<times> (string \<times> ObjectInfo) Result" where
  "ObjectService_GetObjectRange api bucket_id key rstart rend w =
     or_return (ObjectService_HeadObject api bucket_id key w) (\<lambda>info w.
     or_return (w, clamp_range (oi_size info) rstart rend) (\<lambda>(rstart, rend) w.
     case DataStore_StreamRead (ap_store api) (ap_ds api) (w_fs w) (oi_sha256_hash info) (nat rstart) (nat (rend - rstart + 1))
            (\<lambda>content d. (content @ d, True)) '''' of
       (fs, content, status) \<Rightarrow>
         (w\<lparr>w_fs := fs\<rparr>, if Status_ok status then Inr (content, info) else Inl status)))"

definition ObjectService_DeleteObject ::
    "('d, 'r) Api \<Rightarrow> int \<Rightarrow> string \<Rightarrow> ('d, 'r) World \<Rightarrow> ('d, 'r) World \<times> unit Result" where
  "ObjectService_DeleteObject api bucket_id key w =
     or_return (ObjectService_HeadObject api bucket_id key w) (\<lambda>info w.
     or_return (meta_op (\<lambda>ms. MetaStore_DeleteObject (ap_meta api) ms bucket_id key) w) (\<lambda>_ w.
     meta_op (\<lambda>ms. MetaStore_DecrementRefCount (ap_meta api) ms (oi_sha256_hash info)) w))"

definition ObjectService_ListObjects ::
    "('d, 'r) Api \<Rightarrow> int \<Rightarrow> string \<Rightarrow> string \<Rightarrow> string \<Rightarrow> int \<Rightarrow> ('d, 'r) World \<Rightarrow> ('d, 'r) World \<times> ListObjectsResult Result" where
  "ObjectService_ListObjects api bucket_id pre delimiter start_after limit w =
     meta_op (\<lambda>ms. MetaStore_ListObjects (ap_meta api) ms bucket_id pre delimiter start_after limit) w"

definition ObjectService_CopyObject ::
    "('d, 'r) Api \<Rightarrow> int \<Rightarrow> string \<Rightarrow> int \<Rightarrow> string \<Rightarrow> ('d, 'r) World \<Rightarrow> ('d, 'r) World \<times> string Result" where
  "ObjectService_CopyObject api src_bucket_id src_key dst_bucket_id dst_key w =
     or_return (ObjectService_HeadObject api src_bucket_id src_key w) (\<lambda>src w.
     or_return (ObjectService_ObjectExists api dst_bucket_id dst_key w) (\<lambda>exists w.
     or_return (meta_op (\<lambda>ms. MetaStore_PutObject (ap_meta api) ms dst_bucket_id dst_key (oi_size src) (oi_etag src) (oi_content_type src)
                                (oi_sha256_hash src))
                  (if exists then release_old api dst_bucket_id dst_key (oi_sha256_hash src) w else w)) (\<lambda>_ w.
     or_return (meta_op (\<lambda>ms. MetaStore_IncrementRefCount (ap_meta api) ms (oi_sha256_hash src)) w) (\<lambda>_ w.
     (w, Inr (oi_sha256_hash src))))))"

section \<open>Buckets\<close>

definition BucketService_BucketExists :: "('d, 'r) Api \<Rightarrow> string \<Rightarrow> ('d, 'r) World \<Rightarrow> ('d, 'r) World \<times> bool Result" where
  "BucketService_BucketExists api bucket_name w = found (meta_op (\<lambda>ms. MetaStore_GetBucket (ap_meta api) ms bucket_name) w)"

definition BucketService_CreateBucket ::
    "('d, 'r) Api \<Rightarrow> string \<Rightarrow> string \<Rightarrow> string \<Rightarrow> ('d, 'r) World \<Rightarrow> ('d, 'r) World \<times> int Result" where
  "BucketService_CreateBucket api bucket_name owner_id region w =
     or_return (BucketService_BucketExists api bucket_name w) (\<lambda>exists w.
     if exists then (w, Err BucketAlreadyExists (''Bucket already exists: '' @ bucket_name))
     else meta_op (\<lambda>ms. MetaStore_CreateBucket (ap_meta api) (ap_now api) ms bucket_name owner_id region ''private'') w)"

definition BucketService_GetBucket :: "('d, 'r) Api \<Rightarrow> string \<Rightarrow> ('d, 'r) World \<Rightarrow> ('d, 'r) World \<times> BucketInfo Result" where
  "BucketService_GetBucket api bucket_name w = meta_op (\<lambda>ms. MetaStore_GetBucket (ap_meta api) ms bucket_name) w"

definition BucketService_DeleteBucket :: "('d, 'r) Api \<Rightarrow> string \<Rightarrow> ('d, 'r) World \<Rightarrow> ('d, 'r) World \<times> unit Result" where
  "BucketService_DeleteBucket api bucket_name w =
     or_return (BucketService_GetBucket api bucket_name w) (\<lambda>bucket w.
     or_return (meta_op (\<lambda>ms. MetaStore_IsBucketEmpty (ap_meta api) ms (bi_id bucket)) w) (\<lambda>is_empty w.
     if \<not> is_empty then (w, Err InvalidArgument (''Bucket is not empty: '' @ bucket_name))
     else meta_op (\<lambda>ms. MetaStore_DeleteBucket (ap_meta api) ms bucket_name) w))"

definition BucketService_ListBuckets :: "('d, 'r) Api \<Rightarrow> string \<Rightarrow> ('d, 'r) World \<Rightarrow> ('d, 'r) World \<times> BucketInfo list Result" where
  "BucketService_ListBuckets api owner_id w = meta_op (\<lambda>ms. MetaStore_ListBuckets (ap_meta api) ms owner_id) w"

section \<open>Multipart uploads\<close>

definition MultipartService_InitiateMultipartUpload ::
    "('d, 'r) Api \<Rightarrow> int \<Rightarrow> string \<Rightarrow> string \<Rightarrow> string \<Rightarrow> ('d, 'r) World \<Rightarrow> ('d, 'r) World \<times> string Result" where
  "MultipartService_InitiateMultipartUpload api bucket_id key content_type owner_id w =
     meta_op (\<lambda>ms. MetaStore_CreateMultipartUpload (ap_meta api) ms (ap_uuid api 2) bucket_id key content_type owner_id
       (ap_now api + 24 * 7 * 3600)) w"

definition MultipartService_GetMultipartUpload ::
    "('d, 'r) Api \<Rightarrow> string \<Rightarrow> ('d, 'r) World \<Rightarrow> ('d, 'r) World \<times> MultipartUploadInfo Result" where
  "MultipartService_GetMultipartUpload api upload_id w = meta_op (\<lambda>ms. MetaStore_GetMultipartUpload (ap_meta api) ms upload_id) w"

definition MultipartService_ListParts ::
    "('d, 'r) Api \<Rightarrow> string \<Rightarrow> int \<Rightarrow> int \<Rightarrow> ('d, 'r) World \<Rightarrow> ('d, 'r) World \<times> ListPartsResult Result" where
  "MultipartService_ListParts api upload_id part_number_marker max_parts w =
     meta_op (\<lambda>ms. MetaStore_ListParts (ap_meta api) ms upload_id part_number_marker max_parts) w"

definition MultipartService_ListMultipartUploads ::
    "('d, 'r) Api \<Rightarrow> int \<Rightarrow> string \<Rightarrow> ('d, 'r) World \<Rightarrow> ('d, 'r) World \<times> MultipartUploadInfo list Result" where
  "MultipartService_ListMultipartUploads api bucket_id pre w =
     meta_op (\<lambda>ms. MetaStore_ListMultipartUploads (ap_meta api) ms bucket_id pre 1000) w"

definition MultipartService_UploadPart ::
    "('d, 'r) Api \<Rightarrow> string \<Rightarrow> int \<Rightarrow> string \<Rightarrow> ('d, 'r) World \<Rightarrow> ('d, 'r) World \<times> string Result" where
  "MultipartService_UploadPart api upload_id part_number content w =
     or_return (MultipartService_GetMultipartUpload api upload_id w) (\<lambda>_ w.
     if part_number < 1 \<or> 10000 < part_number then (w, Err InvalidArgument ''Part number must be between 1 and 10000'')
     else or_return (store_content api content w) (\<lambda>sha256 w.
          or_return (meta_op (\<lambda>ms. MetaStore_CreateOrUpdatePart (ap_meta api) ms upload_id part_number sha256 (int (length content))
                                     (quoted sha256)) w) (\<lambda>_ w.
          (w, Inr (quoted sha256)))))"

text \<open>The keys of the listed parts, in the order of the request.\<close>

fun service_match_parts :: "MultipartPartInfo list \<Rightarrow> (int \<times> string) list \<Rightarrow> string list Result" where
  "service_match_parts stored_parts [] = Inr []"
| "service_match_parts stored_parts ((part_num, etag) # parts) =
     (case find (\<lambda>s. mp_part_number s = part_num) stored_parts of
        None \<Rightarrow> Err NoSuchKey (''Part not found: '' @ int_to_string part_num)
      | Some s \<Rightarrow>
          if mp_etag s \<noteq> etag then Err InvalidArgument (''ETag mismatch for part '' @ int_to_string part_num)
          else case service_match_parts stored_parts parts of Inl e \<Rightarrow> Inl e | Inr keys \<Rightarrow> Inr (mp_sha256_hash s # keys))"

definition MultipartService_CompleteMultipartUpload ::
    "('d, 'r) Api \<Rightarrow> string \<Rightarrow> (int \<times> string) list \<Rightarrow> ('d, 'r) World \<Rightarrow> ('d, 'r) World \<times> string Result" where
  "MultipartService_CompleteMultipartUpload api upload_id parts w =
     or_return (MultipartService_GetMultipartUpload api upload_id w) (\<lambda>upload w.
     or_return (MultipartService_ListParts api upload_id 0 1000 w) (\<lambda>parts_result w.
     let stored_parts = lp_parts parts_result; total_size = sum_list (map mp_size stored_parts)
     in if length parts \<noteq> length stored_parts then (w, Err InvalidArgument ''Part count mismatch'')
        else or_return (w, service_match_parts stored_parts parts) (\<lambda>cas_keys w.
             or_return (data_op (\<lambda>fs. DataStore_Merge (ap_store api) (ap_ds api) fs (ap_uuid api 3) cas_keys) w) (\<lambda>final_sha256 w.
             or_return (meta_op (\<lambda>ms. MetaStore_RegisterCasBlob (ap_meta api) ms final_sha256 total_size) w) (\<lambda>_ w.
             or_return (meta_op (\<lambda>ms. MetaStore_PutObject (ap_meta api) ms (mu_bucket_id upload) (mu_key upload) total_size
                                        (quoted final_sha256) (mu_content_type upload) final_sha256) w) (\<lambda>_ w.
             (fst (meta_op (\<lambda>ms. MetaStore_CompleteMultipartUpload (ap_meta api) ms upload_id) w), Inr final_sha256)))))))"

fun service_release_parts :: "('d, 'r) Api \<Rightarrow> MultipartPartInfo list \<Rightarrow> ('d, 'r) World \<Rightarrow> ('d, 'r) World" where
  "service_release_parts api [] w = w"
| "service_release_parts api (part # parts) w =
     service_release_parts api parts (fst (meta_op (\<lambda>ms. MetaStore_DecrementRefCount (ap_meta api) ms (mp_sha256_hash part)) w))"

definition MultipartService_AbortMultipartUpload ::
    "('d, 'r) Api \<Rightarrow> string \<Rightarrow> ('d, 'r) World \<Rightarrow> ('d, 'r) World \<times> unit Result" where
  "MultipartService_AbortMultipartUpload api upload_id w =
     (let w = (case MultipartService_ListParts api upload_id 0 1000 w of
                 (w, Inr parts_result) \<Rightarrow> service_release_parts api (lp_parts parts_result) w
               | (w, Inl _) \<Rightarrow> w)
      in meta_op (\<lambda>ms. MetaStore_AbortMultipartUpload (ap_meta api) ms upload_id) w)"

section \<open>Lemmas\<close>

text \<open>An accepted range is a non-empty interval inside the object.\<close>

lemma clamp_range_within:
  "clamp_range sz rstart rend = Inr (a, b) \<Longrightarrow> a = rstart \<and> 0 \<le> a \<and> a \<le> b \<and> b < sz \<and> (0 \<le> rend \<and> rend < sz \<longrightarrow> b = rend)"
  by (auto simp: clamp_range_def Let_def Err_def split: if_splits)

lemma clamp_range_accepts: "(\<exists>r. clamp_range sz rstart rend = Inr r) \<longleftrightarrow> 0 \<le> rstart \<and> rstart < sz \<and> (0 \<le> rend \<longrightarrow> rstart \<le> rend)"
  by (auto simp: clamp_range_def Let_def Err_def)

text \<open>The request may name a part twice and leave another one out: only the number of parts is compared.\<close>

lemma service_match_parts_duplicate:
  assumes "mp_part_number a = 1" "mp_part_number b = 2"
  shows "service_match_parts [a, b] [(1, mp_etag a), (1, mp_etag a)] = Inr [mp_sha256_hash a, mp_sha256_hash a]"
  using assms by simp

lemma service_match_parts_keys:
  "service_match_parts stored_parts parts = Inr keys \<Longrightarrow>
   list_all2 (\<lambda>(n, etag) k. \<exists>s \<in> set stored_parts. mp_part_number s = n \<and> mp_etag s = etag \<and> mp_sha256_hash s = k) parts keys"
proof (induction stored_parts parts arbitrary: keys rule: service_match_parts.induct)
  case (2 stored_parts n etag parts)
  then obtain s ks where s: "find (\<lambda>s. mp_part_number s = n) stored_parts = Some s" "mp_etag s = etag" "service_match_parts stored_parts parts = Inr ks"
    "keys = mp_sha256_hash s # ks" by (auto simp: Err_def split: option.splits if_splits sum.splits)
  moreover have "s \<in> set stored_parts" "mp_part_number s = n" using s(1) by (auto simp: find_Some_iff)
  ultimately show ?case using 2(1) [OF s(1)] by auto
qed simp

end
