(* ===== verification/Fs_Helpers.thy ===== *)
theory Fs_Helpers
  imports File_System Crypto_Uuid
begin

text \<open>
  The rest of \<^verbatim>\<open>src/src/util/fs.cpp\<close> and \<^verbatim>\<open>src/src/util/crypto.cpp\<close>, which the server does not call: removal of a directory
  tree, free space, path checks, temporary files that remove themselves, and the digest of a file. \<open>DirectoryExists\<close> and
  the directories that \<open>CreateDirectories\<close> makes are modelled on a file system with directories. \<open>std::filesystem::weakly_canonical\<close> follows
  symbolic links of the disk and is a parameter, as are the text of an exception and the answer of \<open>statvfs\<close>.
\<close>

section \<open>Paths and directories\<close>

definition below :: "string \<Rightarrow> string \<Rightarrow> bool" where
  "below path p \<longleftrightarrow> p = path \<or> prefix (path @ ''/'') p"

definition FileSystem_RemoveDirectory :: "(nat \<Rightarrow> string) \<Rightarrow> FileSys \<Rightarrow> string \<Rightarrow> FileSys \<times> Status" where
  "FileSystem_RemoveDirectory what fs path =
     (case sys_call fs of
        (fs, Inl e) \<Rightarrow> (fs, Status_Error StorageError (''Failed to remove directory: '' @ what e))
      | (fs, Inr _) \<Rightarrow> (fs\<lparr>fs_files := (\<lambda>p. if below path p then None else fs_files fs p)\<rparr>, Status_OK))"

text \<open>Files and directories together.\<close>

record DirTree =
  dt_fs :: FileSys
  dt_dirs :: "string \<Rightarrow> bool"

definition create_directories :: "(nat \<Rightarrow> string) \<Rightarrow> DirTree \<Rightarrow> string \<Rightarrow> DirTree \<times> Status" where
  "create_directories strerror t path =
     (case FileSystem_CreateDirectories strerror (dt_fs t) path of
        (fs, status) \<Rightarrow>
          (t\<lparr>dt_fs := fs, dt_dirs := (if Status_ok status then \<lambda>p. dt_dirs t p \<or> below p path else dt_dirs t)\<rparr>, status))"

definition remove_directory :: "(nat \<Rightarrow> string) \<Rightarrow> DirTree \<Rightarrow> string \<Rightarrow> DirTree \<times> Status" where
  "remove_directory what t path =
     (case FileSystem_RemoveDirectory what (dt_fs t) path of
        (fs, status) \<Rightarrow>
          (t\<lparr>dt_fs := fs, dt_dirs := (if Status_ok status then \<lambda>p. dt_dirs t p \<and> \<not> below path p else dt_dirs t)\<rparr>, status))"

text \<open>\<open>stat\<close> may fail for other reasons than absence.\<close>

definition FileSystem_DirectoryExists :: "DirTree \<Rightarrow> string \<Rightarrow> DirTree \<times> bool" where
  "FileSystem_DirectoryExists t path =
     (case sys_call (dt_fs t) of
        (fs, Inl _) \<Rightarrow> (t\<lparr>dt_fs := fs\<rparr>, False)
      | (fs, Inr _) \<Rightarrow> (t\<lparr>dt_fs := fs\<rparr>, dt_dirs t path))"

text \<open>\<open>answer\<close>: the error number of \<open>statvfs\<close>, or \<open>f_bavail\<close> and \<open>f_frsize\<close>.\<close>

definition FileSystem_GetAvailableSpace :: "(nat \<Rightarrow> string) \<Rightarrow> nat + nat \<times> nat \<Rightarrow> size_t Result" where
  "FileSystem_GetAvailableSpace strerror answer =
     (case answer of
        Inl e \<Rightarrow> Err StorageError (''Failed to get available space: '' @ strerror e)
      | Inr (bavail, frsize) \<Rightarrow> Inr ((bavail * frsize) mod size_bound))"

definition FileSystem_NormalizePath :: "(string \<Rightarrow> string) \<Rightarrow> string \<Rightarrow> string" where
  "FileSystem_NormalizePath canonical path = canonical path"

definition FileSystem_IsPathSafe :: "(string \<Rightarrow> string) \<Rightarrow> string \<Rightarrow> string \<Rightarrow> bool" where
  "FileSystem_IsPathSafe canonical base_path path =
     (let base = canonical base_path; full = canonical (FileSystem_JoinPath base_path path)
      in if length full < length base then False else take (length base) full = base)"

section \<open>Temporary files\<close>

record TempFile =
  tf_path :: string
  tf_fd :: bool

definition TempFile_new ::
    "(nat \<Rightarrow> string) \<Rightarrow> string \<Rightarrow> FileSys \<Rightarrow> string \<Rightarrow> string \<Rightarrow> FileSys \<times> (string + TempFile)" where
  "TempFile_new strerror uuid fs dir pre =
     (let fs = fst (FileSystem_CreateDirectories strerror fs dir);
          path = FileSystem_JoinPath dir (pre @ uuid)
      in case sys_create fs path of
           (fs, Inl e) \<Rightarrow> (fs, Inl (''Failed to create temp file: '' @ strerror e))
         | (fs, Inr _) \<Rightarrow> (fs, Inr \<lparr>tf_path = path, tf_fd = True\<rparr>))"

definition TempFile_destroy :: "FileSys \<Rightarrow> TempFile \<Rightarrow> FileSys" where
  "TempFile_destroy fs t = (if tf_path t \<noteq> '''' then fst (sys_unlink fs (tf_path t)) else fs)"

text \<open>Moving: the new value and the emptied one. Assignment first drops what the target had.\<close>

definition TempFile_move :: "TempFile \<Rightarrow> TempFile \<times> TempFile" where
  "TempFile_move other = (other, \<lparr>tf_path = '''', tf_fd = False\<rparr>)"

definition TempFile_assign :: "FileSys \<Rightarrow> TempFile \<Rightarrow> TempFile \<Rightarrow> FileSys \<times> TempFile \<times> TempFile" where
  "TempFile_assign fs t other = (TempFile_destroy fs t, TempFile_move other)"

definition TempFile_Release :: "TempFile \<Rightarrow> TempFile \<times> string" where
  "TempFile_Release t = (t\<lparr>tf_path := ''''\<rparr>, tf_path t)"

definition TempFile_Close :: "TempFile \<Rightarrow> TempFile" where
  "TempFile_Close t = t\<lparr>tf_fd := False\<rparr>"

section \<open>Digest of a file\<close>

function digest_chunks :: "SHA256Context \<Rightarrow> string \<Rightarrow> SHA256Context" where
  "digest_chunks ctx content =
     (if content = [] then ctx else digest_chunks (SHA256Context_Update ctx (take 65536 content)) (drop 65536 content))"
  by pat_completeness auto
termination by (relation "measure (\<lambda>(ctx, content). length content)") auto

declare digest_chunks.simps [simp del]

definition Crypto_SHA256File :: "(string \<Rightarrow> 8 word list) \<Rightarrow> FileSys \<Rightarrow> string \<Rightarrow> string + string" where
  "Crypto_SHA256File sha fs filepath =
     (case fs_files fs filepath of
        None \<Rightarrow> Inl (''Failed to open file: '' @ filepath)
      | Some content \<Rightarrow> Inr (SHA256Context_Final sha (digest_chunks SHA256Context_new content)))"

section \<open>Lemmas\<close>

lemma digest_chunks_data: "sha_data (digest_chunks ctx content) = sha_data ctx @ content"
proof (induction ctx content rule: digest_chunks.induct)
  case (1 ctx content)
  then show ?case by (subst digest_chunks.simps) simp
qed

text \<open>A directory that was created with its parents exists, until it or one of its parents is removed.\<close>

lemma created_exists:
  assumes "create_directories se t path = (t', st)" "Status_ok st" "below p path" "fs_script (dt_fs t') = []"
  shows "snd (FileSystem_DirectoryExists t' p)"
  using assms by (auto simp: create_directories_def FileSystem_DirectoryExists_def sys_call_def next_outcome_def split: prod.splits)

lemma removed_not_exists:
  assumes "remove_directory what t path = (t', st)" "Status_ok st" "below path p"
  shows "\<not> snd (FileSystem_DirectoryExists t' p) \<and> fs_files (dt_fs t') p = None"
  using assms by (auto simp: remove_directory_def FileSystem_DirectoryExists_def FileSystem_RemoveDirectory_def split: prod.splits sum.splits)

text \<open>Reading in chunks makes no difference to the digest.\<close>

lemma SHA256File_whole: "fs_files fs p = Some c \<Longrightarrow> Crypto_SHA256File sha fs p = Inr (Crypto_SHA256 sha c)"
  by (simp add: Crypto_SHA256File_def digest_chunks_data)

text \<open>The check compares texts, not path components: a sibling of the base whose name begins with the name of the
  base counts as safe.\<close>

lemma IsPathSafe_prefix: "FileSystem_IsPathSafe canonical base path \<longleftrightarrow> prefix (canonical base) (canonical (FileSystem_JoinPath base path))"
proof -
  have "prefix b f \<longleftrightarrow> \<not> length f < length b \<and> take (length b) f = b" for b f :: string
    by (metis append_eq_conv_conj not_less prefix_def prefix_length_le)
  then show ?thesis by (simp add: FileSystem_IsPathSafe_def Let_def)
qed

lemma IsPathSafe_sibling:
  assumes "canonical ''/data'' = ''/data''" "canonical ''/data/../data-old/x'' = ''/data-old/x''"
  shows "FileSystem_IsPathSafe canonical ''/data'' ''../data-old/x''"
  using assms by (simp add: FileSystem_IsPathSafe_def FileSystem_JoinPath_def)

text \<open>A temporary file is gone after its destructor, unless it was released.\<close>

lemma TempFile_cleans_up:
  assumes "fs_script fs = []" "fs_files fs (FileSystem_JoinPath dir (pre @ uuid)) = None" "FileSystem_JoinPath dir (pre @ uuid) \<noteq> ''''"
  shows "\<exists>fs' t. TempFile_new strerror uuid fs dir pre = (fs', Inr t) \<and> fs_files fs' (tf_path t) = Some [] \<and>
    fs_files (TempFile_destroy fs' t) = fs_files fs \<and> TempFile_destroy fs' (fst (TempFile_Release t)) = fs'"
  using assms
  by (auto simp: TempFile_new_def TempFile_destroy_def TempFile_Release_def FileSystem_CreateDirectories_def sys_call_def
      sys_create_def sys_unlink_def next_outcome_def Let_def)

end
