(* ===== verification/Mysql_Tx.thy ===== *)
theory Mysql_Tx
  imports Mysql_Pool
begin

text \<open>
  \<^verbatim>\<open>src/src/db/mysql_tx.{h,cpp}\<close> over a connection of the pool: the transaction object, which rolls back when it is
  dropped unfinished, and \<open>TransactionScope\<close>, which runs an action in one. (\<open>Meta_Store\<close> has the same object at the
  level of its statement type.) The action is a parameter; it may throw.
\<close>

section \<open>Transactions\<close>

record TransactionObject =
  to_conn :: "MySQLConnection option"
  to_finished :: bool

definition conn_valid :: "TransactionObject \<Rightarrow> bool" where
  "conn_valid t = (case to_conn t of None \<Rightarrow> False | Some c \<Rightarrow> MySQLConnection_IsValid c)"

text \<open>A statement on the connection of the transaction.\<close>

definition run_sql :: "('d, 'res) MysqlLib \<Rightarrow> TransactionObject \<Rightarrow> 'd \<Rightarrow> string \<Rightarrow> 'd \<times> bool" where
  "run_sql lib t d sql = (case to_conn t of None \<Rightarrow> (d, False) | Some c \<Rightarrow> MySQLConnection_Execute lib c d sql)"

definition TransactionObject_new :: "('d, 'res) MysqlLib \<Rightarrow> MySQLConnection option \<Rightarrow> 'd \<Rightarrow> 'd \<times> TransactionObject" where
  "TransactionObject_new lib conn d =
     (let t = \<lparr>to_conn = conn, to_finished = False\<rparr>
      in (if conn_valid t then fst (run_sql lib t d ''START TRANSACTION'') else d, t))"

definition TransactionObject_Commit :: "('d, 'res) MysqlLib \<Rightarrow> TransactionObject \<Rightarrow> 'd \<Rightarrow> 'd \<times> TransactionObject \<times> bool" where
  "TransactionObject_Commit lib t d =
     (if to_finished t then (d, t, False)
      else let t = t\<lparr>to_finished := True\<rparr>
           in if conn_valid t then (case run_sql lib t d ''COMMIT'' of (d, ok) \<Rightarrow> (d, t, ok)) else (d, t, False))"

definition TransactionObject_Rollback :: "('d, 'res) MysqlLib \<Rightarrow> TransactionObject \<Rightarrow> 'd \<Rightarrow> 'd \<times> TransactionObject" where
  "TransactionObject_Rollback lib t d =
     (if to_finished t then (d, t)
      else let t = t\<lparr>to_finished := True\<rparr>
           in (if conn_valid t then fst (run_sql lib t d ''ROLLBACK'') else d, t))"

definition TransactionObject_destroy :: "('d, 'res) MysqlLib \<Rightarrow> TransactionObject \<Rightarrow> 'd \<Rightarrow> 'd" where
  "TransactionObject_destroy lib t d =
     (if \<not> to_finished t \<and> conn_valid t then fst (TransactionObject_Rollback lib t d) else d)"

definition TransactionObject_Execute :: "('d, 'res) MysqlLib \<Rightarrow> TransactionObject \<Rightarrow> 'd \<Rightarrow> string \<Rightarrow> 'd \<times> bool" where
  "TransactionObject_Execute lib t d sql = (if to_finished t then (d, False) else run_sql lib t d sql)"

definition TransactionObject_Query :: "('d, 'res) MysqlLib \<Rightarrow> TransactionObject \<Rightarrow> 'd \<Rightarrow> string \<Rightarrow> 'd \<times> 'res option" where
  "TransactionObject_Query lib t d sql =
     (if to_finished t then (d, None)
      else case to_conn t of None \<Rightarrow> (d, None) | Some c \<Rightarrow> MySQLConnection_Query lib c d sql)"

section \<open>Scopes\<close>

text \<open>The action works on the transaction: \<open>Inl\<close> is the text of an exception. The result is the error text (empty on
  success). The connection goes back to the pool after the transaction object is gone.\<close>

type_synonym 'd TxAction = "TransactionObject \<Rightarrow> 'd \<Rightarrow> 'd \<times> TransactionObject \<times> (string + bool)"

definition scope_body ::
    "('d, 'res) MysqlLib \<Rightarrow> 'd TxAction \<Rightarrow> MySQLConnection \<Rightarrow> 'd \<Rightarrow> 'd \<times> (string + unit)" where
  "scope_body lib action conn d =
     (case TransactionObject_new lib (Some conn) d of
        (d, tx) \<Rightarrow>
          (case action tx d of
             (d, tx, Inl what) \<Rightarrow> (TransactionObject_destroy lib tx d, Inl (''Transaction exception: '' @ what))
           | (d, tx, Inr False) \<Rightarrow> (TransactionObject_destroy lib tx d, Inl ''Transaction action returned false'')
           | (d, tx, Inr True) \<Rightarrow>
               (case TransactionObject_Commit lib tx d of
                  (d, tx, ok) \<Rightarrow>
                    (TransactionObject_destroy lib tx d, if ok then Inr () else Inl ''Failed to commit transaction''))))"

definition TransactionScope_Execute ::
    "('d, 'res) MysqlLib \<Rightarrow> 'd TxAction \<Rightarrow> MySQLPool \<Rightarrow> 'd \<Rightarrow> 'd \<times> MySQLPool \<times> (string + unit) Wait" where
  "TransactionScope_Execute lib action p d =
     (case MySQLPool_GetConnection lib (- 1) p d of
        (d, p, Blocked) \<Rightarrow> (d, p, Blocked)
      | (d, p, Returned None) \<Rightarrow> (d, p, Returned (Inl ''Failed to acquire connection from pool''))
      | (d, p, Returned (Some conn)) \<Rightarrow>
          (case scope_body lib action conn d of
             (d, r) \<Rightarrow> (case MySQLPool_ReturnConnection lib p d conn of (d, p) \<Rightarrow> (d, p, Returned r))))"

section \<open>Lemmas\<close>

lemma Commit_finishes: "TransactionObject_Commit lib t d = (d', t', ok) \<Longrightarrow> to_finished t'"
  by (auto simp: TransactionObject_Commit_def Let_def split: if_splits prod.splits)

lemma destroy_finished [simp]: "to_finished t \<Longrightarrow> TransactionObject_destroy lib t d = d"
  by (simp add: TransactionObject_destroy_def)

text \<open>A second end of a transaction sends nothing, and a finished transaction runs no statements.\<close>

lemma finished_inert:
  assumes "to_finished t"
  shows "TransactionObject_Commit lib t d = (d, t, False)" "TransactionObject_Rollback lib t d = (d, t)"
    "TransactionObject_Execute lib t d sql = (d, False)" "TransactionObject_Query lib t d sql = (d, None)"
  using assms by (simp_all add: TransactionObject_Commit_def TransactionObject_Rollback_def TransactionObject_Execute_def TransactionObject_Query_def)

text \<open>A scope whose action leaves the transaction open ends it with exactly one statement: a commit when the action
  succeeds, a rollback when it fails or throws.\<close>

lemma scope_ends:
  assumes c: "mc_mysql conn = Some h" and a: "action \<lparr>to_conn = Some conn, to_finished = False\<rparr> (fst (ml_real_query lib d h ''START TRANSACTION'')) =
      (d1, \<lparr>to_conn = Some conn, to_finished = False\<rparr>, r)"
  shows "scope_body lib action conn d =
    (if r = Inr True
     then (case ml_real_query lib d1 h ''COMMIT'' of (d', ok) \<Rightarrow> (d', if ok then Inr () else Inl ''Failed to commit transaction''))
     else (fst (ml_real_query lib d1 h ''ROLLBACK''),
           Inl (case r of Inl what \<Rightarrow> ''Transaction exception: '' @ what | Inr _ \<Rightarrow> ''Transaction action returned false'')))"
proof -
  have v: "conn_valid \<lparr>to_conn = Some conn, to_finished = f\<rparr>" for f using c by (simp add: conn_valid_def MySQLConnection_IsValid_def)
  have q: "run_sql lib \<lparr>to_conn = Some conn, to_finished = f\<rparr> d sql = ml_real_query lib d h sql" for f d sql
    using c by (simp add: run_sql_def MySQLConnection_Execute_def)
  have n: "TransactionObject_new lib (Some conn) d = (fst (ml_real_query lib d h ''START TRANSACTION''), \<lparr>to_conn = Some conn, to_finished = False\<rparr>)"
    by (simp add: TransactionObject_new_def v q)
  show ?thesis
    by (cases r)
       (auto simp: scope_body_def n a TransactionObject_Commit_def TransactionObject_Rollback_def TransactionObject_destroy_def v q
         split: prod.splits bool.splits)
qed

end
