(* ===== verification/Gc_Overlap.thy ===== *)
theory Gc_Overlap
  imports Data_Safety "HOL-Library.Multiset"
begin

text \<open>
  The collector next to running uploads, at the granularity of single calls. \<open>gc_step\<close> cuts the body of the
  loop in \<open>GarbageCollector::ProcessBatch\<close> (with the callback of \<^verbatim>\<open>server/server.cpp\<close>) at every database call and every
  change of a file; run without interruption it is \<open>gc_process_key\<close>. The relation \<open>overlap\<close> interleaves these
  steps with the steps of upload sessions, with the commits of uploads, with the transactions that record them and with
  the cleanup of refused uploads. An upload is in flight from its commit until its transaction.
  The theorems say under which condition on the schedule no referenced content is lost, and what happens otherwise.
\<close>

section \<open>The steps of the collector\<close>

text \<open>Where the collector is in its work on a key with the identifier of its quarantine file.\<close>

datatype GcPc =
    Gc_start string string
  | Gc_checked string string
  | Gc_found string string
  | Gc_second string string bool
  | Gc_restore string string GcOutcome
  | Gc_remove string string
  | Gc_call string bool
  | Gc_forget string
  | Gc_done GcOutcome

definition quarantine_path :: "DataStore \<Rightarrow> string \<Rightarrow> string \<Rightarrow> string" where
  "quarantine_path ds cas_key uuid = DataStore_GetFilePath ds cas_key @ ''.gc.'' @ uuid"

text \<open>The last component holds the keys, with their identifiers, that the collector reported as not restored.\<close>

fun gc_step ::
    "('d, 'r) MetaEnv \<Rightarrow> StoreEnv \<Rightarrow> DataStore \<Rightarrow> GcPc \<times> ('d, 'r) MetaStore \<times> FileSys \<times> (string \<times> string) list \<Rightarrow>
     GcPc \<times> ('d, 'r) MetaStore \<times> FileSys \<times> (string \<times> string) list" where
  "gc_step env se ds (Gc_start k u, ms, fs, errs) =
     (case MetaStore_CanDeleteCasBlob env ms k of
        (ms, Inl _) \<Rightarrow> (Gc_done Gc_failed, ms, fs, errs)
      | (ms, Inr reclaimable_before) \<Rightarrow>
          (if reclaimable_before then Gc_checked k u else Gc_done Gc_skipped, ms, fs, errs))"
| "gc_step env se ds (Gc_checked k u, ms, fs, errs) =
     (case FileSystem_FileExists fs (DataStore_GetFilePath ds k) of
        (fs, source_exists) \<Rightarrow> (if source_exists then Gc_found k u else Gc_second k u False, ms, fs, errs))"
| "gc_step env se ds (Gc_found k u, ms, fs, errs) =
     (case FileSystem_AtomicRename (se_strerror se) fs (DataStore_GetFilePath ds k) (quarantine_path ds k u) of
        (fs, rename_status) \<Rightarrow>
          (if Status_ok rename_status then Gc_second k u True else Gc_done Gc_failed, ms, fs, errs))"
| "gc_step env se ds (Gc_second k u renamed, ms, fs, errs) =
     (case MetaStore_CanDeleteCasBlob env ms k of
        (ms, Inl _) \<Rightarrow> (if renamed then Gc_restore k u Gc_failed else Gc_done Gc_failed, ms, fs, errs)
      | (ms, Inr reclaimable_after) \<Rightarrow>
          (if \<not> reclaimable_after then (if renamed then Gc_restore k u Gc_skipped else Gc_done Gc_skipped)
           else if renamed then Gc_remove k u else Gc_call k True, ms, fs, errs))"
| "gc_step env se ds (Gc_restore k u out, ms, fs, errs) =
     (case FileSystem_AtomicRename (se_strerror se) fs (quarantine_path ds k u) (DataStore_GetFilePath ds k) of
        (fs, restore_status) \<Rightarrow>
          if Status_ok restore_status then (Gc_done out, ms, fs, errs) else (Gc_done Gc_failed, ms, fs, (k, u) # errs))"
| "gc_step env se ds (Gc_remove k u, ms, fs, errs) =
     (case FileSystem_RemoveFile (se_strerror se) fs (quarantine_path ds k u) of
        (fs, status) \<Rightarrow> (Gc_call k (Status_ok status), ms, fs, errs))"
| "gc_step env se ds (Gc_call k success, ms, fs, errs) =
     (if success
      then (case MetaStore_CanDeleteCasBlob env ms k of
              (ms, Inl _) \<Rightarrow> (Gc_done Gc_deleted, ms, fs, errs)
            | (ms, Inr can_delete) \<Rightarrow> (if can_delete then Gc_forget k else Gc_done Gc_deleted, ms, fs, errs))
      else (Gc_done Gc_failed, ms, fs, errs))"
| "gc_step env se ds (Gc_forget k, ms, fs, errs) =
     (Gc_done Gc_deleted, fst (MetaStore_DeleteCasBlob env ms k), fs, errs)"
| "gc_step env se ds (Gc_done out, ms, fs, errs) = (Gc_done out, ms, fs, errs)"

lemmas gc_reclaim_alt = gc_reclaim_def [unfolded Let_def, folded quarantine_path_def]

lemmas gc_quarantine_alt = gc_quarantine_def [unfolded Let_def, folded quarantine_path_def]

lemma gc_step_done [simp]: "(gc_step env se ds ^^ n) (Gc_done out, ms, fs, errs) = (Gc_done out, ms, fs, errs)"
  by (induction n) simp_all

text \<open>Without interruption the steps are the work on a key: first the second half, from the second check on.\<close>

lemma gc_steps_callback:
  "fst ((gc_step env se ds ^^ 2) (Gc_call k success, ms, fs, errs)) = Gc_done (if success then Gc_deleted else Gc_failed)"
  "snd ((gc_step env se ds ^^ 2) (Gc_call k success, ms, fs, errs)) = (gc_delete_callback env ms k success, fs, errs)"
  by (auto simp: numeral_2_eq_2 gc_delete_callback_def split: prod.split sum.split bool.split)

lemma gc_steps_reclaim:
  "\<exists>errs' out. (gc_step env se ds ^^ 4) (Gc_second k u renamed, ms, fs, errs) =
     (Gc_done out, fst (gc_reclaim env se ds (Some (gc_delete_callback env)) k u renamed ms fs),
      fst (snd (gc_reclaim env se ds (Some (gc_delete_callback env)) k u renamed ms fs)), errs') \<and>
     out = snd (snd (gc_reclaim env se ds (Some (gc_delete_callback env)) k u renamed ms fs))"
proof -
  obtain ms1 r where c: "MetaStore_CanDeleteCasBlob env ms k = (ms1, r)" by (cases "MetaStore_CanDeleteCasBlob env ms k")
  obtain f st where rn: "FileSystem_AtomicRename (se_strerror se) fs (quarantine_path ds k u) (DataStore_GetFilePath ds k) = (f, st)"
    by (cases "FileSystem_AtomicRename (se_strerror se) fs (quarantine_path ds k u) (DataStore_GetFilePath ds k)")
  obtain g st' where rm: "FileSystem_RemoveFile (se_strerror se) fs (quarantine_path ds k u) = (g, st')"
    by (cases "FileSystem_RemoveFile (se_strerror se) fs (quarantine_path ds k u)")
  have n: "(gc_step env se ds ^^ 4) x = (gc_step env se ds ^^ 2) (gc_step env se ds (gc_step env se ds x))"
    "(gc_step env se ds ^^ 4) x = (gc_step env se ds ^^ 1) ((gc_step env se ds ^^ 2) (gc_step env se ds x))" for x
    by (simp_all add: eval_nat_numeral)
  note cb = prod_eqI [of "(gc_step env se ds ^^ 2) (Gc_call k b, ms1, fs', errs)" "(Gc_done (if b then Gc_deleted else Gc_failed), gc_delete_callback env ms1 k b, fs', errs)" for b fs',
      unfolded fst_conv snd_conv, OF gc_steps_callback]
  note [simp] = c rn rm and [simp del] = funpow.simps
  show ?thesis
  proof (cases "r = Inr True \<and> \<not> renamed")
    case True
    then show ?thesis by (simp add: n(2) cb gc_reclaim_alt Status_ok_def Status_OK_def)
  next
    case False
    then show ?thesis
      by (cases r) (auto simp: n(1) cb gc_reclaim_alt)
  qed
qed

lemma gc_steps_process_key:
  "\<exists>errs'. (gc_step env se ds ^^ 7) (Gc_start k u, ms, fs, errs) =
     (case gc_process_key env se ds (Some (gc_delete_callback env)) k u ms fs of (ms', fs', out) \<Rightarrow> (Gc_done out, ms', fs', errs'))"
proof -
  have n: "(gc_step env se ds ^^ 7) x = (gc_step env se ds ^^ 4) (gc_step env se ds (gc_step env se ds (gc_step env se ds x)))"
    "(gc_step env se ds ^^ 7) x = gc_step env se ds ((gc_step env se ds ^^ 4) (gc_step env se ds (gc_step env se ds x)))" for x
    by (simp_all add: eval_nat_numeral)
  obtain ms1 r where c: "MetaStore_CanDeleteCasBlob env ms k = (ms1, r)" by (cases "MetaStore_CanDeleteCasBlob env ms k")
  obtain f ex where e: "FileSystem_FileExists fs (DataStore_GetFilePath ds k) = (f, ex)"
    by (cases "FileSystem_FileExists fs (DataStore_GetFilePath ds k)")
  obtain g st where rn: "FileSystem_AtomicRename (se_strerror se) f (DataStore_GetFilePath ds k) (quarantine_path ds k u) = (g, st)"
    by (cases "FileSystem_AtomicRename (se_strerror se) f (DataStore_GetFilePath ds k) (quarantine_path ds k u)")
  note [simp] = c e rn and [simp del] = funpow.simps
  note sec = gc_steps_reclaim [of env se ds k u]
  show ?thesis
  proof (cases "r = Inr True \<and> \<not> ex")
    case True
    with sec [of False ms1 f errs] show ?thesis
      by (auto simp: n(2) gc_process_key_def gc_quarantine_alt split: prod.split)
  next
    case False
    with sec [of True ms1 g errs] show ?thesis
      by (cases r; cases "gc_reclaim env se ds (Some (gc_delete_callback env)) k u True ms1 g") (auto simp: n(1) gc_process_key_def gc_quarantine_alt split: prod.split)
  qed
qed

section \<open>Uploads next to the collector\<close>

record ('d, 'r) Sys =
  sy_ms :: "('d, 'r) MetaStore"
  sy_store :: StoreSys
  sy_gc :: GcPc
  sy_errs :: "(string \<times> string) list"
  sy_inflight :: "string multiset"
  sy_cleaning :: "string multiset"

abbreviation sy_fs :: "('d, 'r) Sys \<Rightarrow> FileSys" where
  "sy_fs s \<equiv> ss_fs (sy_store s)"

text \<open>Steps of sessions that do not touch the store proper; the last rule lets the outcome of later calls vary.\<close>

inductive session_step :: "StoreEnv \<Rightarrow> DataStore \<Rightarrow> StoreSys \<Rightarrow> StoreSys \<Rightarrow> bool" for env ds where
  Begin: "ss_sessions S i = None \<Longrightarrow> DataStore_BeginWrite env ds (ss_fs S) u = (fs, Inr w) \<Longrightarrow>
    session_step env ds S \<lparr>ss_fs = fs, ss_sessions = (ss_sessions S)(i \<mapsto> w)\<rparr>"
| Begin_failed: "DataStore_BeginWrite env ds (ss_fs S) u = (fs, Inl e) \<Longrightarrow> session_step env ds S (S\<lparr>ss_fs := fs\<rparr>)"
| Chunk: "ss_sessions S i = Some w \<Longrightarrow> WriteSession_Write env (ss_fs S) w data = (fs, w', st) \<Longrightarrow> Status_ok st \<Longrightarrow>
    session_step env ds S \<lparr>ss_fs = fs, ss_sessions = (ss_sessions S)(i \<mapsto> w')\<rparr>"
| Chunk_failed: "ss_sessions S i = Some w \<Longrightarrow> WriteSession_Write env (ss_fs S) w data = (fs, w', st) \<Longrightarrow> \<not> Status_ok st \<Longrightarrow>
    session_step env ds S \<lparr>ss_fs = WriteSession_destroy fs w', ss_sessions = (ss_sessions S)(i := None)\<rparr>"
| Abort: "ss_sessions S i = Some w \<Longrightarrow>
    session_step env ds S \<lparr>ss_fs = WriteSession_destroy (ss_fs S) w, ss_sessions = (ss_sessions S)(i := None)\<rparr>"
| Faults: "session_step env ds S (S\<lparr>ss_fs := (ss_fs S)\<lparr>fs_script := script\<rparr>\<rparr>)"

text \<open>The other operations of requests on the metadata.\<close>

inductive meta_call :: "('d, 'r) MetaEnv \<Rightarrow> ('d, 'r) MetaStore \<Rightarrow> ('d, 'r) MetaStore \<Rightarrow> bool" for env where
  "MetaStore_CreateBucket env now ms name owner region acl = (ms', r1) \<Longrightarrow> meta_call env ms ms'"
| "MetaStore_GetBucket env ms name = (ms', r2) \<Longrightarrow> meta_call env ms ms'"
| "MetaStore_ListBuckets env ms owner = (ms', r3) \<Longrightarrow> meta_call env ms ms'"
| "MetaStore_DeleteBucket env ms name = (ms', r4) \<Longrightarrow> meta_call env ms ms'"
| "MetaStore_IsBucketEmpty env ms b = (ms', r5) \<Longrightarrow> meta_call env ms ms'"
| "MetaStore_GetObject env now ms b k = (ms', r6) \<Longrightarrow> meta_call env ms ms'"
| "MetaStore_ListObjects env ms b pre delim after maxk = (ms', r7) \<Longrightarrow> meta_call env ms ms'"
| "MetaStore_CreateMultipartUpload env ms u b k ct owner ex = (ms', r8) \<Longrightarrow> meta_call env ms ms'"
| "MetaStore_GetMultipartUpload env ms u = (ms', r9) \<Longrightarrow> meta_call env ms ms'"
| "MetaStore_ListParts env ms u marker maxp = (ms', r10) \<Longrightarrow> meta_call env ms ms'"
| "MetaStore_CheckIdempotency env now ms ik = (ms', r11) \<Longrightarrow> meta_call env ms ms'"
| "MetaStore_RecordIdempotency env now ms ik rh st body ttl = (ms', r12) \<Longrightarrow> meta_call env ms ms'"
| "MetaStore_DeleteObjectWithRefCount env ms b k = (ms', r13) \<Longrightarrow> meta_call env ms ms'"

definition committed :: "string Result \<Rightarrow> string multiset" where
  "committed r = (case r of Inl _ \<Rightarrow> {#} | Inr k \<Rightarrow> {#k#})"

definition unreferenced :: "CasBlobInfo Result \<Rightarrow> bool" where
  "unreferenced r = (case r of Inl e \<Rightarrow> st_code e = NoSuchKey | Inr info \<Rightarrow> ci_ref_count info = 0)"

text \<open>A thread of the server makes one call. An upload that was committed is recorded as an object or as a part, or
  given up; giving up may include \<open>CleanupUnreferencedCas\<close>, which looks at the count and then deletes the file.
  The collector may take any key, with an identifier whose quarantine file does not exist.\<close>

inductive overlap :: "('d, 'r) Api \<Rightarrow> ('d, 'r) Sys \<Rightarrow> ('d, 'r) Sys \<Rightarrow> bool" for api where
  Take: "sy_gc s = Gc_done out \<Longrightarrow> CasLayout_IsValidCasKey k \<Longrightarrow> UUID_IsValid u \<Longrightarrow>
    fs_files (sy_fs s) (quarantine_path (ap_ds api) k u) = None \<Longrightarrow> overlap api s (s\<lparr>sy_gc := Gc_start k u\<rparr>)"
| Collect: "gc_step (ap_meta api) (ap_store api) (ap_ds api) (sy_gc s, sy_ms s, sy_fs s, sy_errs s) = (pc, ms, fs, errs) \<Longrightarrow>
    overlap api s (s\<lparr>sy_gc := pc, sy_ms := ms, sy_store := (sy_store s)\<lparr>ss_fs := fs\<rparr>, sy_errs := errs\<rparr>)"
| Session: "session_step (ap_store api) (ap_ds api) (sy_store s) S \<Longrightarrow> overlap api s (s\<lparr>sy_store := S\<rparr>)"
| Commit: "ss_sessions (sy_store s) i = Some w \<Longrightarrow>
    DataStore_CommitWrite (ap_store api) (ap_ds api) (sy_fs s) w expected = (fs, r) \<Longrightarrow>
    overlap api s (s\<lparr>sy_store := \<lparr>ss_fs = fs, ss_sessions = (ss_sessions (sy_store s))(i := None)\<rparr>,
      sy_inflight := sy_inflight s + committed r\<rparr>)"
| Write: "DataStore_Write (ap_store api) (ap_ds api) (sy_fs s) u data = (fs, r) \<Longrightarrow>
    overlap api s (s\<lparr>sy_store := (sy_store s)\<lparr>ss_fs := fs\<rparr>, sy_inflight := sy_inflight s + committed r\<rparr>)"
| Record_object: "k \<in># sy_inflight s \<Longrightarrow>
    MetaStore_PutObjectWithRefCount (ap_meta api) now (sy_ms s) b key sz etag ct k = (ms, r) \<Longrightarrow>
    overlap api s (s\<lparr>sy_ms := ms, sy_inflight := (if isl r then sy_inflight s else sy_inflight s - {#k#})\<rparr>)"
| Record_part: "k \<in># sy_inflight s \<Longrightarrow>
    MetaStore_PutPartWithRefCount (ap_meta api) (sy_ms s) uid n k sz etag = (ms, q) \<Longrightarrow>
    overlap api s (s\<lparr>sy_ms := ms, sy_inflight := (if isl q then sy_inflight s else sy_inflight s - {#k#})\<rparr>)"
| Give_up: "k \<in># sy_inflight s \<Longrightarrow> overlap api s (s\<lparr>sy_inflight := sy_inflight s - {#k#}\<rparr>)"
| Clean_check: "k \<in># sy_inflight s \<Longrightarrow> MetaStore_GetCasBlob (ap_meta api) (sy_ms s) k = (ms, info) \<Longrightarrow>
    overlap api s (s\<lparr>sy_ms := ms, sy_inflight := sy_inflight s - {#k#},
      sy_cleaning := (if unreferenced info then add_mset k (sy_cleaning s) else sy_cleaning s)\<rparr>)"
| Clean_delete: "k \<in># sy_cleaning s \<Longrightarrow> DataStore_Delete (ap_store api) (ap_ds api) (sy_fs s) k = (fs, st) \<Longrightarrow>
    overlap api s (s\<lparr>sy_store := (sy_store s)\<lparr>ss_fs := fs\<rparr>, sy_cleaning := sy_cleaning s - {#k#}\<rparr>)"
| Meta: "meta_call (ap_meta api) (sy_ms s) ms \<Longrightarrow> overlap api s (s\<lparr>sy_ms := ms\<rparr>)"

text \<open>The condition on the schedule: when the collector is about to remove a quarantined file, an upload of the same
  bytes that is in flight has stored them anew; and no upload is in flight while another upload of the same bytes is
  being cleaned up.\<close>

definition orderly :: "('d, 'r) Api \<Rightarrow> ('d, 'r) Sys \<Rightarrow> bool" where
  "orderly api s \<longleftrightarrow>
     (case sy_gc s of Gc_remove k u \<Rightarrow> k \<in># sy_inflight s \<longrightarrow> blob (ap_ds api) (sy_fs s) k \<noteq> None | _ \<Rightarrow> True) \<and>
     set_mset (sy_inflight s) \<inter> set_mset (sy_cleaning s) = {}"

definition started :: "Collation \<Rightarrow> ('d \<Rightarrow> DbState) \<Rightarrow> ('d, 'r) Api \<Rightarrow> ('d, 'r) Sys \<Rightarrow> bool" where
  "started col view api s \<longleftrightarrow>
     data_safe col view api \<lparr>w_ms = sy_ms s, w_fs = sy_fs s, w_gc = None\<rparr> \<and> ss_sessions (sy_store s) = Map.empty \<and>
     sy_gc s = Gc_done Gc_skipped \<and> sy_errs s = [] \<and> sy_inflight s = {#} \<and> sy_cleaning s = {#}"

section \<open>Names of quarantine files\<close>

lemma uuid_length: "UUID_IsValid u \<Longrightarrow> length u = 36"
  by (auto simp: UUID_IsValid_def)

lemma quarantine_inj:
  assumes "quarantine_path ds k u = quarantine_path ds k' u'" "CasLayout_IsValidCasKey k" "CasLayout_IsValidCasKey k'"
    "UUID_IsValid u" "UUID_IsValid u'"
  shows "k = k' \<and> u = u'"
proof -
  have l: "length (''.gc.'' @ u) = length (''.gc.'' @ u')" using assms(4,5) uuid_length by simp
  have "CasLayout_GetCasPath (ds_base_dir ds) k = CasLayout_GetCasPath (ds_base_dir ds) k' \<and> u = u'"
    using assms(1) append_eq_append_conv [of _ _ "''.gc.'' @ u" "''.gc.'' @ u'", OF disjI2 [OF l]]
    unfolding quarantine_path_def DataStore_GetFilePath_def by simp
  then show ?thesis using cas_path_inj assms(2,3) by blast
qed

lemma uuid_last: "UUID_IsValid u \<Longrightarrow> is_hex_icase (last u) \<and> u \<noteq> []"
proof -
  assume "UUID_IsValid u"
  with match_groups_last [of "[8, 4, 4, 4, 12]" u] obtain p q where
    u: "u = p @ q" "length q = 12" "list_all is_hex_icase q" by (auto simp: UUID_IsValid_def)
  then have "q \<noteq> []" by auto
  with u show ?thesis by (auto simp: list_all_iff)
qed

lemma quarantine_not_tmp: "UUID_IsValid u \<Longrightarrow> is_tmp t \<Longrightarrow> quarantine_path ds k u \<noteq> t"
proof
  assume u: "UUID_IsValid u" and t: "is_tmp t" and e: "quarantine_path ds k u = t"
  have "last u = last (quarantine_path ds k u)" using uuid_last [OF u] by (simp add: quarantine_path_def)
  also have "\<dots> = CHR ''t''" using t unfolding e by (auto simp: is_tmp_def suffix_def)
  finally have "last u = CHR ''t''" .
  then show False using uuid_last [OF u] by (simp add: is_hex_icase_def is_lower_hex_def tolower_def)
qed

lemma quarantine_not_blob: "UUID_IsValid u \<Longrightarrow> quarantine_path ds k u \<noteq> CasLayout_GetCasPath base k'"
  unfolding quarantine_path_def by (rule quarantine_not_cas)


section \<open>The invariant\<close>

text \<open>The quarantine files that hold what nothing else may hold: that of the key at work, until the second check has
  decided, and those that could not be restored.\<close>

definition parked :: "('d, 'r) Sys \<Rightarrow> (string \<times> string) set" where
  "parked s = set (sy_errs s) \<union>
     (case sy_gc s of Gc_second k u True \<Rightarrow> {(k, u)} | Gc_restore k u out \<Rightarrow> {(k, u)} | _ \<Rightarrow> {})"

definition qfile :: "StoreEnv \<Rightarrow> DataStore \<Rightarrow> FileSys \<Rightarrow> string \<times> string \<Rightarrow> bool" where
  "qfile se ds fs ku \<longleftrightarrow> CasLayout_IsValidCasKey (fst ku) \<and> UUID_IsValid (snd ku) \<and>
     (\<exists>c. fs_files fs (quarantine_path ds (fst ku) (snd ku)) = Some c \<and> digest se c = fst ku)"

fun pc_ok :: "GcPc \<Rightarrow> (string \<times> string) list \<Rightarrow> bool" where
  "pc_ok (Gc_start k u) errs = (CasLayout_IsValidCasKey k \<and> UUID_IsValid u \<and> (k, u) \<notin> set errs)"
| "pc_ok (Gc_checked k u) errs = (CasLayout_IsValidCasKey k \<and> UUID_IsValid u \<and> (k, u) \<notin> set errs)"
| "pc_ok (Gc_found k u) errs = (CasLayout_IsValidCasKey k \<and> UUID_IsValid u \<and> (k, u) \<notin> set errs)"
| "pc_ok (Gc_second k u b) errs = (CasLayout_IsValidCasKey k \<and> UUID_IsValid u \<and> (k, u) \<notin> set errs)"
| "pc_ok (Gc_restore k u out) errs = (CasLayout_IsValidCasKey k \<and> UUID_IsValid u \<and> (k, u) \<notin> set errs)"
| "pc_ok (Gc_remove k u) errs = (CasLayout_IsValidCasKey k \<and> UUID_IsValid u \<and> (k, u) \<notin> set errs)"
| "pc_ok (Gc_call k b) errs = True"
| "pc_ok (Gc_forget k) errs = True"
| "pc_ok (Gc_done out) errs = True"

definition reach :: "DataStore \<Rightarrow> ('d, 'r) Sys \<Rightarrow> string set" where
  "reach ds s = live ds (sy_fs s) \<union> fst ` parked s"

definition overlap_inv :: "Collation \<Rightarrow> ('d \<Rightarrow> DbState) \<Rightarrow> ('d, 'r) Api \<Rightarrow> ('d, 'r) Sys \<Rightarrow> bool" where
  "overlap_inv col view api s \<longleftrightarrow>
     store_inv (ap_store api) (ap_ds api) (sy_store s) \<and>
     holds view (in_order col (reach (ap_ds api) s - set_mset (sy_cleaning s))) (sy_ms s) \<and>
     set_mset (sy_inflight s) \<subseteq> reach (ap_ds api) s \<and>
     (\<forall>ku \<in> parked s. qfile (ap_store api) (ap_ds api) (sy_fs s) ku) \<and>
     pc_ok (sy_gc s) (sy_errs s) \<and> (\<forall>k \<in># sy_cleaning s. CasLayout_IsValidCasKey k)"

text \<open>Changes outside the quarantine files that keep the blobs.\<close>

definition extends :: "DataStore \<Rightarrow> FileSys \<Rightarrow> FileSys \<Rightarrow> bool" where
  "extends ds fs fs' \<longleftrightarrow> live ds fs \<subseteq> live ds fs' \<and>
     (\<forall>k u. UUID_IsValid u \<longrightarrow> fs_files fs' (quarantine_path ds k u) = fs_files fs (quarantine_path ds k u))"

lemma extends_tmp: "same_except {t} fs fs' \<Longrightarrow> is_tmp t \<Longrightarrow> extends ds fs fs'"
  using live_same_except_tmp [of t fs fs' ds] quarantine_not_tmp by (auto simp: extends_def same_except_def)

lemma extends_files: "fs_files fs' = fs_files fs \<Longrightarrow> extends ds fs fs'"
  using live_same_files [of fs' fs ds] by (simp add: extends_def)

lemma extends_trans: "extends ds a b \<Longrightarrow> extends ds b c \<Longrightarrow> extends ds a c"
  unfolding extends_def by (metis subset_trans)

lemma extends_stored:
  assumes "stored se ds fs t data fs' r" "is_tmp t" "sha_len se"
  shows "extends ds fs fs' \<and> set_mset (committed r) \<subseteq> live ds fs'"
proof (cases r)
  case (Inl e)
  with assms extends_tmp show ?thesis by (auto simp: stored_def committed_def)
next
  case (Inr k)
  with stored_live [of se ds fs t data fs' k] assms have l: "live ds fs \<subseteq> live ds fs'" "k \<in> live ds fs'" by auto
  from Inr assms(1) have "same_except {t, CasLayout_GetCasPath (ds_base_dir ds) k} fs fs'" by (simp add: stored_def) metis
  with l Inr quarantine_not_tmp [OF _ assms(2)] quarantine_not_blob show ?thesis
    by (auto simp: extends_def committed_def same_except_def)
qed

lemma extends_write:
  assumes "DataStore_Write se ds fs u data = (fs', r)" "sha_len se"
  shows "extends ds fs fs' \<and> set_mset (committed r) \<subseteq> live ds fs'"
  using DataStore_Write_stored [OF assms(1)]
proof (elim disjE exE conjE)
  fix f assume f: "same_except {tmp_file ds ''upload'' u} fs f" "stored se ds f (tmp_file ds ''upload'' u) data fs' r"
  show ?thesis using extends_trans [OF extends_tmp [OF f(1)]] extends_stored [OF f(2) _ assms(2)] by simp
qed (use extends_tmp in \<open>auto simp: committed_def\<close>)

lemma qfile_extends: "qfile se ds fs ku \<Longrightarrow> extends ds fs fs' \<Longrightarrow> qfile se ds fs' ku"
  by (auto simp: qfile_def extends_def)

text \<open>Moving a file in or out of quarantine.\<close>

abbreviation gc_paths :: "DataStore \<Rightarrow> string \<Rightarrow> string \<Rightarrow> string set" where
  "gc_paths ds k u \<equiv> {CasLayout_GetCasPath (ds_base_dir ds) k, quarantine_path ds k u}"

lemma gc_paths_sessions:
  assumes "store_inv se ds S" "cas_ok se ds fs" "same_except (gc_paths ds k u) (ss_fs S) fs" "UUID_IsValid u"
  shows "store_inv se ds (S\<lparr>ss_fs := fs\<rparr>)"
proof (rule keep_sessions [OF assms(1,2)])
  fix p assume "is_tmp p"
  then have "p \<notin> gc_paths ds k u" using quarantine_not_tmp [OF assms(4)] is_tmp_not_cas by blast
  then show "fs_files fs p = fs_files (ss_fs S) p" using assms(3) by (simp add: same_except_def)
qed

lemma gc_paths_qfile:
  assumes "qfile se ds fs ku" "same_except (gc_paths ds k u) fs fs'" "ku \<noteq> (k, u)" "CasLayout_IsValidCasKey k" "UUID_IsValid u"
  shows "qfile se ds fs' ku"
proof -
  have ku: "CasLayout_IsValidCasKey (fst ku)" "UUID_IsValid (snd ku)" using assms(1) by (simp_all add: qfile_def)
  let ?q = "quarantine_path ds (fst ku) (snd ku)"
  have "?q \<noteq> quarantine_path ds k u" using quarantine_inj [OF _ ku(1) assms(4) ku(2) assms(5)] assms(3) by (auto simp: prod_eq_iff)
  moreover have "?q \<noteq> CasLayout_GetCasPath (ds_base_dir ds) k" by (rule quarantine_not_blob [OF ku(2)])
  ultimately have "fs_files fs' ?q = fs_files fs ?q" using assms(2) by (simp add: same_except_def)
  with assms(1) show ?thesis by (simp add: qfile_def)
qed

lemma gc_paths_blob:
  assumes "same_except (gc_paths ds k u) fs fs'" "CasLayout_IsValidCasKey k" "UUID_IsValid u" "CasLayout_IsValidCasKey h" "h \<noteq> k"
  shows "blob ds fs' h = blob ds fs h"
proof -
  let ?p = "CasLayout_GetCasPath (ds_base_dir ds) h"
  have "?p \<noteq> CasLayout_GetCasPath (ds_base_dir ds) k" using cas_path_inj [OF assms(4,2)] assms(5) by blast
  moreover have "?p \<noteq> quarantine_path ds k u" by (rule quarantine_not_blob [OF assms(3), THEN not_sym])
  ultimately show ?thesis using assms(1) by (simp add: blob_def same_except_def)
qed

lemma session_extends:
  assumes "session_step env ds S S'" "store_inv env ds S"
  shows "extends ds (ss_fs S) (ss_fs S')"
  using assms(1)
proof cases
  case (Begin i u fs w)
  then show ?thesis using BeginWrite_files [OF Begin(3)] by (auto simp: same_except_def intro!: extends_tmp [of "tmp_file ds ''upload'' u"])
next
  case (Begin_failed u fs e)
  then show ?thesis using BeginWrite_files [OF Begin_failed(2)] by (simp add: extends_files)
next
  case (Chunk i w data fs w' st)
  then show ?thesis using extends_tmp [OF WriteSession_Write_files(1) [OF Chunk(3) store_inv_sel(2) [OF assms(2) Chunk(2)]]]
    store_inv_sel(3) [OF assms(2) Chunk(2)] by simp
next
  case (Chunk_failed i w data fs w' st)
  note f = WriteSession_Write_files [OF Chunk_failed(3) store_inv_sel(2) [OF assms(2) Chunk_failed(2)]]
  have "same_except {ws_tmp_path w} (ss_fs S) (WriteSession_destroy fs w')"
    using same_except_trans [OF f(1)] destroy_files [of w' fs] f(2) by simp
  then show ?thesis using Chunk_failed extends_tmp store_inv_sel(3) [OF assms(2) Chunk_failed(2)] by simp
next
  case (Abort i w)
  then show ?thesis using extends_tmp [OF destroy_files [of w]] store_inv_sel(3) [OF assms(2) Abort(2)] by simp
next
  case (Faults script)
  then show ?thesis by (simp add: extends_files)
qed

lemma session_store: "session_step env ds S S' \<Longrightarrow> store_step env ds S S'"
  by (induction rule: session_step.induct) (auto intro: store_step.intros)


section \<open>Every step keeps the invariant\<close>

lemma holds_in_order:
  assumes "holds view (in_order col H) ms" "\<And>A. no_tx view (ms_db ms) A \<Longrightarrow> in_order col H A \<Longrightarrow> \<exists>T. no_tx view (ms_db ms') T \<and> in_order col H' T"
  shows "holds view (in_order col H') ms'"
  using assms by (auto simp: holds_def)

lemma parked_simps [simp]:
  "parked (s\<lparr>sy_ms := ms\<rparr>) = parked s" "parked (s\<lparr>sy_store := S\<rparr>) = parked s" "parked (s\<lparr>sy_inflight := I\<rparr>) = parked s"
  "parked (s\<lparr>sy_cleaning := C\<rparr>) = parked s"
  by (simp_all add: parked_def)

lemma reach_simps [simp]:
  "reach ds (s\<lparr>sy_ms := ms\<rparr>) = reach ds s" "reach ds (s\<lparr>sy_inflight := I\<rparr>) = reach ds s" "reach ds (s\<lparr>sy_cleaning := C\<rparr>) = reach ds s"
  by (simp_all add: reach_def)

context safe_api
begin

lemma record_holds:
  assumes H: "holds view (in_order col H) ms" "h \<in> H"
  shows "MetaStore_PutObjectWithRefCount (ap_meta api) now ms b key sz etag ct h = (ms', r) \<Longrightarrow> holds view (in_order col H) ms'"
    "MetaStore_PutPartWithRefCount (ap_meta api) ms uid n h sz etag = (ms', r) \<Longrightarrow> holds view (in_order col H) ms'"
proof -
  assume op: "MetaStore_PutObjectWithRefCount (ap_meta api) now ms b key sz etag ct h = (ms', r)"
  show "holds view (in_order col H) ms'"
  proof (rule holds_in_order [OF H(1)])
    fix A assume A: "no_tx view (ms_db ms) A" "in_order col H A"
    then have "res_post view A (put_spec col b key h sz ct etag A) (ms_db ms', r)"
      using put_object_post [OF env _ _ op] by (auto simp: in_order_def rc_safe_def)
    with A H(2) put_spec_safe put_spec_held(1) show "\<exists>T. no_tx view (ms_db ms') T \<and> in_order col H T"
      by (fastforce simp: res_post_def in_order_def split: sum.splits)
  qed
next
  assume op: "MetaStore_PutPartWithRefCount (ap_meta api) ms uid n h sz etag = (ms', r)"
  show "holds view (in_order col H) ms'"
  proof (rule holds_in_order [OF H(1)])
    fix A assume A: "no_tx view (ms_db ms) A" "in_order col H A"
    then have "res_post view A (part_spec col uid n h sz etag A) (ms_db ms', r)"
      using put_part_post [OF env _ op] by (auto simp: in_order_def rc_safe_def)
    with A H(2) part_spec_safe part_spec_held(1) show "\<exists>T. no_tx view (ms_db ms') T \<and> in_order col H T"
      by (fastforce simp: res_post_def in_order_def split: sum.splits)
  qed
qed

lemma delete_keeps: "keeps col view (\<lambda>ms. MetaStore_DeleteObjectWithRefCount (ap_meta api) ms b k)"
  unfolding keeps_def
proof (intro allI impI)
  fix ms ms' r H assume op: "MetaStore_DeleteObjectWithRefCount (ap_meta api) ms b k = (ms', r)" and H: "holds view (in_order col H) ms"
  show "holds view (in_order col H) ms'"
  proof (rule holds_in_order [OF H])
    fix A assume A: "no_tx view (ms_db ms) A" "in_order col H A"
    from delete_object_post [OF env A(1) op] A del_spec_safe del_spec_held(1) show "\<exists>T. no_tx view (ms_db ms') T \<and> in_order col H T"
      by (fastforce simp: res_post_def in_order_def split: sum.splits)
  qed
qed

lemma keeps_D: "keeps col view f \<Longrightarrow> f ms = (ms', r) \<Longrightarrow> holds view (in_order col H) ms \<Longrightarrow> holds view (in_order col H) ms'"
  unfolding keeps_def by blast

lemma meta_call_holds:
  assumes "meta_call (ap_meta api) ms ms'" "holds view (in_order col H) ms"
  shows "holds view (in_order col H) ms'"
  using assms(1) by cases (erule ops_keep [THEN keeps_D] delete_keeps [THEN keeps_D], rule assms(2))+

lemma can_delete_holds:
  assumes "MetaStore_CanDeleteCasBlob (ap_meta api) ms k = (ms', r)" "holds view (in_order col H) ms"
  shows "holds view (in_order col H) ms'" "r = Inr True \<Longrightarrow> holds view (in_order col (H - {k})) ms'"
proof -
  from assms(2) obtain A where A: "no_tx view (ms_db ms) A" "in_order col H A" by (auto simp: holds_def)
  note c = can_delete_cases [OF env A(1) assms(1)]
  show "holds view (in_order col H) ms'" using c(1) A(2) by (auto simp: holds_def)
  assume "r = Inr True"
  with c(2) have "refs col A k = 0" by (auto simp: collectable_def)
  then have "k \<notin> held A" using held_refs [of k A col] by auto
  then show "holds view (in_order col (H - {k})) ms'" using c(1) A(2) by (auto simp: holds_def in_order_def)
qed

lemma clean_check_holds:
  assumes "MetaStore_GetCasBlob (ap_meta api) ms k = (ms', r)" "holds view (in_order col H) ms"
  shows "holds view (in_order col H) ms'" "unreferenced r \<Longrightarrow> holds view (in_order col (H - {k})) ms'"
proof -
  from assms(2) obtain A where A: "no_tx view (ms_db ms) A" "in_order col H A" by (auto simp: holds_def)
  note c = get_cas_blob_post [OF env A(1) assms(1)]
  show "holds view (in_order col H) ms'" using c A(2) by (auto simp: holds_def)
  assume "unreferenced r"
  with c have "ref_count col A k = 0" by (cases r) (auto simp: unreferenced_def)
  then have "refs col A k = 0" using A(2) by (simp add: in_order_def rc_safe_def) (metis le_zero_eq)
  then have "k \<notin> held A" using held_refs [of k A col] by auto
  then show "holds view (in_order col (H - {k})) ms'" using c A(2) by (auto simp: holds_def in_order_def)
qed

lemma forget_holds:
  assumes "holds view (in_order col H) ms"
  shows "holds view (in_order col H) (fst (MetaStore_DeleteCasBlob (ap_meta api) ms k))"
proof (rule holds_in_order [OF assms])
  fix A assume A: "no_tx view (ms_db ms) A" "in_order col H A"
  obtain ms' r where op: "MetaStore_DeleteCasBlob (ap_meta api) ms k = (ms', r)" by (cases "MetaStore_DeleteCasBlob (ap_meta api) ms k")
  from delete_cas_post [OF env A(1) op] A(2) obtain T where "no_tx view (ms_db ms') T" "rc_safe col T" "t_objects T = t_objects A" "t_parts T = t_parts A"
    by (auto simp: in_order_def)
  with A(2) show "\<exists>T. no_tx view (ms_db (fst (MetaStore_DeleteCasBlob (ap_meta api) ms k))) T \<and> in_order col H T"
    by (intro exI [of _ T]) (simp add: op in_order_def held_def)
qed

text \<open>Steps of uploads.\<close>

lemma upload_step_inv:
  assumes inv: "overlap_inv col view api s" and e: "extends (ap_ds api) (sy_fs s) (ss_fs S)"
    and S: "store_inv (ap_store api) (ap_ds api) S" and n: "set_mset new \<subseteq> live (ap_ds api) (ss_fs S)"
  shows "overlap_inv col view api (s\<lparr>sy_store := S, sy_inflight := sy_inflight s + new\<rparr>)"
proof -
  have r: "reach (ap_ds api) s \<subseteq> reach (ap_ds api) (s\<lparr>sy_store := S\<rparr>)" using e by (auto simp: reach_def extends_def)
  then have "reach (ap_ds api) s - set_mset (sy_cleaning s) \<subseteq> reach (ap_ds api) (s\<lparr>sy_store := S\<rparr>) - set_mset (sy_cleaning s)" by blast
  from holds_mono [OF _ this, of view col "sy_ms s"] inv
  have "holds view (in_order col (reach (ap_ds api) (s\<lparr>sy_store := S\<rparr>) - set_mset (sy_cleaning s))) (sy_ms s)" by (simp add: overlap_inv_def)
  moreover have "set_mset new \<subseteq> reach (ap_ds api) (s\<lparr>sy_store := S\<rparr>)" using n by (auto simp: reach_def)
  moreover have "\<forall>ku \<in> parked s. qfile (ap_store api) (ap_ds api) (ss_fs S) ku"
    using inv e qfile_extends unfolding overlap_inv_def by blast
  ultimately show ?thesis using inv S r by (auto simp: overlap_inv_def)
qed

end


text \<open>Steps of the collector.\<close>

abbreviation collected :: "('d, 'r) Sys \<Rightarrow> GcPc \<Rightarrow> ('d, 'r) MetaStore \<Rightarrow> FileSys \<Rightarrow> (string \<times> string) list \<Rightarrow> ('d, 'r) Sys" where
  "collected s pc ms fs errs \<equiv> s\<lparr>sy_gc := pc, sy_ms := ms, sy_store := (sy_store s)\<lparr>ss_fs := fs\<rparr>, sy_errs := errs\<rparr>"

context safe_api
begin

text \<open>Steps that leave the files and the parked content alone.\<close>

lemma quiet_inv:
  assumes inv: "overlap_inv col view api s" and f: "fs_files fs = fs_files (sy_fs s)" and ok: "pc_ok pc errs"
    and p: "parked (collected s pc ms fs errs) = parked s"
    and ms: "holds view (in_order col (reach (ap_ds api) s - set_mset (sy_cleaning s))) ms"
  shows "overlap_inv col view api (collected s pc ms fs errs)"
proof -
  have l: "live (ap_ds api) fs = live (ap_ds api) (sy_fs s)" using live_same_files [OF f] .
  have r: "reach (ap_ds api) (collected s pc ms fs errs) = reach (ap_ds api) s" using p l by (simp add: reach_def)
  have "store_inv (ap_store api) (ap_ds api) ((sy_store s)\<lparr>ss_fs := fs\<rparr>)"
    using inv f by (simp add: overlap_inv_def store_inv_def cas_ok_def blob_def ws_ok_def)
  moreover have "\<forall>ku \<in> parked s. qfile (ap_store api) (ap_ds api) fs ku"
    using inv f by (simp add: overlap_inv_def qfile_def)
  ultimately show ?thesis using inv ok ms r p by (simp add: overlap_inv_def)
qed

lemma found_inv:
  assumes inv: "overlap_inv col view api s" and pc: "sy_gc s = Gc_found k u"
    and op: "FileSystem_AtomicRename (se_strerror (ap_store api)) (sy_fs s) (DataStore_GetFilePath (ap_ds api) k)
      (quarantine_path (ap_ds api) k u) = (fs, st)" and ok: "Status_ok st"
  shows "overlap_inv col view api (collected s (Gc_second k u True) (sy_ms s) fs (sy_errs s))" (is "overlap_inv col view api ?s")
proof -
  let ?ds = "ap_ds api" and ?q = "quarantine_path (ap_ds api) k u" and ?p = "CasLayout_GetCasPath (ds_base_dir (ap_ds api)) k"
  from inv pc have k: "CasLayout_IsValidCasKey k" "UUID_IsValid u" "(k, u) \<notin> set (sy_errs s)"
    and st: "store_inv (ap_store api) ?ds (sy_store s)" by (simp_all add: overlap_inv_def)
  from AtomicRename_files [OF op] ok obtain c where c: "fs_files (sy_fs s) ?p = Some c"
    and f: "fs_files fs = (fs_files (sy_fs s))(?p := None, ?q := Some c)" by (auto simp: DataStore_GetFilePath_def)
  have same: "same_except (gc_paths ?ds k u) (sy_fs s) fs" using f by (simp add: same_except_def)
  have ok1: "cas_ok (ap_store api) ?ds (sy_fs s)" using store_inv_sel(1) [OF st] .
  have gone: "blob ?ds fs k = None"
    using f quarantine_not_blob [OF k(2), of ?ds k "ds_base_dir ?ds" k, THEN not_sym] by (simp add: blob_def)
  note b = gc_paths_blob [OF same k(1,2)]
  have pk: "parked ?s = insert (k, u) (parked s)" using pc by (simp add: parked_def)
  have r: "reach ?ds s \<subseteq> reach ?ds ?s" using b pk by (auto simp: reach_def live_def)
  have "cas_ok (ap_store api) ?ds fs" using ok1 b gone unfolding cas_ok_def by (metis option.distinct(1))
  then have "store_inv (ap_store api) ?ds ((sy_store s)\<lparr>ss_fs := fs\<rparr>)" by (rule gc_paths_sessions [OF st _ same k(2)])
  moreover have "qfile (ap_store api) ?ds fs (k, u)"
    using ok1 k c f by (simp add: qfile_def cas_ok_def blob_def)
  then have "qfile (ap_store api) ?ds fs ku" if "ku \<in> parked ?s" for ku
    using that pk inv gc_paths_qfile [OF _ same _ k(1,2)] by (cases "ku = (k, u)") (auto simp: overlap_inv_def)
  moreover have "reach ?ds s - set_mset (sy_cleaning s) \<subseteq> reach ?ds ?s - set_mset (sy_cleaning s)" using r by blast
  from holds_mono [OF _ this, of view col "sy_ms s"] inv
  have "holds view (in_order col (reach ?ds ?s - set_mset (sy_cleaning s))) (sy_ms s)" by (simp add: overlap_inv_def)
  ultimately show ?thesis using inv k r by (auto simp: overlap_inv_def)
qed

text \<open>The decision to remove, which the condition on the schedule makes safe.\<close>

lemma decided_inv:
  assumes inv: "overlap_inv col view api s" and pc: "sy_gc s = Gc_second k u True"
    and op: "MetaStore_CanDeleteCasBlob (ap_meta api) (sy_ms s) k = (ms, Inr True)"
    and ord: "orderly api (collected s (Gc_remove k u) ms (sy_fs s) (sy_errs s))" (is "orderly api ?s")
  shows "overlap_inv col view api ?s"
proof -
  let ?ds = "ap_ds api"
  have k: "CasLayout_IsValidCasKey k" using inv pc by (simp add: overlap_inv_def)
  have pk: "parked s = insert (k, u) (parked ?s)" using pc by (simp add: parked_def)
  have r: "reach ?ds s - {k} \<subseteq> reach ?ds ?s" using pk by (auto simp: reach_def)
  have "k \<in> live ?ds (sy_fs s)" if "k \<in># sy_inflight s" using ord that k by (simp add: orderly_def live_def)
  then have "k \<in># sy_inflight s \<Longrightarrow> k \<in> reach ?ds ?s" by (simp add: reach_def)
  moreover have "set_mset (sy_inflight s) \<subseteq> reach ?ds s" using inv by (simp add: overlap_inv_def)
  ultimately have "set_mset (sy_inflight s) \<subseteq> reach ?ds ?s" using r by blast
  moreover have "reach ?ds s - set_mset (sy_cleaning s) - {k} \<subseteq> reach ?ds ?s - set_mset (sy_cleaning s)" using r by blast
  from holds_mono [OF can_delete_holds(2) [OF op] this] inv
  have "holds view (in_order col (reach ?ds ?s - set_mset (sy_cleaning s))) ms" by (simp add: overlap_inv_def)
  ultimately show ?thesis using inv pc pk by (simp add: overlap_inv_def)
qed

lemma restored_inv:
  assumes inv: "overlap_inv col view api s" and pc: "sy_gc s = Gc_restore k u out"
    and op: "FileSystem_AtomicRename (se_strerror (ap_store api)) (sy_fs s) (quarantine_path (ap_ds api) k u)
      (DataStore_GetFilePath (ap_ds api) k) = (fs, st)" and ok: "Status_ok st"
  shows "overlap_inv col view api (collected s (Gc_done out) (sy_ms s) fs (sy_errs s))" (is "overlap_inv col view api ?s")
proof -
  let ?ds = "ap_ds api" and ?q = "quarantine_path (ap_ds api) k u" and ?p = "CasLayout_GetCasPath (ds_base_dir (ap_ds api)) k"
  from inv pc have k: "CasLayout_IsValidCasKey k" "UUID_IsValid u" "(k, u) \<notin> set (sy_errs s)"
    and st: "store_inv (ap_store api) ?ds (sy_store s)" by (simp_all add: overlap_inv_def)
  have pk: "parked s = insert (k, u) (parked ?s)" "(k, u) \<notin> parked ?s" using pc k(3) by (simp_all add: parked_def)
  from AtomicRename_files [OF op] ok obtain c where c: "fs_files (sy_fs s) ?q = Some c"
    and f: "fs_files fs = (fs_files (sy_fs s))(?q := None, ?p := Some c)" by (auto simp: DataStore_GetFilePath_def)
  have same: "same_except (gc_paths ?ds k u) (sy_fs s) fs" using f by (simp add: same_except_def)
  have d: "digest (ap_store api) c = k" using inv pk c by (simp add: overlap_inv_def qfile_def)
  have here: "blob ?ds fs k = Some c" using f by (simp add: blob_def)
  note b = gc_paths_blob [OF same k(1,2)]
  have "blob ?ds fs h \<noteq> None" if "CasLayout_IsValidCasKey h" "h = k \<or> blob ?ds (sy_fs s) h \<noteq> None" for h
    using b [OF that(1)] here that(2) by (cases "h = k") simp_all
  then have "insert k (live ?ds (sy_fs s)) \<subseteq> live ?ds fs" using k(1) by (auto simp: live_def)
  then have r: "reach ?ds s \<subseteq> reach ?ds ?s" using pk by (auto simp: reach_def)
  have "cas_ok (ap_store api) ?ds fs"
    using store_inv_sel(1) [OF st] b here d unfolding cas_ok_def by (metis option.inject)
  then have "store_inv (ap_store api) ?ds ((sy_store s)\<lparr>ss_fs := fs\<rparr>)" by (rule gc_paths_sessions [OF st _ same k(2)])
  moreover have "\<forall>ku \<in> parked ?s. qfile (ap_store api) ?ds fs ku"
    using inv pk gc_paths_qfile [OF _ same _ k(1,2)] unfolding overlap_inv_def by (metis insertCI)
  moreover have "reach ?ds s - set_mset (sy_cleaning s) \<subseteq> reach ?ds ?s - set_mset (sy_cleaning s)" using r by blast
  from holds_mono [OF _ this, of view col "sy_ms s"] inv
  have "holds view (in_order col (reach ?ds ?s - set_mset (sy_cleaning s))) (sy_ms s)" by (simp add: overlap_inv_def)
  ultimately show ?thesis using inv r by (auto simp: overlap_inv_def)
qed

lemma removed_inv:
  assumes inv: "overlap_inv col view api s" and pc: "sy_gc s = Gc_remove k u"
    and op: "FileSystem_RemoveFile (se_strerror (ap_store api)) (sy_fs s) (quarantine_path (ap_ds api) k u) = (fs, st)"
  shows "overlap_inv col view api (collected s (Gc_call k (Status_ok st)) (sy_ms s) fs (sy_errs s))" (is "overlap_inv col view api ?s")
proof -
  let ?ds = "ap_ds api"
  from inv pc have k: "CasLayout_IsValidCasKey k" "UUID_IsValid u" "(k, u) \<notin> set (sy_errs s)"
    and st: "store_inv (ap_store api) ?ds (sy_store s)" by (simp_all add: overlap_inv_def)
  have pk: "parked ?s = parked s" "(k, u) \<notin> parked s" using pc k(3) by (simp_all add: parked_def)
  have q: "same_except {quarantine_path ?ds k u} (sy_fs s) fs" using RemoveFile_files [OF op] by simp
  then have same: "same_except (gc_paths ?ds k u) (sy_fs s) fs" by (rule same_except_mono) simp
  have b: "blob ?ds fs h = blob ?ds (sy_fs s) h" for h
    using q quarantine_not_blob [OF k(2), of ?ds k "ds_base_dir ?ds" h] by (auto simp: blob_def same_except_def)
  then have r: "reach ?ds ?s = reach ?ds s" using pk by (simp add: reach_def live_def)
  have "cas_ok (ap_store api) ?ds fs" using store_inv_sel(1) [OF st] b by (simp add: cas_ok_def)
  then have "store_inv (ap_store api) ?ds ((sy_store s)\<lparr>ss_fs := fs\<rparr>)" by (rule gc_paths_sessions [OF st _ same k(2)])
  moreover have "\<forall>ku \<in> parked s. qfile (ap_store api) ?ds fs ku"
    using inv pk gc_paths_qfile [OF _ same _ k(1,2)] unfolding overlap_inv_def by metis
  ultimately show ?thesis using inv r pk by (simp add: overlap_inv_def)
qed

end


context safe_api
begin

lemma collect_inv:
  assumes inv: "overlap_inv col view api s"
    and op: "gc_step (ap_meta api) (ap_store api) (ap_ds api) (sy_gc s, sy_ms s, sy_fs s, sy_errs s) = (pc, ms, fs, errs)"
    and ord: "orderly api (collected s pc ms fs errs)"
  shows "overlap_inv col view api (collected s pc ms fs errs)"
proof -
  note m = inv [unfolded overlap_inv_def, THEN conjunct2, THEN conjunct1]
  note p = inv [unfolded overlap_inv_def, THEN conjunct2, THEN conjunct2, THEN conjunct2, THEN conjunct2, THEN conjunct1]
  show ?thesis
  proof (cases "sy_gc s")
    case (Gc_start k u)
    obtain ms' r where c: "MetaStore_CanDeleteCasBlob (ap_meta api) (sy_ms s) k = (ms', r)" by (cases "MetaStore_CanDeleteCasBlob (ap_meta api) (sy_ms s) k")
    show ?thesis using op Gc_start c can_delete_holds(1) [OF c m] p
      by (intro quiet_inv [OF inv]) (auto simp: parked_def split: sum.splits if_splits)
  next
    case (Gc_checked k u)
    obtain f ex where e: "FileSystem_FileExists (sy_fs s) (DataStore_GetFilePath (ap_ds api) k) = (f, ex)"
      by (cases "FileSystem_FileExists (sy_fs s) (DataStore_GetFilePath (ap_ds api) k)")
    show ?thesis using op Gc_checked e FileExists_files [OF e] m p
      by (intro quiet_inv [OF inv]) (auto simp: parked_def split: if_splits)
  next
    case (Gc_found k u)
    obtain f st where e: "FileSystem_AtomicRename (se_strerror (ap_store api)) (sy_fs s) (DataStore_GetFilePath (ap_ds api) k)
      (quarantine_path (ap_ds api) k u) = (f, st)" by (rule that [OF prod.collapse [symmetric]])
    show ?thesis
    proof (cases "Status_ok st")
      case True
      with op Gc_found e found_inv [OF inv Gc_found e True] show ?thesis by simp
    next
      case False
      then show ?thesis using op Gc_found e AtomicRename_files [OF e] m by (intro quiet_inv [OF inv]) (auto simp: parked_def)
    qed
  next
    case (Gc_second k u ren)
    obtain ms' r where c: "MetaStore_CanDeleteCasBlob (ap_meta api) (sy_ms s) k = (ms', r)" by (cases "MetaStore_CanDeleteCasBlob (ap_meta api) (sy_ms s) k")
    show ?thesis
    proof (cases "ren \<and> r = Inr True")
      case True
      with op Gc_second c have "pc = Gc_remove k u" "ms = ms'" "fs = sy_fs s" "errs = sy_errs s" by simp_all
      with True c ord decided_inv [OF inv, of k u ms'] Gc_second show ?thesis by simp
    next
      case False
      then show ?thesis using op Gc_second c can_delete_holds(1) [OF c m] p
        by (intro quiet_inv [OF inv]) (auto simp: parked_def split: sum.splits if_splits bool.splits)
    qed
  next
    case (Gc_restore k u out)
    obtain f st where e: "FileSystem_AtomicRename (se_strerror (ap_store api)) (sy_fs s) (quarantine_path (ap_ds api) k u)
      (DataStore_GetFilePath (ap_ds api) k) = (f, st)" by (rule that [OF prod.collapse [symmetric]])
    show ?thesis
    proof (cases "Status_ok st")
      case True
      with op Gc_restore e restored_inv [OF inv Gc_restore e True] show ?thesis by simp
    next
      case False
      then show ?thesis using op Gc_restore e AtomicRename_files [OF e] m by (intro quiet_inv [OF inv]) (auto simp: parked_def)
    qed
  next
    case (Gc_remove k u)
    obtain f st where e: "FileSystem_RemoveFile (se_strerror (ap_store api)) (sy_fs s) (quarantine_path (ap_ds api) k u) = (f, st)"
      by (rule that [OF prod.collapse [symmetric]])
    with op Gc_remove removed_inv [OF inv Gc_remove e] show ?thesis by simp
  next
    case (Gc_call k b)
    obtain ms' r where c: "MetaStore_CanDeleteCasBlob (ap_meta api) (sy_ms s) k = (ms', r)" by (cases "MetaStore_CanDeleteCasBlob (ap_meta api) (sy_ms s) k")
    show ?thesis using op Gc_call c can_delete_holds(1) [OF c m] m
      by (intro quiet_inv [OF inv]) (auto simp: parked_def split: sum.splits if_splits)
  next
    case (Gc_forget k)
    show ?thesis using op Gc_forget forget_holds [OF m] by (intro quiet_inv [OF inv]) (auto simp: parked_def)
  next
    case (Gc_done out)
    then show ?thesis using op m p by (intro quiet_inv [OF inv]) (auto simp: parked_def)
  qed
qed

lemma clean_delete_inv:
  assumes inv: "overlap_inv col view api s" and k: "k \<in># sy_cleaning s" and ord: "orderly api s"
    and op: "DataStore_Delete (ap_store api) (ap_ds api) (sy_fs s) k = (fs, st)"
  shows "overlap_inv col view api (s\<lparr>sy_store := (sy_store s)\<lparr>ss_fs := fs\<rparr>, sy_cleaning := sy_cleaning s - {#k#}\<rparr>)" (is "overlap_inv col view api ?s")
proof -
  let ?ds = "ap_ds api" and ?p = "CasLayout_GetCasPath (ds_base_dir (ap_ds api)) k"
  have v: "CasLayout_IsValidCasKey k" and st: "store_inv (ap_store api) ?ds (sy_store s)" using inv k by (simp_all add: overlap_inv_def)
  have q: "same_except {?p} (sy_fs s) fs"
    using op v RemoveFile_files [of "se_strerror (ap_store api)" "sy_fs s" ?p fs st] by (simp add: DataStore_Delete_def)
  have qf: "qfile (ap_store api) ?ds fs ku" if "qfile (ap_store api) ?ds (sy_fs s) ku" for ku
    using that q quarantine_not_blob [of "snd ku" ?ds "fst ku"] by (auto simp: qfile_def same_except_def)
  have r: "reach ?ds s - {k} \<subseteq> reach ?ds ?s" using Delete_live [OF op v] by (auto simp: reach_def)
  have ni: "k \<notin># sy_inflight s" using ord k by (auto simp: orderly_def)
  have c: "set_mset (sy_cleaning s - {#k#}) \<subseteq> set_mset (sy_cleaning s)" by (meson in_diffD subsetI)
  have "reach ?ds s - set_mset (sy_cleaning s) \<subseteq> reach ?ds ?s - set_mset (sy_cleaning s - {#k#})" using r c k by blast
  from holds_mono [OF _ this, of view col "sy_ms s"] inv
  have "holds view (in_order col (reach ?ds ?s - set_mset (sy_cleaning s - {#k#}))) (sy_ms s)" by (simp add: overlap_inv_def)
  moreover have "store_inv (ap_store api) ?ds ((sy_store s)\<lparr>ss_fs := fs\<rparr>)"
    by (rule keep_sessions [OF st Delete_frame(1) [OF op store_inv_sel(1) [OF st]]]) (rule Delete_frame(2) [OF op])
  moreover have "set_mset (sy_inflight s) \<subseteq> reach ?ds ?s" using inv r ni by (auto simp: overlap_inv_def)
  ultimately show ?thesis using inv qf c by (auto simp: overlap_inv_def)
qed

lemma overlap_step_inv:
  assumes step: "overlap api s t" and ord: "orderly api s" "orderly api t" and inv: "overlap_inv col view api s"
  shows "overlap_inv col view api t"
proof -
  have st: "store_inv (ap_store api) (ap_ds api) (sy_store s)"
    and m: "holds view (in_order col (reach (ap_ds api) s - set_mset (sy_cleaning s))) (sy_ms s)"
    and infl: "set_mset (sy_inflight s) \<subseteq> reach (ap_ds api) s" using inv by (simp_all add: overlap_inv_def)
  have safe_record: "k \<in> reach (ap_ds api) s - set_mset (sy_cleaning s)" if "k \<in># sy_inflight s" for k
    using that infl ord(1) by (auto simp: orderly_def)
  have fewer: "set_mset (sy_inflight s - {#k#}) \<subseteq> reach (ap_ds api) s" for k using infl by (meson in_diffD subset_iff)
  from step show ?thesis
  proof cases
    case (Take out k u)
    have "(k, u) \<notin> set (sy_errs s)"
    proof
      assume "(k, u) \<in> set (sy_errs s)"
      then have "qfile (ap_store api) (ap_ds api) (sy_fs s) (k, u)" using inv by (simp add: overlap_inv_def parked_def)
      with Take(5) show False by (simp add: qfile_def)
    qed
    moreover have "parked (s\<lparr>sy_gc := Gc_start k u\<rparr>) = parked s" using Take(2) by (simp add: parked_def)
    ultimately show ?thesis using Take inv by (simp add: overlap_inv_def reach_def)
  next
    case (Collect pc ms fs errs)
    then show ?thesis using collect_inv [OF inv Collect(2)] ord(2) by simp
  next
    case (Session S)
    from upload_step_inv [OF inv session_extends [OF Session(2) st] Cas_Integrity.store_step_inv [OF len session_store [OF Session(2)] st], of "{#}"]
    show ?thesis unfolding Session(1) by simp
  next
    case (Commit i w expected fs r)
    note c = CommitWrite_stored [OF store_inv_sel(2) [OF st Commit(2)] Commit(3)]
    have tmp: "is_tmp (ws_tmp_path w)" using store_inv_sel(3) [OF st Commit(2)] by blast
    show ?thesis unfolding Commit(1)
      using upload_step_inv [OF inv _ Cas_Integrity.store_step_inv [OF len store_step.commit [OF Commit(2,3)] st]] extends_stored [OF c tmp len] by simp
  next
    case (Write u data fs r)
    show ?thesis unfolding Write(1)
      using upload_step_inv [OF inv _ Cas_Integrity.store_step_inv [OF len store_step.put [OF Write(2)] st]] extends_write [OF Write(2) len] by simp
  next
    case (Record_object k now b key sz etag ct ms r)
    from record_holds(1) [OF m safe_record [OF Record_object(2)] Record_object(3)] Record_object inv fewer
    show ?thesis by (simp add: overlap_inv_def)
  next
    case (Record_part k uid n sz etag ms q)
    from record_holds(2) [OF m safe_record [OF Record_part(2)] Record_part(3)] Record_part inv fewer
    show ?thesis by (simp add: overlap_inv_def)
  next
    case (Give_up k)
    with inv fewer show ?thesis by (simp add: overlap_inv_def)
  next
    case (Clean_check k ms info)
    note h = clean_check_holds [OF Clean_check(3) m]
    have v: "CasLayout_IsValidCasKey k" using safe_record [OF Clean_check(2)] inv by (auto simp: reach_def live_def overlap_inv_def qfile_def)
    have "reach (ap_ds api) s - set_mset (sy_cleaning s) - {k} = reach (ap_ds api) s - set_mset (add_mset k (sy_cleaning s))" by auto
    with h Clean_check inv fewer v show ?thesis by (simp add: overlap_inv_def)
  next
    case (Clean_delete k fs st)
    then show ?thesis using clean_delete_inv [OF inv Clean_delete(2) ord(1) Clean_delete(3)] by simp
  next
    case (Meta ms)
    with meta_call_holds [OF Meta(2) m] inv show ?thesis by (simp add: overlap_inv_def)
  qed
qed

lemma started_inv:
  assumes "started col view api s"
  shows "overlap_inv col view api s"
proof -
  have "holds view (in_order col (live (ap_ds api) (sy_fs s))) (sy_ms s)" "cas_ok (ap_store api) (ap_ds api) (sy_fs s)"
    using assms by (auto simp: started_def data_safe_def)
  then show ?thesis using assms by (simp add: started_def overlap_inv_def store_inv_def parked_def reach_def)
qed

end

interpretation overlap_sys: step_invariant "started col view api"
    "\<lambda>s t. safe_api col view api \<and> overlap api s t \<and> orderly api s \<and> orderly api t"
    "\<lambda>s. safe_api col view api \<longrightarrow> overlap_inv col view api s" for col view and api :: "('d, 'r) Api"
  by unfold_locales (auto intro: safe_api.started_inv safe_api.overlap_step_inv)


section \<open>Theorems\<close>

text \<open>C2: The collector and uploads may overlap call by call: in every run from a safe state, with failing system calls and
  failing database statements other than \<open>START TRANSACTION\<close> (\<open>meta_env_ok\<close>), with sessions dropped once a write of theirs failed, and in which the collector never decides to remove a quarantined file while an upload that
  found it in place is still to be recorded, and no upload is cleaned up while another one of the same bytes is in
  flight, every object and every part refers to bytes with the recorded SHA-256, in the store or in a quarantine file
  that the collector is about to give back or has reported as not restored; counts are never below references.\<close>
theorem overlap_keeps_data:
  assumes env: "meta_env_ok col (ap_meta api) view" and sha: "sha_len (ap_store api)" and start: "started col view api s"
    and run: "(\<lambda>s t. overlap api s t \<and> orderly api s \<and> orderly api t)\<^sup>*\<^sup>* s t"
  shows "\<exists>T. no_tx view (ms_db (sy_ms t)) T \<and> (\<forall>k. refs col T k \<le> ref_count col T k) \<and>
    (\<forall>h \<in> o_cas ` set (t_objects T) \<union> p_cas ` set (t_parts T).
       (\<exists>c. blob (ap_ds api) (sy_fs t) h = Some c \<and> Crypto_SHA256 (se_sha (ap_store api)) c = h) \<or>
       (\<exists>u c. fs_files (sy_fs t) (quarantine_path (ap_ds api) h u) = Some c \<and> Crypto_SHA256 (se_sha (ap_store api)) c = h \<and>
          ((h, u) \<in> set (sy_errs t) \<or> sy_gc t = Gc_second h u True \<or> (\<exists>out. sy_gc t = Gc_restore h u out))))"
proof -
  have s: "safe_api col view api" using env sha by (simp add: safe_api_def)
  then have "(\<lambda>s t. safe_api col view api \<and> overlap api s t \<and> orderly api s \<and> orderly api t)\<^sup>*\<^sup>* s t" using run by simp
  from overlap_sys.reach_I [OF start this] s have inv: "overlap_inv col view api t" by simp
  then obtain T where T: "no_tx view (ms_db (sy_ms t)) T" "rc_safe col T" "held T \<subseteq> reach (ap_ds api) t"
    by (auto simp: overlap_inv_def holds_def in_order_def)
  have "cas_ok (ap_store api) (ap_ds api) (sy_fs t)" using inv by (simp add: overlap_inv_def store_inv_def)
  then have l: "\<exists>c. blob (ap_ds api) (sy_fs t) h = Some c \<and> Crypto_SHA256 (se_sha (ap_store api)) c = h" if "h \<in> live (ap_ds api) (sy_fs t)" for h
    using that by (auto simp: live_def cas_ok_def digest_def)
  have q: "\<exists>u c. fs_files (sy_fs t) (quarantine_path (ap_ds api) h u) = Some c \<and> Crypto_SHA256 (se_sha (ap_store api)) c = h \<and>
      ((h, u) \<in> set (sy_errs t) \<or> sy_gc t = Gc_second h u True \<or> (\<exists>out. sy_gc t = Gc_restore h u out))" if "h \<in> fst ` parked t" for h
  proof -
    from that obtain u where u: "(h, u) \<in> parked t" by auto
    with inv have "qfile (ap_store api) (ap_ds api) (sy_fs t) (h, u)" by (auto simp: overlap_inv_def)
    moreover have "(h, u) \<in> set (sy_errs t) \<or> sy_gc t = Gc_second h u True \<or> (\<exists>out. sy_gc t = Gc_restore h u out)"
      using u by (auto simp: parked_def split: GcPc.splits bool.splits)
    ultimately show ?thesis by (auto simp: qfile_def digest_def)
  qed
  from T l q show ?thesis unfolding held_def reach_def rc_safe_def by (intro exI [of _ T]) blast
qed



section \<open>Witnesses\<close>

text \<open>The blob of two bytes on disk, with a row whose count is 0; the bytes are uploaded again.\<close>

definition hi_free :: Tables where
  "hi_free = one_bucket\<lparr>t_cas := [\<lparr>c_key = hi_key, c_size = 2, c_ref = 0, c_created = 0, c_updated = 0\<rparr>]\<rparr>"

lemma hi_free_safe: "rc_safe bin_col hi_free"
  by (auto simp: rc_safe_def uniq_ok_def hi_free_def one_bucket_def no_tables_def refs_def obj_refs_def part_refs_def
      ref_count_def cas_is_def col_eq_def)






text \<open>The same upload while the collector has the file in quarantine: it stores the bytes anew.\<close>

definition late_api :: "(Mem, unit) Api" where
  "late_api = hi_api\<lparr>ap_meta := mem_env bin_col\<rparr>"

lemma late_api_simps [simp]: "ap_meta late_api = mem_env bin_col" "ap_store late_api = toy_env" "ap_ds late_api = toy_store"
  by (simp_all add: late_api_def)

definition collect_once :: "('d, 'r) Api \<Rightarrow> ('d, 'r) Sys \<Rightarrow> ('d, 'r) Sys" where
  "collect_once api s =
     (case gc_step (ap_meta api) (ap_store api) (ap_ds api) (sy_gc s, sy_ms s, sy_fs s, sy_errs s) of
        (pc, ms, fs, errs) \<Rightarrow> collected s pc ms fs errs)"

lemma collect_once_step: "overlap api s (collect_once api s)"
  unfolding collect_once_def by (cases "gc_step (ap_meta api) (ap_store api) (ap_ds api) (sy_gc s, sy_ms s, sy_fs s, sy_errs s)")
    (simp add: overlap.Collect)

definition late_sys :: "(Mem, unit) Sys" where
  "late_sys = \<lparr>sy_ms = mem_store hi_free [], sy_store = \<lparr>ss_fs = hi_fs, ss_sessions = Map.empty\<rparr>, sy_gc = Gc_done Gc_skipped,
     sy_errs = [], sy_inflight = {#}, sy_cleaning = {#}\<rparr>"

definition late_quarantine :: "(Mem, unit) Sys" where
  "late_quarantine = collect_once late_api (collect_once late_api (collect_once late_api (late_sys\<lparr>sy_gc := Gc_start hi_key sample_uuid\<rparr>)))"

definition late_stored :: "(Mem, unit) Sys" where
  "late_stored = (case DataStore_Write toy_env toy_store (sy_fs late_quarantine) ''v'' ''hi'' of
     (fs, r) \<Rightarrow> late_quarantine\<lparr>sy_store := (sy_store late_quarantine)\<lparr>ss_fs := fs\<rparr>, sy_inflight := sy_inflight late_quarantine + committed r\<rparr>)"

definition late_removed :: "(Mem, unit) Sys" where
  "late_removed = collect_once late_api (collect_once late_api late_stored)"

lemma late_value0: "sy_gc (collect_once late_api (late_sys\<lparr>sy_gc := Gc_start hi_key sample_uuid\<rparr>)) = Gc_checked hi_key sample_uuid"
  by code_simp

lemma late_value1: "sy_gc (collect_once late_api (collect_once late_api (late_sys\<lparr>sy_gc := Gc_start hi_key sample_uuid\<rparr>))) = Gc_found hi_key sample_uuid"
  by code_simp

lemma late_value2: "sy_gc late_quarantine = Gc_second hi_key sample_uuid True"
  by code_simp

lemma late_value3: "sy_gc late_stored = Gc_second hi_key sample_uuid True"
  by code_simp

lemma late_value4: "sy_gc (collect_once late_api late_stored) = Gc_remove hi_key sample_uuid"
  by code_simp

lemma late_value5: "blob toy_store (sy_fs (collect_once late_api late_stored)) hi_key = Some ''hi''"
  by code_simp

lemma late_value6: "sy_gc late_removed = Gc_call hi_key True"
  by code_simp


lemma late_value7: "snd (DataStore_Write toy_env toy_store (sy_fs late_quarantine) ''v'' ''hi'') = Inr hi_key"
  by code_simp

definition late_recorded :: "(Mem, unit) Sys" where
  "late_recorded = (case MetaStore_PutObjectWithRefCount (mem_env bin_col) 5 (sy_ms late_removed) 7 ''k'' 2 ''e'' ''t'' hi_key of
     (ms, r) \<Rightarrow> late_removed\<lparr>sy_ms := ms, sy_inflight := (if isl r then sy_inflight late_removed else sy_inflight late_removed - {#hi_key#})\<rparr>)"

lemmas late_values = late_value0 late_value1 late_value2 late_value3 late_value4 late_value5 late_value6

lemma late_cleaning:
  "sy_cleaning (collect_once api s) = sy_cleaning s" "sy_cleaning late_quarantine = {#}" "sy_cleaning late_stored = {#}" "sy_cleaning late_removed = {#}"
  "sy_cleaning late_recorded = {#}"
proof -
  show c: "sy_cleaning (collect_once api s) = sy_cleaning s" for api :: "('d, 'r) Api" and s by (simp add: collect_once_def split: prod.split)
  show q: "sy_cleaning late_quarantine = {#}" by (simp add: late_quarantine_def c late_sys_def)
  show s: "sy_cleaning late_stored = {#}" by (simp add: late_stored_def q split: prod.split)
  show r: "sy_cleaning late_removed = {#}" by (simp add: late_removed_def c s)
  show "sy_cleaning late_recorded = {#}" by (simp add: late_recorded_def r split: prod.split)
qed

lemma late_inflight: "hi_key \<in># sy_inflight late_removed"
proof -
  have c: "sy_inflight (collect_once late_api s) = sy_inflight s" for s by (simp add: collect_once_def split: prod.split)
  show ?thesis using late_value7 by (auto simp: late_removed_def c late_stored_def committed_def split: prod.split)
qed

lemma late_recorded_gc: "sy_gc late_recorded = Gc_call hi_key True"
  by (simp add: late_recorded_def late_value6 split: prod.split)

lemma late_orderly:
  "orderly late_api late_sys" "orderly late_api (late_sys\<lparr>sy_gc := Gc_start hi_key sample_uuid\<rparr>)"
  "orderly late_api (collect_once late_api (late_sys\<lparr>sy_gc := Gc_start hi_key sample_uuid\<rparr>))"
  "orderly late_api (collect_once late_api (collect_once late_api (late_sys\<lparr>sy_gc := Gc_start hi_key sample_uuid\<rparr>)))"
  "orderly late_api late_quarantine" "orderly late_api late_stored" "orderly late_api (collect_once late_api late_stored)" "orderly late_api late_removed"
  "orderly late_api late_recorded"
  by (simp_all add: orderly_def late_values late_cleaning late_recorded_gc) (simp_all add: late_sys_def)

theorem overlap_keeps_data_witness:
  "sy_gc late_recorded = Gc_call hi_key True \<and>
   (\<exists>T. no_tx mem_db (ms_db (sy_ms late_recorded)) T \<and> (\<forall>h \<in> o_cas ` set (t_objects T).
      (\<exists>c. blob toy_store (sy_fs late_recorded) h = Some c \<and> Crypto_SHA256 (se_sha toy_env) c = h) \<or> sy_errs late_recorded \<noteq> []))"
proof -
  let ?step = "\<lambda>s t. overlap late_api s t \<and> orderly late_api s \<and> orderly late_api t"
  have start: "started bin_col mem_db late_api late_sys"
  proof -
    have "cas_ok toy_env toy_store hi_fs" using Write_frame(1) [OF toy_sha_len _ hi_write] by (simp add: cas_ok_def blob_def empty_fs_def)
    moreover have "in_order bin_col (live toy_store hi_fs) hi_free"
      using hi_free_safe by (simp add: in_order_def held_def) (simp add: hi_free_def one_bucket_def no_tables_def)
    ultimately show ?thesis using mem_store_no_tx [of hi_free "[]"]
      by (auto simp: started_def data_safe_def holds_def queue_ok_def late_sys_def intro!: exI [of _ hi_free])
  qed
  have "fs_files hi_fs (quarantine_path toy_store hi_key sample_uuid) = None" by code_simp
  then have "overlap late_api late_sys (late_sys\<lparr>sy_gc := Gc_start hi_key sample_uuid\<rparr>)"
    by (intro overlap.Take [where out = Gc_skipped]) (simp_all add: hi_valid sample_uuid_valid late_sys_def)
  moreover have "overlap late_api late_removed late_recorded"
    unfolding late_recorded_def using overlap.Record_object [OF late_inflight, of late_api] by (simp split: prod.split)
  moreover have "overlap late_api late_quarantine late_stored"
    unfolding late_stored_def using overlap.Write [of late_api late_quarantine "''v''" "''hi''"] by (simp split: prod.split)
  ultimately have "?step late_sys (late_sys\<lparr>sy_gc := Gc_start hi_key sample_uuid\<rparr>)" "?step late_quarantine late_stored" "?step late_removed late_recorded"
    using late_orderly by simp_all
  moreover have "?step (late_sys\<lparr>sy_gc := Gc_start hi_key sample_uuid\<rparr>) (collect_once late_api (late_sys\<lparr>sy_gc := Gc_start hi_key sample_uuid\<rparr>))"
    "?step (collect_once late_api (late_sys\<lparr>sy_gc := Gc_start hi_key sample_uuid\<rparr>))
      (collect_once late_api (collect_once late_api (late_sys\<lparr>sy_gc := Gc_start hi_key sample_uuid\<rparr>)))"
    "?step (collect_once late_api (collect_once late_api (late_sys\<lparr>sy_gc := Gc_start hi_key sample_uuid\<rparr>))) late_quarantine"
    "?step late_stored (collect_once late_api late_stored)" "?step (collect_once late_api late_stored) late_removed"
    by (intro conjI late_orderly; simp only: late_quarantine_def late_removed_def collect_once_step)+
  ultimately have "?step\<^sup>*\<^sup>* late_sys late_recorded" by (iprover intro: converse_rtranclp_into_rtranclp rtranclp.rtrancl_refl)
  from overlap_keeps_data [OF _ _ start this, unfolded late_api_simps, OF mem_env_ok toy_sha_len, unfolded late_recorded_gc]
  obtain T where "no_tx mem_db (ms_db (sy_ms late_recorded)) T"
    "\<And>h. h \<in> o_cas ` set (t_objects T) \<Longrightarrow> (\<exists>c. blob toy_store (sy_fs late_recorded) h = Some c \<and> Crypto_SHA256 (se_sha toy_env) c = h) \<or> sy_errs late_recorded \<noteq> []"
    by (elim exE conjE, intro that) (assumption, drule bspec, erule UnI1, auto)
  then show ?thesis using late_recorded_gc by blast
qed

end
