(* ===== verification/Lifetimes.thy ===== *)
theory Lifetimes
  imports Http_Connection Data_Store
begin

text \<open>
  Objects that own descriptors and files, from construction to destruction: the event loop with its notifier
  (\<^verbatim>\<open>net/epoll/event_loop.cpp\<close>, \<^verbatim>\<open>net/epoll/notifier.cpp\<close>), connections (\<^verbatim>\<open>net/http/http_connection.cpp\<close>), digest contexts
  (\<^verbatim>\<open>util/crypto.cpp\<close>) and write sessions (\<^verbatim>\<open>storage/data_store.cpp\<close>). The open descriptors of the process and the
  thread-local pointer to the loop of a thread are explicit; a moved-from object is a value of its own.

  A loop that was constructed gives back what it took. A constructor that fails half way does not: the pointer of the
  thread stays set and the descriptor of epoll stays open.
\<close>

section \<open>Event loops\<close>

text \<open>What a loop takes from its process and its thread: the open descriptors and \<open>t_loop_in_this_thread\<close>.\<close>

record Held =
  hd_open :: "nat set"
  hd_loop :: bool

definition EventLoop_GetEventLoopOfCurrentThread :: "Held \<Rightarrow> bool" where
  "EventLoop_GetEventLoopOfCurrentThread h = hd_loop h"

definition Notifier_CreateEventFd :: "Held \<Rightarrow> nat option \<Rightarrow> Held \<times> (string + nat)" where
  "Notifier_CreateEventFd h event_fd =
     (case event_fd of
        None \<Rightarrow> (h, Inl ''Failed to create eventfd'')
      | Some fd \<Rightarrow> (h\<lparr>hd_open := insert fd (hd_open h)\<rparr>, Inr fd))"

definition Notifier_destroy :: "'f EventLoop \<Rightarrow> Channel \<Rightarrow> Held \<Rightarrow> 'f EventLoop \<times> Held" where
  "Notifier_destroy l channel h =
     (let (l, channel) = Channel_DisableAll l channel; (l, channel) = Channel_Remove l channel
      in (l, h\<lparr>hd_open := hd_open h - {ch_fd channel}\<rparr>))"

text \<open>The constructor with its side effects. When it throws, the members that exist are destroyed, which closes the eventfd,
  and the destructor of the loop does not run.\<close>

definition EventLoop_construct ::
    "Held \<Rightarrow> nat \<Rightarrow> nat option \<Rightarrow> nat option \<Rightarrow> nat option \<Rightarrow> Held \<times> (string + 'f EventLoop \<times> Channel \<times> Channel)" where
  "EventLoop_construct h thread_id epoll_fd event_fd timer_fd =
     (let result = EventLoop_new (hd_loop h) thread_id epoll_fd event_fd timer_fd
      in if hd_loop h then (h, result)
         else let h = h\<lparr>hd_loop := True\<rparr>
              in case epoll_fd of None \<Rightarrow> (h, result) | Some efd \<Rightarrow>
                   let h = h\<lparr>hd_open := insert efd (hd_open h)\<rparr>
                   in case Notifier_CreateEventFd h event_fd of
                        (h, Inl _) \<Rightarrow> (h, result)
                      | (h, Inr nfd) \<Rightarrow>
                          (case timer_fd of
                             None \<Rightarrow> (h\<lparr>hd_open := hd_open h - {nfd}\<rparr>, result)
                           | Some tfd \<Rightarrow> (h\<lparr>hd_open := insert tfd (hd_open h)\<rparr>, result)))"

definition EventLoop_destroy :: "nat \<Rightarrow> 'f EventLoop \<Rightarrow> Channel \<Rightarrow> Channel \<Rightarrow> Held \<Rightarrow> 'f EventLoop \<times> Held" where
  "EventLoop_destroy epoll_fd l notifier timer_channel h =
     (let (l, timer_channel) = Channel_DisableAll l timer_channel;
          (l, timer_channel) = Channel_Remove l timer_channel;
          (l, h) = Notifier_destroy l notifier h
      in (l, h\<lparr>hd_open := hd_open h - {ch_fd timer_channel, epoll_fd}, hd_loop := False\<rparr>))"

text \<open>\<open>False\<close>: the process is aborted.\<close>

definition EventLoop_AssertInLoopThread :: "'f EventLoop \<Rightarrow> nat \<Rightarrow> bool" where
  "EventLoop_AssertInLoopThread l this_thread = EventLoop_IsInLoopThread l this_thread"

section \<open>Connections\<close>

text \<open>\<open>file_fd\<close>: the descriptor of the file that is being sent.\<close>

definition HttpConnection_destroy :: "HttpConnection \<Rightarrow> nat \<Rightarrow> Held \<Rightarrow> Held" where
  "HttpConnection_destroy c file_fd h =
     h\<lparr>hd_open := (if hc_file_fd c \<noteq> None then hd_open h - {file_fd} else hd_open h) - {hc_fd c}\<rparr>"

datatype SockOpt = SO_RCVBUF | SO_SNDBUF

text \<open>The options that are set, with their values.\<close>

definition HttpConnection_SetSocketBufferSizes :: "int \<Rightarrow> int \<Rightarrow> (SockOpt \<times> int) list" where
  "HttpConnection_SetSocketBufferSizes recv_bytes send_bytes =
     (if recv_bytes > 0 then [(SO_RCVBUF, recv_bytes)] else []) @ (if send_bytes > 0 then [(SO_SNDBUF, send_bytes)] else [])"

section \<open>Digests\<close>

text \<open>The results of the calls of OpenSSL are arguments; the second component says whether a context is still allocated
  afterwards.\<close>

definition Crypto_SHA256_bytes ::
    "(string \<Rightarrow> 8 word list) \<Rightarrow> bool \<Rightarrow> bool \<Rightarrow> bool \<Rightarrow> bool \<Rightarrow> string \<Rightarrow> (string + string) \<times> bool" where
  "Crypto_SHA256_bytes sha new_ok init_ok update_ok final_ok data =
     (if \<not> new_ok then (Inl ''Failed to create EVP_MD_CTX'', False)
      else if \<not> init_ok \<or> \<not> update_ok \<or> \<not> final_ok then (Inl ''SHA256 computation failed'', False)
      else (Inr (Crypto_ToHexString (sha data)), False))"

text \<open>The context pointer; \<open>None\<close> is null. Moving gives the new value and the moved-from one. The last component of an
  assignment says whether a context was freed.\<close>

type_synonym ContextPtr = "SHA256Context option"

definition SHA256Context_move :: "ContextPtr \<Rightarrow> ContextPtr \<times> ContextPtr" where
  "SHA256Context_move other = (other, None)"

definition SHA256Context_assign :: "ContextPtr \<Rightarrow> ContextPtr \<Rightarrow> ContextPtr \<times> ContextPtr \<times> bool" where
  "SHA256Context_assign this other = (other, None, this \<noteq> None)"

definition SHA256Context_destroy :: "ContextPtr \<Rightarrow> bool" where
  "SHA256Context_destroy this = (this \<noteq> None)"

section \<open>Write sessions\<close>

text \<open>The moved-from session keeps no descriptor and counts as finished, and its path is empty.\<close>

definition WriteSession_move :: "WriteSession \<Rightarrow> WriteSession \<times> WriteSession" where
  "WriteSession_move other = (other, other\<lparr>ws_tmp_path := [], ws_fd := False, ws_finished := True\<rparr>)"

definition WriteSession_assign :: "FileSys \<Rightarrow> WriteSession \<Rightarrow> WriteSession \<Rightarrow> FileSys \<times> WriteSession \<times> WriteSession" where
  "WriteSession_assign fs this other =
     (if \<not> ws_finished this \<and> ws_fd this then fst (WriteSession_Abort fs this) else fs, WriteSession_move other)"

definition DataStore_new :: "string \<Rightarrow> string \<Rightarrow> SyncMode \<Rightarrow> DataStore" where
  "DataStore_new data_dir tmp_dir sync_mode = \<lparr>ds_base_dir = data_dir, ds_tmp_dir = tmp_dir, ds_sync_mode = sync_mode\<rparr>"

section \<open>Lemmas\<close>

lemma construct_result: "snd (EventLoop_construct h t e n m) = EventLoop_new (hd_loop h) t e n m"
  by (simp add: EventLoop_construct_def Notifier_CreateEventFd_def Let_def split: option.split prod.split)

lemma channel_fd [simp]:
  "ch_fd (snd (Channel_DisableAll l c)) = ch_fd c" "ch_fd (snd (Channel_Remove l c)) = ch_fd c" "ch_fd (snd (Channel_EnableReading l c)) = ch_fd c"
  by (simp_all add: Channel_DisableAll_def Channel_Remove_def Channel_EnableReading_def Channel_Update_def EventLoop_UpdateChannel_def
      EventLoop_RemoveChannel_def Let_def split: prod.split)

lemma Notifier_destroy_alt: "snd (Notifier_destroy l c h) = h\<lparr>hd_open := hd_open h - {ch_fd c}\<rparr>"
proof -
  obtain l1 c1 where 1: "Channel_DisableAll l c = (l1, c1)" by (cases "Channel_DisableAll l c")
  obtain l2 c2 where 2: "Channel_Remove l1 c1 = (l2, c2)" by (cases "Channel_Remove l1 c1")
  have "ch_fd c2 = ch_fd c" using channel_fd(1) [of l c] channel_fd(2) [of l1 c1] 1 2 by simp
  then show ?thesis by (simp add: Notifier_destroy_def 1 2)
qed

lemma EventLoop_destroy_alt:
  "snd (EventLoop_destroy e l n t h) = h\<lparr>hd_open := hd_open h - {ch_fd n} - {ch_fd t, e}, hd_loop := False\<rparr>"
proof -
  obtain l1 t1 where 1: "Channel_DisableAll l t = (l1, t1)" by (cases "Channel_DisableAll l t")
  obtain l2 t2 where 2: "Channel_Remove l1 t1 = (l2, t2)" by (cases "Channel_Remove l1 t1")
  obtain l3 h3 where 3: "Notifier_destroy l2 n h = (l3, h3)" by (cases "Notifier_destroy l2 n h")
  have "ch_fd t2 = ch_fd t" using channel_fd(1) [of l t] channel_fd(2) [of l1 t1] 1 2 by simp
  moreover have "h3 = h\<lparr>hd_open := hd_open h - {ch_fd n}\<rparr>" using Notifier_destroy_alt [of l2 n h] 3 by simp
  ultimately show ?thesis by (simp add: EventLoop_destroy_def 1 2 3)
qed

lemma new_fds:
  assumes "EventLoop_new False t (Some e) (Some n) (Some m) = Inr (l :: 'f EventLoop, notifier, timer)"
  shows "ch_fd notifier = n" "ch_fd timer = m"
proof -
  let ?l = "\<lparr>el_looping = False, el_quit = False, el_calling_pending_functors = False, el_thread_id = t,
    el_eventfd = 0, el_timer_wheel = TimerWheel_new 3600, el_epoll = Map.empty, el_ctl_fails = [],
    el_events_size = kInitEventListSize, el_channels = Map.empty, el_pending_functors = []\<rparr> :: 'f EventLoop"
  obtain l1 c1 where 1: "Notifier_new ?l 0 n = (l1, c1)" by (cases "Notifier_new ?l 0 n")
  obtain l2 c2 where 2: "Channel_EnableReading l1 (Channel_new 1 m) = (l2, c2)" by (cases "Channel_EnableReading l1 (Channel_new 1 m)")
  have "notifier = c1" "timer = c2" using assms by (simp_all add: EventLoop_new_def 1 2 [simplified])
  moreover have "ch_fd c1 = n" using arg_cong [OF 1, of "\<lambda>x. ch_fd (snd x)"] by (simp add: Notifier_new_def Channel_new_def)
  moreover have "ch_fd c2 = m" using arg_cong [OF 2, of "\<lambda>x. ch_fd (snd x)"] by (simp add: Channel_new_def)
  ultimately show "ch_fd notifier = n" "ch_fd timer = m" by simp_all
qed

text \<open>A loop gives back its descriptors and frees its thread for another loop.\<close>

lemma loop_lifetime:
  assumes c: "EventLoop_construct h t (Some e) (Some n) (Some m) = (h1, Inr (l, notifier, timer))"
    and new: "e \<notin> hd_open h" "n \<notin> hd_open h" "m \<notin> hd_open h" and free: "\<not> hd_loop h"
    and d: "EventLoop_destroy e l notifier timer h1 = (l2, h2)"
  shows "h2 = h"
proof -
  have r: "EventLoop_new False t (Some e) (Some n) (Some m) = Inr (l, notifier, timer)"
    using arg_cong [OF c, of snd] free by (simp add: construct_result)
  have h1: "h1 = h\<lparr>hd_loop := True, hd_open := insert m (insert n (insert e (hd_open h)))\<rparr>"
    using c free by (simp add: EventLoop_construct_def Notifier_CreateEventFd_def Let_def)
  have "h2 = h1\<lparr>hd_open := hd_open h1 - {ch_fd notifier} - {ch_fd timer, e}, hd_loop := False\<rparr>"
    using arg_cong [OF d, of snd] by (simp add: EventLoop_destroy_alt)
  then have "h2 = h1\<lparr>hd_open := hd_open h1 - {n} - {m, e}, hd_loop := False\<rparr>" using new_fds [OF r] by simp
  also have "\<dots> = h" using h1 new free by (cases h) auto
  finally show ?thesis .
qed

text \<open>When the timer cannot be created the descriptor of epoll stays open, and the thread can have no loop ever after.\<close>

lemma failed_loop_leaks:
  assumes c: "EventLoop_construct h t (Some e) (Some n) None = (h1, r)" and free: "\<not> hd_loop h" "n \<notin> hd_open h" "e \<noteq> n"
  shows "r = Inl ''Failed to create timerfd'' \<and> hd_open h1 = insert e (hd_open h) \<and>
    snd (EventLoop_construct h1 t e' n' m') = Inl ''Another EventLoop exists in this thread''"
proof -
  have "h1 = h\<lparr>hd_loop := True, hd_open := insert n (insert e (hd_open h)) - {n}\<rparr>"
    using c free by (auto simp: EventLoop_construct_def Notifier_CreateEventFd_def Let_def)
  moreover have "r = Inl ''Failed to create timerfd''"
    using arg_cong [OF c, of snd] free by (simp add: construct_result) (simp add: EventLoop_new_def Let_def split: prod.splits)
  ultimately show ?thesis using free by (auto simp: construct_result EventLoop_new_def Let_def)
qed

text \<open>Destroying both sides of a moved session removes its file once.\<close>

lemma moved_session:
  assumes "WriteSession_move s = (s', s'')" "\<not> ws_finished s"
  shows "WriteSession_destroy (WriteSession_destroy fs s'') s' = WriteSession_destroy fs s"
  using assms by (auto simp: WriteSession_move_def WriteSession_destroy_def)

lemma sync_mode_roundtrip: "DataStore_ParseSyncMode (DataStore_SyncModeToString m) = m"
  by (cases m) (simp_all add: DataStore_ParseSyncMode_def)

lemma sha256_bytes: "Crypto_SHA256_bytes sha True True True True d = (Inr (Crypto_SHA256 sha d), False)"
  by (simp add: Crypto_SHA256_bytes_def Crypto_SHA256_def)

end
